(* ===== verification/Prelude.thy ===== *)
theory Prelude
  imports
    Complex_Main
    "HOL-Library.AList"
    "HOL-Library.Char_ord"
    "HOL-Library.List_Lexorder"
    "HOL-Library.Product_Lexorder"
begin

text \<open>
  What the components share: Python values (JSON data, dictionaries, strings, exceptions),
  the SQL statements the stores are written with (guarded update, ordered and limited
  select), and the lemma collections the component proofs use.

  A Python \<open>str\<close> is a list of characters below code point 256; a Python \<open>float\<close>
  holding a time stamp or a delay is a real number; a Python \<open>int\<close> is an \<open>int\<close>.
\<close>

named_theorems table_simps \<open>facts on guarded updates and selects of a table\<close>
named_theorems op_defs \<open>definitions of the store operations, to be unfolded together\<close>

section \<open>Values\<close>

type_synonym time = real

datatype py_error =
    ValueError string
  | TypeError string
  | RuntimeError string
  | KeyError string
  | IntegrityError
  | OperationalError string
  | TimeoutError string
  | AssertionError

type_synonym 'a res = "py_error + 'a"

text \<open>JSON data as Python sees it after \<open>json.loads\<close>; an object is a dictionary, kept as
  an association list with distinct keys.\<close>

datatype json =
    JNull
  | JBool bool
  | JInt int
  | JFloat real
  | JStr string
  | JList "json list"
  | JObj "(string \<times> json) list"

type_synonym dict = "(string \<times> json) list"

text \<open>Well-formed data: the keys of every dictionary are distinct.\<close>

fun wf_json :: "json \<Rightarrow> bool"
  and wf_json_list :: "json list \<Rightarrow> bool"
  and wf_json_items :: "(string \<times> json) list \<Rightarrow> bool" where
  "wf_json (JList vs) = wf_json_list vs"
| "wf_json (JObj kvs) = (distinct (map fst kvs) \<and> wf_json_items kvs)"
| "wf_json _ = True"
| "wf_json_list [] = True"
| "wf_json_list (v # vs) = (wf_json v \<and> wf_json_list vs)"
| "wf_json_items [] = True"
| "wf_json_items ((k, v) # kvs) = (wf_json v \<and> wf_json_items kvs)"

text \<open>The numeric reading of a value: \<open>True\<close> is 1 and \<open>False\<close> is 0, as in Python.\<close>

fun py_num :: "json \<Rightarrow> real option" where
  "py_num (JBool b) = Some (if b then 1 else 0)"
| "py_num (JInt i) = Some (of_int i)"
| "py_num (JFloat r) = Some r"
| "py_num _ = None"

text \<open>Python's \<open>==\<close> on this data: numbers across their types, lists element by element,
  dictionaries by key whatever their insertion order.\<close>

fun py_eq :: "json \<Rightarrow> json \<Rightarrow> bool"
  and py_eq_list :: "json list \<Rightarrow> json list \<Rightarrow> bool"
  and py_eq_items :: "(string \<times> json) list \<Rightarrow> (string \<times> json) list \<Rightarrow> bool" where
  "py_eq JNull w = (w = JNull)"
| "py_eq (JStr s) w = (w = JStr s)"
| "py_eq (JList vs) w = (case w of JList ws \<Rightarrow> py_eq_list vs ws | _ \<Rightarrow> False)"
| "py_eq (JObj kvs) w =
     (case w of JObj lws \<Rightarrow> length kvs = length lws \<and> py_eq_items kvs lws | _ \<Rightarrow> False)"
| "py_eq v w = (case py_num w of Some n \<Rightarrow> py_num v = Some n | None \<Rightarrow> False)"
| "py_eq_list [] ws = (ws = [])"
| "py_eq_list (v # vs) ws = (case ws of [] \<Rightarrow> False | w # ws' \<Rightarrow> py_eq v w \<and> py_eq_list vs ws')"
| "py_eq_items [] lws = True"
| "py_eq_items ((k, v) # kvs) lws =
     (case map_of lws k of None \<Rightarrow> False | Some w \<Rightarrow> py_eq v w \<and> py_eq_items kvs lws)"

text \<open>What \<open>json.loads(json.dumps(v, sort_keys=True))\<close> returns: the same data with every
  dictionary in key order.\<close>

fun json_sort :: "json \<Rightarrow> json"
  and json_sort_list :: "json list \<Rightarrow> json list"
  and json_sort_items :: "(string \<times> json) list \<Rightarrow> (string \<times> json) list" where
  "json_sort (JList vs) = JList (json_sort_list vs)"
| "json_sort (JObj kvs) = JObj (sort_key fst (json_sort_items kvs))"
| "json_sort v = v"
| "json_sort_list [] = []"
| "json_sort_list (v # vs) = json_sort v # json_sort_list vs"
| "json_sort_items [] = []"
| "json_sort_items ((k, v) # kvs) = (k, json_sort v) # json_sort_items kvs"

definition dict_sort :: "dict \<Rightarrow> dict" where
  "dict_sort d = sort_key fst (json_sort_items d)"

text \<open>Dictionaries: \<open>d.get(k)\<close>, \<open>d[k] = v\<close> and \<open>d.pop(k, None)\<close>.\<close>

definition dict_get :: "dict \<Rightarrow> string \<Rightarrow> json option" where
  "dict_get d k = map_of d k"

definition dict_set :: "string \<Rightarrow> json \<Rightarrow> dict \<Rightarrow> dict" where
  "dict_set k v d = AList.update k v d"

definition dict_pop :: "string \<Rightarrow> dict \<Rightarrow> dict" where
  "dict_pop k d = filter (\<lambda>kv. fst kv \<noteq> k) d"

definition dict_eq :: "dict \<Rightarrow> dict \<Rightarrow> bool" where
  "dict_eq d e = py_eq (JObj d) (JObj e)"

text \<open>\<open>d.get(k) == v\<close>, where a missing key reads as \<open>None\<close>.\<close>

definition dict_field_eq :: "dict \<Rightarrow> string \<Rightarrow> json \<Rightarrow> bool" where
  "dict_field_eq d k v = py_eq (case dict_get d k of None \<Rightarrow> JNull | Some w \<Rightarrow> w) v"

text \<open>\<open>bool(d.get(k))\<close>.\<close>

fun py_bool :: "json option \<Rightarrow> bool" where
  "py_bool None = False"
| "py_bool (Some JNull) = False"
| "py_bool (Some (JBool b)) = b"
| "py_bool (Some (JInt i)) = (i \<noteq> 0)"
| "py_bool (Some (JFloat r)) = (r \<noteq> 0)"
| "py_bool (Some (JStr s)) = (s \<noteq> [])"
| "py_bool (Some (JList vs)) = (vs \<noteq> [])"
| "py_bool (Some (JObj kvs)) = (kvs \<noteq> [])"

section \<open>Strings\<close>

text \<open>The characters \<open>str.isspace\<close> accepts, and \<open>str.strip\<close>.\<close>

definition py_isspace :: "char \<Rightarrow> bool" where
  "py_isspace c = ((of_char c :: nat) \<in> {9, 10, 11, 12, 13, 28, 29, 30, 31, 32, 133, 160})"

definition py_strip :: "string \<Rightarrow> string" where
  "py_strip s = rev (dropWhile py_isspace (rev (dropWhile py_isspace s)))"

text \<open>The test \<open>not s or not s.strip()\<close> that the stores put on required text.\<close>

definition blank :: "string \<Rightarrow> bool" where
  "blank s = (s = [] \<or> py_strip s = [])"

text \<open>\<open>str(n)\<close> for an integer.\<close>

fun nat_digits :: "nat \<Rightarrow> string" where
  "nat_digits n = (if n < 10 then [char_of (48 + n)]
                   else nat_digits (n div 10) @ [char_of (48 + n mod 10)])"

declare nat_digits.simps [simp del]

definition py_str_int :: "int \<Rightarrow> string" where
  "py_str_int i = (if i < 0 then ''-'' @ nat_digits (nat (- i)) else nat_digits (nat i))"

definition str_prefix :: "string \<Rightarrow> string \<Rightarrow> bool" where
  "str_prefix p s = (take (length p) s = p)"

section \<open>SQL statements\<close>

text \<open>
  A table is the list of its rows in insertion order. \<open>UPDATE ... WHERE p\<close> is
  \<open>update_where\<close>, its \<open>cursor.rowcount\<close> is \<open>rowcount\<close>, \<open>SELECT ... WHERE p\<close> with
  \<open>fetchone\<close> is \<open>List.find\<close> and with \<open>fetchall\<close> is \<open>filter\<close>; \<open>ORDER BY\<close> is a stable
  sort, so rows that tie keep insertion order; a negative \<open>LIMIT\<close> is no limit, as in
  SQLite.
\<close>

definition update_where :: "('r \<Rightarrow> bool) \<Rightarrow> ('r \<Rightarrow> 'r) \<Rightarrow> 'r list \<Rightarrow> 'r list" where
  "update_where p f rows = map (\<lambda>r. if p r then f r else r) rows"

definition rowcount :: "('r \<Rightarrow> bool) \<Rightarrow> 'r list \<Rightarrow> nat" where
  "rowcount p rows = length (filter p rows)"

definition order_by :: "('r \<Rightarrow> 'k::linorder) \<Rightarrow> 'r list \<Rightarrow> 'r list" where
  "order_by k rows = sort_key k rows"

definition limit_rows :: "int \<Rightarrow> 'r list \<Rightarrow> 'r list" where
  "limit_rows n rows = (if n < 0 then rows else take (nat n) rows)"

text \<open>An optional argument that defaults to the clock: \<open>time.time() if x is None else x\<close>.\<close>

definition now_or :: "time option \<Rightarrow> time \<Rightarrow> time" where
  "now_or t clk = (case t of None \<Rightarrow> clk | Some s \<Rightarrow> s)"

text \<open>\<open>x or y\<close> on an optional string: the empty string is false.\<close>

definition str_or :: "string option \<Rightarrow> string \<Rightarrow> string" where
  "str_or s d = (case s of None \<Rightarrow> d | Some t \<Rightarrow> if t = [] then d else t)"

text \<open>\<open>list(dict.fromkeys(xs))\<close>: the first occurrence of each element, in order.\<close>

definition ordered_unique :: "'a list \<Rightarrow> 'a list" where
  "ordered_unique xs = rev (fold (\<lambda>x acc. if x \<in> set acc then acc else x # acc) xs [])"

text \<open>\<open>str.lower\<close> below code point 256, and \<open>sub in s\<close>.\<close>

definition char_lower :: "char \<Rightarrow> char" where
  "char_lower c = (let n = (of_char c :: nat) in
     if (65 \<le> n \<and> n \<le> 90) \<or> (192 \<le> n \<and> n \<le> 222 \<and> n \<noteq> 215) then char_of (n + 32) else c)"

definition py_lower :: "string \<Rightarrow> string" where
  "py_lower s = map char_lower s"

fun str_contains :: "string \<Rightarrow> string \<Rightarrow> bool" where
  "str_contains sub [] = (sub = [])"
| "str_contains sub (c # s) = (str_prefix sub (c # s) \<or> str_contains sub s)"

text \<open>The workspace argument of a query: every workspace (the sentinels \<open>_ANY_WORKSPACE\<close> and
  \<open>_ALL_WORKSPACES\<close>), or the rows whose \<open>workspace_id\<close> is the given one, \<open>None\<close> being NULL.\<close>

datatype ws_filter = AnyWs | WsIs "string option"

fun ws_match :: "ws_filter \<Rightarrow> string option \<Rightarrow> bool" where
  "ws_match AnyWs w = True"
| "ws_match (WsIs v) w = (w = v)"

text \<open>A result or its exception, threaded: the value-level \<open>bind\<close>.\<close>

fun bind_res :: "'a res \<Rightarrow> ('a \<Rightarrow> 'b res) \<Rightarrow> 'b res" where
  "bind_res (Inl e) f = Inl e"
| "bind_res (Inr x) f = f x"

section \<open>Lemmas\<close>

subsection \<open>Tables\<close>

lemma length_update_where [simp, table_simps]: "length (update_where p f rows) = length rows"
  by (simp add: update_where_def)

lemma update_where_Nil [simp]: "update_where p f [] = []"
  by (simp add: update_where_def)

lemma update_where_Cons [simp]:
  "update_where p f (r # rows) = (if p r then f r else r) # update_where p f rows"
  by (simp add: update_where_def)

lemma update_where_append [table_simps]:
  "update_where p f (rows @ rows') = update_where p f rows @ update_where p f rows'"
  by (simp add: update_where_def)

lemma update_where_none: "(\<And>r. r \<in> set rows \<Longrightarrow> \<not> p r) \<Longrightarrow> update_where p f rows = rows"
  by (induction rows) auto

lemma in_update_where:
  "r \<in> set (update_where p f rows) \<longleftrightarrow>
     (\<exists>r0 \<in> set rows. r = (if p r0 then f r0 else r0))"
  by (auto simp: update_where_def)

lemma map_update_where:
  "(\<And>r. p r \<Longrightarrow> g (f r) = g r) \<Longrightarrow> map g (update_where p f rows) = map g rows"
  by (induction rows) auto

lemma list_all_update_where:
  "list_all P rows \<Longrightarrow> (\<And>r. P r \<Longrightarrow> p r \<Longrightarrow> P (f r)) \<Longrightarrow> list_all P (update_where p f rows)"
  by (induction rows) auto

lemma filter_update_where:
  assumes "\<And>r. p r \<Longrightarrow> q (f r) = q r" and "\<And>r. p r \<Longrightarrow> \<not> q r"
  shows "filter q (update_where p f rows) = filter q rows"
  using assms by (induction rows) auto

lemma rowcount_Nil [simp]: "rowcount p [] = 0"
  by (simp add: rowcount_def)

lemma rowcount_Cons [simp]:
  "rowcount p (r # rows) = (if p r then Suc (rowcount p rows) else rowcount p rows)"
  by (simp add: rowcount_def)

lemma rowcount_0_iff [table_simps]: "rowcount p rows = 0 \<longleftrightarrow> (\<forall>r \<in> set rows. \<not> p r)"
  by (auto simp: rowcount_def filter_empty_conv)

text \<open>With a primary key, a statement guarded by a key touches one row at most.\<close>

lemma rowcount_key:
  assumes "distinct (map k rows)" and "r \<in> set rows" and "p r"
    and "\<And>s. p s \<Longrightarrow> k s = k r"
  shows "rowcount p rows = 1"
  using assms
proof (induction rows)
  case (Cons s rows)
  show ?case
  proof (cases "p s")
    case True
    then have ks: "k s = k r" by (rule Cons.prems(4))
    have "\<not> p t" if t: "t \<in> set rows" for t
    proof
      assume "p t"
      then have "k t = k s" using Cons.prems(4) [of t] by (simp only: ks)
      moreover have "k t \<in> k ` set rows" using t by (rule imageI)
      ultimately show False using Cons.prems(1) by simp
    qed
    then have "rowcount p rows = 0" by (simp add: rowcount_0_iff)
    with True show ?thesis by simp
  next
    case False
    then have mem: "r \<in> set rows" using Cons.prems(2,3) by auto
    have "distinct (map k rows)" using Cons.prems(1) by simp
    then have "rowcount p rows = 1" using mem Cons.prems(3,4) by (rule Cons.IH)
    with False show ?thesis by simp
  qed
qed simp

lemma find_SomeD: "List.find p rows = Some r \<Longrightarrow> r \<in> set rows \<and> p r"
  by (auto simp: find_Some_iff)

lemma find_NoneD: "List.find p rows = None \<Longrightarrow> r \<in> set rows \<Longrightarrow> \<not> p r"
  by (auto simp: find_None_iff)

lemma find_key:
  assumes "distinct (map k rows)" and "r \<in> set rows" and "p r" and "\<And>s. p s \<Longrightarrow> k s = k r"
  shows "List.find p rows = Some r"
  using assms
proof (induction rows)
  case (Cons s rows)
  show ?case
  proof (cases "s = r")
    case True
    with Cons.prems(3) show ?thesis by simp
  next
    case False
    with Cons.prems(2) have mem: "r \<in> set rows" by simp
    have "\<not> p s"
    proof
      assume "p s"
      then have "k s = k r" by (rule Cons.prems(4))
      moreover have "k r \<in> k ` set rows" using mem by (rule imageI)
      moreover have "k s \<notin> k ` set rows" using Cons.prems(1) by simp
      ultimately show False by (simp only: not_True_eq_False)
    qed
    have "distinct (map k rows)" using Cons.prems(1) by simp
    then have "List.find p rows = Some r" using mem Cons.prems(3,4) by (rule Cons.IH)
    with \<open>\<not> p s\<close> show ?thesis by simp
  qed
qed simp

lemma find_update_where_key:
  assumes "distinct (map k rows)" and "r \<in> set rows" and "p r"
    and "\<And>s. p s \<Longrightarrow> k s = k r" and "\<And>s. k (f s) = k s"
  shows "List.find (\<lambda>s. k s = k r) (update_where p f rows) = Some (f r)"
proof -
  have "map k (update_where p f rows) = map k rows"
    using assms(5) by (rule map_update_where)
  then have "distinct (map k (update_where p f rows))" using assms(1) by simp
  moreover have "f r \<in> set (update_where p f rows)"
    using assms(2,3) by (auto simp: in_update_where)
  ultimately show ?thesis
    using find_key [of k "update_where p f rows" "f r" "\<lambda>s. k s = k r"] assms(5) by simp
qed

lemma set_update_where_key:
  assumes "distinct (map k rows)" and "r \<in> set rows" and "p r"
    and "\<And>s. s \<in> set rows \<Longrightarrow> p s \<Longrightarrow> k s = k r"
  shows "set (update_where p f rows) = insert (f r) (set rows - {r})"
proof -
  have others: "(if p s then f s else s) = s" if "s \<in> set rows - {r}" for s
  proof -
    have "\<not> p s"
    proof
      assume "p s"
      with that have "k s = k r" using assms(4) by blast
      with that assms(1,2) show False by (auto simp: distinct_map dest: inj_onD)
    qed
    then show ?thesis by simp
  qed
  have "set (update_where p f rows) = (\<lambda>s. if p s then f s else s) ` insert r (set rows - {r})"
    using assms(2) by (simp add: update_where_def insert_absorb)
  also have "\<dots> = insert (f r) ((\<lambda>s. if p s then f s else s) ` (set rows - {r}))"
    using assms(3) by (simp only: image_insert if_True)
  also have "(\<lambda>s. if p s then f s else s) ` (set rows - {r}) = (\<lambda>s. s) ` (set rows - {r})"
    using others by (intro image_cong) simp_all
  finally show ?thesis by simp
qed

lemma set_order_by [simp, table_simps]: "set (order_by k rows) = set rows"
  by (simp add: order_by_def)

lemma order_by_Nil_iff [simp]: "order_by k rows = [] \<longleftrightarrow> rows = []"
  by (metis set_empty set_order_by)

lemma sorted_order_by: "sorted (map k (order_by k rows))"
  by (simp add: order_by_def)

lemma order_by_hd_least: "order_by k rows = r # rs \<Longrightarrow> s \<in> set rows \<Longrightarrow> k r \<le> k s"
  using sorted_order_by [of k rows] set_order_by [of k rows] by auto

lemma set_limit_rows: "set (limit_rows n rows) \<subseteq> set rows"
  by (auto simp: limit_rows_def dest: in_set_takeD)

lemma length_limit_rows: "0 \<le> n \<Longrightarrow> length (limit_rows n rows) \<le> nat n"
  by (simp add: limit_rows_def)

text \<open>A batch statement selects the keys of the first rows in order and then updates the rows
  with these keys: it updates the selected rows, and reading them back in the same order gives
  them in the order selected.\<close>

lemma distinct_order_by [simp]: "distinct (order_by k rows) = distinct rows"
  by (simp add: order_by_def)

lemma filter_order_by: "filter p (order_by k rows) = order_by k (filter p rows)"
  by (simp add: order_by_def filter_sort)

lemma order_by_cong_map:
  assumes "\<And>r. k (f r) = k r"
  shows "order_by k (map f rows) = map f (order_by k rows)"
proof -
  have "insort_key k (f r) (map f xs) = map f (insort_key k r xs)" for r xs
    using assms by (induction xs) simp_all
  then show ?thesis unfolding order_by_def by (induction rows) simp_all
qed

lemma filter_in_take: "distinct xs \<Longrightarrow> filter (\<lambda>x. x \<in> set (take n xs)) xs = take n xs"
proof (induction xs arbitrary: n)
  case (Cons x xs)
  show ?case
  proof (cases n)
    case (Suc m)
    have "filter (\<lambda>y. y = x \<or> y \<in> set (take m xs)) xs = filter (\<lambda>y. y \<in> set (take m xs)) xs"
      using Cons.prems by (intro filter_cong) auto
    with Suc Cons show ?thesis by simp
  qed simp
qed simp

lemma batch_select:
  assumes dist: "distinct (map key rows)" and sel: "sel = take n (order_by k (filter p rows))"
    and keys: "\<And>r. key (f r) = key r" and ord: "\<And>r. k (f r) = k r"
  shows "update_where (\<lambda>r. key r \<in> key ` set sel) f rows = map (\<lambda>r. if r \<in> set sel then f r else r) rows"
    and "order_by k (filter (\<lambda>r. key r \<in> key ` set sel)
          (update_where (\<lambda>r. key r \<in> key ` set sel) f rows)) = map f sel"
proof -
  let ?q = "\<lambda>r. key r \<in> key ` set sel"
  have sub: "set sel \<subseteq> set rows" unfolding sel by (auto dest: in_set_takeD)
  have key: "?q r \<longleftrightarrow> r \<in> set sel" if "r \<in> set rows" for r
    using dist sub that inj_on_image_mem_iff [of key "set rows" r "set sel"] by (simp add: distinct_map)
  show "update_where ?q f rows = map (\<lambda>r. if r \<in> set sel then f r else r) rows"
    unfolding update_where_def by (rule map_cong [OF refl]) (simp add: key)
  have "filter ?q (update_where ?q f rows) = map f (filter ?q rows)"
    by (induction rows) (simp_all add: keys)
  moreover have "filter ?q rows = filter (\<lambda>r. r \<in> set sel) (filter p rows)"
    unfolding filter_filter
  proof (rule filter_cong [OF refl])
    fix r assume "r \<in> set rows"
    then show "?q r = (p r \<and> r \<in> set sel)"
      using key sel by (auto dest: in_set_takeD)
  qed
  moreover have "filter (\<lambda>r. r \<in> set sel) (order_by k (filter p rows)) = sel"
    using dist unfolding sel by (intro filter_in_take) (simp add: distinct_map)
  ultimately show "order_by k (filter ?q (update_where ?q f rows)) = map f sel"
    by (simp add: order_by_cong_map [where k = k and f = f, OF ord] filter_order_by [symmetric])
qed

lemma take_sorted_le:
  assumes "sorted (map k xs)" and "x \<in> set (take n xs)" and "y \<in> set xs - set (take n xs)"
  shows "k x \<le> k y"
proof -
  have "y \<in> set (drop n xs)"
    using assms(3) by (metis DiffD1 DiffD2 Un_iff append_take_drop_id set_append)
  moreover have "sorted (map k (take n xs @ drop n xs))" using assms(1) by simp
  ultimately show ?thesis using assms(2) unfolding map_append sorted_append by auto
qed

lemma rowcount_select:
  assumes "distinct rows" and "distinct sel" and "set sel \<subseteq> set rows"
    and "\<And>r. r \<in> set rows \<Longrightarrow> p r \<longleftrightarrow> r \<in> set sel"
  shows "rowcount p rows = length sel"
proof -
  have "rowcount p rows = card (set (filter p rows))"
    unfolding rowcount_def using assms(1) by (simp only: distinct_card distinct_filter)
  also have "set (filter p rows) = set sel" using assms(3,4) by auto
  finally show ?thesis using assms(2) by (simp add: distinct_card)
qed

subsection \<open>Strings\<close>

lemma py_strip_idem [simp]: "py_strip (py_strip s) = py_strip s"
proof -
  define t where "t = dropWhile py_isspace s"
  define u where "u = rev (dropWhile py_isspace (rev t))"
  have "dropWhile py_isspace u = u"
  proof (cases u)
    case (Cons c cs)
    have "t = rev (dropWhile py_isspace (rev t)) @ rev (takeWhile py_isspace (rev t))"
      by (metis rev_append rev_rev_ident takeWhile_dropWhile_id)
    then have "t = c # cs @ rev (takeWhile py_isspace (rev t))" using Cons unfolding u_def by simp
    then have "hd t = c" "t \<noteq> []" by (metis list.sel(1), metis list.distinct(1))
    then have "\<not> py_isspace c" unfolding t_def using hd_dropWhile by blast
    with Cons show ?thesis by simp
  qed simp
  moreover have "dropWhile py_isspace (rev u) = rev u"
    unfolding u_def rev_rev_ident by (rule dropWhile_idem)
  ultimately have "py_strip u = u" by (simp add: py_strip_def)
  then show ?thesis by (simp add: py_strip_def u_def t_def)
qed

subsection \<open>Dictionaries\<close>

lemma dict_get_set [simp]:
  "dict_get (dict_set k v d) k' = (if k' = k then Some v else dict_get d k')"
  by (auto simp: dict_get_def dict_set_def update_conv')

lemma dict_get_pop [simp]:
  "dict_get (dict_pop k d) k' = (if k' = k then None else dict_get d k')"
  by (induction d) (auto simp: dict_get_def dict_pop_def)

lemma json_sort_items_conv: "json_sort_items d = map (\<lambda>(k, v). (k, json_sort v)) d"
  by (induction d) auto

lemma keys_json_sort_items [simp]: "map fst (json_sort_items d) = map fst d"
  by (induction d) auto

lemma dict_get_sort:
  assumes "distinct (map fst d)"
  shows "dict_get (dict_sort d) k = map_option json_sort (dict_get d k)"
proof -
  let ?items = "json_sort_items d"
  have items: "distinct (map fst ?items)" using assms by (simp only: keys_json_sort_items)
  then have "distinct (map fst (sort_key fst ?items))"
    unfolding distinct_map by (simp only: distinct_sort set_sort)
  with items have "map_of (sort_key fst ?items) = map_of ?items"
    by (simp add: map_of_inject_set)
  then show ?thesis
    by (simp add: dict_get_def dict_sort_def json_sort_items_conv map_of_map)
qed

lemma sort_key_map_fst:
  assumes "\<And>x. fst (f x) = fst x"
  shows "sort_key fst (map f xs) = map f (sort_key fst xs)"
proof -
  have "insort_key fst (f x) (map f ys) = map f (insort_key fst x ys)" for x ys
    using assms by (induction ys) simp_all
  then show ?thesis by (induction xs) simp_all
qed

lemma json_sort_idem [simp]:
  "json_sort (json_sort v) = json_sort v"
  "json_sort_list (json_sort_list vs) = json_sort_list vs"
  "json_sort_items (json_sort_items kvs) = json_sort_items kvs"
proof (induction v and vs and kvs rule: json_sort_json_sort_list_json_sort_items.induct)
  case (2 kvs)
  have "json_sort_items (sort_key fst xs) = sort_key fst (json_sort_items xs)" for xs
    unfolding json_sort_items_conv by (rule sort_key_map_fst [symmetric]) (simp add: case_prod_beta)
  with 2 show ?case by (simp add: sort_key_id_if_sorted)
qed simp_all

lemma set_ordered_unique_aux:
  "set (fold (\<lambda>x acc. if x \<in> set acc then acc else x # acc) xs acc) = set xs \<union> set acc"
  by (induction xs arbitrary: acc) auto

lemma set_ordered_unique [simp]: "set (ordered_unique xs) = set xs"
  by (simp add: ordered_unique_def set_ordered_unique_aux)

lemma distinct_ordered_unique_aux:
  "distinct acc \<Longrightarrow> distinct (fold (\<lambda>x acc. if x \<in> set acc then acc else x # acc) xs acc)"
  by (induction xs arbitrary: acc) auto

lemma distinct_ordered_unique [simp]: "distinct (ordered_unique xs)"
  by (simp add: ordered_unique_def distinct_ordered_unique_aux)

end
