(* ===== verification/MaintenanceSchedule.thy ===== *)
theory MaintenanceSchedule
  imports Prelude
begin

text \<open>
  The names, priorities, intervals and classes of the background tasks:
  \<open>core/maintenance_schedule.py\<close>, \<open>core/task_handlers/constants.py\<close> and
  \<open>core/task_policy.py\<close>.
\<close>

section \<open>Task names\<close>

abbreviation "PROJECT_MANAGER_TASK_NAME \<equiv> ''project-manager''"
abbreviation "FACT_CHECKER_TASK_NAME \<equiv> ''fact-checker''"
abbreviation "GRAPH_LINKER_TASK_NAME \<equiv> ''graph-linker''"
abbreviation "CONFLICT_DETECTOR_TASK_NAME \<equiv> ''conflict-detector''"
abbreviation "DEFRAGMENTER_TASK_NAME \<equiv> ''defragmenter''"
abbreviation "DEDUPLICATOR_TASK_NAME \<equiv> ''deduplicator''"
abbreviation "TAXONOMIST_TASK_NAME \<equiv> ''taxonomist''"
abbreviation "SWEEPER_TASK_NAME \<equiv> ''sweeper''"
abbreviation "CURATOR_TASK_NAME \<equiv> ''memory-curator''"
abbreviation "SYSTEM1_INGEST_TASK_NAME \<equiv> ''ingest-system1''"
abbreviation "EMBEDDING_REPAIR_TASK_NAME \<equiv> ''embedding-repair''"
abbreviation "SUMMARIZE_MEMORY_TASK_NAME \<equiv> ''summarize-memory''"

definition MAINTENANCE_TASK_NAMES :: "string list" where
  "MAINTENANCE_TASK_NAMES =
     [PROJECT_MANAGER_TASK_NAME, FACT_CHECKER_TASK_NAME, GRAPH_LINKER_TASK_NAME,
      CONFLICT_DETECTOR_TASK_NAME, DEFRAGMENTER_TASK_NAME, DEDUPLICATOR_TASK_NAME,
      TAXONOMIST_TASK_NAME, SWEEPER_TASK_NAME, CURATOR_TASK_NAME]"

text \<open>Membership in \<open>BACKGROUND_CLEANUP_TASK_NAMES\<close>, the single cleanup lane.\<close>

definition is_cleanup :: "string \<Rightarrow> bool" where
  "is_cleanup name = (name \<in> set MAINTENANCE_TASK_NAMES)"

definition AUTONOMOUS_RECURRING_MAINTENANCE_TASK_NAMES :: "string list" where
  "AUTONOMOUS_RECURRING_MAINTENANCE_TASK_NAMES = [SWEEPER_TASK_NAME, CURATOR_TASK_NAME]"

section \<open>The family registry\<close>

record registry_entry =
  canonical_task_name :: string
  recurring_interval_seconds :: real
  autonomous_recurring :: bool
  default_task_class :: string
  default_priority :: int

definition MAINTENANCE_FAMILY_REGISTRY :: "(string \<times> registry_entry) list" where
  "MAINTENANCE_FAMILY_REGISTRY =
    [(CONFLICT_DETECTOR_TASK_NAME,
      \<lparr>canonical_task_name = CONFLICT_DETECTOR_TASK_NAME, recurring_interval_seconds = 21600,
       autonomous_recurring = True, default_task_class = ''deterministic'', default_priority = 60\<rparr>),
     (DEDUPLICATOR_TASK_NAME,
      \<lparr>canonical_task_name = DEDUPLICATOR_TASK_NAME, recurring_interval_seconds = 21600,
       autonomous_recurring = True, default_task_class = ''deterministic'', default_priority = 70\<rparr>),
     (TAXONOMIST_TASK_NAME,
      \<lparr>canonical_task_name = TAXONOMIST_TASK_NAME, recurring_interval_seconds = 7200,
       autonomous_recurring = True, default_task_class = ''cheap_json'', default_priority = 60\<rparr>)]"

definition RECURRING_TASK_INTERVAL_SECONDS :: "string \<Rightarrow> real option" where
  "RECURRING_TASK_INTERVAL_SECONDS = map_of
    [(PROJECT_MANAGER_TASK_NAME, 1800), (FACT_CHECKER_TASK_NAME, 1800),
     (GRAPH_LINKER_TASK_NAME, 3600),
     (CONFLICT_DETECTOR_TASK_NAME,
      recurring_interval_seconds (the (map_of MAINTENANCE_FAMILY_REGISTRY CONFLICT_DETECTOR_TASK_NAME))),
     (DEFRAGMENTER_TASK_NAME, 21600),
     (DEDUPLICATOR_TASK_NAME,
      recurring_interval_seconds (the (map_of MAINTENANCE_FAMILY_REGISTRY DEDUPLICATOR_TASK_NAME))),
     (TAXONOMIST_TASK_NAME,
      recurring_interval_seconds (the (map_of MAINTENANCE_FAMILY_REGISTRY TAXONOMIST_TASK_NAME))),
     (SWEEPER_TASK_NAME, 21600), (CURATOR_TASK_NAME, 1800)]"

definition AUTONOMOUS_RECURRING_TASK_INTERVAL_SECONDS :: "string \<Rightarrow> real option" where
  "AUTONOMOUS_RECURRING_TASK_INTERVAL_SECONDS name =
     (if name \<in> {SWEEPER_TASK_NAME, CURATOR_TASK_NAME}
      then RECURRING_TASK_INTERVAL_SECONDS name else None)"

section \<open>Priorities and bounds\<close>

abbreviation "SYSTEM1_INGEST_DEBOUNCE_SECONDS \<equiv> (3600 :: real)"
abbreviation "SYSTEM1_AUTO_INGEST_RATE_LIMIT_SECONDS \<equiv> (1800 :: real)"
abbreviation "AUTONOMOUS_MAINTENANCE_IDLE_THRESHOLD_SECONDS \<equiv> (3600 :: real)"
abbreviation "SYSTEM1_INGEST_THRESHOLD \<equiv> (40 :: int)"
abbreviation "SYSTEM1_INGEST_PRIORITY \<equiv> (10 :: int)"

definition TASK_PRIORITIES :: "(string \<times> int) list" where
  "TASK_PRIORITIES =
    [(SYSTEM1_INGEST_TASK_NAME, SYSTEM1_INGEST_PRIORITY), (EMBEDDING_REPAIR_TASK_NAME, 15),
     (SUMMARIZE_MEMORY_TASK_NAME, 20), (PROJECT_MANAGER_TASK_NAME, 40),
     (FACT_CHECKER_TASK_NAME, 45), (GRAPH_LINKER_TASK_NAME, 60),
     (CONFLICT_DETECTOR_TASK_NAME,
      default_priority (the (map_of MAINTENANCE_FAMILY_REGISTRY CONFLICT_DETECTOR_TASK_NAME))),
     (TAXONOMIST_TASK_NAME,
      default_priority (the (map_of MAINTENANCE_FAMILY_REGISTRY TAXONOMIST_TASK_NAME))),
     (DEFRAGMENTER_TASK_NAME, 70),
     (DEDUPLICATOR_TASK_NAME,
      default_priority (the (map_of MAINTENANCE_FAMILY_REGISTRY DEDUPLICATOR_TASK_NAME))),
     (SWEEPER_TASK_NAME, 90), (CURATOR_TASK_NAME, 95)]"

definition task_priority :: "string \<Rightarrow> int" where
  "task_priority name = (case map_of TASK_PRIORITIES name of Some p \<Rightarrow> p | None \<Rightarrow> 100)"

section \<open>Task classes\<close>

text \<open>The part of the configuration that routes tasks to providers.\<close>

record provider_routing =
  task_routes :: "(string \<times> string list) list"
  default_agentic_route :: "string list"
  default_json_route :: "string list"
  task_classes :: "(string \<times> string) list"

definition RUNTIME_PROVIDERLESS_TASK_NAMES :: "string list" where
  "RUNTIME_PROVIDERLESS_TASK_NAMES = [CONFLICT_DETECTOR_TASK_NAME, DEDUPLICATOR_TASK_NAME]"

definition DEFAULT_TASK_CLASS_BY_NAME :: "(string \<times> string) list" where
  "DEFAULT_TASK_CLASS_BY_NAME =
    [(SYSTEM1_INGEST_TASK_NAME, ''cheap_agentic''), (CURATOR_TASK_NAME, ''premium_agentic''),
     (GRAPH_LINKER_TASK_NAME, ''cheap_json''), (DEFRAGMENTER_TASK_NAME, ''cheap_json''),
     (FACT_CHECKER_TASK_NAME, ''deterministic''), (PROJECT_MANAGER_TASK_NAME, ''deterministic''),
     (SUMMARIZE_MEMORY_TASK_NAME, ''deterministic''), (SWEEPER_TASK_NAME, ''deterministic'')]
    @ map (\<lambda>name. (name, default_task_class (the (map_of MAINTENANCE_FAMILY_REGISTRY name))))
        [CONFLICT_DETECTOR_TASK_NAME, DEDUPLICATOR_TASK_NAME, TAXONOMIST_TASK_NAME]"

definition task_class_for_task :: "provider_routing option \<Rightarrow> string \<Rightarrow> string" where
  "task_class_for_task routing name =
     (if name \<in> set RUNTIME_PROVIDERLESS_TASK_NAMES then ''deterministic''
      else case routing of
        Some r \<Rightarrow> (case map_of (task_classes r) name of
                     Some c \<Rightarrow> c
                   | None \<Rightarrow> (case map_of DEFAULT_TASK_CLASS_BY_NAME name of
                               Some c \<Rightarrow> c | None \<Rightarrow> ''cheap_json''))
      | None \<Rightarrow> (case map_of DEFAULT_TASK_CLASS_BY_NAME name of
                   Some c \<Rightarrow> c | None \<Rightarrow> ''cheap_json''))"

definition is_deterministic_task :: "provider_routing option \<Rightarrow> string \<Rightarrow> bool" where
  "is_deterministic_task routing name = (task_class_for_task routing name = ''deterministic'')"

lemma not_cleanup_ingest [simp]: "\<not> is_cleanup SYSTEM1_INGEST_TASK_NAME"
  by (simp add: is_cleanup_def MAINTENANCE_TASK_NAMES_def)

lemma autonomous_is_cleanup:
  "name \<in> set AUTONOMOUS_RECURRING_MAINTENANCE_TASK_NAMES \<Longrightarrow> is_cleanup name"
  by (auto simp: AUTONOMOUS_RECURRING_MAINTENANCE_TASK_NAMES_def is_cleanup_def
      MAINTENANCE_TASK_NAMES_def)

end
