(* ===== verification/TaskResults.thy ===== *)
theory TaskResults
  imports Prelude
begin

text \<open>
  The result payload a task run is stored with: \<open>core/task_results.py\<close>. The display
  summary (\<open>build_task_run_result_summary\<close>) is not modelled.
\<close>

text \<open>
  What a caller may hand over as a run result. A text stands for what \<open>json.loads\<close> makes
  of it: \<open>None\<close> where it is blank or raises \<open>ValueError\<close>.
\<close>

datatype result_source =
    NoResult
  | ResultMapping dict
  | ResultText "json option"

fun decode_task_run_result_payload :: "result_source \<Rightarrow> dict" where
  "decode_task_run_result_payload NoResult = []"
| "decode_task_run_result_payload (ResultMapping d) = d"
| "decode_task_run_result_payload (ResultText None) = []"
| "decode_task_run_result_payload (ResultText (Some v)) = (case v of JObj d \<Rightarrow> d | _ \<Rightarrow> [])"

text \<open>\<open>int(s)\<close> on text: surrounding space, a sign, decimal digits with single underscores
  between them; \<open>None\<close> where it raises \<open>ValueError\<close>.\<close>

definition digit_value :: "char \<Rightarrow> nat option" where
  "digit_value c = (let n = (of_char c :: nat) in if 48 \<le> n \<and> n \<le> 57 then Some (n - 48) else None)"

fun parse_digits :: "nat \<Rightarrow> string \<Rightarrow> nat option" where
  "parse_digits acc [] = Some acc"
| "parse_digits acc (c # cs) =
     (case digit_value c of
        Some d \<Rightarrow> parse_digits (10 * acc + d) cs
      | None \<Rightarrow> (if c = CHR ''_'' then
                   (case cs of [] \<Rightarrow> None
                    | c' # cs' \<Rightarrow> (case digit_value c' of
                                    None \<Rightarrow> None
                                  | Some d \<Rightarrow> parse_digits (10 * acc + d) cs'))
                 else None))"

definition parse_nat :: "string \<Rightarrow> nat option" where
  "parse_nat s = (case s of [] \<Rightarrow> None
     | c # cs \<Rightarrow> (case digit_value c of None \<Rightarrow> None | Some d \<Rightarrow> parse_digits d cs))"

definition py_int_of_str :: "string \<Rightarrow> int option" where
  "py_int_of_str s = (case py_strip s of
       [] \<Rightarrow> None
     | c # cs \<Rightarrow> if c = CHR ''-'' then map_option (\<lambda>n. - int n) (parse_nat cs)
                else if c = CHR ''+'' then map_option int (parse_nat cs)
                else map_option int (parse_nat (c # cs)))"

text \<open>\<open>int(x)\<close> on a finite float truncates towards zero.\<close>

definition py_int_of_float :: "real \<Rightarrow> int" where
  "py_int_of_float r = (if 0 \<le> r then \<lfloor>r\<rfloor> else \<lceil>r\<rceil>)"

fun coerce_optional_int :: "json option \<Rightarrow> int option" where
  "coerce_optional_int None = None"
| "coerce_optional_int (Some (JBool b)) = Some (if b then 1 else 0)"
| "coerce_optional_int (Some (JInt i)) = Some i"
| "coerce_optional_int (Some (JFloat r)) = Some (py_int_of_float r)"
| "coerce_optional_int (Some (JStr s)) = py_int_of_str s"
| "coerce_optional_int (Some _) = None"

definition result_lines_compressed :: "dict \<Rightarrow> int option" where
  "result_lines_compressed payload = coerce_optional_int (dict_get payload ''lines_compressed'')"

end
