(* ===== verification/TaskQueue.thy ===== *)
theory TaskQueue
  imports MaintenanceSchedule TaskResults
begin

text \<open>
  The durable task queue: \<open>storage/sqlite_task_queue.py\<close> over the tables \<open>tasks\<close> and
  \<open>task_runs\<close>, with the records of \<open>core/ports/tasks.py\<close>. This theory holds the data and
  every operation; \<open>TaskQueueLaws\<close> holds what is proved of them.

  An operation takes the values it draws from its surroundings (\<open>time.time()\<close> as \<open>clk\<close>,
  \<open>uuid4()\<close> as \<open>uuid\<close> and \<open>rid\<close>) before its own arguments, and returns its result or
  exception with the state of the database after it.
\<close>

section \<open>Records and tables\<close>

datatype task_status = Pending | Running | Completed | Failed | Cancelled

fun status_name :: "task_status \<Rightarrow> string" where
  "status_name Pending = ''pending''"
| "status_name Running = ''running''"
| "status_name Completed = ''completed''"
| "status_name Failed = ''failed''"
| "status_name Cancelled = ''cancelled''"

record task =
  t_id :: string
  t_name :: string
  t_data :: dict
  t_workspace :: "string option"
  t_status :: task_status
  t_epoch :: int
  t_priority :: int
  t_retries :: int
  t_max_retries :: int
  t_created_at :: time
  t_updated_at :: time
  t_available_at :: time
  t_claimed_at :: "time option"
  t_started_at :: "time option"
  t_completed_at :: "time option"
  t_last_error :: "string option"
  t_pid :: "int option"
  t_request_id :: "string option"
  t_cancel_requested_at :: "time option"
  t_cancelled_at :: "time option"
  t_cancel_reason :: "string option"
  t_cancelled_by :: "string option"

datatype run_status = RunCompleted | RunFailed | RunCancelled | RunRetry

fun run_status_name :: "run_status \<Rightarrow> string" where
  "run_status_name RunCompleted = ''completed''"
| "run_status_name RunFailed = ''failed''"
| "run_status_name RunCancelled = ''cancelled''"
| "run_status_name RunRetry = ''retry''"

record task_run =
  r_id :: string
  r_task_id :: string
  r_task_name :: string
  r_workspace :: "string option"
  r_status :: run_status
  r_started_at :: time
  r_completed_at :: time
  r_duration :: time
  r_result :: dict
  r_error :: "string option"

record taskdb =
  tasks :: "task list"
  task_runs :: "task_run list"

type_synonym 'a task_op = "taskdb \<Rightarrow> 'a res \<times> taskdb"

definition empty_taskdb :: taskdb where
  "empty_taskdb = \<lparr>tasks = [], task_runs = []\<rparr>"

definition is_open :: "task \<Rightarrow> bool" where
  "is_open t = (t_status t \<in> {Pending, Running})"

section \<open>Single statements\<close>

definition get_task :: "string \<Rightarrow> taskdb \<Rightarrow> task res" where
  "get_task tid db = (case List.find (\<lambda>t. t_id t = tid) (tasks db) of
       None \<Rightarrow> Inl (ValueError (''Task '' @ tid @ '' was not found''))
     | Some t \<Rightarrow> Inr t)"

text \<open>The guard of every running-task statement: \<open>WHERE id = ? AND status = 'running'\<close>, and
  \<open>AND execution_epoch = ?\<close> when the caller gives its epoch.\<close>

definition running_guard :: "string \<Rightarrow> int option \<Rightarrow> task \<Rightarrow> bool" where
  "running_guard tid epoch t =
     (t_id t = tid \<and> t_status t = Running \<and> (case epoch of None \<Rightarrow> True | Some e \<Rightarrow> t_epoch t = e))"

definition get_running_task_row :: "string \<Rightarrow> int option \<Rightarrow> taskdb \<Rightarrow> task option" where
  "get_running_task_row tid epoch db = List.find (running_guard tid epoch) (tasks db)"

definition running_task_mismatch_error :: "string \<Rightarrow> int option \<Rightarrow> py_error" where
  "running_task_mismatch_error tid epoch = (case epoch of
       None \<Rightarrow> ValueError (''Task '' @ tid @ '' is not running'')
     | Some e \<Rightarrow> ValueError (''Task '' @ tid @ '' is not running for execution epoch '' @ py_str_int e))"

definition coalesce_float :: "time \<Rightarrow> time option list \<Rightarrow> time" where
  "coalesce_float clk vs = (case List.find (\<lambda>v. v \<noteq> None) vs of Some (Some t) \<Rightarrow> t | _ \<Rightarrow> clk)"

definition make_task_run ::
  "string \<Rightarrow> string \<Rightarrow> string \<Rightarrow> string option \<Rightarrow> run_status \<Rightarrow> time \<Rightarrow> time \<Rightarrow> dict \<Rightarrow> string option
   \<Rightarrow> task_run" where
  "make_task_run rid tid name ws st started completed result err =
     \<lparr>r_id = rid, r_task_id = tid, r_task_name = name, r_workspace = ws, r_status = st,
      r_started_at = started, r_completed_at = completed,
      r_duration = max (completed - started) 0, r_result = dict_sort result, r_error = err\<rparr>"

text \<open>
  The write half shared by the transitions out of \<open>running\<close>: the guarded \<open>UPDATE\<close>, the
  check of \<open>cursor.rowcount\<close> (a mismatch rolls back and raises), the insert into
  \<open>task_runs\<close>, the commit and the read back. It runs against whatever the database
  holds by then, which need not be what the read half saw.
\<close>

definition write_transition ::
  "string \<Rightarrow> int option \<Rightarrow> (task \<Rightarrow> task) \<Rightarrow> task_run list \<Rightarrow> task task_op" where
  "write_transition tid epoch f runs db =
     (if rowcount (running_guard tid epoch) (tasks db) \<noteq> 1
      then (Inl (running_task_mismatch_error tid epoch), db)
      else let db' = db\<lparr>tasks := update_where (running_guard tid epoch) f (tasks db),
                        task_runs := task_runs db @ runs\<rparr>
           in (get_task tid db', db'))"

section \<open>Submission\<close>

definition enqueue ::
  "string \<Rightarrow> time \<Rightarrow> string \<Rightarrow> dict \<Rightarrow> string option \<Rightarrow> int \<Rightarrow> int \<Rightarrow> time option \<Rightarrow> string option
   \<Rightarrow> task task_op" where
  "enqueue uuid clk name data ws prio maxr avail task_id db =
     (if blank name then (Inl (ValueError ''task_name is required''), db)
      else let tid = str_or task_id uuid in
        if tid \<in> t_id ` set (tasks db) then (Inl IntegrityError, db)
        else let row = \<lparr>t_id = tid, t_name = py_strip name, t_data = dict_sort data,
                        t_workspace = ws, t_status = Pending, t_epoch = 0, t_priority = prio,
                        t_retries = 0, t_max_retries = maxr, t_created_at = clk,
                        t_updated_at = clk, t_available_at = now_or avail clk,
                        t_claimed_at = None, t_started_at = None, t_completed_at = None,
                        t_last_error = None, t_pid = None, t_request_id = None,
                        t_cancel_requested_at = None, t_cancelled_at = None,
                        t_cancel_reason = None, t_cancelled_by = None\<rparr>;
                 db' = db\<lparr>tasks := tasks db @ [row]\<rparr>
             in (get_task tid db', db'))"

definition open_named :: "string \<Rightarrow> task \<Rightarrow> bool" where
  "open_named name t = (t_name t = name \<and> is_open t)"

definition list_open_tasks_any_workspace :: "string \<Rightarrow> taskdb \<Rightarrow> task list" where
  "list_open_tasks_any_workspace name db = order_by t_created_at (filter (open_named name) (tasks db))"

definition find_open_task_any_workspace :: "string \<Rightarrow> taskdb \<Rightarrow> task option" where
  "find_open_task_any_workspace name db =
     (case list_open_tasks_any_workspace name db of [] \<Rightarrow> None | t # _ \<Rightarrow> Some t)"

definition list_open_tasks :: "string \<Rightarrow> string option \<Rightarrow> taskdb \<Rightarrow> task list" where
  "list_open_tasks name ws db =
     order_by t_created_at (filter (\<lambda>t. open_named name t \<and> t_workspace t = ws) (tasks db))"

definition find_open_task :: "string \<Rightarrow> string option \<Rightarrow> taskdb \<Rightarrow> task option" where
  "find_open_task name ws db =
     (case list_open_tasks name ws db of [] \<Rightarrow> None | t # _ \<Rightarrow> Some t)"

definition matches_fields :: "dict \<Rightarrow> task \<Rightarrow> bool" where
  "matches_fields wanted t = list_all (\<lambda>(k, v). dict_field_eq (t_data t) k v) wanted"

definition find_open_task_with_data ::
  "string \<Rightarrow> string option \<Rightarrow> dict \<Rightarrow> taskdb \<Rightarrow> task option" where
  "find_open_task_with_data name ws wanted db =
     (if wanted = [] then find_open_task name ws db
      else List.find (matches_fields wanted) (list_open_tasks name ws db))"

definition find_open_task_with_data_any_workspace ::
  "string \<Rightarrow> dict \<Rightarrow> taskdb \<Rightarrow> task option" where
  "find_open_task_with_data_any_workspace name wanted db =
     (if wanted = [] then find_open_task_any_workspace name db
      else List.find (matches_fields wanted) (list_open_tasks_any_workspace name db))"

definition enqueue_unique ::
  "string \<Rightarrow> time \<Rightarrow> string \<Rightarrow> dict \<Rightarrow> string option \<Rightarrow> int \<Rightarrow> int \<Rightarrow> time option
   \<Rightarrow> (task \<times> bool) task_op" where
  "enqueue_unique uuid clk name data ws prio maxr avail db =
     (case find_open_task name ws db of
        Some t \<Rightarrow> (Inr (t, False), db)
      | None \<Rightarrow>
         (case enqueue uuid clk name data ws prio maxr avail None db of
            (Inl IntegrityError, db') \<Rightarrow>
              (case find_open_task name ws db' of
                 None \<Rightarrow> (Inl IntegrityError, db')
               | Some t \<Rightarrow> (Inr (t, False), db'))
          | (Inl e, db') \<Rightarrow> (Inl e, db')
          | (Inr t, db') \<Rightarrow> (Inr (t, True), db')))"

section \<open>Claiming\<close>

definition cleanup_running :: "taskdb \<Rightarrow> bool" where
  "cleanup_running db = list_ex (\<lambda>t. t_status t = Running \<and> is_cleanup (t_name t)) (tasks db)"

definition claimable :: "taskdb \<Rightarrow> time \<Rightarrow> ws_filter \<Rightarrow> task \<Rightarrow> bool" where
  "claimable db now ws t =
     (t_status t = Pending \<and> t_available_at t \<le> now \<and> ws_match ws (t_workspace t)
      \<and> (\<not> is_cleanup (t_name t) \<or> \<not> cleanup_running db))"

definition claim_update :: "time \<Rightarrow> task \<Rightarrow> task" where
  "claim_update now t = t\<lparr>t_status := Running, t_epoch := t_epoch t + 1, t_updated_at := now,
     t_claimed_at := Some now,
     t_started_at := (case t_started_at t of None \<Rightarrow> Some now | Some s \<Rightarrow> Some s),
     t_last_error := None\<rparr>"

definition claim_next :: "time \<Rightarrow> time option \<Rightarrow> ws_filter \<Rightarrow> taskdb \<Rightarrow> task option \<times> taskdb" where
  "claim_next clk now ws db =
     (let claimed_at = now_or now clk in
      case order_by (\<lambda>t. (t_priority t, t_created_at t)) (filter (claimable db claimed_at ws) (tasks db)) of
        [] \<Rightarrow> (None, db)
      | row # _ \<Rightarrow>
         (let guard = (\<lambda>t. t_id t = t_id row \<and> t_status t = Pending) in
          if rowcount guard (tasks db) \<noteq> 1 then (None, db)
          else let db' = db\<lparr>tasks := update_where guard (claim_update claimed_at) (tasks db)\<rparr>
               in (List.find (\<lambda>t. t_id t = t_id row) (tasks db'), db')))"

section \<open>Transitions out of running\<close>

definition complete_update :: "time \<Rightarrow> task \<Rightarrow> task" where
  "complete_update now t = t\<lparr>t_status := Completed, t_updated_at := now,
     t_completed_at := Some now, t_last_error := None, t_pid := None, t_request_id := None\<rparr>"

definition run_start :: "time \<Rightarrow> time \<Rightarrow> task \<Rightarrow> time" where
  "run_start clk now row = coalesce_float clk [t_claimed_at row, t_started_at row, Some now]"

definition complete_write ::
  "string \<Rightarrow> time \<Rightarrow> string \<Rightarrow> time \<Rightarrow> dict \<Rightarrow> int option \<Rightarrow> task \<Rightarrow> task task_op" where
  "complete_write rid clk tid now result epoch row =
     write_transition tid epoch (complete_update now)
       [make_task_run rid tid (t_name row) (t_workspace row) RunCompleted
          (run_start clk now row) now result None]"

definition complete ::
  "string \<Rightarrow> time \<Rightarrow> string \<Rightarrow> time option \<Rightarrow> result_source \<Rightarrow> int option \<Rightarrow> task task_op" where
  "complete rid clk tid completed_at run_result epoch db =
     (let now = now_or completed_at clk;
          result = decode_task_run_result_payload run_result
      in case get_running_task_row tid epoch db of
           None \<Rightarrow> (Inl (running_task_mismatch_error tid epoch), db)
         | Some row \<Rightarrow> complete_write rid clk tid now result epoch row db)"

definition fail_update :: "time \<Rightarrow> time \<Rightarrow> string \<Rightarrow> task \<Rightarrow> task \<Rightarrow> task" where
  "fail_update now delay err row t =
     (let next_retries = t_retries row + 1;
          terminal = (next_retries \<ge> t_max_retries row)
      in t\<lparr>t_status := (if terminal then Failed else Pending), t_retries := next_retries,
           t_updated_at := now, t_available_at := (if terminal then now else now + delay),
           t_claimed_at := None, t_completed_at := (if terminal then Some now else None),
           t_last_error := Some err, t_pid := None, t_request_id := None,
           t_cancel_requested_at := None, t_cancelled_at := None, t_cancel_reason := None,
           t_cancelled_by := None\<rparr>)"

definition fail_write ::
  "string \<Rightarrow> time \<Rightarrow> string \<Rightarrow> string \<Rightarrow> time \<Rightarrow> time \<Rightarrow> int option \<Rightarrow> task \<Rightarrow> task task_op" where
  "fail_write rid clk tid err delay now epoch row =
     write_transition tid epoch (fail_update now delay err row)
       [make_task_run rid tid (t_name row) (t_workspace row)
          (if t_retries row + 1 \<ge> t_max_retries row then RunFailed else RunRetry)
          (run_start clk now row) now [] (Some err)]"

definition fail ::
  "string \<Rightarrow> time \<Rightarrow> string \<Rightarrow> string \<Rightarrow> time \<Rightarrow> time option \<Rightarrow> int option \<Rightarrow> task task_op" where
  "fail rid clk tid err delay failed_at epoch db =
     (let now = now_or failed_at clk in
      case get_running_task_row tid epoch db of
        None \<Rightarrow> (Inl (running_task_mismatch_error tid epoch), db)
      | Some row \<Rightarrow> fail_write rid clk tid err delay now epoch row db)"

definition fail_permanently_update :: "time \<Rightarrow> string \<Rightarrow> task \<Rightarrow> task" where
  "fail_permanently_update now err t = t\<lparr>t_status := Failed, t_retries := t_max_retries t,
     t_updated_at := now, t_available_at := now, t_claimed_at := None,
     t_completed_at := Some now, t_last_error := Some err, t_pid := None, t_request_id := None\<rparr>"

definition fail_permanently ::
  "string \<Rightarrow> time \<Rightarrow> string \<Rightarrow> string \<Rightarrow> time option \<Rightarrow> int option \<Rightarrow> task task_op" where
  "fail_permanently rid clk tid err failed_at epoch db =
     (let now = now_or failed_at clk in
      case get_running_task_row tid epoch db of
        None \<Rightarrow> (Inl (running_task_mismatch_error tid epoch), db)
      | Some row \<Rightarrow> write_transition tid epoch (fail_permanently_update now err)
          [make_task_run rid tid (t_name row) (t_workspace row) RunFailed
             (run_start clk now row) now [] (Some err)] db)"

definition retry_update :: "time \<Rightarrow> string \<Rightarrow> task \<Rightarrow> task" where
  "retry_update now err t = t\<lparr>t_status := Pending, t_updated_at := now, t_available_at := now,
     t_claimed_at := None, t_completed_at := None, t_last_error := Some err, t_pid := None,
     t_request_id := None, t_cancel_requested_at := None, t_cancelled_at := None,
     t_cancel_reason := None, t_cancelled_by := None\<rparr>"

definition retry_running_task ::
  "string \<Rightarrow> time \<Rightarrow> string \<Rightarrow> string \<Rightarrow> time option \<Rightarrow> int option \<Rightarrow> task task_op" where
  "retry_running_task rid clk tid err available_at epoch db =
     (let now = now_or available_at clk in
      case get_running_task_row tid epoch db of
        None \<Rightarrow> (Inl (running_task_mismatch_error tid epoch), db)
      | Some row \<Rightarrow> write_transition tid epoch (retry_update now err)
          [make_task_run rid tid (t_name row) (t_workspace row) RunRetry
             (run_start clk now row) now [(''retry_reason'', JStr err)] (Some err)] db)"

section \<open>Process supervision\<close>

definition set_running_process ::
  "time \<Rightarrow> string \<Rightarrow> int option \<Rightarrow> string option \<Rightarrow> time option \<Rightarrow> int option \<Rightarrow> task task_op" where
  "set_running_process clk tid pid request_id updated_at epoch =
     write_transition tid epoch
       (\<lambda>t. t\<lparr>t_pid := pid, t_request_id := request_id, t_updated_at := now_or updated_at clk\<rparr>) []"

definition clear_running_process ::
  "time \<Rightarrow> string \<Rightarrow> time option \<Rightarrow> int option \<Rightarrow> task task_op" where
  "clear_running_process clk tid updated_at epoch =
     set_running_process clk tid None None updated_at epoch"

definition touch_running_task ::
  "time \<Rightarrow> string \<Rightarrow> time option \<Rightarrow> int option \<Rightarrow> task task_op" where
  "touch_running_task clk tid updated_at epoch =
     write_transition tid epoch (\<lambda>t. t\<lparr>t_updated_at := now_or updated_at clk\<rparr>) []"

section \<open>Cancellation\<close>

definition request_cancel ::
  "string \<Rightarrow> time \<Rightarrow> string \<Rightarrow> string \<Rightarrow> string \<Rightarrow> time option \<Rightarrow> task task_op" where
  "request_cancel rid clk tid cancelled_by reason requested_at db =
     (let now = now_or requested_at clk in
      case List.find (\<lambda>t. t_id t = tid) (tasks db) of
        None \<Rightarrow> (Inl (ValueError (''Task '' @ tid @ '' was not found'')), db)
      | Some row \<Rightarrow>
          if t_status row = Pending then
            (let guard = (\<lambda>t. t_id t = tid \<and> t_status t = Pending) in
             if rowcount guard (tasks db) \<noteq> 1
             then (Inl (ValueError (''Task '' @ tid @ '' could not be cancelled'')), db)
             else let f = (\<lambda>t. t\<lparr>t_status := Cancelled, t_updated_at := now,
                                t_completed_at := Some now, t_cancelled_at := Some now,
                                t_cancel_reason := Some reason, t_cancelled_by := Some cancelled_by,
                                t_last_error := Some reason, t_pid := None, t_request_id := None\<rparr>);
                      run = make_task_run rid tid (t_name row) (t_workspace row) RunCancelled
                              now now [] (Some reason);
                      db' = db\<lparr>tasks := update_where guard f (tasks db),
                               task_runs := task_runs db @ [run]\<rparr>
                  in (get_task tid db', db'))
          else if t_status row \<noteq> Running
          then (Inl (ValueError (''Task '' @ tid @ '' is not cancellable'')), db)
          else
            (let guard = (\<lambda>t. t_id t = tid \<and> t_status t = Running) in
             if rowcount guard (tasks db) \<noteq> 1
             then (Inl (ValueError (''Task '' @ tid @ '' could not be marked for cancellation'')), db)
             else let f = (\<lambda>t. t\<lparr>t_updated_at := now,
                                t_cancel_requested_at :=
                                  (case t_cancel_requested_at t of None \<Rightarrow> Some now | Some c \<Rightarrow> Some c),
                                t_cancel_reason := Some reason, t_cancelled_by := Some cancelled_by\<rparr>);
                      db' = db\<lparr>tasks := update_where guard f (tasks db)\<rparr>
                  in (get_task tid db', db')))"

definition is_cancellation_requested :: "string \<Rightarrow> taskdb \<Rightarrow> bool" where
  "is_cancellation_requested tid db =
     (case List.find (\<lambda>t. t_id t = tid) (tasks db) of
        None \<Rightarrow> False
      | Some row \<Rightarrow> t_cancel_requested_at row \<noteq> None)"

definition finalize_update :: "time \<Rightarrow> string \<Rightarrow> task \<Rightarrow> task" where
  "finalize_update now reason t = t\<lparr>t_status := Cancelled, t_updated_at := now,
     t_completed_at := Some now, t_cancelled_at := Some now, t_last_error := Some reason,
     t_pid := None, t_request_id := None\<rparr>"

definition opt_json_str :: "string option \<Rightarrow> json" where
  "opt_json_str s = (case s of None \<Rightarrow> JNull | Some t \<Rightarrow> JStr t)"

definition finalize_cancellation ::
  "string \<Rightarrow> time \<Rightarrow> string \<Rightarrow> time option \<Rightarrow> int option \<Rightarrow> task task_op" where
  "finalize_cancellation rid clk tid cancelled_at epoch db =
     (let now = now_or cancelled_at clk in
      case get_running_task_row tid epoch db of
        None \<Rightarrow> (Inl (running_task_mismatch_error tid epoch), db)
      | Some row \<Rightarrow>
          let reason = str_or (t_cancel_reason row) ''cancelled'' in
          write_transition tid epoch (finalize_update now reason)
            [make_task_run rid tid (t_name row) (t_workspace row) RunCancelled
               (run_start clk now row) now
               [(''cancelled_by'', opt_json_str (t_cancelled_by row)), (''reason'', JStr reason)]
               (Some reason)] db)"

section \<open>Reporting\<close>

definition list_tasks :: "string option \<Rightarrow> string option \<Rightarrow> int \<Rightarrow> taskdb \<Rightarrow> task list" where
  "list_tasks status ws limit db =
     limit_rows limit (order_by (\<lambda>t. (- t_updated_at t, - t_created_at t))
       (filter (\<lambda>t. (case status of None \<Rightarrow> True | Some s \<Rightarrow> status_name (t_status t) = s)
                  \<and> (case ws of None \<Rightarrow> True | Some w \<Rightarrow> t_workspace t = Some w)) (tasks db)))"

definition list_task_runs ::
  "string option \<Rightarrow> string option \<Rightarrow> string option \<Rightarrow> int \<Rightarrow> taskdb \<Rightarrow> task_run list" where
  "list_task_runs tid name ws limit db =
     limit_rows limit (order_by (\<lambda>r. (- r_completed_at r, - r_started_at r))
       (filter (\<lambda>r. (case tid of None \<Rightarrow> True | Some i \<Rightarrow> r_task_id r = i)
                  \<and> (case name of None \<Rightarrow> True | Some n \<Rightarrow> r_task_name r = n)
                  \<and> (case ws of None \<Rightarrow> True | Some w \<Rightarrow> r_workspace r = Some w)) (task_runs db)))"

definition count_by_status :: "taskdb \<Rightarrow> string \<Rightarrow> int option" where
  "count_by_status db s =
     (let n = length (filter (\<lambda>t. status_name (t_status t) = s) (tasks db))
      in if n = 0 then None else Some (int n))"

definition get_latest_successful_task_completion :: "string \<Rightarrow> taskdb \<Rightarrow> time option" where
  "get_latest_successful_task_completion name db =
     (case map r_completed_at
             (filter (\<lambda>r. r_task_name r = name \<and> r_status r = RunCompleted) (task_runs db)) of
        [] \<Rightarrow> None
      | t # ts \<Rightarrow> Some (fold max ts t))"

record task_run_summary =
  s_task_name :: string
  s_total_runs :: int
  s_completed_runs :: int
  s_failed_runs :: int
  s_cancelled_runs :: int
  s_retry_runs :: int
  s_last_status :: "string option"
  s_last_started_at :: "time option"
  s_last_completed_at :: "time option"
  s_last_error :: "string option"
  s_last_result :: dict
  s_avg_duration :: real
  s_total_lines_compressed :: int

definition empty_summary :: "string \<Rightarrow> task_run_summary" where
  "empty_summary name = \<lparr>s_task_name = name, s_total_runs = 0, s_completed_runs = 0,
     s_failed_runs = 0, s_cancelled_runs = 0, s_retry_runs = 0, s_last_status = None,
     s_last_started_at = None, s_last_completed_at = None, s_last_error = None,
     s_last_result = [], s_avg_duration = 0, s_total_lines_compressed = 0\<rparr>"

text \<open>One row of the loop of \<open>summarize_task_runs\<close>.\<close>

definition count_run :: "task_run \<Rightarrow> task_run_summary \<Rightarrow> task_run_summary" where
  "count_run r s =
     (let s1 = s\<lparr>s_total_runs := s_total_runs s + 1\<rparr>;
          s2 = (case r_status r of
                  RunCompleted \<Rightarrow> s1\<lparr>s_completed_runs := s_completed_runs s1 + 1\<rparr>
                | RunFailed \<Rightarrow> s1\<lparr>s_failed_runs := s_failed_runs s1 + 1\<rparr>
                | RunCancelled \<Rightarrow> s1\<lparr>s_cancelled_runs := s_cancelled_runs s1 + 1\<rparr>
                | RunRetry \<Rightarrow> s1\<lparr>s_retry_runs := s_retry_runs s1 + 1\<rparr>);
          lines = (case result_lines_compressed (r_result r) of None \<Rightarrow> 0 | Some n \<Rightarrow> n);
          s3 = s2\<lparr>s_total_lines_compressed := s_total_lines_compressed s2 + lines\<rparr>
      in if s_last_completed_at s3 = None
         then s3\<lparr>s_last_status := Some (run_status_name (r_status r)),
                 s_last_started_at := Some (r_started_at r),
                 s_last_completed_at := Some (r_completed_at r),
                 s_last_error := r_error r, s_last_result := r_result r\<rparr>
         else s3)"

definition summarize_one :: "string \<Rightarrow> task_run list \<Rightarrow> task_run_summary" where
  "summarize_one name rows =
     (let s = fold count_run rows (empty_summary name);
          total = sum_list (map r_duration rows)
      in if s_total_runs s > 0 then s\<lparr>s_avg_duration := total / of_int (s_total_runs s)\<rparr> else s)"

definition summarize_task_runs ::
  "string list \<Rightarrow> string option \<Rightarrow> taskdb \<Rightarrow> task_run_summary list" where
  "summarize_task_runs names ws db =
     (let rows = order_by (\<lambda>r. (- r_completed_at r, - r_started_at r))
                   (filter (\<lambda>r. r_task_name r \<in> set names
                              \<and> (case ws of None \<Rightarrow> True | Some w \<Rightarrow> r_workspace r = Some w))
                      (task_runs db))
      in map (\<lambda>name. summarize_one name (filter (\<lambda>r. r_task_name r = name) rows)) names)"

section \<open>Recovery of abandoned tasks\<close>

text \<open>What \<open>os.kill(pid, 0)\<close> does, and the test built on it.\<close>

datatype kill_outcome = KillOk | ProcessLookupError | PermissionError

definition is_process_alive :: "(int \<Rightarrow> kill_outcome) \<Rightarrow> int \<Rightarrow> bool" where
  "is_process_alive kill pid = (if pid \<le> 0 then False else kill pid \<noteq> ProcessLookupError)"

text \<open>\<open>x or y\<close> on a time stamp: \<open>None\<close> and 0.0 are false.\<close>

definition time_or :: "time option \<Rightarrow> time \<Rightarrow> time" where
  "time_or t d = (case t of None \<Rightarrow> d | Some x \<Rightarrow> if x = 0 then d else x)"

definition is_stale :: "time \<Rightarrow> time \<Rightarrow> task \<Rightarrow> bool" where
  "is_stale current stale_after t =
     (let recent = max (max (t_updated_at t) (time_or (t_started_at t) (t_updated_at t)))
                       (time_or (t_claimed_at t) (t_updated_at t))
      in max (current - recent) 0 \<ge> stale_after)"

text \<open>
  \<open>_retry_recovery_transition\<close>: attempt \<open>k\<close> runs \<open>callback k\<close>; a locked database is tried
  again, three attempts in all.
\<close>

abbreviation "RECOVERY_LOCK_RETRY_ATTEMPTS \<equiv> (3 :: nat)"

function retry_from :: "nat \<Rightarrow> (nat \<Rightarrow> 's \<Rightarrow> 'a res \<times> 's) \<Rightarrow> 's \<Rightarrow> 'a res \<times> 's" where
  "retry_from attempt callback s =
     (if attempt \<ge> RECOVERY_LOCK_RETRY_ATTEMPTS
      then (Inl (RuntimeError ''recovery transition retries exhausted''), s)
      else case callback attempt s of
          (Inl (OperationalError msg), s') \<Rightarrow>
            if \<not> str_contains ''database is locked'' (py_lower msg)
               \<or> attempt + 1 \<ge> RECOVERY_LOCK_RETRY_ATTEMPTS
            then (Inl (OperationalError msg), s')
            else retry_from (attempt + 1) callback s'
        | r \<Rightarrow> r)"
  by pat_completeness auto
termination
  by (relation "measure (\<lambda>(a, _, _). RECOVERY_LOCK_RETRY_ATTEMPTS - a)") auto

declare retry_from.simps [simp del]

definition retry_recovery_transition :: "(nat \<Rightarrow> 's \<Rightarrow> 'a res \<times> 's) \<Rightarrow> 's \<Rightarrow> 'a res \<times> 's" where
  "retry_recovery_transition callback s = retry_from 0 callback s"

text \<open>A store operation under contention: attempt \<open>k\<close> on task \<open>tid\<close> finds the database locked
  when \<open>locked tid k\<close>, and then has no effect.\<close>

definition under_lock :: "(nat \<Rightarrow> bool) \<Rightarrow> 'a task_op \<Rightarrow> nat \<Rightarrow> 'a task_op" where
  "under_lock locked f k db =
     (if locked k then (Inl (OperationalError ''database is locked''), db) else f db)"

text \<open>One iteration of the loop over the running tasks: which transition, if any, the task gets.\<close>

datatype recovery_action = Leave | FinalizeCancel | FailGone int | FailAbandoned

definition recovery_action :: "(int \<Rightarrow> kill_outcome) \<Rightarrow> time \<Rightarrow> time \<Rightarrow> task \<Rightarrow> recovery_action" where
  "recovery_action kill current stale_after t =
     (case t_pid t of
        Some pid \<Rightarrow>
          if is_process_alive kill pid then Leave
          else if \<not> is_stale current stale_after t then Leave
          else if t_cancel_requested_at t \<noteq> None then FinalizeCancel
          else FailGone pid
      | None \<Rightarrow>
          if t_cancel_requested_at t \<noteq> None then FinalizeCancel
          else if is_stale current stale_after t then FailAbandoned
          else Leave)"

definition get_task_op :: "string \<Rightarrow> task task_op" where
  "get_task_op tid db = (get_task tid db, db)"

definition recovery_transition ::
  "(string \<Rightarrow> string) \<Rightarrow> (string \<Rightarrow> nat \<Rightarrow> bool) \<Rightarrow> time \<Rightarrow> recovery_action \<Rightarrow> task \<Rightarrow> task task_op" where
  "recovery_transition rid locked current act t db =
     retry_recovery_transition (under_lock (locked (t_id t))
       (case act of
          FinalizeCancel \<Rightarrow> finalize_cancellation (rid (t_id t)) current (t_id t) (Some current) None
        | FailGone pid \<Rightarrow> fail_permanently (rid (t_id t)) current (t_id t)
             (''Provider subprocess '' @ py_str_int pid @ '' exited unexpectedly'')
             (Some current) None
        | FailAbandoned \<Rightarrow> fail (rid (t_id t)) current (t_id t)
             ''Task was abandoned without an active provider subprocess'' 5 (Some current) None
        | Leave \<Rightarrow> get_task_op (t_id t))) db"

fun recover_loop ::
  "(string \<Rightarrow> string) \<Rightarrow> (string \<Rightarrow> nat \<Rightarrow> bool) \<Rightarrow> (int \<Rightarrow> kill_outcome) \<Rightarrow> time \<Rightarrow> time
   \<Rightarrow> task list \<Rightarrow> task list \<Rightarrow> task list task_op" where
  "recover_loop rid locked kill current stale_after [] recovered db = (Inr recovered, db)"
| "recover_loop rid locked kill current stale_after (t # ts) recovered db =
     (case recovery_action kill current stale_after t of
        Leave \<Rightarrow> recover_loop rid locked kill current stale_after ts recovered db
      | act \<Rightarrow>
          (case recovery_transition rid locked current act t db of
             (Inl e, db') \<Rightarrow> (Inl e, db')
           | (Inr r, db') \<Rightarrow>
               recover_loop rid locked kill current stale_after ts (recovered @ [r]) db'))"

definition recover_abandoned_running_tasks ::
  "(string \<Rightarrow> string) \<Rightarrow> (string \<Rightarrow> nat \<Rightarrow> bool) \<Rightarrow> (int \<Rightarrow> kill_outcome) \<Rightarrow> time
   \<Rightarrow> string option \<Rightarrow> time \<Rightarrow> time option \<Rightarrow> task list task_op" where
  "recover_abandoned_running_tasks rid locked kill clk ws stale_after now db =
     (let current = now_or now clk in
      recover_loop rid locked kill current stale_after (list_tasks (Some ''running'') ws 200 db) [] db)"

section \<open>Task data\<close>

definition update_pending_task ::
  "time \<Rightarrow> string \<Rightarrow> dict option \<Rightarrow> time option \<Rightarrow> int option \<Rightarrow> task task_op" where
  "update_pending_task clk tid data available_at priority db =
     (let guard = (\<lambda>t. t_id t = tid \<and> t_status t = Pending);
          not_pending = Inl (ValueError (''Task '' @ tid @ '' is not pending'')) in
      case List.find guard (tasks db) of
        None \<Rightarrow> (not_pending, db)
      | Some row \<Rightarrow>
          let next_data = (case data of None \<Rightarrow> t_data row | Some d \<Rightarrow> d);
              next_available = (case available_at of None \<Rightarrow> t_available_at row | Some a \<Rightarrow> a);
              next_priority = (case priority of None \<Rightarrow> t_priority row | Some p \<Rightarrow> p) in
          if rowcount guard (tasks db) \<noteq> 1 then (not_pending, db)
          else let f = (\<lambda>t. t\<lparr>t_data := dict_sort next_data, t_available_at := next_available,
                             t_priority := next_priority, t_updated_at := clk\<rparr>);
                   db' = db\<lparr>tasks := update_where guard f (tasks db)\<rparr>
               in (get_task tid db', db'))"

text \<open>\<open>_mutate_running_task_data\<close>: the mutation returns the new data, or \<open>None\<close> where the
  Python callback reports that nothing changed.\<close>

definition mutate_running_task_data ::
  "time \<Rightarrow> string \<Rightarrow> (dict \<Rightarrow> dict option) \<Rightarrow> task task_op" where
  "mutate_running_task_data clk tid mutate db =
     (let guard = (\<lambda>t. t_id t = tid \<and> is_open t);
          not_open = Inl (ValueError (''Task '' @ tid @ '' is not open'')) in
      case List.find guard (tasks db) of
        None \<Rightarrow> (not_open, db)
      | Some row \<Rightarrow>
          (case mutate (t_data row) of
             None \<Rightarrow> (get_task tid db, db)
           | Some d \<Rightarrow>
               if rowcount guard (tasks db) \<noteq> 1 then (not_open, db)
               else let f = (\<lambda>t. t\<lparr>t_data := dict_sort d, t_updated_at := clk\<rparr>);
                        db' = db\<lparr>tasks := update_where guard f (tasks db)\<rparr>
                    in (get_task tid db', db')))"

fun positive_int :: "json \<Rightarrow> int option" where
  "positive_int (JInt i) = (if i > 0 then Some i else None)"
| "positive_int _ = None"

definition list_field :: "dict \<Rightarrow> string \<Rightarrow> json list" where
  "list_field d name = (case dict_get d name of Some (JList vs) \<Rightarrow> vs | _ \<Rightarrow> [])"

definition merge_int_list :: "string \<Rightarrow> int list \<Rightarrow> dict \<Rightarrow> dict option" where
  "merge_int_list name values d =
     (let existing = list_field d name;
          merged = map JInt (sort (remdups (List.map_filter positive_int existing @ values)))
      in if py_eq_list merged existing then None else Some (dict_set name (JList merged) d))"

definition extend_running_task_data_int_list ::
  "time \<Rightarrow> string \<Rightarrow> string \<Rightarrow> json list \<Rightarrow> task task_op" where
  "extend_running_task_data_int_list clk tid name values db =
     (if py_strip name = [] then (Inl (ValueError ''field_name is required''), db)
      else let normalized = List.map_filter positive_int values in
        if normalized = [] then (get_task tid db, db)
        else mutate_running_task_data clk tid (merge_int_list name normalized) db)"

fun is_object :: "json \<Rightarrow> bool" where
  "is_object (JObj _) = True"
| "is_object _ = False"

definition append_object_list :: "string \<Rightarrow> json list \<Rightarrow> dict \<Rightarrow> dict option" where
  "append_object_list name values d = Some (dict_set name (JList (list_field d name @ values)) d)"

definition extend_running_task_data_object_list ::
  "time \<Rightarrow> string \<Rightarrow> string \<Rightarrow> json list \<Rightarrow> task task_op" where
  "extend_running_task_data_object_list clk tid name values db =
     (if py_strip name = [] then (Inl (ValueError ''field_name is required''), db)
      else let normalized = filter is_object values in
        if normalized = [] then (get_task tid db, db)
        else mutate_running_task_data clk tid (append_object_list name normalized) db)"

definition clear_keys :: "string list \<Rightarrow> dict \<Rightarrow> dict option" where
  "clear_keys names d =
     (if list_ex (\<lambda>n. dict_get d n \<noteq> None) names then Some (fold dict_pop names d) else None)"

definition clear_running_task_data_keys ::
  "time \<Rightarrow> string \<Rightarrow> string list \<Rightarrow> task task_op" where
  "clear_running_task_data_keys clk tid names db =
     (let normalized = filter (\<lambda>n. n \<noteq> []) (map py_strip names) in
      if normalized = [] then (get_task tid db, db)
      else mutate_running_task_data clk tid (clear_keys normalized) db)"

end
