(* ===== verification/TaskQueueLaws.thy ===== *)
theory TaskQueueLaws
  imports TaskQueue
begin

text \<open>
  What the task queue promises. An abstract machine on rows (\<open>task_move\<close>, \<open>db_move\<close>)
  says which moves a task may make; every operation of \<open>TaskQueue\<close> is shown to be one of
  its moves, and the invariant, the fencing of stale workers and the single cleanup lane
  follow from the moves alone.
\<close>

section \<open>The abstract machine\<close>

definition terminal :: "task \<Rightarrow> bool" where
  "terminal t = (t_status t \<in> {Completed, Failed, Cancelled})"

definition same_identity :: "task \<Rightarrow> task \<Rightarrow> bool" where
  "same_identity t t' = (t_id t' = t_id t \<and> t_name t' = t_name t \<and> t_workspace t' = t_workspace t
     \<and> t_max_retries t' = t_max_retries t \<and> t_created_at t' = t_created_at t)"

definition run_of :: "task \<Rightarrow> task_run \<Rightarrow> bool" where
  "run_of t r = (r_task_id r = t_id t \<and> r_task_name r = t_name t \<and> r_workspace r = t_workspace t
     \<and> 0 \<le> r_duration r)"

text \<open>The moves of one task and the runs each move records.\<close>

inductive task_move :: "task \<Rightarrow> task \<Rightarrow> task_run list \<Rightarrow> bool" where
  move_edit: "t_status t \<in> {Pending, Running} \<Longrightarrow> same_identity t t' \<Longrightarrow> t_status t' = t_status t
    \<Longrightarrow> t_epoch t' = t_epoch t \<Longrightarrow> t_retries t' = t_retries t \<Longrightarrow> t_claimed_at t' = t_claimed_at t
    \<Longrightarrow> t_started_at t' = t_started_at t \<Longrightarrow> t_completed_at t' = t_completed_at t
    \<Longrightarrow> (t_status t = Pending \<Longrightarrow> t_pid t' = t_pid t \<and> t_request_id t' = t_request_id t
          \<and> t_cancel_requested_at t' = t_cancel_requested_at t)
    \<Longrightarrow> task_move t t' []"
| move_claim: "t_status t = Pending \<Longrightarrow> same_identity t t' \<Longrightarrow> t_status t' = Running
    \<Longrightarrow> t_epoch t' = t_epoch t + 1 \<Longrightarrow> t_retries t' = t_retries t \<Longrightarrow> t_claimed_at t' \<noteq> None
    \<Longrightarrow> t_started_at t' \<noteq> None \<Longrightarrow> t_completed_at t' = t_completed_at t \<Longrightarrow> task_move t t' []"
| move_finish: "t_status t = Running \<Longrightarrow> same_identity t t' \<Longrightarrow> terminal t'
    \<Longrightarrow> t_epoch t' = t_epoch t \<Longrightarrow> t_completed_at t' \<noteq> None \<Longrightarrow> t_pid t' = None
    \<Longrightarrow> t_request_id t' = None
    \<Longrightarrow> (t_status t' = Failed \<Longrightarrow> t_max_retries t' \<le> t_retries t')
    \<Longrightarrow> (t_status t' = Cancelled \<Longrightarrow> t_cancelled_at t' \<noteq> None)
    \<Longrightarrow> run_of t r \<Longrightarrow> task_move t t' [r]"
| move_requeue: "t_status t = Running \<Longrightarrow> same_identity t t' \<Longrightarrow> t_status t' = Pending
    \<Longrightarrow> t_epoch t' = t_epoch t \<Longrightarrow> t_claimed_at t' = None \<Longrightarrow> t_completed_at t' = None
    \<Longrightarrow> t_pid t' = None \<Longrightarrow> t_request_id t' = None \<Longrightarrow> t_cancel_requested_at t' = None
    \<Longrightarrow> t_retries t' = t_retries t \<or> t_retries t' = t_retries t + 1 \<and> t_retries t' < t_max_retries t'
    \<Longrightarrow> run_of t r \<Longrightarrow> task_move t t' [r]"
| move_cancel: "t_status t = Pending \<Longrightarrow> same_identity t t' \<Longrightarrow> t_status t' = Cancelled
    \<Longrightarrow> t_epoch t' = t_epoch t \<Longrightarrow> t_completed_at t' \<noteq> None \<Longrightarrow> t_cancelled_at t' \<noteq> None
    \<Longrightarrow> t_pid t' = None \<Longrightarrow> t_request_id t' = None \<Longrightarrow> run_of t r \<Longrightarrow> task_move t t' [r]"

definition fresh_pending :: "task \<Rightarrow> bool" where
  "fresh_pending t = (t_status t = Pending \<and> t_epoch t = 0 \<and> t_retries t = 0
     \<and> t_claimed_at t = None \<and> t_started_at t = None \<and> t_completed_at t = None
     \<and> t_pid t = None \<and> t_request_id t = None \<and> t_cancel_requested_at t = None)"

inductive db_move :: "taskdb \<Rightarrow> taskdb \<Rightarrow> bool" where
  db_stay: "db_move db db"
| db_insert: "t_id t \<notin> t_id ` set (tasks db) \<Longrightarrow> fresh_pending t
    \<Longrightarrow> db_move db (db\<lparr>tasks := tasks db @ [t]\<rparr>)"
| db_row: "row \<in> set (tasks db) \<Longrightarrow> p row \<Longrightarrow> (\<And>s. p s \<Longrightarrow> t_id s = t_id row)
    \<Longrightarrow> (\<And>s. t_id (f s) = t_id s) \<Longrightarrow> task_move row (f row) runs
    \<Longrightarrow> (t_status row = Pending \<Longrightarrow> t_status (f row) = Running \<Longrightarrow> is_cleanup (t_name row)
          \<Longrightarrow> \<not> cleanup_running db)
    \<Longrightarrow> db_move db (db\<lparr>tasks := update_where p f (tasks db), task_runs := task_runs db @ runs\<rparr>)"

section \<open>The invariant\<close>

definition task_ok :: "task \<Rightarrow> bool" where
  "task_ok t = (case t_status t of
       Pending \<Rightarrow> t_claimed_at t = None \<and> t_completed_at t = None \<and> t_pid t = None
         \<and> t_request_id t = None \<and> t_cancel_requested_at t = None
         \<and> 0 \<le> t_retries t \<and> t_retries t \<le> t_epoch t
         \<and> (t_retries t = 0 \<or> t_retries t < t_max_retries t)
     | Running \<Rightarrow> t_claimed_at t \<noteq> None \<and> t_started_at t \<noteq> None \<and> t_completed_at t = None
         \<and> 0 \<le> t_retries t \<and> t_retries t < t_epoch t
         \<and> (t_retries t = 0 \<or> t_retries t < t_max_retries t)
     | Completed \<Rightarrow> t_completed_at t \<noteq> None \<and> t_pid t = None \<and> t_request_id t = None \<and> 1 \<le> t_epoch t
     | Failed \<Rightarrow> t_completed_at t \<noteq> None \<and> t_pid t = None \<and> t_request_id t = None \<and> 1 \<le> t_epoch t
         \<and> t_max_retries t \<le> t_retries t
     | Cancelled \<Rightarrow> t_completed_at t \<noteq> None \<and> t_cancelled_at t \<noteq> None \<and> t_pid t = None
         \<and> t_request_id t = None \<and> 0 \<le> t_epoch t)"

definition runs_of :: "string \<Rightarrow> task_run list \<Rightarrow> int" where
  "runs_of tid runs = int (length (filter (\<lambda>r. r_task_id r = tid) runs))"

text \<open>Every attempt that ended left exactly one run; a task cancelled before it ran left one more.\<close>

definition ledger_ok :: "task_run list \<Rightarrow> task \<Rightarrow> bool" where
  "ledger_ok runs t = (case t_status t of
       Running \<Rightarrow> runs_of (t_id t) runs = t_epoch t - 1
     | Cancelled \<Rightarrow> runs_of (t_id t) runs \<in> {t_epoch t, t_epoch t + 1}
     | _ \<Rightarrow> runs_of (t_id t) runs = t_epoch t)"

definition on_cleanup_lane :: "task \<Rightarrow> bool" where
  "on_cleanup_lane t = (t_status t = Running \<and> is_cleanup (t_name t))"

definition lane_ok :: "task list \<Rightarrow> bool" where
  "lane_ok ts = (\<forall>t \<in> set ts. \<forall>s \<in> set ts. on_cleanup_lane t \<longrightarrow> on_cleanup_lane s \<longrightarrow> t_id t = t_id s)"

definition runs_ok :: "taskdb \<Rightarrow> bool" where
  "runs_ok db = (\<forall>r \<in> set (task_runs db). r_task_id r \<in> t_id ` set (tasks db) \<and> 0 \<le> r_duration r)"

definition db_ok :: "taskdb \<Rightarrow> bool" where
  "db_ok db = (distinct (map t_id (tasks db)) \<and> (\<forall>t \<in> set (tasks db). task_ok t)
     \<and> (\<forall>t \<in> set (tasks db). ledger_ok (task_runs db) t) \<and> runs_ok db \<and> lane_ok (tasks db))"

lemma db_okD:
  assumes "db_ok db"
  shows "distinct (map t_id (tasks db))" and "t \<in> set (tasks db) \<Longrightarrow> task_ok t"
    and "t \<in> set (tasks db) \<Longrightarrow> ledger_ok (task_runs db) t" and "runs_ok db" and "lane_ok (tasks db)"
  using assms by (auto simp: db_ok_def)

lemma db_ok_empty: "db_ok empty_taskdb"
  by (simp add: db_ok_def empty_taskdb_def runs_ok_def lane_ok_def)

lemma runs_of_append [simp]: "runs_of tid (xs @ ys) = runs_of tid xs + runs_of tid ys"
  by (simp add: runs_of_def)

lemma runs_of_simps [simp]:
  "runs_of tid [] = 0" "runs_of tid (r # rs) = (if r_task_id r = tid then 1 else 0) + runs_of tid rs"
  by (simp_all add: runs_of_def)

lemma task_move_same_id: "task_move t t' runs \<Longrightarrow> same_identity t t'"
  by (cases rule: task_move.cases) auto

lemma task_ok_cases:
  "t_status t = Pending \<Longrightarrow> task_ok t \<longleftrightarrow> t_claimed_at t = None \<and> t_completed_at t = None
     \<and> t_pid t = None \<and> t_request_id t = None \<and> t_cancel_requested_at t = None
     \<and> 0 \<le> t_retries t \<and> t_retries t \<le> t_epoch t
     \<and> (t_retries t = 0 \<or> t_retries t < t_max_retries t)"
  "t_status t = Running \<Longrightarrow> task_ok t \<longleftrightarrow> t_claimed_at t \<noteq> None \<and> t_started_at t \<noteq> None
     \<and> t_completed_at t = None \<and> 0 \<le> t_retries t \<and> t_retries t < t_epoch t
     \<and> (t_retries t = 0 \<or> t_retries t < t_max_retries t)"
  "t_status t = Completed \<Longrightarrow> task_ok t \<longleftrightarrow> t_completed_at t \<noteq> None \<and> t_pid t = None
     \<and> t_request_id t = None \<and> 1 \<le> t_epoch t"
  "t_status t = Failed \<Longrightarrow> task_ok t \<longleftrightarrow> t_completed_at t \<noteq> None \<and> t_pid t = None
     \<and> t_request_id t = None \<and> 1 \<le> t_epoch t \<and> t_max_retries t \<le> t_retries t"
  "t_status t = Cancelled \<Longrightarrow> task_ok t \<longleftrightarrow> t_completed_at t \<noteq> None \<and> t_cancelled_at t \<noteq> None
     \<and> t_pid t = None \<and> t_request_id t = None \<and> 0 \<le> t_epoch t"
  by (simp_all add: task_ok_def)

lemma task_move_task_ok: "task_move t t' runs \<Longrightarrow> task_ok t \<Longrightarrow> task_ok t'"
proof (induction rule: task_move.induct)
  case (move_edit t t')
  then show ?case by (auto simp: task_ok_cases same_identity_def)
next
  case (move_claim t t')
  then show ?case by (auto simp: task_ok_cases same_identity_def)
next
  case (move_finish t t' r)
  then have "t_status t' = Completed \<or> t_status t' = Failed \<or> t_status t' = Cancelled"
    by (simp add: terminal_def)
  with move_finish show ?case by (auto simp: task_ok_cases)
next
  case (move_requeue t t' r)
  then show ?case by (auto simp: task_ok_cases same_identity_def)
next
  case (move_cancel t t' r)
  then show ?case by (auto simp: task_ok_cases)
qed

lemma task_move_runs: "task_move t t' runs \<Longrightarrow> r \<in> set runs \<Longrightarrow> run_of t r"
  by (cases rule: task_move.cases) auto

lemma ledger_ok_cases:
  "t_status t = Pending \<Longrightarrow> ledger_ok rs t \<longleftrightarrow> runs_of (t_id t) rs = t_epoch t"
  "t_status t = Running \<Longrightarrow> ledger_ok rs t \<longleftrightarrow> runs_of (t_id t) rs = t_epoch t - 1"
  "t_status t = Completed \<Longrightarrow> ledger_ok rs t \<longleftrightarrow> runs_of (t_id t) rs = t_epoch t"
  "t_status t = Failed \<Longrightarrow> ledger_ok rs t \<longleftrightarrow> runs_of (t_id t) rs = t_epoch t"
  "t_status t = Cancelled \<Longrightarrow> ledger_ok rs t \<longleftrightarrow>
     runs_of (t_id t) rs = t_epoch t \<or> runs_of (t_id t) rs = t_epoch t + 1"
  by (simp_all add: ledger_ok_def)

lemma task_move_ledger:
  "task_move t t' runs \<Longrightarrow> ledger_ok old t \<Longrightarrow> ledger_ok (old @ runs) t'"
proof (induction rule: task_move.induct)
  case (move_edit t t')
  then show ?case by (auto simp: ledger_ok_cases same_identity_def)
next
  case (move_claim t t')
  then show ?case by (auto simp: ledger_ok_cases same_identity_def)
next
  case (move_finish t t' r)
  then have "t_status t' = Completed \<or> t_status t' = Failed \<or> t_status t' = Cancelled"
    by (simp add: terminal_def)
  with move_finish show ?case by (auto simp: ledger_ok_cases same_identity_def run_of_def)
next
  case (move_requeue t t' r)
  then show ?case by (auto simp: ledger_ok_cases same_identity_def run_of_def)
next
  case (move_cancel t t' r)
  then show ?case by (auto simp: ledger_ok_cases same_identity_def run_of_def)
qed

lemma task_move_lane:
  "task_move t t' runs \<Longrightarrow> on_cleanup_lane t' \<Longrightarrow> t_status t \<noteq> Pending \<Longrightarrow> on_cleanup_lane t"
  by (cases rule: task_move.cases) (auto simp: on_cleanup_lane_def same_identity_def terminal_def)

section \<open>Every move keeps the invariant\<close>

lemma runs_of_other:
  assumes "\<And>r. r \<in> set runs \<Longrightarrow> r_task_id r = i" and "j \<noteq> i"
  shows "runs_of j runs = 0"
proof -
  have "filter (\<lambda>r. r_task_id r = j) runs = []"
    using assms by (auto simp: filter_empty_conv)
  then show ?thesis by (simp add: runs_of_def)
qed

lemma runs_of_absent:
  assumes "runs_ok db" and "tid \<notin> t_id ` set (tasks db)"
  shows "runs_of tid (task_runs db) = 0"
proof -
  have "r_task_id r \<noteq> tid" if "r \<in> set (task_runs db)" for r
    using assms that by (fastforce simp: runs_ok_def)
  then have "filter (\<lambda>r. r_task_id r = tid) (task_runs db) = []"
    by (simp add: filter_empty_conv)
  then show ?thesis by (simp add: runs_of_def)
qed

lemma cleanup_running_iff: "cleanup_running db \<longleftrightarrow> (\<exists>t \<in> set (tasks db). on_cleanup_lane t)"
  by (simp add: cleanup_running_def list_ex_iff on_cleanup_lane_def)

lemma db_ok_insert:
  assumes ok: "db_ok db" and new: "t_id t \<notin> t_id ` set (tasks db)" and fresh: "fresh_pending t"
  shows "db_ok (db\<lparr>tasks := tasks db @ [t]\<rparr>)"
proof -
  have "task_ok t" using fresh by (simp add: fresh_pending_def task_ok_cases)
  moreover have "ledger_ok (task_runs db) t"
    using fresh runs_of_absent [OF db_okD(4) [OF ok] new]
    by (simp add: fresh_pending_def ledger_ok_cases)
  moreover have idle: "\<not> on_cleanup_lane t"
    using fresh by (simp add: fresh_pending_def on_cleanup_lane_def)
  have "lane_ok (tasks db @ [t])"
    unfolding lane_ok_def
  proof (intro ballI impI)
    fix a b assume ab: "on_cleanup_lane a" "on_cleanup_lane b"
      and "a \<in> set (tasks db @ [t])" "b \<in> set (tasks db @ [t])"
    with idle have "a \<in> set (tasks db)" "b \<in> set (tasks db)" by auto
    with ab show "t_id a = t_id b" using db_okD(5) [OF ok] unfolding lane_ok_def by blast
  qed
  moreover have "runs_ok (db\<lparr>tasks := tasks db @ [t]\<rparr>)"
    using db_okD(4) [OF ok] unfolding runs_ok_def by (simp add: image_Un)
  ultimately show ?thesis
    using db_okD(1,2,3) [OF ok] new unfolding db_ok_def by (simp add: ball_Un)
qed

lemma lane_ok_move:
  assumes lane: "lane_ok ts" and row: "row \<in> set ts" and move: "task_move row row' runs"
    and guard: "t_status row = Pending \<Longrightarrow> on_cleanup_lane row' \<Longrightarrow> \<not> (\<exists>t \<in> set ts. on_cleanup_lane t)"
    and ts': "set ts' = insert row' (set ts - {row})"
  shows "lane_ok ts'"
proof -
  have same: "t_id row' = t_id row"
    using task_move_same_id [OF move] by (simp add: same_identity_def)
  have key: "t_id s = t_id row'" if row': "on_cleanup_lane row'" and s: "s \<in> set ts" "on_cleanup_lane s" for s
  proof (cases "t_status row = Pending")
    case True
    then have "\<not> (\<exists>t \<in> set ts. on_cleanup_lane t)" using row' by (rule guard)
    with s show ?thesis by blast
  next
    case False
    have "on_cleanup_lane row" using move row' False by (rule task_move_lane)
    then have "t_id s = t_id row" using lane row s unfolding lane_ok_def by blast
    then show ?thesis by (simp only: same)
  qed
  show ?thesis
    unfolding lane_ok_def ts'
  proof (intro ballI impI)
    fix t s assume t: "t \<in> insert row' (set ts - {row})" "on_cleanup_lane t"
      and s: "s \<in> insert row' (set ts - {row})" "on_cleanup_lane s"
    show "t_id t = t_id s"
    proof (cases "t = row'")
      case True
      then show ?thesis using s key t by (cases "s = row'") auto
    next
      case False
      note t' = False
      show ?thesis
      proof (cases "s = row'")
        case True
        then show ?thesis using t t' s key [of t] by auto
      next
        case False
        then show ?thesis using t t' s lane unfolding lane_ok_def by blast
      qed
    qed
  qed
qed

lemma db_ok_row:
  assumes ok: "db_ok db" and row: "row \<in> set (tasks db)" "p row"
    and key: "\<And>s. p s \<Longrightarrow> t_id s = t_id row" and ids: "\<And>s. t_id (f s) = t_id s"
    and move: "task_move row (f row) runs"
    and guard: "t_status row = Pending \<Longrightarrow> t_status (f row) = Running \<Longrightarrow> is_cleanup (t_name row)
      \<Longrightarrow> \<not> cleanup_running db"
  shows "db_ok (db\<lparr>tasks := update_where p f (tasks db), task_runs := task_runs db @ runs\<rparr>)"
proof -
  let ?ts = "update_where p f (tasks db)"
  have dist: "distinct (map t_id (tasks db))" by (rule db_okD(1) [OF ok])
  have set_ts: "set ?ts = insert (f row) (set (tasks db) - {row})"
    using dist row key by (rule set_update_where_key) blast
  have map_ts: "map t_id ?ts = map t_id (tasks db)"
    using ids by (rule map_update_where)
  have idset: "t_id ` set ?ts = t_id ` set (tasks db)"
    using map_ts by (metis list.set_map)
  have others: "t_id s \<noteq> t_id row" if "s \<in> set (tasks db) - {row}" for s
    using dist row(1) that by (auto simp: distinct_map dest: inj_onD)
  have run_ids: "r_task_id r = t_id row" if "r \<in> set runs" for r
    using task_move_runs [OF move that] by (simp add: run_of_def)
  have "task_ok t" if "t \<in> set ?ts" for t
    using that task_move_task_ok [OF move] db_okD(2) [OF ok] row(1) unfolding set_ts by auto
  moreover have "ledger_ok (task_runs db @ runs) t" if t: "t \<in> set ?ts" for t
  proof (cases "t = f row")
    case True
    then show ?thesis using task_move_ledger [OF move] db_okD(3) [OF ok row(1)] by simp
  next
    case False
    with t have mem: "t \<in> set (tasks db) - {row}" unfolding set_ts by blast
    then have "runs_of (t_id t) runs = 0" using run_ids others runs_of_other by blast
    with mem db_okD(3) [OF ok, of t] show ?thesis
      by (simp add: ledger_ok_def split: task_status.splits)
  qed
  moreover have "0 \<le> r_duration r \<and> r_task_id r \<in> t_id ` set ?ts"
    if "r \<in> set (task_runs db @ runs)" for r
    using that db_okD(4) [OF ok] task_move_runs [OF move] row(1) unfolding idset
    by (auto simp: runs_ok_def run_of_def)
  moreover have "lane_ok ?ts"
  proof (rule lane_ok_move [OF db_okD(5) [OF ok] row(1) move _ set_ts])
    assume pend: "t_status row = Pending" and "on_cleanup_lane (f row)"
    moreover have "t_name (f row) = t_name row"
      using task_move_same_id [OF move] by (simp add: same_identity_def)
    ultimately have "\<not> cleanup_running db" using guard by (simp add: on_cleanup_lane_def)
    then show "\<not> (\<exists>t \<in> set (tasks db). on_cleanup_lane t)" by (simp add: cleanup_running_iff)
  qed
  ultimately show ?thesis
    using dist map_ts by (simp add: db_ok_def runs_ok_def)
qed

lemma db_move_ok: "db_move db db' \<Longrightarrow> db_ok db \<Longrightarrow> db_ok db'"
proof (induction rule: db_move.induct)
  case (db_stay db)
  then show ?case by simp
next
  case (db_insert t db)
  then show ?case by (intro db_ok_insert)
next
  case (db_row row db p f runs)
  then show ?case by (intro db_ok_row) blast+
qed

section \<open>Every operation is a move\<close>

subsection \<open>Reads and guards\<close>

lemma running_guardD:
  "running_guard tid epoch t \<Longrightarrow> t_id t = tid \<and> t_status t = Running"
  by (simp add: running_guard_def)

lemma get_running_task_rowD:
  "get_running_task_row tid epoch db = Some row
    \<Longrightarrow> row \<in> set (tasks db) \<and> running_guard tid epoch row"
  unfolding get_running_task_row_def by (rule find_SomeD)

lemma get_running_task_rowI:
  assumes "distinct (map t_id (tasks db))" and "row \<in> set (tasks db)" and "running_guard tid epoch row"
  shows "get_running_task_row tid epoch db = Some row"
proof -
  have "t_id s = t_id row" if "running_guard tid epoch s" for s
    using running_guardD [OF that] running_guardD [OF assms(3)] by simp
  with assms show ?thesis unfolding get_running_task_row_def by (rule find_key)
qed

lemma get_running_task_row_None:
  "get_running_task_row tid epoch db = None \<Longrightarrow> t \<in> set (tasks db) \<Longrightarrow> \<not> running_guard tid epoch t"
  unfolding get_running_task_row_def by (rule find_NoneD)

lemma get_task_Some:
  "distinct (map t_id (tasks db)) \<Longrightarrow> t \<in> set (tasks db) \<Longrightarrow> get_task (t_id t) db = Inr t"
  using find_key [of t_id "tasks db" t "\<lambda>s. t_id s = t_id t"] by (simp add: get_task_def)

lemma get_task_InrD: "get_task tid db = Inr t \<Longrightarrow> t \<in> set (tasks db) \<and> t_id t = tid"
  by (auto simp: get_task_def split: option.splits dest: find_SomeD)

text \<open>A statement that names a key finds its row once, updates it and reads it back.\<close>

lemma keyed_update:
  assumes dist: "distinct (map t_id (tasks db))" and row: "row \<in> set (tasks db)" "p row"
    and key: "\<And>s. p s \<Longrightarrow> t_id s = t_id row" and ids: "\<And>s. t_id (f s) = t_id s"
  shows "rowcount p (tasks db) = 1"
    and "get_task (t_id row) (db\<lparr>tasks := update_where p f (tasks db), task_runs := rs\<rparr>) = Inr (f row)"
    and "List.find (\<lambda>s. t_id s = t_id row) (update_where p f (tasks db)) = Some (f row)"
proof -
  show "rowcount p (tasks db) = 1" using dist row key by (rule rowcount_key)
  show "List.find (\<lambda>s. t_id s = t_id row) (update_where p f (tasks db)) = Some (f row)"
    using dist row key ids by (rule find_update_where_key)
  then show "get_task (t_id row) (db\<lparr>tasks := update_where p f (tasks db), task_runs := rs\<rparr>) = Inr (f row)"
    by (simp add: get_task_def)
qed

lemma write_transition_eq:
  assumes dist: "distinct (map t_id (tasks db))" and row: "get_running_task_row tid epoch db = Some row"
    and ids: "\<And>s. t_id (f s) = t_id s"
  shows "write_transition tid epoch f runs db =
    (Inr (f row), db\<lparr>tasks := update_where (running_guard tid epoch) f (tasks db),
                     task_runs := task_runs db @ runs\<rparr>)"
proof -
  have mem: "row \<in> set (tasks db)" and guard: "running_guard tid epoch row"
    using get_running_task_rowD [OF row] by simp_all
  have tid: "tid = t_id row" using running_guardD [OF guard] by simp
  have key: "t_id s = t_id row" if "running_guard tid epoch s" for s
    using running_guardD [OF that] tid by simp
  show ?thesis
    using keyed_update [where p = "running_guard tid epoch" and f = f, OF dist mem guard key ids] tid
    by (simp add: write_transition_def Let_def)
qed

lemma write_transition_mismatch:
  "get_running_task_row tid epoch db = None
    \<Longrightarrow> write_transition tid epoch f runs db = (Inl (running_task_mismatch_error tid epoch), db)"
proof -
  assume "get_running_task_row tid epoch db = None"
  then have "rowcount (running_guard tid epoch) (tasks db) = 0"
    by (simp add: rowcount_0_iff get_running_task_row_None)
  then show ?thesis by (simp add: write_transition_def)
qed

lemma write_transition_move:
  assumes dist: "distinct (map t_id (tasks db))" and row: "get_running_task_row tid epoch db = Some row"
    and ids: "\<And>s. t_id (f s) = t_id s" and move: "task_move row (f row) runs"
  shows "db_move db (snd (write_transition tid epoch f runs db))"
proof -
  have mem: "row \<in> set (tasks db)" and guard: "running_guard tid epoch row"
    using get_running_task_rowD [OF row] by simp_all
  have key: "t_id s = t_id row" if "running_guard tid epoch s" for s
    using running_guardD [OF that] running_guardD [OF guard] by simp
  have "t_status row \<noteq> Pending" using running_guardD [OF guard] by simp
  then show ?thesis
    using db_row [where p = "running_guard tid epoch" and f = f, OF mem guard key ids move]
    by (simp add: write_transition_eq [OF dist row ids])
qed

lemma get_running_task_row_id:
  "get_running_task_row tid epoch db = Some row \<Longrightarrow> t_id row = tid \<and> t_status row = Running"
  using get_running_task_rowD running_guardD by blast

subsection \<open>The moves of the operations\<close>

lemma run_of_make_task_run:
  "t_id t = tid \<Longrightarrow> t_name t = name \<Longrightarrow> t_workspace t = ws
    \<Longrightarrow> run_of t (make_task_run rid tid name ws st a b res err)"
  by (simp add: run_of_def make_task_run_def)

lemma enqueue_move: "db_move db (snd (enqueue uuid clk name data ws prio maxr avail tid db))"
  by (auto simp: enqueue_def Let_def fresh_pending_def intro: db_stay db_insert)

lemma enqueue_unique_move:
  "db_move db (snd (enqueue_unique uuid clk name data ws prio maxr avail db))"
proof -
  have "snd (enqueue_unique uuid clk name data ws prio maxr avail db)
      \<in> {db, snd (enqueue uuid clk name data ws prio maxr avail None db)}"
    by (auto simp: enqueue_unique_def split: option.splits prod.splits sum.splits py_error.splits)
  then show ?thesis using enqueue_move db_stay by auto
qed

lemmas move_facts = same_identity_def terminal_def run_of_make_task_run

lemma complete_move:
  assumes "distinct (map t_id (tasks db))"
  shows "db_move db (snd (complete rid clk tid completed_at res epoch db))"
proof (cases "get_running_task_row tid epoch db")
  case None
  then show ?thesis by (simp add: complete_def db_stay)
next
  case (Some row)
  note id = get_running_task_row_id [OF Some]
  have "db_move db (snd (complete_write rid clk tid now result epoch row db))" for now result
    unfolding complete_write_def using assms Some
  proof (rule write_transition_move)
    show "task_move row (complete_update now row) [make_task_run rid tid (t_name row)
        (t_workspace row) RunCompleted (run_start clk now row) now result None]"
      using id by (intro move_finish) (simp_all add: complete_update_def move_facts)
  qed (simp add: complete_update_def)
  with Some show ?thesis by (simp add: complete_def)
qed

lemma fail_move:
  assumes "distinct (map t_id (tasks db))"
  shows "db_move db (snd (fail rid clk tid err delay failed_at epoch db))"
proof (cases "get_running_task_row tid epoch db")
  case None
  then show ?thesis by (simp add: fail_def db_stay)
next
  case (Some row)
  note id = get_running_task_row_id [OF Some]
  have "db_move db (snd (fail_write rid clk tid err delay now epoch row db))" for now
    unfolding fail_write_def using assms Some
  proof (rule write_transition_move)
    let ?run = "make_task_run rid tid (t_name row) (t_workspace row)
        (if t_retries row + 1 \<ge> t_max_retries row then RunFailed else RunRetry)
        (run_start clk now row) now [] (Some err)"
    show "task_move row (fail_update now delay err row row) [?run]"
    proof (cases "t_retries row + 1 \<ge> t_max_retries row")
      case True
      with id show ?thesis
        by (intro move_finish) (simp_all add: fail_update_def Let_def move_facts)
    next
      case False
      with id show ?thesis
        by (intro move_requeue) (simp_all add: fail_update_def Let_def move_facts)
    qed
  qed (simp add: fail_update_def Let_def)
  with Some show ?thesis by (simp add: fail_def Let_def)
qed

lemma fail_permanently_move:
  assumes "distinct (map t_id (tasks db))"
  shows "db_move db (snd (fail_permanently rid clk tid err failed_at epoch db))"
proof (cases "get_running_task_row tid epoch db")
  case None
  then show ?thesis by (simp add: fail_permanently_def db_stay)
next
  case (Some row)
  note id = get_running_task_row_id [OF Some]
  have "db_move db (snd (write_transition tid epoch (fail_permanently_update now err)
      [make_task_run rid tid (t_name row) (t_workspace row) RunFailed (run_start clk now row) now [] (Some err)] db))"
    for now
    using assms Some
  proof (rule write_transition_move)
    show "task_move row (fail_permanently_update now err row)
       [make_task_run rid tid (t_name row) (t_workspace row) RunFailed (run_start clk now row) now [] (Some err)]"
      using id by (intro move_finish) (simp_all add: fail_permanently_update_def move_facts)
  qed (simp add: fail_permanently_update_def)
  with Some show ?thesis by (simp add: fail_permanently_def Let_def)
qed

lemma retry_running_task_move:
  assumes "distinct (map t_id (tasks db))"
  shows "db_move db (snd (retry_running_task rid clk tid err available_at epoch db))"
proof (cases "get_running_task_row tid epoch db")
  case None
  then show ?thesis by (simp add: retry_running_task_def db_stay)
next
  case (Some row)
  note id = get_running_task_row_id [OF Some]
  let ?run = "\<lambda>now. make_task_run rid tid (t_name row) (t_workspace row) RunRetry
      (run_start clk now row) now [(''retry_reason'', JStr err)] (Some err)"
  have "db_move db (snd (write_transition tid epoch (retry_update now err) [?run now] db))" for now
    using assms Some
  proof (rule write_transition_move)
    show "task_move row (retry_update now err row) [?run now]"
      using id by (intro move_requeue) (simp_all add: retry_update_def move_facts)
  qed (simp add: retry_update_def)
  with Some show ?thesis by (simp add: retry_running_task_def Let_def)
qed

lemma finalize_cancellation_move:
  assumes "distinct (map t_id (tasks db))"
  shows "db_move db (snd (finalize_cancellation rid clk tid cancelled_at epoch db))"
proof (cases "get_running_task_row tid epoch db")
  case None
  then show ?thesis by (simp add: finalize_cancellation_def db_stay)
next
  case (Some row)
  note id = get_running_task_row_id [OF Some]
  have "db_move db (snd (write_transition tid epoch (finalize_update now reason)
      [make_task_run rid tid (t_name row) (t_workspace row) RunCancelled (run_start clk now row) now d e] db))"
    for now reason d e
    using assms Some
  proof (rule write_transition_move)
    show "task_move row (finalize_update now reason row)
       [make_task_run rid tid (t_name row) (t_workspace row) RunCancelled (run_start clk now row) now d e]"
      using id by (intro move_finish) (simp_all add: finalize_update_def move_facts)
  qed (simp add: finalize_update_def)
  with Some show ?thesis by (simp add: finalize_cancellation_def Let_def)
qed

lemma edit_move:
  assumes "distinct (map t_id (tasks db))" and ids: "\<And>s. t_id (f s) = t_id s"
    and "\<And>row. t_status row = Running \<Longrightarrow> task_move row (f row) []"
  shows "db_move db (snd (write_transition tid epoch f [] db))"
proof (cases "get_running_task_row tid epoch db")
  case None
  then show ?thesis by (simp add: write_transition_mismatch db_stay)
next
  case (Some row)
  then have "task_move row (f row) []" using assms(3) get_running_task_row_id by blast
  with assms(1) Some ids show ?thesis by (rule write_transition_move)
qed

lemma set_running_process_move:
  assumes "distinct (map t_id (tasks db))"
  shows "db_move db (snd (set_running_process clk tid pid request_id updated_at epoch db))"
  unfolding set_running_process_def using assms
  by (rule edit_move) (auto intro!: move_edit simp: same_identity_def)

lemma clear_running_process_move:
  assumes "distinct (map t_id (tasks db))"
  shows "db_move db (snd (clear_running_process clk tid updated_at epoch db))"
  unfolding clear_running_process_def using assms by (rule set_running_process_move)

lemma touch_running_task_move:
  assumes "distinct (map t_id (tasks db))"
  shows "db_move db (snd (touch_running_task clk tid updated_at epoch db))"
  unfolding touch_running_task_def using assms
  by (rule edit_move) (auto intro!: move_edit simp: same_identity_def)

text \<open>The statements that are not guarded by \<open>running\<close>: claims, cancellation of a pending
  task, edits of a pending or open task.\<close>

lemma keyed_move:
  assumes dist: "distinct (map t_id (tasks db))" and row: "row \<in> set (tasks db)" "p row"
    and key: "\<And>s. p s \<Longrightarrow> t_id s = t_id row" and ids: "\<And>s. t_id (f s) = t_id s"
    and move: "task_move row (f row) runs"
    and lane: "t_status (f row) = Running \<Longrightarrow> t_status row = Pending \<Longrightarrow> is_cleanup (t_name row)
      \<Longrightarrow> \<not> cleanup_running db"
  shows "db_move db (db\<lparr>tasks := update_where p f (tasks db), task_runs := task_runs db @ runs\<rparr>)"
  using row key ids move lane by (intro db_row) blast+

lemma find_idD: "List.find (\<lambda>t. t_id t = tid) ts = Some row \<Longrightarrow> row \<in> set ts \<and> t_id row = tid"
  using find_SomeD by fastforce

lemma claim_next_cases:
  assumes dist: "distinct (map t_id (tasks db))"
  obtains (none) "claim_next clk now ws db = (None, db)"
      "\<And>t. t \<in> set (tasks db) \<Longrightarrow> \<not> claimable db (now_or now clk) ws t"
  | (claimed) row where "row \<in> set (tasks db)" "claimable db (now_or now clk) ws row"
      "\<And>t. t \<in> set (tasks db) \<Longrightarrow> claimable db (now_or now clk) ws t
        \<Longrightarrow> (t_priority row, t_created_at row) \<le> (t_priority t, t_created_at t)"
      "claim_next clk now ws db = (Some (claim_update (now_or now clk) row),
         db\<lparr>tasks := update_where (\<lambda>t. t_id t = t_id row \<and> t_status t = Pending)
             (claim_update (now_or now clk)) (tasks db)\<rparr>)"
proof (cases "order_by (\<lambda>t. (t_priority t, t_created_at t))
    (filter (claimable db (now_or now clk) ws) (tasks db))")
  case Nil
  then have "filter (claimable db (now_or now clk) ws) (tasks db) = []" by simp
  then have "\<not> claimable db (now_or now clk) ws t" if "t \<in> set (tasks db)" for t
    using that by (simp add: filter_empty_conv)
  moreover have "claim_next clk now ws db = (None, db)"
    unfolding claim_next_def Let_def Nil by simp
  ultimately show ?thesis by (rule none [rotated])
next
  case (Cons row rest)
  let ?now = "now_or now clk" and ?p = "\<lambda>t. t_id t = t_id row \<and> t_status t = Pending"
  have "row \<in> set (order_by (\<lambda>t. (t_priority t, t_created_at t))
      (filter (claimable db ?now ws) (tasks db)))"
    using Cons by simp
  then have row: "row \<in> set (tasks db)" "claimable db ?now ws row" by auto
  then have guard: "?p row" by (simp add: claimable_def)
  have first: "(t_priority row, t_created_at row) \<le> (t_priority t, t_created_at t)"
    if "t \<in> set (tasks db)" "claimable db ?now ws t" for t
    using order_by_hd_least [OF Cons, of t] that by simp
  have ids: "t_id (claim_update ?now s) = t_id s" for s by (simp add: claim_update_def)
  note ku = keyed_update [where p = ?p and f = "claim_update ?now", OF dist row(1) guard _ ids]
  have "rowcount ?p (tasks db) = 1" "List.find (\<lambda>s. t_id s = t_id row)
      (update_where ?p (claim_update ?now) (tasks db)) = Some (claim_update ?now row)"
    using ku by blast+
  then show ?thesis using claimed [OF row first] Cons by (simp add: claim_next_def Let_def)
qed

lemma claim_next_move:
  assumes "distinct (map t_id (tasks db))"
  shows "db_move db (snd (claim_next clk now ws db))"
  using assms
proof (cases rule: claim_next_cases [where clk = clk and now = now and ws = ws])
  case none
  then show ?thesis by (simp add: db_stay)
next
  case (claimed row)
  have "db_move db (db\<lparr>tasks := update_where (\<lambda>t. t_id t = t_id row \<and> t_status t = Pending)
      (claim_update (now_or now clk)) (tasks db), task_runs := task_runs db @ []\<rparr>)"
    using assms claimed(1)
  proof (rule keyed_move)
    show "task_move row (claim_update (now_or now clk) row) []"
      using claimed(2) by (intro move_claim)
        (auto simp: claimable_def claim_update_def same_identity_def split: option.splits)
  qed (use claimed(2) in \<open>auto simp: claimable_def claim_update_def\<close>)
  then show ?thesis using claimed(4) by simp
qed

lemma request_cancel_move:
  assumes "distinct (map t_id (tasks db))"
  shows "db_move db (snd (request_cancel rid clk tid by why requested_at db))"
proof (cases "List.find (\<lambda>t. t_id t = tid) (tasks db)")
  case None
  then show ?thesis by (simp add: request_cancel_def db_stay)
next
  case (Some row)
  then have row: "row \<in> set (tasks db)" "t_id row = tid" using find_idD by blast+
  let ?now = "now_or requested_at clk"
  let ?cancel = "\<lambda>t. t\<lparr>t_status := Cancelled, t_updated_at := ?now, t_completed_at := Some ?now,
      t_cancelled_at := Some ?now, t_cancel_reason := Some why, t_cancelled_by := Some by,
      t_last_error := Some why, t_pid := None, t_request_id := None\<rparr>"
  let ?mark = "\<lambda>t. t\<lparr>t_updated_at := ?now,
      t_cancel_requested_at := (case t_cancel_requested_at t of None \<Rightarrow> Some ?now | Some c \<Rightarrow> Some c),
      t_cancel_reason := Some why, t_cancelled_by := Some by\<rparr>"
  let ?run = "make_task_run rid tid (t_name row) (t_workspace row) RunCancelled ?now ?now [] (Some why)"
  consider (p) "t_status row = Pending" | (r) "t_status row = Running" | (o) "terminal row"
    by (cases "t_status row") (auto simp: terminal_def)
  then show ?thesis
  proof cases
    case p
    then have "db_move db (db\<lparr>tasks := update_where (\<lambda>t. t_id t = tid \<and> t_status t = Pending) ?cancel (tasks db),
        task_runs := task_runs db @ [?run]\<rparr>)"
      using row assms by (intro keyed_move) (auto intro!: move_cancel simp: move_facts)
    with Some p show ?thesis by (simp add: request_cancel_def Let_def db_stay)
  next
    case r
    then have "db_move db (db\<lparr>tasks := update_where (\<lambda>t. t_id t = tid \<and> t_status t = Running) ?mark (tasks db),
        task_runs := task_runs db @ []\<rparr>)"
      using row assms by (intro keyed_move) (auto intro!: move_edit simp: same_identity_def)
    with Some r show ?thesis by (simp add: request_cancel_def Let_def db_stay)
  next
    case o
    then have "t_status row \<noteq> Pending" "t_status row \<noteq> Running" by (auto simp: terminal_def)
    with Some show ?thesis by (simp add: request_cancel_def Let_def db_stay)
  qed
qed

lemma update_pending_task_move:
  assumes "distinct (map t_id (tasks db))"
  shows "db_move db (snd (update_pending_task clk tid data avail prio db))"
proof (cases "List.find (\<lambda>t. t_id t = tid \<and> t_status t = Pending) (tasks db)")
  case None
  then show ?thesis by (simp add: update_pending_task_def Let_def db_stay)
next
  case (Some row)
  then have row: "row \<in> set (tasks db)" "t_id row = tid" "t_status row = Pending"
    using find_SomeD by fastforce+
  have "db_move db (db\<lparr>tasks := update_where (\<lambda>t. t_id t = tid \<and> t_status t = Pending)
      (\<lambda>t. t\<lparr>t_data := d, t_available_at := a, t_priority := n, t_updated_at := clk\<rparr>) (tasks db),
      task_runs := task_runs db @ []\<rparr>)" for d a n
    using row assms by (intro keyed_move) (auto intro!: move_edit simp: same_identity_def)
  with Some show ?thesis by (simp add: update_pending_task_def Let_def db_stay)
qed

lemma mutate_running_task_data_move:
  assumes "distinct (map t_id (tasks db))"
  shows "db_move db (snd (mutate_running_task_data clk tid mutate db))"
proof (cases "List.find (\<lambda>t. t_id t = tid \<and> is_open t) (tasks db)")
  case None
  then show ?thesis by (simp add: mutate_running_task_data_def Let_def db_stay)
next
  case (Some row)
  then have row: "row \<in> set (tasks db)" "t_id row = tid" "is_open row"
    using find_SomeD by fastforce+
  have "db_move db (db\<lparr>tasks := update_where (\<lambda>t. t_id t = tid \<and> is_open t)
      (\<lambda>t. t\<lparr>t_data := d, t_updated_at := clk\<rparr>) (tasks db), task_runs := task_runs db @ []\<rparr>)" for d
    using row assms by (intro keyed_move) (auto intro!: move_edit simp: same_identity_def is_open_def)
  with Some show ?thesis
    by (simp add: mutate_running_task_data_def Let_def db_stay split: option.splits)
qed

end
