(* ===== verification/TaskQueueProps.thy ===== *)
theory TaskQueueProps
  imports TaskQueueLaws
begin

text \<open>
  The properties of the task queue: the step relation of its operations and the states they
  reach, the fencing of finished attempts, the split of a transition into a read and a write,
  recovery, and the functional behaviour of the operations the rest of the program relies on.
\<close>

section \<open>Steps and reachable states\<close>

inductive queue_step :: "taskdb \<Rightarrow> taskdb \<Rightarrow> bool" where
  step_enqueue: "queue_step db (snd (enqueue uuid clk name data ws prio maxr avail tid db))"
| step_enqueue_unique:
    "queue_step db (snd (enqueue_unique uuid clk name data ws prio maxr avail db))"
| step_claim: "queue_step db (snd (claim_next clk now ws_f db))"
| step_complete: "queue_step db (snd (complete rid clk tid' tm res epoch db))"
| step_fail: "queue_step db (snd (fail rid clk tid' err delay tm epoch db))"
| step_fail_permanently: "queue_step db (snd (fail_permanently rid clk tid' err tm epoch db))"
| step_retry: "queue_step db (snd (retry_running_task rid clk tid' err tm epoch db))"
| step_set_process: "queue_step db (snd (set_running_process clk tid' pid req tm epoch db))"
| step_clear_process: "queue_step db (snd (clear_running_process clk tid' tm epoch db))"
| step_touch: "queue_step db (snd (touch_running_task clk tid' tm epoch db))"
| step_request_cancel: "queue_step db (snd (request_cancel rid clk tid' by why tm db))"
| step_finalize: "queue_step db (snd (finalize_cancellation rid clk tid' tm epoch db))"
| step_update_pending: "queue_step db (snd (update_pending_task clk tid' new_data tm new_prio db))"
| step_extend_ints: "queue_step db (snd (extend_running_task_data_int_list clk tid' field vs db))"
| step_extend_objects:
    "queue_step db (snd (extend_running_task_data_object_list clk tid' field vs db))"
| step_clear_keys: "queue_step db (snd (clear_running_task_data_keys clk tid' keys db))"
| step_recover:
    "queue_step db (snd (recover_abandoned_running_tasks rids locked kill clk ws stale now db))"

definition queue_reach :: "taskdb \<Rightarrow> bool" where
  "queue_reach db = queue_step\<^sup>*\<^sup>* empty_taskdb db"

subsection \<open>Recovery is a sequence of moves\<close>

definition only_value_error :: "'a res \<Rightarrow> bool" where
  "only_value_error r = (case r of Inr _ \<Rightarrow> True | Inl e \<Rightarrow> (\<exists>m. e = ValueError m))"

lemma write_transition_error: "only_value_error (fst (write_transition tid epoch f runs db))"
  by (auto simp: only_value_error_def write_transition_def running_task_mismatch_error_def get_task_def Let_def
      split: if_splits option.splits)

lemma recovery_op_error:
  "only_value_error (fst (finalize_cancellation rid clk tid tm epoch db))"
  "only_value_error (fst (fail_permanently rid clk tid err tm epoch db))"
  "only_value_error (fst (fail rid clk tid err delay tm epoch db))"
  "only_value_error (fst (get_task_op tid db))"
  using write_transition_error
  by (auto simp: only_value_error_def finalize_cancellation_def fail_permanently_def fail_def
      fail_write_def get_task_op_def get_task_def running_task_mismatch_error_def Let_def
      split: option.splits)

lemma locked_message: "str_contains ''database is locked'' (py_lower ''database is locked'')"
  by code_simp

lemma retry_under_lock:
  assumes "only_value_error (fst (f db))"
  shows "retry_recovery_transition (under_lock locked f) db =
    (if locked 0 \<and> locked 1 \<and> locked 2 then (Inl (OperationalError ''database is locked''), db)
     else f db)"
proof -
  have pass: "(case f db of (Inl (OperationalError msg), s') \<Rightarrow> g msg s' | r \<Rightarrow> r) = f db" for g
    using assms by (cases "f db") (auto simp: only_value_error_def split: sum.splits py_error.splits)
  show ?thesis
    unfolding retry_recovery_transition_def
    by (simp add: retry_from.simps [of 0] retry_from.simps [of "Suc 0"] retry_from.simps [of 2]
        retry_from.simps [of "Suc (Suc 0)"] under_lock_def locked_message pass numeral_2_eq_2)
qed

lemma snd_get_task_op [simp]: "snd (get_task_op tid db) = db"
  by (simp add: get_task_op_def)

lemma recovery_transition_move:
  assumes "distinct (map t_id (tasks db))"
  shows "db_move db (snd (recovery_transition rid locked current act t db))"
  using assms
  by (cases act) (simp_all add: recovery_transition_def retry_under_lock recovery_op_error db_stay
      finalize_cancellation_move fail_permanently_move fail_move)

lemma recover_loop_moves:
  "db_ok db \<Longrightarrow> db_move\<^sup>*\<^sup>* db (snd (recover_loop rid locked kill current stale ts acc db))"
proof (induction ts arbitrary: acc db)
  case Nil
  then show ?case by simp
next
  case (Cons t ts)
  let ?act = "recovery_action kill current stale t"
  have move: "db_move db (snd (recovery_transition rid locked current ?act t db))"
    using recovery_transition_move db_okD(1) [OF Cons.prems] .
  have ok: "db_ok (snd (recovery_transition rid locked current ?act t db))"
    using move Cons.prems by (rule db_move_ok)
  show ?case
  proof (cases "?act = Leave")
    case True
    then show ?thesis using Cons by simp
  next
    case False
    then have step: "snd (recover_loop rid locked kill current stale (t # ts) acc db) =
      (case recovery_transition rid locked current ?act t db of
         (Inl e, db') \<Rightarrow> db'
       | (Inr r, db') \<Rightarrow> snd (recover_loop rid locked kill current stale ts (acc @ [r]) db'))"
      by (cases ?act) (simp_all split: prod.splits sum.splits)
    show ?thesis
    proof (cases "recovery_transition rid locked current ?act t db")
      case (Pair res db')
      with move ok have m: "db_move db db'" and o: "db_ok db'" by simp_all
      show ?thesis
      proof (cases res)
        case (Inl e)
        with step Pair m show ?thesis by (simp add: r_into_rtranclp)
      next
        case (Inr r)
        with step Pair m Cons.IH [OF o] show ?thesis
          by (simp add: converse_rtranclp_into_rtranclp)
      qed
    qed
  qed
qed

lemma queue_step_moves: "queue_step db db' \<Longrightarrow> db_ok db \<Longrightarrow> db_move\<^sup>*\<^sup>* db db'"
proof (induction rule: queue_step.induct)
  case (step_recover db rids locked kill clk ws stale now)
  then show ?case by (simp add: recover_abandoned_running_tasks_def Let_def recover_loop_moves)
next
  case (step_extend_ints db clk tid' field vs)
  then show ?case
    by (simp add: extend_running_task_data_int_list_def Let_def r_into_rtranclp
        mutate_running_task_data_move db_okD(1))
next
  case (step_extend_objects db clk tid' field vs)
  then show ?case
    by (simp add: extend_running_task_data_object_list_def Let_def r_into_rtranclp
        mutate_running_task_data_move db_okD(1))
next
  case (step_clear_keys db clk tid' keys)
  then show ?case
    by (simp add: clear_running_task_data_keys_def Let_def r_into_rtranclp
        mutate_running_task_data_move db_okD(1))
qed (rule r_into_rtranclp; blast intro: enqueue_move enqueue_unique_move claim_next_move complete_move
      fail_move fail_permanently_move retry_running_task_move set_running_process_move
      clear_running_process_move touch_running_task_move request_cancel_move
      finalize_cancellation_move update_pending_task_move db_okD(1))+

lemma moves_ok: "db_move\<^sup>*\<^sup>* db db' \<Longrightarrow> db_ok db \<Longrightarrow> db_ok db'"
  by (induction rule: rtranclp_induct) (auto intro: db_move_ok)

lemma queue_steps_moves: "queue_step\<^sup>*\<^sup>* db db' \<Longrightarrow> db_ok db \<Longrightarrow> db_move\<^sup>*\<^sup>* db db'"
proof (induction rule: rtranclp_induct)
  case base
  then show ?case by simp
next
  case (step y z)
  then have "db_move\<^sup>*\<^sup>* db y" by simp
  moreover from this step.prems have "db_ok y" by (rule moves_ok)
  with step.hyps(2) have "db_move\<^sup>*\<^sup>* y z" by (rule queue_step_moves)
  ultimately show ?case by (rule rtranclp_trans)
qed

lemma queue_steps_ok: "queue_step\<^sup>*\<^sup>* db db' \<Longrightarrow> db_ok db \<Longrightarrow> db_ok db'"
  using queue_steps_moves moves_ok by blast

lemma reach_ok: "queue_reach db \<Longrightarrow> db_ok db"
  unfolding queue_reach_def using queue_steps_ok db_ok_empty by blast

section \<open>Attempts\<close>

text \<open>The attempt of a task with epoch \<open>e\<close> is over once the task has left \<open>running\<close> or moved on
  to a later epoch.\<close>

definition attempt_over :: "int \<Rightarrow> task \<Rightarrow> bool" where
  "attempt_over e t = (e < t_epoch t \<or> e = t_epoch t \<and> t_status t \<noteq> Running)"

definition same_attempt :: "task \<Rightarrow> task \<Rightarrow> bool" where
  "same_attempt t t' = (t_status t' = Running \<and> t_epoch t' = t_epoch t \<and> same_identity t t'
     \<and> t_retries t' = t_retries t \<and> t_claimed_at t' = t_claimed_at t
     \<and> t_started_at t' = t_started_at t)"

lemma task_move_over: "task_move t t' runs \<Longrightarrow> attempt_over e t \<Longrightarrow> attempt_over e t'"
  by (induction rule: task_move.induct) (auto simp: attempt_over_def terminal_def)

lemma task_move_attempt:
  "task_move t t' runs \<Longrightarrow> same_attempt t0 t \<Longrightarrow> same_attempt t0 t' \<or> attempt_over (t_epoch t0) t'"
  by (induction rule: task_move.induct)
    (auto simp: attempt_over_def same_attempt_def same_identity_def terminal_def)

lemma not_terminal_move: "task_move t t' runs \<Longrightarrow> \<not> terminal t"
  by (induction rule: task_move.induct) (auto simp: terminal_def)

lemma same_id_same_row:
  "db_ok db \<Longrightarrow> t \<in> set (tasks db) \<Longrightarrow> s \<in> set (tasks db) \<Longrightarrow> t_id t = t_id s \<Longrightarrow> t = s"
  using db_okD(1) by (auto simp: distinct_map dest: inj_onD)

text \<open>A row is never deleted: after a move there is exactly one row with its key, the row itself
  or the result of a move of it.\<close>

lemma db_move_row:
  assumes "db_move db db'" and "db_ok db" and "t \<in> set (tasks db)"
  shows "\<exists>t' \<in> set (tasks db'). t_id t' = t_id t \<and> (t' = t \<or> (\<exists>runs. task_move t t' runs))"
  using assms
proof (induction rule: db_move.induct)
  case (db_row row db p f runs)
  show ?case
  proof (cases "t = row")
    case True
    have "f row \<in> set (update_where p f (tasks db))"
      using db_row.hyps(1,2) unfolding in_update_where by (intro bexI [of _ row]) simp_all
    moreover have "t_id (f row) = t_id t" using db_row.hyps(4) [of row] True by simp
    moreover have "task_move t (f row) runs" using db_row.hyps(5) True by simp
    ultimately show ?thesis by (intro bexI [of _ "f row"]) auto
  next
    case False
    have "\<not> p t"
    proof
      assume "p t"
      then have "t_id t = t_id row" by (rule db_row.hyps(3))
      with same_id_same_row [OF db_row.prems(1,2) db_row.hyps(1)] False show False by blast
    qed
    then have "t \<in> set (update_where p f (tasks db))" using db_row.prems by (auto simp: in_update_where)
    then show ?thesis by auto
  qed
qed auto

lemma moves_row_inv:
  assumes "db_move\<^sup>*\<^sup>* db db'" and "db_ok db" and "t \<in> set (tasks db)" and "P t"
    and "\<And>s s' runs. task_move s s' runs \<Longrightarrow> P s \<Longrightarrow> P s'"
  shows "\<exists>t' \<in> set (tasks db'). t_id t' = t_id t \<and> P t'"
  using assms(1)
proof (induction rule: rtranclp_induct)
  case base
  with assms show ?case by blast
next
  case (step y z)
  then obtain t' where t': "t' \<in> set (tasks y)" "t_id t' = t_id t" "P t'" by blast
  have "db_ok y" using step.hyps(1) assms(2) by (rule moves_ok)
  with db_move_row [OF step.hyps(2) _ t'(1)] obtain t'' where
    "t'' \<in> set (tasks z)" "t_id t'' = t_id t'" "t'' = t' \<or> (\<exists>runs. task_move t' t'' runs)" by blast
  with t' assms(5) show ?case by metis
qed

lemma moves_over:
  assumes "db_move\<^sup>*\<^sup>* db db'" and "db_ok db" and "t \<in> set (tasks db)" and "attempt_over e t"
  shows "\<exists>t' \<in> set (tasks db'). t_id t' = t_id t \<and> attempt_over e t'"
  using assms by (rule moves_row_inv) (rule task_move_over)

lemma over_no_row:
  assumes "db_ok db" and "t \<in> set (tasks db)" and "attempt_over e t"
  shows "get_running_task_row (t_id t) (Some e) db = None"
proof (cases "get_running_task_row (t_id t) (Some e) db")
  case (Some row)
  then have "row \<in> set (tasks db)" "running_guard (t_id t) (Some e) row"
    using get_running_task_rowD by blast+
  moreover from this have "t_id row = t_id t" using running_guardD by blast
  then have "row = t"
    using same_id_same_row [OF assms(1) _ assms(2)] \<open>row \<in> set (tasks db)\<close> by blast
  ultimately show ?thesis using assms(3) by (auto simp: running_guard_def attempt_over_def)
qed

lemma moves_attempt:
  assumes "db_move\<^sup>*\<^sup>* db db'" and "db_ok db" and "t \<in> set (tasks db)" and "t_status t = Running"
  shows "\<exists>t' \<in> set (tasks db'). t_id t' = t_id t \<and> (same_attempt t t' \<or> attempt_over (t_epoch t) t')"
  using assms(1,2,3)
proof (rule moves_row_inv)
  show "same_attempt t t \<or> attempt_over (t_epoch t) t"
    using assms(4) by (simp add: same_attempt_def same_identity_def)
  show "same_attempt t s' \<or> attempt_over (t_epoch t) s'"
    if "task_move s s' runs" "same_attempt t s \<or> attempt_over (t_epoch t) s" for s s' runs
    using that task_move_attempt task_move_over by blast
qed

lemma py_str_int_digits: "py_str_int 0 = ''0''" "py_str_int 1 = ''1''"
  by code_simp+

lemma update_where_key_map:
  assumes ok: "db_ok db" and row: "row \<in> set (tasks db)" "p row"
    and key: "\<And>s. p s \<Longrightarrow> t_id s = t_id row"
  shows "update_where p f (tasks db) = map (\<lambda>s. if s = row then f row else s) (tasks db)"
  unfolding update_where_def
proof (rule map_cong [OF refl])
  fix s assume s: "s \<in> set (tasks db)"
  show "(if p s then f s else s) = (if s = row then f row else s)"
  proof (cases "s = row")
    case False
    then have "\<not> p s" using same_id_same_row [OF ok s row(1)] key by blast
    with False show ?thesis by simp
  qed (simp add: row)
qed

subsection \<open>Open tasks\<close>

lemma find_open_task_SomeD:
  "find_open_task name ws db = Some t \<Longrightarrow> t \<in> set (tasks db) \<and> open_named name t \<and> t_workspace t = ws"
proof -
  assume "find_open_task name ws db = Some t"
  then have "t \<in> set (list_open_tasks name ws db)"
    by (simp add: find_open_task_def split: list.splits)
  then show ?thesis by (simp add: list_open_tasks_def)
qed

lemma find_open_task_None_iff:
  "find_open_task name ws db = None \<longleftrightarrow>
     \<not> (\<exists>t \<in> set (tasks db). open_named name t \<and> t_workspace t = ws)"
proof -
  have "find_open_task name ws db = None \<longleftrightarrow> list_open_tasks name ws db = []"
    by (simp add: find_open_task_def split: list.splits)
  then show ?thesis by (auto simp: list_open_tasks_def filter_empty_conv)
qed

lemma find_append_new:
  "i \<notin> t_id ` set ts \<Longrightarrow> t_id t = i \<Longrightarrow> List.find (\<lambda>t. t_id t = i) (ts @ [t]) = Some t"
  by (induction ts) auto

lemma get_task_append:
  "i \<notin> t_id ` set (tasks db) \<Longrightarrow> t_id t = i \<Longrightarrow> get_task i (db\<lparr>tasks := tasks db @ [t]\<rparr>) = Inr t"
  by (simp add: get_task_def find_append_new)

lemma enqueue_Inr:
  assumes "enqueue uuid clk name data ws prio maxr avail tid db = (Inr t, db')"
  shows "tasks db' = tasks db @ [t] \<and> task_runs db' = task_runs db \<and> fresh_pending t
    \<and> t_name t = py_strip name \<and> t_workspace t = ws \<and> t_data t = dict_sort data
    \<and> t_priority t = prio \<and> t_available_at t = now_or avail clk
    \<and> t_id t = str_or tid uuid \<and> t_id t \<notin> t_id ` set (tasks db)"
  using assms by (auto simp: enqueue_def Let_def get_task_append fresh_pending_def split: if_splits)

lemma enqueue_Inl: "enqueue uuid clk name data ws prio maxr avail tid db = (Inl e, db') \<Longrightarrow> db' = db"
  by (auto simp: enqueue_def Let_def get_task_append split: if_splits)

lemma enqueue_unique_new:
  assumes "find_open_task name ws db = None"
  shows "enqueue_unique uuid clk name data ws prio maxr avail db =
    (case enqueue uuid clk name data ws prio maxr avail None db of
       (Inl e, db') \<Rightarrow> (Inl e, db') | (Inr t, db') \<Rightarrow> (Inr (t, True), db'))"
proof (cases "enqueue uuid clk name data ws prio maxr avail None db")
  case (Pair r db')
  then show ?thesis
    using assms by (auto simp: enqueue_unique_def dest!: enqueue_Inl split: sum.splits py_error.splits)
qed

section \<open>A concrete queue\<close>

text \<open>One cleanup task, submitted at time 10 and claimed at time 20: the state the witnesses use.\<close>

definition demo_pending :: taskdb where
  "demo_pending = snd (enqueue ''a'' 10 ''sweeper'' [(''k'', JInt 1)] None 90 3 None None empty_taskdb)"

definition demo_running :: taskdb where
  "demo_running = snd (claim_next 20 None AnyWs demo_pending)"

definition demo_task :: task where
  "demo_task = \<lparr>t_id = ''a'', t_name = ''sweeper'', t_data = [(''k'', JInt 1)], t_workspace = None,
     t_status = Pending, t_epoch = 0, t_priority = 90, t_retries = 0, t_max_retries = 3,
     t_created_at = 10, t_updated_at = 10, t_available_at = 10, t_claimed_at = None,
     t_started_at = None, t_completed_at = None, t_last_error = None, t_pid = None,
     t_request_id = None, t_cancel_requested_at = None, t_cancelled_at = None,
     t_cancel_reason = None, t_cancelled_by = None\<rparr>"

lemma demo_pending_eq: "demo_pending = \<lparr>tasks = [demo_task], task_runs = []\<rparr>"
  by (simp add: demo_pending_def demo_task_def enqueue_def empty_taskdb_def Let_def blank_def
      py_strip_def py_isspace_def str_or_def dict_sort_def now_or_def)

lemma demo_running_eq: "demo_running = \<lparr>tasks = [claim_update 20 demo_task], task_runs = []\<rparr>"
  by (simp add: demo_running_def demo_pending_eq claim_next_def Let_def now_or_def claimable_def
      cleanup_running_def order_by_def claim_update_def demo_task_def)

lemma demo_reach: "queue_reach demo_pending" "queue_reach demo_running"
proof -
  show p: "queue_reach demo_pending"
    unfolding queue_reach_def demo_pending_def by (intro r_into_rtranclp step_enqueue)
  then show "queue_reach demo_running"
    unfolding queue_reach_def demo_running_def by (rule rtranclp.rtrancl_into_rtrancl) (rule step_claim)
qed

lemma demo_ok: "db_ok demo_pending" "db_ok demo_running"
  using demo_reach reach_ok by blast+

lemma demo_row: "get_running_task_row ''a'' (Some 1) demo_running = Some (claim_update 20 demo_task)"
  by (simp add: demo_running_eq get_running_task_row_def running_guard_def claim_update_def demo_task_def)

section \<open>Properties\<close>

text \<open>C1. In every state the operations reach from an empty database, in whatever order and with
  whatever arguments they are called, the queue is well formed: task identifiers are unique;
  a pending task carries no claim, process or cancellation mark, a running one has a claim and
  no completion, a finished one has a completion and no process; retries stay below the limit
  until a task fails for good; every attempt that ended left exactly one run in \<open>task_runs\<close>;
  and at most one cleanup task runs.\<close>

theorem queue_invariant: "queue_reach db \<Longrightarrow> db_ok db"
  by (rule reach_ok)

theorem queue_invariant_witness: "db_ok demo_running"
  by (rule queue_invariant) (rule demo_reach)

text \<open>C2. All maintenance work shares one execution lane: two cleanup tasks that both run are the
  same task, in every reachable state.\<close>

theorem cleanup_lane_exclusive:
  assumes "queue_reach db" and "t \<in> set (tasks db)" and "s \<in> set (tasks db)"
    and "t_status t = Running" and "t_status s = Running"
    and "is_cleanup (t_name t)" and "is_cleanup (t_name s)"
  shows "t = s"
proof -
  have ok: "db_ok db" using assms(1) by (rule reach_ok)
  then have "t_id t = t_id s"
    using db_okD(5) assms unfolding lane_ok_def on_cleanup_lane_def by blast
  with ok assms(2,3) show ?thesis by (rule same_id_same_row)
qed

theorem cleanup_lane_exclusive_witness:
  "queue_reach demo_running \<and> claim_update 20 demo_task = claim_update 20 demo_task"
proof
  show r: "queue_reach demo_running" by (rule demo_reach)
  show "claim_update 20 demo_task = claim_update 20 demo_task"
    by (rule cleanup_lane_exclusive [OF r])
      (simp_all add: demo_running_eq claim_update_def demo_task_def is_cleanup_def MAINTENANCE_TASK_NAMES_def)
qed

text \<open>C4. \<open>claim_next\<close> takes the claimable task of least priority value and, among those, the
  oldest: it is pending, due, in the asked workspace, and not a cleanup task while another
  cleanup task runs. The claim raises its epoch, starts it and leaves every other task as it
  was; \<open>None\<close> is returned, with nothing changed, exactly when no task is claimable.\<close>

theorem claim_next_spec:
  assumes "db_ok db"
  shows "case claim_next clk now ws db of
      (None, db') \<Rightarrow> db' = db \<and> (\<forall>t \<in> set (tasks db). \<not> claimable db (now_or now clk) ws t)
    | (Some t', db') \<Rightarrow> (\<exists>t \<in> set (tasks db). claimable db (now_or now clk) ws t
        \<and> (\<forall>s \<in> set (tasks db). claimable db (now_or now clk) ws s
             \<longrightarrow> (t_priority t, t_created_at t) \<le> (t_priority s, t_created_at s))
        \<and> t_id t' = t_id t \<and> t_status t' = Running \<and> t_epoch t' = t_epoch t + 1
        \<and> t_claimed_at t' = Some (now_or now clk)
        \<and> set (tasks db') = insert t' (set (tasks db) - {t}) \<and> task_runs db' = task_runs db)"
  using db_okD(1) [OF assms]
proof (cases rule: claim_next_cases [where clk = clk and now = now and ws = ws])
  case none
  then show ?thesis by simp
next
  case (claimed row)
  have "set (update_where (\<lambda>t. t_id t = t_id row \<and> t_status t = Pending)
      (claim_update (now_or now clk)) (tasks db)) =
      insert (claim_update (now_or now clk) row) (set (tasks db) - {row})"
    using db_okD(1) [OF assms] claimed(1,2)
    by (intro set_update_where_key [where k = t_id]) (auto simp: claimable_def)
  then show ?thesis
    using claimed by (auto intro!: bexI [of _ row] simp: claim_update_def)
qed

theorem claim_next_spec_witness:
  "db_ok demo_pending \<and> t_epoch (the (fst (claim_next 20 None AnyWs demo_pending))) = 1"
proof
  show "db_ok demo_pending" by (rule demo_ok)
  have "claim_next 20 None AnyWs demo_pending = (Some (claim_update 20 demo_task), demo_running)"
    by (simp add: demo_running_eq demo_pending_eq claim_next_def Let_def now_or_def claimable_def
      cleanup_running_def order_by_def claim_update_def demo_task_def)
  then show "t_epoch (the (fst (claim_next 20 None AnyWs demo_pending))) = 1"
    using claim_next_spec [where clk = 20 and now = None and ws = AnyWs, OF demo_ok(1)]
    by (auto simp: demo_pending_eq demo_task_def)
qed

text \<open>C3. Fencing: once an attempt is over, because the task left \<open>running\<close> or was claimed
  again, no later operation that carries the attempt's epoch has any effect. Whatever other
  operations ran in between, completing, failing, retrying, cancelling, supervising or
  touching the task with that epoch raises the mismatch error and leaves the database as it is.\<close>

theorem finished_attempt_fenced:
  assumes "db_ok db" and "t \<in> set (tasks db)" and "e < t_epoch t \<or> e = t_epoch t \<and> t_status t \<noteq> Running"
    and "queue_step\<^sup>*\<^sup>* db db'"
  shows "\<forall>op \<in> {complete rid clk (t_id t) tm res (Some e), fail rid clk (t_id t) err delay tm (Some e),
      fail_permanently rid clk (t_id t) err tm (Some e), retry_running_task rid clk (t_id t) err tm (Some e),
      finalize_cancellation rid clk (t_id t) tm (Some e), set_running_process clk (t_id t) pid req tm (Some e),
      touch_running_task clk (t_id t) tm (Some e)}.
    op db' = (Inl (running_task_mismatch_error (t_id t) (Some e)), db')"
proof -
  have over: "attempt_over e t" using assms(3) by (simp add: attempt_over_def)
  have moves: "db_move\<^sup>*\<^sup>* db db'" using assms(4,1) by (rule queue_steps_moves)
  then obtain t' where "t' \<in> set (tasks db')" "t_id t' = t_id t" "attempt_over e t'"
    using moves_over assms(1,2) over by blast
  moreover have "db_ok db'" using moves assms(1) by (rule moves_ok)
  ultimately have none: "get_running_task_row (t_id t) (Some e) db' = None"
    using over_no_row by metis
  show ?thesis
    by (simp add: none complete_def fail_def fail_permanently_def retry_running_task_def
        finalize_cancellation_def set_running_process_def touch_running_task_def
        write_transition_mismatch [OF none] Let_def)
qed

theorem finished_attempt_fenced_witness:
  "complete ''r'' 30 ''a'' None NoResult (Some 0) demo_running =
     (Inl (ValueError ''Task a is not running for execution epoch 0''), demo_running)"
proof -
  have "claim_update 20 demo_task \<in> set (tasks demo_running)" by (simp add: demo_running_eq)
  moreover have "0 < t_epoch (claim_update 20 demo_task)" by (simp add: claim_update_def demo_task_def)
  ultimately have "complete ''r'' 30 (t_id (claim_update 20 demo_task)) None NoResult (Some 0) demo_running =
      (Inl (running_task_mismatch_error (t_id (claim_update 20 demo_task)) (Some 0)), demo_running)"
    using finished_attempt_fenced [where e = 0 and db' = demo_running, OF demo_ok(2)] by blast
  then show ?thesis
    by (simp add: claim_update_def demo_task_def running_task_mismatch_error_def py_str_int_digits)
qed

text \<open>Completed, failed and cancelled are final: the row of a finished task is never changed
  by any later operation.\<close>

lemma terminal_frozen:
  assumes "db_ok db" and "t \<in> set (tasks db)" and "t_status t \<in> {Completed, Failed, Cancelled}"
    and "queue_step\<^sup>*\<^sup>* db db'"
  shows "t \<in> set (tasks db')"
proof -
  have moves: "db_move\<^sup>*\<^sup>* db db'" using assms(4,1) by (rule queue_steps_moves)
  have "\<exists>t' \<in> set (tasks db'). t_id t' = t_id t \<and> t' = t"
  proof (rule moves_row_inv [OF moves assms(1,2)])
    show "s' = t" if "task_move s s' runs" "s = t" for s s' runs
      using not_terminal_move [OF that(1)] that(2) assms(3) by (simp add: terminal_def)
  qed simp
  then show ?thesis by blast
qed

definition demo_done :: taskdb where
  "demo_done = snd (complete ''r'' 30 ''a'' None NoResult (Some 1) demo_running)"

lemma demo_done_ok: "db_ok demo_done"
  unfolding demo_done_def
  by (rule db_move_ok [OF complete_move demo_ok(2)]) (rule db_okD(1) [OF demo_ok(2)])

lemma demo_done_tasks: "tasks demo_done = [complete_update 30 (claim_update 20 demo_task)]"
  by (simp add: demo_done_def complete_def get_running_task_row_def complete_write_def write_transition_def now_or_def
      demo_running_eq running_guard_def claim_update_def demo_task_def complete_update_def Let_def)

theorem terminal_frozen_witness:
  "complete_update 30 (claim_update 20 demo_task) \<in> set (tasks (snd (claim_next 40 None AnyWs demo_done)))"
  by (rule terminal_frozen [OF demo_done_ok])
    (auto simp: demo_done_tasks complete_update_def intro: r_into_rtranclp step_claim)

text \<open>C29. A transition reads the running row, then writes under the same guard; other operations
  may run between the two. With the caller's epoch in the guard the pair is atomic all the same:
  the late write does exactly what the whole operation would do at that moment, which is to
  finish the attempt from its current row or to be refused.\<close>

theorem split_write_linearizes:
  assumes "db_ok db0" and "get_running_task_row tid (Some e) db0 = Some row"
    and "queue_step\<^sup>*\<^sup>* db0 db1"
  shows "complete_write rid clk tid now d (Some e) row db1 =
      complete rid clk tid (Some now) (ResultMapping d) (Some e) db1
    \<and> fail_write rid clk tid err delay now (Some e) row db1 =
      fail rid clk tid err delay (Some now) (Some e) db1"
proof -
  have moves: "db_move\<^sup>*\<^sup>* db0 db1" using assms(3,1) by (rule queue_steps_moves)
  have row: "row \<in> set (tasks db0)" "t_id row = tid" "t_status row = Running" "t_epoch row = e"
    using get_running_task_rowD [OF assms(2)] by (auto simp: running_guard_def)
  obtain t' where t': "t' \<in> set (tasks db1)" "t_id t' = tid"
      and cases: "same_attempt row t' \<or> attempt_over e t'"
    using moves_attempt [OF moves assms(1) row(1,3)] row by auto
  have ok: "db_ok db1" using moves assms(1) by (rule moves_ok)
  show ?thesis
  proof (cases "attempt_over e t'")
    case True
    then have none: "get_running_task_row tid (Some e) db1 = None"
      using over_no_row [OF ok t'(1)] t'(2) by simp
    then show ?thesis
      by (simp add: complete_write_def fail_write_def complete_def fail_def
          write_transition_mismatch [OF none] Let_def)
  next
    case False
    with cases have same: "same_attempt row t'" by blast
    then have guard: "running_guard tid (Some e) t'"
      using t'(2) row(4) by (simp add: running_guard_def same_attempt_def)
    have now_row: "get_running_task_row tid (Some e) db1 = Some t'"
      using db_okD(1) [OF ok] t'(1) guard by (rule get_running_task_rowI)
    have agree: "t_name t' = t_name row" "t_workspace t' = t_workspace row"
      "run_start clk now t' = run_start clk now row" "t_retries t' = t_retries row"
      "t_max_retries t' = t_max_retries row"
      using same by (simp_all add: same_attempt_def same_identity_def run_start_def)
    have "fail_update now delay err t' = fail_update now delay err row"
      by (rule ext) (simp add: fail_update_def agree)
    then show ?thesis
      by (simp add: complete_write_def fail_write_def complete_def fail_def now_row now_or_def agree Let_def)
  qed
qed

theorem split_write_linearizes_witness:
  "complete_write ''s'' 31 ''a'' 31 [] (Some 1) (claim_update 20 demo_task) demo_done =
     (Inl (ValueError ''Task a is not running for execution epoch 1''), demo_done)"
proof -
  have steps: "queue_step\<^sup>*\<^sup>* demo_running demo_done"
    unfolding demo_done_def by (intro r_into_rtranclp step_complete)
  have "get_running_task_row ''a'' (Some 1) demo_done = None"
    by (simp add: get_running_task_row_def demo_done_tasks running_guard_def complete_update_def)
  then show ?thesis
    using split_write_linearizes [OF demo_ok(2) demo_row steps, of "''s''" 31 31 "[]"]
    by (simp add: complete_def running_task_mismatch_error_def py_str_int_digits)
qed

text \<open>C30. \<open>fail\<close> ends the attempt and spends one retry: below the limit the task goes back to
  pending, due after the delay and free of its claim; at the limit it fails for good. Either
  way one run with the error is recorded, from the claim to the failure, and no other task
  changes; the retries never pass the limit (or 1, where the limit is below 1).\<close>

theorem fail_outcome:
  assumes ok: "db_ok db" and row: "get_running_task_row tid epoch db = Some row"
  shows "\<exists>t' r db'. fail rid clk tid err delay tm epoch db = (Inr t', db')
    \<and> set (tasks db') = insert t' (set (tasks db) - {row}) \<and> task_runs db' = task_runs db @ [r]
    \<and> t_retries t' = t_retries row + 1 \<and> t_claimed_at t' = None \<and> t_last_error t' = Some err
    \<and> r_task_id r = tid \<and> r_error r = Some err \<and> Some (r_started_at r) = t_claimed_at row
    \<and> r_completed_at r = now_or tm clk
    \<and> (if t_retries row + 1 < t_max_retries row
       then t_status t' = Pending \<and> t_available_at t' = now_or tm clk + delay
            \<and> t_completed_at t' = None \<and> r_status r = RunRetry
       else t_status t' = Failed \<and> t_completed_at t' = Some (now_or tm clk) \<and> r_status r = RunFailed)
    \<and> t_retries t' \<le> max 1 (t_max_retries t')"
proof -
  let ?now = "now_or tm clk"
  let ?run = "make_task_run rid tid (t_name row) (t_workspace row)
     (if t_retries row + 1 \<ge> t_max_retries row then RunFailed else RunRetry)
     (run_start clk ?now row) ?now [] (Some err)"
  note mem = conjunct1 [OF get_running_task_rowD [OF row]]
  have good: "task_ok row" using ok mem by (rule db_okD(2))
  then obtain c where claim: "t_claimed_at row = Some c" and budget: "t_retries row = 0 \<or> t_retries row < t_max_retries row"
    using get_running_task_row_id [OF row] by (auto simp: task_ok_cases)
  have ids: "t_id (fail_update ?now delay err row s) = t_id s" for s
    by (simp add: fail_update_def Let_def)
  have eq: "fail rid clk tid err delay tm epoch db = (Inr (fail_update ?now delay err row row),
      db\<lparr>tasks := update_where (running_guard tid epoch) (fail_update ?now delay err row) (tasks db),
         task_runs := task_runs db @ [?run]\<rparr>)"
    using write_transition_eq [where f = "fail_update ?now delay err row" and runs = "[?run]",
        OF db_okD(1) [OF ok] row ids]
    by (simp add: fail_def row fail_write_def Let_def)
  have "set (update_where (running_guard tid epoch) (fail_update ?now delay err row) (tasks db)) =
      insert (fail_update ?now delay err row row) (set (tasks db) - {row})"
    using db_okD(1) [OF ok] mem get_running_task_rowD [OF row]
    by (intro set_update_where_key [where k = t_id]) (auto dest: running_guardD)
  then show ?thesis
    using claim budget unfolding eq
    by (auto simp: fail_update_def Let_def make_task_run_def run_start_def coalesce_float_def)
qed

theorem fail_outcome_witness:
  "\<exists>t' db'. fail ''r'' 30 ''a'' ''boom'' 5 None (Some 1) demo_running = (Inr t', db')
     \<and> t_status t' = Pending \<and> t_available_at t' = 35 \<and> t_retries t' = 1"
  using fail_outcome [OF demo_ok(2) demo_row, of "''r''" 30 "''boom''" 5 None]
  by (auto simp: claim_update_def demo_task_def now_or_def)

text \<open>\<open>enqueue_unique\<close> hands back an open task of that name and workspace: the one there was,
  with nothing changed, or a new one if there was none; and then calling it again, with
  whatever other arguments, creates nothing. (The name must come without surrounding space:
  \<open>enqueue\<close> stores it stripped and \<open>find_open_task\<close> looks for it as given.)\<close>

lemma enqueue_unique_idempotent:
  assumes name: "py_strip name = name"
    and res: "enqueue_unique uuid clk name data ws prio maxr avail db = (Inr (t, created), db')"
  shows "t \<in> set (tasks db') \<and> open_named name t \<and> t_workspace t = ws
    \<and> (created \<longleftrightarrow> \<not> (\<exists>s \<in> set (tasks db). open_named name s \<and> t_workspace s = ws))
    \<and> (if created then tasks db' = tasks db @ [t] else db' = db)
    \<and> (\<exists>s. enqueue_unique uuid' clk' name data' ws prio' maxr' avail' db' = (Inr (s, False), db'))"
proof -
  have main: "t \<in> set (tasks db') \<and> open_named name t \<and> t_workspace t = ws
    \<and> (created \<longleftrightarrow> \<not> (\<exists>s \<in> set (tasks db). open_named name s \<and> t_workspace s = ws))
    \<and> (if created then tasks db' = tasks db @ [t] else db' = db)"
  proof (cases "find_open_task name ws db")
    case (Some s)
    then have "t = s" "\<not> created" "db' = db" using res by (simp_all add: enqueue_unique_def)
    with Some show ?thesis using find_open_task_SomeD find_open_task_None_iff [of name ws db] by auto
  next
    case None
    have enq: "enqueue uuid clk name data ws prio maxr avail None db = (Inr t, db')" and created
      using res unfolding enqueue_unique_new [OF None] by (simp_all split: prod.splits sum.splits)
    note new = enqueue_Inr [OF enq]
    have "t_workspace t = ws" using new by blast
    have "t_name t = name" using new name by (simp only:)
    then have "open_named name t" using new by (auto simp: open_named_def is_open_def fresh_pending_def)
    moreover have "t \<in> set (tasks db')" using new by (simp only: set_append) simp
    ultimately show ?thesis
      using conjunct1 [OF new] None [unfolded find_open_task_None_iff] \<open>created\<close>
        \<open>t_workspace t = ws\<close> by simp
  qed
  then have "find_open_task name ws db' \<noteq> None"
    unfolding find_open_task_None_iff by blast
  then obtain s where "find_open_task name ws db' = Some s" by blast
  with main show ?thesis by (simp add: enqueue_unique_def)
qed

theorem enqueue_unique_idempotent_witness:
  "\<exists>s. enqueue_unique ''b'' 11 ''sweeper'' [] None 1 1 None demo_pending = (Inr (s, False), demo_pending)"
proof -
  have strip: "py_strip ''sweeper'' = ''sweeper''" by (simp add: py_strip_def py_isspace_def)
  have res: "enqueue_unique ''a'' 10 ''sweeper'' [] None 90 3 None demo_pending =
      (Inr (demo_task, False), demo_pending)"
    by (simp add: enqueue_unique_def find_open_task_def list_open_tasks_def open_named_def is_open_def
        order_by_def demo_pending_eq demo_task_def)
  show ?thesis using enqueue_unique_idempotent [OF strip res] by blast
qed

text \<open>The padded name shows why: two calls create two open tasks.\<close>

lemma enqueue_unique_padded_name:
  "length (tasks (snd (enqueue_unique ''b'' 11 '' sweeper'' [] None 90 3 None
     (snd (enqueue_unique ''a'' 10 '' sweeper'' [] None 90 3 None empty_taskdb))))) = 2"
  by (simp add: enqueue_unique_def find_open_task_def list_open_tasks_def open_named_def is_open_def
      order_by_def enqueue_def empty_taskdb_def Let_def blank_def py_strip_def py_isspace_def
      str_or_def dict_sort_def now_or_def get_task_def)

end
