(* ===== verification/TaskQueueRecovery.thy ===== *)
theory TaskQueueRecovery
  imports TaskQueueProps
begin

text \<open>
  Recovery after a crash (\<open>recover_abandoned_running_tasks\<close>): what becomes of each running row,
  and that the rows do not influence each other. The rest of the theory covers the two reports
  and the list-valued task fields that the workers extend.
\<close>

section \<open>One row\<close>

text \<open>The row that recovery leaves for a running row.\<close>

definition recovered_row :: "time \<Rightarrow> recovery_action \<Rightarrow> task \<Rightarrow> task" where
  "recovered_row now act t = (case act of
       Leave \<Rightarrow> t
     | FinalizeCancel \<Rightarrow> finalize_update now (str_or (t_cancel_reason t) ''cancelled'') t
     | FailGone pid \<Rightarrow> fail_permanently_update now
         (''Provider subprocess '' @ py_str_int pid @ '' exited unexpectedly'') t
     | FailAbandoned \<Rightarrow> fail_update now 5 ''Task was abandoned without an active provider subprocess'' t t)"

lemma recovered_row_simps [simp]:
  "t_id (recovered_row now act t) = t_id t" "recovered_row now Leave t = t"
  by (cases act; simp add: recovered_row_def finalize_update_def fail_permanently_update_def
      fail_update_def Let_def)+

lemma update_where_row:
  assumes ok: "db_ok db" and row: "t \<in> set (tasks db)" "t_status t = Running"
  shows "update_where (running_guard (t_id t) None) f (tasks db) =
    map (\<lambda>s. if s = t then f t else s) (tasks db)"
  using row by (intro update_where_key_map [OF ok row(1)]) (simp_all add: running_guard_def)

text \<open>The three transitions of recovery on a running row: the row it leaves replaces the row.\<close>

lemma recovery_write:
  assumes ok: "db_ok db" and row: "t \<in> set (tasks db)" "t_status t = Running"
    and ids: "\<And>s. t_id (f s) = t_id s"
  shows "\<exists>db'. write_transition (t_id t) None f runs db = (Inr (f t), db')
    \<and> tasks db' = map (\<lambda>s. if s = t then f t else s) (tasks db)"
proof -
  have "running_guard (t_id t) None t" using row(2) by (simp add: running_guard_def)
  then have "get_running_task_row (t_id t) None db = Some t"
    by (rule get_running_task_rowI [OF db_okD(1) [OF ok] row(1)])
  then show ?thesis
    using write_transition_eq [where f = f, OF db_okD(1) [OF ok] _ ids]
    by (simp add: update_where_row [OF ok row])
qed

lemma recovery_transition_row:
  assumes ok: "db_ok db" and row: "t \<in> set (tasks db)" "t_status t = Running"
    and free: "\<not> (locked (t_id t) 0 \<and> locked (t_id t) 1 \<and> locked (t_id t) 2)"
  shows "\<exists>db'. recovery_transition rid locked now act t db = (Inr (recovered_row now act t), db')
    \<and> tasks db' = map (\<lambda>s. if s = t then recovered_row now act t else s) (tasks db)"
proof -
  have "running_guard (t_id t) None t" using row(2) by (simp add: running_guard_def)
  then have get: "get_running_task_row (t_id t) None db = Some t"
    by (rule get_running_task_rowI [OF db_okD(1) [OF ok] row(1)])
  have pass: "retry_recovery_transition (under_lock (locked (t_id t)) f) db = f db"
    if "only_value_error (fst (f db))" for f :: "task task_op"
    using retry_under_lock [where f = f and locked = "locked (t_id t)", OF that] free by auto
  note run = recovery_transition_def recovery_action.case recovered_row_def
  show ?thesis
  proof (cases act)
    case Leave
    have "get_task_op (t_id t) db = (Inr t, db)"
      by (simp add: get_task_op_def get_task_Some [OF db_okD(1) [OF ok] row(1)])
    moreover have "map (\<lambda>s. if s = t then t else s) (tasks db) = tasks db" by (rule map_idI) simp
    ultimately show ?thesis using pass [OF recovery_op_error(4)] unfolding run Leave by simp
  next
    case FinalizeCancel
    show ?thesis
      unfolding run FinalizeCancel pass [OF recovery_op_error(1)]
      unfolding finalize_cancellation_def get
        now_or_def option.case Let_def
      by (rule recovery_write [OF ok row]) (simp add: finalize_update_def)
  next
    case (FailGone pid)
    show ?thesis
      unfolding run FailGone pass [OF recovery_op_error(2)]
      unfolding fail_permanently_def get
        now_or_def option.case Let_def
      by (rule recovery_write [OF ok row]) (simp add: fail_permanently_update_def)
  next
    case FailAbandoned
    show ?thesis
      unfolding run FailAbandoned pass [OF recovery_op_error(3)]
      unfolding fail_def fail_write_def get
        now_or_def option.case Let_def
      by (rule recovery_write [OF ok row]) (simp add: fail_update_def Let_def)
  qed
qed

section \<open>All rows\<close>

lemma recover_loop_cons:
  assumes "recovery_action kill now stale t \<noteq> Leave"
  shows "recover_loop rid locked kill now stale (t # ts) acc db =
    (case recovery_transition rid locked now (recovery_action kill now stale t) t db of
       (Inl e, db') \<Rightarrow> (Inl e, db')
     | (Inr r, db') \<Rightarrow> recover_loop rid locked kill now stale ts (acc @ [r]) db')"
  using assms by (cases "recovery_action kill now stale t") simp_all

lemma recover_loop_rows:
  assumes "db_ok db" and "distinct (map t_id ts)"
    and "\<forall>t \<in> set ts. t \<in> set (tasks db) \<and> t_status t = Running
      \<and> \<not> (locked (t_id t) 0 \<and> locked (t_id t) 1 \<and> locked (t_id t) 2)"
  shows "\<exists>db'. recover_loop rid locked kill now stale ts acc db =
      (Inr (acc @ map (\<lambda>t. recovered_row now (recovery_action kill now stale t) t)
              (filter (\<lambda>t. recovery_action kill now stale t \<noteq> Leave) ts)), db')
    \<and> tasks db' = map (\<lambda>t. if t \<in> set ts then recovered_row now (recovery_action kill now stale t) t
                          else t) (tasks db)"
  using assms
proof (induction ts arbitrary: acc db)
  case Nil
  then show ?case by simp
next
  case (Cons t ts)
  let ?act = "recovery_action kill now stale"
  let ?rec = "\<lambda>t. recovered_row now (?act t) t"
  show ?case
  proof (cases "?act t = Leave")
    case True
    then have rec: "(if s \<in> set (t # ts) then ?rec s else s) = (if s \<in> set ts then ?rec s else s)" for s
      by (cases "s = t") auto
    show ?thesis using Cons.IH [of db acc] Cons.prems True unfolding rec by simp
  next
    case False
    have t: "t \<in> set (tasks db)" "t_status t = Running"
      "\<not> (locked (t_id t) 0 \<and> locked (t_id t) 1 \<and> locked (t_id t) 2)"
      using Cons.prems(3) by auto
    obtain db1 where step: "recovery_transition rid locked now (?act t) t db = (Inr (?rec t), db1)"
        and tasks1: "tasks db1 = map (\<lambda>s. if s = t then ?rec t else s) (tasks db)"
      using recovery_transition_row [where act = "?act t" and rid = rid and now = now and locked = locked,
          OF Cons.prems(1) t] by blast
    have ok1: "db_ok db1"
      using db_move_ok [OF recovery_transition_move Cons.prems(1)] db_okD(1) [OF Cons.prems(1)] step
      by (metis snd_conv)
    have sep: "s \<noteq> ?rec t" "s \<noteq> t" if "s \<in> set ts" for s
    proof -
      have "t_id s \<noteq> t_id t" using that Cons.prems(2) by (metis distinct.simps(2) imageI list.set_map list.simps(9))
      then show "s \<noteq> ?rec t" "s \<noteq> t" by auto
    qed
    have mem: "s \<in> set (tasks db1)" if "s \<in> set ts" for s
      using that sep(2) [OF that] Cons.prems(3) unfolding tasks1 by force
    obtain db' where loop: "recover_loop rid locked kill now stale ts (acc @ [?rec t]) db1 =
          (Inr ((acc @ [?rec t]) @ map ?rec (filter (\<lambda>t. ?act t \<noteq> Leave) ts)), db')"
        and tasks': "tasks db' = map (\<lambda>t. if t \<in> set ts then ?rec t else t) (tasks db1)"
      using Cons.IH [of db1 "acc @ [?rec t]"] ok1 Cons.prems(2,3) mem by auto
    have "tasks db' = map (\<lambda>s. if s \<in> set (t # ts) then ?rec s else s) (tasks db)"
      unfolding tasks' tasks1 using sep by (auto simp del: recovered_row_simps)
    with loop show ?thesis
      unfolding recover_loop_cons [OF False] by (simp add: step False)
  qed
qed

lemma list_tasks_running:
  "t \<in> set (list_tasks (Some ''running'') ws n db) \<Longrightarrow> t \<in> set (tasks db) \<and> t_status t = Running"
proof -
  assume "t \<in> set (list_tasks (Some ''running'') ws n db)"
  then have "t \<in> set (tasks db)" "status_name (t_status t) = ''running''"
    using set_limit_rows by (fastforce simp: list_tasks_def)+
  then show ?thesis by (cases "t_status t") simp_all
qed

lemma distinct_list_tasks:
  assumes "distinct (map t_id (tasks db))"
  shows "distinct (map t_id (list_tasks status ws n db))"
proof -
  have keys: "distinct (map t_id (filter p (tasks db)))" for p
    using assms by (rule distinct_map_filter)
  then have "distinct (map t_id (order_by k (filter p (tasks db))))" for k :: "task \<Rightarrow> time \<times> time" and p
    unfolding order_by_def distinct_map by simp
  then show ?thesis
    unfolding list_tasks_def limit_rows_def by (simp add: take_map [symmetric])
qed

text \<open>Recovery of abandoned tasks, when no row stays locked through its three attempts, runs
  to the end and treats each running row it listed on its own: a row whose process lives, or
  that was touched lately, is left; one with a cancellation request is cancelled; one whose
  process is gone fails for good; one without a process is retried after five seconds, or fails
  at its limit. Every other row stays as it was, and the recovered rows are returned in the
  order listed.\<close>

lemma recovery_row_by_row:
  assumes "db_ok db"
    and "\<forall>t \<in> set (tasks db). \<not> (locked (t_id t) 0 \<and> locked (t_id t) 1 \<and> locked (t_id t) 2)"
    and "listed = list_tasks (Some ''running'') ws 200 db"
  shows "\<exists>db'. recover_abandoned_running_tasks rid locked kill clk ws stale (Some now) db =
      (Inr (map (\<lambda>t. recovered_row now (recovery_action kill now stale t) t)
         (filter (\<lambda>t. recovery_action kill now stale t \<noteq> Leave) listed)), db')
    \<and> tasks db' = map (\<lambda>t. if t \<in> set listed then recovered_row now (recovery_action kill now stale t) t
                          else t) (tasks db)"
  using recover_loop_rows [where acc = "[]" and ts = listed and rid = rid and locked = locked
      and kill = kill and now = now and stale = stale, OF assms(1)]
    distinct_list_tasks [OF db_okD(1) [OF assms(1)]] list_tasks_running assms(2,3)
  by (simp add: recover_abandoned_running_tasks_def now_or_def)

theorem recovery_row_by_row_witness:
  "\<exists>t db'. recover_abandoned_running_tasks (\<lambda>i. i) (\<lambda>i k. k = 0) (\<lambda>p. KillOk) 99 None 60 (Some 99)
      demo_running = (Inr [t], db') \<and> t_status t = Pending \<and> t_available_at t = 104 \<and> tasks db' = [t]"
proof -
  have listed: "list_tasks (Some ''running'') None 200 demo_running = [claim_update 20 demo_task]"
    by (simp add: list_tasks_def demo_running_eq claim_update_def demo_task_def order_by_def limit_rows_def)
  have act: "recovery_action (\<lambda>p. KillOk) 99 60 (claim_update 20 demo_task) = FailAbandoned"
    by (simp add: recovery_action_def is_stale_def time_or_def claim_update_def demo_task_def Let_def)
  have rec: "t_status (recovered_row 99 FailAbandoned (claim_update 20 demo_task)) = Pending"
    "t_available_at (recovered_row 99 FailAbandoned (claim_update 20 demo_task)) = 104"
    by (simp_all add: recovered_row_def fail_update_def claim_update_def demo_task_def Let_def)
  show ?thesis
    using recovery_row_by_row [where rid = "\<lambda>i. i" and locked = "\<lambda>i k. k = 0" and kill = "\<lambda>p. KillOk"
        and clk = 99 and stale = 60 and now = 99, OF demo_ok(2) _ listed [symmetric]]
    by (auto simp: act rec demo_running_eq)
qed

section \<open>List-valued task fields\<close>

lemma mutate_running_task_data_eq:
  assumes ok: "db_ok db" and row: "row \<in> set (tasks db)" "is_open row"
  shows "mutate_running_task_data clk (t_id row) mutate db = (case mutate (t_data row) of
      None \<Rightarrow> (Inr row, db)
    | Some d \<Rightarrow> (Inr (row\<lparr>t_data := dict_sort d, t_updated_at := clk\<rparr>),
        db\<lparr>tasks := map (\<lambda>s. if s = row then row\<lparr>t_data := dict_sort d, t_updated_at := clk\<rparr> else s)
          (tasks db)\<rparr>))"
proof -
  let ?p = "\<lambda>t. t_id t = t_id row \<and> is_open t"
  note dist = db_okD(1) [OF ok]
  have found: "List.find ?p (tasks db) = Some row"
    using dist row by (intro find_key [where k = t_id]) auto
  have upd: "update_where ?p f (tasks db) = map (\<lambda>s. if s = row then f row else s) (tasks db)" for f
    using row by (intro update_where_key_map [OF ok row(1)]) simp_all
  have "get_task (t_id row) (db\<lparr>tasks := update_where ?p f (tasks db)\<rparr>) = Inr (f row)"
    if "\<And>s. t_id (f s) = t_id s" for f
    using keyed_update(3) [OF dist row(1), of ?p f] row(2) that by (simp add: get_task_def)
  moreover have "rowcount ?p (tasks db) = 1" using dist row by (intro rowcount_key [where k = t_id]) auto
  ultimately have "mutate_running_task_data clk (t_id row) mutate db = (case mutate (t_data row) of
      None \<Rightarrow> (Inr row, db)
    | Some d \<Rightarrow> (Inr (row\<lparr>t_data := dict_sort d, t_updated_at := clk\<rparr>),
        db\<lparr>tasks := update_where ?p (\<lambda>t. t\<lparr>t_data := dict_sort d, t_updated_at := clk\<rparr>) (tasks db)\<rparr>))"
    using get_task_Some [OF dist row(1)]
    by (simp add: mutate_running_task_data_def found Let_def split: option.split)
  then show ?thesis unfolding upd .
qed

lemma json_sort_ints: "json_sort_list (map JInt ns) = map JInt ns"
  by (induction ns) simp_all

lemma py_eq_ints: "py_eq_list (map JInt ns) (map JInt ns)"
  by (induction ns) simp_all

lemma map_filter_ints: "\<forall>n \<in> set ns. 0 < n \<Longrightarrow> List.map_filter positive_int (map JInt ns) = ns"
  by (induction ns) (simp_all add: map_filter_simps)

lemma positive_ints: "n \<in> set (List.map_filter positive_int vs) \<Longrightarrow> 0 < n"
proof (induction vs)
  case (Cons v vs)
  then show ?case by (cases v) (auto simp: map_filter_simps split: if_splits)
qed (simp add: map_filter_simps)

lemma list_field_sort_set:
  assumes "distinct (map fst d)"
  shows "dict_get (dict_sort (dict_set name (JList (map JInt ns)) d)) k =
    (if k = name then Some (JList (map JInt ns)) else map_option json_sort (dict_get d k))"
proof -
  have "distinct (map fst (dict_set name (JList (map JInt ns)) d))"
    using assms unfolding dict_set_def by (rule distinct_update)
  then show ?thesis by (simp add: dict_get_sort json_sort_ints)
qed

lemma extend_int_list_effect:
  assumes ok: "db_ok db" and row: "row \<in> set (tasks db)" "is_open row"
    and keys: "distinct (map fst (t_data row))" and name: "py_strip name \<noteq> []"
    and ints: "List.map_filter positive_int values \<noteq> []"
  shows "\<exists>t' db'. extend_running_task_data_int_list clk (t_id row) name values db = (Inr t', db')
    \<and> tasks db' = map (\<lambda>s. if s = row then t' else s) (tasks db)
    \<and> py_eq_list (map JInt (sorted_list_of_set (set (List.map_filter positive_int values)
          \<union> set (List.map_filter positive_int (list_field (t_data row) name)))))
        (list_field (t_data t') name)
    \<and> (\<forall>k. k \<noteq> name \<longrightarrow> map_option json_sort (dict_get (t_data t') k) =
          map_option json_sort (dict_get (t_data row) k))
    \<and> (t' = row \<or> list_field (t_data t') name = map JInt (sorted_list_of_set
          (set (List.map_filter positive_int values)
            \<union> set (List.map_filter positive_int (list_field (t_data row) name)))))
    \<and> extend_running_task_data_int_list clk' (t_id row) name values db' = (Inr t', db')"
proof -
  define old where "old = List.map_filter positive_int (list_field (t_data row) name)"
  define new where "new = List.map_filter positive_int values"
  define merged where "merged = sort (remdups (old @ new))"
  have merged_set: "merged = sorted_list_of_set (set new \<union> set old)"
    by (simp add: merged_def sorted_list_of_set_sort_remdups [symmetric] Un_commute)
  have op: "extend_running_task_data_int_list c tid name values d =
      mutate_running_task_data c tid (merge_int_list name new) d" for c tid d
    using name ints by (simp add: extend_running_task_data_int_list_def new_def)
  have same: "map (\<lambda>s. if s = row then row else s) (tasks db) = tasks db" by (rule map_idI) simp
  show ?thesis
  proof (cases "py_eq_list (map JInt merged) (list_field (t_data row) name)")
    case True
    then have stay: "merge_int_list name new (t_data row) = None"
      by (simp add: merge_int_list_def merged_def old_def)
    show ?thesis
      using True unfolding op mutate_running_task_data_eq [OF ok row] stay merged_set new_def old_def
      by (intro exI [of _ row] exI [of _ db])
        (simp add: same mutate_running_task_data_eq [OF ok row] stay [unfolded new_def])
  next
    case False
    let ?d = "dict_sort (dict_set name (JList (map JInt merged)) (t_data row))"
    let ?t = "row\<lparr>t_data := ?d, t_updated_at := clk\<rparr>"
    let ?db = "db\<lparr>tasks := map (\<lambda>s. if s = row then ?t else s) (tasks db)\<rparr>"
    have change: "merge_int_list name new (t_data row) = Some (dict_set name (JList (map JInt merged)) (t_data row))"
      using False by (simp add: merge_int_list_def merged_def old_def)
    have first: "mutate_running_task_data clk (t_id row) (merge_int_list name new) db = (Inr ?t, ?db)"
      by (simp add: mutate_running_task_data_eq [OF ok row] change)
    note get = list_field_sort_set [OF keys, of name merged]
    have field: "list_field ?d name = map JInt merged" by (simp add: list_field_def get)
    have pos: "\<forall>n \<in> set merged. 0 < n"
      by (auto simp: merged_def old_def new_def dest: positive_ints)
    have "sort (remdups (merged @ new)) = merged"
      by (simp add: merged_def sorted_list_of_set_sort_remdups [symmetric] insert_absorb Un_ac)
    then have stay: "merge_int_list name new ?d = None"
      unfolding merge_int_list_def field map_filter_ints [OF pos] Let_def by (simp add: py_eq_ints)
    have ok': "db_ok ?db"
      using db_move_ok [OF mutate_running_task_data_move [OF db_okD(1) [OF ok],
          of clk "t_id row" "merge_int_list name new"] ok]
      unfolding first by simp
    have row': "?t \<in> set (tasks ?db)" "is_open ?t" "t_id ?t = t_id row"
      using row by (simp_all add: is_open_def image_iff)
    have second: "mutate_running_task_data clk' (t_id row) (merge_int_list name new) ?db = (Inr ?t, ?db)"
      using mutate_running_task_data_eq [OF ok' row'(1,2), of clk' "merge_int_list name new"] stay by simp
    have others: "map_option json_sort (dict_get ?d k) = map_option json_sort (dict_get (t_data row) k)"
      if "k \<noteq> name" for k
      using that json_sort_idem by (simp add: get option.map_comp comp_def)
    show ?thesis
      unfolding op first using second others field py_eq_ints [of merged]
      by (intro exI [of _ ?t] exI [of _ ?db]) (simp add: merged_set new_def old_def)
  qed
qed

text \<open>Extending an integer list in the data of an open task leaves in that field the
  ascending list of the positive integers that were there or were given, each once, keeps every
  other key, changes no other task, and is idempotent: the same call again changes nothing.\<close>

lemma extend_int_list_spec:
  assumes ok: "db_ok db" and row: "row \<in> set (tasks db)" "is_open row"
    and keys: "distinct (map fst (t_data row))" and name: "py_strip name \<noteq> []"
    and ints: "List.map_filter positive_int values \<noteq> []"
  shows "\<exists>t' db'. extend_running_task_data_int_list clk (t_id row) name values db = (Inr t', db')
    \<and> tasks db' = map (\<lambda>s. if s = row then t' else s) (tasks db)
    \<and> py_eq_list (map JInt (sorted_list_of_set (set (List.map_filter positive_int values)
          \<union> set (List.map_filter positive_int (list_field (t_data row) name)))))
        (list_field (t_data t') name)
    \<and> (\<forall>k. k \<noteq> name \<longrightarrow> map_option json_sort (dict_get (t_data t') k) =
          map_option json_sort (dict_get (t_data row) k))
    \<and> extend_running_task_data_int_list clk' (t_id row) name values db' = (Inr t', db')"
  using extend_int_list_effect [OF assms] by blast

theorem extend_int_list_spec_witness:
  "\<exists>t' db'. extend_running_task_data_int_list 30 ''a'' ''ids'' [JInt 3, JInt (-1), JInt 2] demo_pending =
      (Inr t', db') \<and> py_eq_list [JInt 2, JInt 3] (list_field (t_data t') ''ids'')"
proof -
  have args: "demo_task \<in> set (tasks demo_pending)" "is_open demo_task"
    "distinct (map fst (t_data demo_task))" "t_id demo_task = ''a''"
    "list_field (t_data demo_task) ''ids'' = []"
    by (simp_all add: demo_pending_eq is_open_def demo_task_def list_field_def dict_get_def)
  have name: "py_strip ''ids'' \<noteq> []" by (simp add: py_strip_def py_isspace_def)
  have ints: "List.map_filter positive_int [JInt 3, JInt (-1), JInt 2] = [3, 2]"
    by (simp add: map_filter_simps)
  have vals: "map JInt (sorted_list_of_set {3, 2}) = [JInt 2, JInt 3]" by simp
  show ?thesis
    using extend_int_list_spec [OF demo_ok(1) args(1-3) name,
        of "[JInt 3, JInt (-1), JInt 2]" 30 0] unfolding args(4,5) ints
    by (auto simp: map_filter_simps vals)
qed

section \<open>Run summaries\<close>

definition runs_with :: "run_status \<Rightarrow> task_run list \<Rightarrow> int" where
  "runs_with st rs = int (length (filter (\<lambda>r. r_status r = st) rs))"

lemma count_run_simps [simp]:
  "s_task_name (count_run r s) = s_task_name s"
  "s_total_runs (count_run r s) = s_total_runs s + 1"
  "s_completed_runs (count_run r s) = s_completed_runs s + runs_with RunCompleted [r]"
  "s_failed_runs (count_run r s) = s_failed_runs s + runs_with RunFailed [r]"
  "s_cancelled_runs (count_run r s) = s_cancelled_runs s + runs_with RunCancelled [r]"
  "s_retry_runs (count_run r s) = s_retry_runs s + runs_with RunRetry [r]"
  "s_avg_duration (count_run r s) = s_avg_duration s"
  "s_last_completed_at (count_run r s) =
     (case s_last_completed_at s of None \<Rightarrow> Some (r_completed_at r) | Some t \<Rightarrow> Some t)"
  "s_last_status (count_run r s) = (if s_last_completed_at s = None
     then Some (run_status_name (r_status r)) else s_last_status s)"
  "s_last_error (count_run r s) = (if s_last_completed_at s = None then r_error r else s_last_error s)"
  by (cases "r_status r"; simp add: count_run_def runs_with_def Let_def split: option.split)+

lemma runs_with_Nil [simp]: "runs_with st [] = 0"
  by (simp add: runs_with_def)

lemma runs_with_Cons: "runs_with st (r # rs) = runs_with st [r] + runs_with st rs"
  by (simp add: runs_with_def)

lemma fold_count_run:
  "s_task_name (fold count_run rs s) = s_task_name s
    \<and> s_total_runs (fold count_run rs s) = s_total_runs s + int (length rs)
    \<and> s_completed_runs (fold count_run rs s) = s_completed_runs s + runs_with RunCompleted rs
    \<and> s_failed_runs (fold count_run rs s) = s_failed_runs s + runs_with RunFailed rs
    \<and> s_cancelled_runs (fold count_run rs s) = s_cancelled_runs s + runs_with RunCancelled rs
    \<and> s_retry_runs (fold count_run rs s) = s_retry_runs s + runs_with RunRetry rs"
proof (induction rs arbitrary: s)
  case (Cons r rs)
  then show ?case by (simp add: runs_with_Cons [of _ r rs])
qed (simp add: runs_with_def)

lemma fold_count_run_last:
  assumes "s_last_completed_at s \<noteq> None"
  shows "s_last_completed_at (fold count_run rs s) = s_last_completed_at s
    \<and> s_last_status (fold count_run rs s) = s_last_status s
    \<and> s_last_error (fold count_run rs s) = s_last_error s"
  using assms
proof (induction rs arbitrary: s)
  case (Cons r rs)
  then show ?case using Cons.IH [of "count_run r s"] by (auto split: option.splits)
qed simp

lemma status_partition:
  "int (length rs) = runs_with RunCompleted rs + runs_with RunFailed rs
     + runs_with RunCancelled rs + runs_with RunRetry rs"
proof (induction rs)
  case (Cons r rs)
  then show ?case by (cases "r_status r") (simp_all add: runs_with_def)
qed (simp add: runs_with_def)

lemma summarize_one_counts:
  "s_task_name (summarize_one n rs) = n \<and> s_total_runs (summarize_one n rs) = int (length rs)
     \<and> s_completed_runs (summarize_one n rs) = runs_with RunCompleted rs
     \<and> s_failed_runs (summarize_one n rs) = runs_with RunFailed rs
     \<and> s_cancelled_runs (summarize_one n rs) = runs_with RunCancelled rs
     \<and> s_retry_runs (summarize_one n rs) = runs_with RunRetry rs"
  using fold_count_run [of rs "empty_summary n"]
  by (cases rs) (simp_all add: summarize_one_def Let_def empty_summary_def)

lemma summarize_one_last:
  "if rs = [] then s_last_status (summarize_one n rs) = None \<and> s_last_completed_at (summarize_one n rs) = None
   else s_last_status (summarize_one n rs) = Some (run_status_name (r_status (hd rs)))
     \<and> s_last_completed_at (summarize_one n rs) = Some (r_completed_at (hd rs))
     \<and> s_last_error (summarize_one n rs) = r_error (hd rs)"
proof (cases rs)
  case Nil
  then show ?thesis by (simp add: summarize_one_def empty_summary_def)
next
  case (Cons r rest)
  then show ?thesis
    using fold_count_run_last [of "count_run r (empty_summary n)" rest]
    by (simp add: summarize_one_def Let_def empty_summary_def)
qed

abbreviation newest_first :: "task_run list \<Rightarrow> task_run list" where
  "newest_first \<equiv> order_by (\<lambda>r. (- r_completed_at r, - r_started_at r))"

lemma newest_first_hd:
  assumes "rs \<noteq> []"
  shows "hd (newest_first rs) \<in> set rs"
    and "q \<in> set rs \<Longrightarrow> r_completed_at q \<le> r_completed_at (hd (newest_first rs))"
proof -
  obtain r rest where cons: "newest_first rs = r # rest"
    using assms by (cases "newest_first rs") auto
  then show "hd (newest_first rs) \<in> set rs"
    using set_order_by [of "\<lambda>r. (- r_completed_at r, - r_started_at r)" rs] by (metis list.sel(1) list.set_intros(1))
  show "r_completed_at q \<le> r_completed_at (hd (newest_first rs))" if "q \<in> set rs"
    using order_by_hd_least [OF cons that] cons by (auto simp: less_eq_prod_def)
qed

lemma newest_first_counts:
  "runs_with st (newest_first rs) = runs_with st rs" "length (newest_first rs) = length rs"
  by (simp_all add: runs_with_def order_by_def filter_sort)

lemma summarize_task_runs_rows:
  "summarize_task_runs names ws db = map (\<lambda>name. summarize_one name (newest_first
     (filter (\<lambda>r. r_task_name r = name \<and> (case ws of None \<Rightarrow> True | Some w \<Rightarrow> r_workspace r = Some w))
        (task_runs db)))) names"
  unfolding summarize_task_runs_def Let_def order_by_def filter_sort filter_filter
  by (intro map_cong [OF refl] arg_cong2 [where f = summarize_one] refl arg_cong2 [where f = sort_key]
      filter_cong) auto

text \<open>The summary of a task name counts each of its runs in the workspace once, under its
  status, so the four counts add up to the total; and what it reports as the last run is a run
  than which none finished later. There is one summary per asked name, in the order asked.\<close>

lemma summarize_task_runs_spec:
  assumes "selected = (\<lambda>name. filter (\<lambda>r. r_task_name r = name
      \<and> (case ws of None \<Rightarrow> True | Some w \<Rightarrow> r_workspace r = Some w)) (task_runs db))"
  shows "map s_task_name (summarize_task_runs names ws db) = names
    \<and> (\<forall>s \<in> set (summarize_task_runs names ws db).
        s_total_runs s = int (length (selected (s_task_name s)))
      \<and> s_total_runs s = s_completed_runs s + s_failed_runs s + s_cancelled_runs s + s_retry_runs s
      \<and> s_failed_runs s = int (length (filter (\<lambda>r. r_status r = RunFailed) (selected (s_task_name s))))
      \<and> (if selected (s_task_name s) = [] then s_last_status s = None \<and> s_last_completed_at s = None
         else \<exists>r \<in> set (selected (s_task_name s)). s_last_status s = Some (run_status_name (r_status r))
            \<and> s_last_completed_at s = Some (r_completed_at r) \<and> s_last_error s = r_error r
            \<and> (\<forall>q \<in> set (selected (s_task_name s)). r_completed_at q \<le> r_completed_at r)))"
proof -
  have sum: "summarize_task_runs names ws db = map (\<lambda>n. summarize_one n (newest_first (selected n))) names"
    unfolding summarize_task_runs_rows assms ..
  have "map s_task_name (summarize_task_runs names ws db) = names"
    by (simp add: sum summarize_one_counts map_idI)
  moreover have "s_total_runs s = int (length (selected (s_task_name s)))
      \<and> s_total_runs s = s_completed_runs s + s_failed_runs s + s_cancelled_runs s + s_retry_runs s
      \<and> s_failed_runs s = int (length (filter (\<lambda>r. r_status r = RunFailed) (selected (s_task_name s))))
      \<and> (if selected (s_task_name s) = [] then s_last_status s = None \<and> s_last_completed_at s = None
         else \<exists>r \<in> set (selected (s_task_name s)). s_last_status s = Some (run_status_name (r_status r))
            \<and> s_last_completed_at s = Some (r_completed_at r) \<and> s_last_error s = r_error r
            \<and> (\<forall>q \<in> set (selected (s_task_name s)). r_completed_at q \<le> r_completed_at r))"
    if mem: "s \<in> set (summarize_task_runs names ws db)" for s
  proof -
    obtain n where s: "s = summarize_one n (newest_first (selected n))" using mem unfolding sum by auto
    note counts = summarize_one_counts [of n "newest_first (selected n)"]
    show ?thesis
    proof (cases "selected n = []")
      case True
      with counts summarize_one_last [where n = n and rs = "newest_first (selected n)"] show ?thesis
        unfolding s by (simp add: newest_first_counts)
    next
      case False
      with summarize_one_last [where n = n and rs = "newest_first (selected n)"] newest_first_hd [OF False]
      have "\<exists>r \<in> set (selected n). s_last_status s = Some (run_status_name (r_status r))
            \<and> s_last_completed_at s = Some (r_completed_at r) \<and> s_last_error s = r_error r
            \<and> (\<forall>q \<in> set (selected n). r_completed_at q \<le> r_completed_at r)"
        unfolding s by (intro bexI [of _ "hd (newest_first (selected n))"]) auto
      with counts False status_partition [of "selected n"] show ?thesis
        unfolding s by (simp add: newest_first_counts) (simp add: runs_with_def)
    qed
  qed
  ultimately show ?thesis by blast
qed

theorem summarize_task_runs_spec_witness:
  "map s_task_name (summarize_task_runs [''sweeper'', ''other''] None demo_done) = [''sweeper'', ''other'']"
  using summarize_task_runs_spec [OF refl, of "[''sweeper'', ''other'']" None demo_done] by simp

end
