(* ===== verification/WorkItems.thy ===== *)
theory WorkItems
  imports Prelude
begin

text \<open>
  Leased work items: \<open>storage/sqlite_work_item_store.py\<close> over the table \<open>work_items\<close>, with the
  record, the status names and the compatibility groups of \<open>core/ports/work_items.py\<close>.
  \<open>idempotency_key\<close> carries a UNIQUE constraint, in which NULLs do not collide.
\<close>

section \<open>Records\<close>

datatype item_status = ItemPending | ItemRunning | ItemCompleted | ItemDeferred

fun item_status_name :: "item_status \<Rightarrow> string" where
  "item_status_name ItemPending = ''pending''"
| "item_status_name ItemRunning = ''running''"
| "item_status_name ItemCompleted = ''completed''"
| "item_status_name ItemDeferred = ''deferred''"

record work_item =
  w_id :: string
  w_family :: string
  w_lane :: string
  w_workspace :: "string option"
  w_payload :: dict
  w_status :: item_status
  w_priority :: int
  w_attempts :: int
  w_available_at :: time
  w_created_at :: time
  w_updated_at :: time
  w_claimed_at :: "time option"
  w_completed_at :: "time option"
  w_lease_owner :: "string option"
  w_lease_expires_at :: "time option"
  w_idempotency_key :: "string option"
  w_last_error :: "string option"

type_synonym 'a item_op = "work_item list \<Rightarrow> 'a res \<times> work_item list"

section \<open>Compatibility groups\<close>

definition WORK_ITEM_COMPATIBILITY_GROUPS :: "(string \<times> string list) list" where
  "WORK_ITEM_COMPATIBILITY_GROUPS =
     [(''lightweight_review'', [''memory_tagging'', ''graph_link_review'', ''conflict_review'']),
      (''structural_review'', [''memory_curation_review'', ''memory_dedup_review'', ''conflict_review''])]"

text \<open>\<open>repr\<close> of a string and of a list of strings, as an f-string prints them.\<close>

definition hex_digit :: "nat \<Rightarrow> char" where
  "hex_digit n = (if n < 10 then char_of (48 + n) else char_of (87 + n))"

definition repr_char :: "char \<Rightarrow> char \<Rightarrow> string" where
  "repr_char quote c = (let n = (of_char c :: nat); backslash = char_of (92 :: nat) in
     if c = quote \<or> c = backslash then [backslash, c]
     else if n = 9 then [backslash, CHR ''t'']
     else if n = 10 then [backslash, CHR ''n'']
     else if n = 13 then [backslash, CHR ''r'']
     else if n < 32 \<or> (127 \<le> n \<and> n \<le> 160) \<or> n = 173
     then [backslash, CHR ''x'', hex_digit (n div 16), hex_digit (n mod 16)]
     else [c])"

definition repr_str :: "string \<Rightarrow> string" where
  "repr_str s = (let single = char_of (39 :: nat); double = char_of (34 :: nat);
       quote = (if single \<in> set s \<and> double \<notin> set s then double else single)
     in [quote] @ concat (map (repr_char quote) s) @ [quote])"

fun comma_separated :: "string list \<Rightarrow> string" where
  "comma_separated [] = []"
| "comma_separated [s] = s"
| "comma_separated (s # ss) = s @ '', '' @ comma_separated ss"

definition repr_list :: "string list \<Rightarrow> string" where
  "repr_list ss = ''['' @ comma_separated (map repr_str ss) @ '']''"

definition compatibility_group_families :: "string \<Rightarrow> string list option \<Rightarrow> string list res" where
  "compatibility_group_families grp allowed =
     (case map_of WORK_ITEM_COMPATIBILITY_GROUPS grp of
        None \<Rightarrow> Inl (ValueError (''Unknown work-item compatibility group: '' @ grp))
      | Some families \<Rightarrow>
          (case allowed of
             None \<Rightarrow> Inr families
           | Some [] \<Rightarrow> Inr families
           | Some fs \<Rightarrow>
               let normalized = ordered_unique (filter (\<lambda>f. py_strip f \<noteq> []) fs) in
               if normalized = []
               then Inl (ValueError ''allowed_families must include at least one family when provided'')
               else let invalid = filter (\<lambda>f. f \<notin> set families) normalized in
                 if invalid \<noteq> []
                 then Inl (ValueError (''Families '' @ repr_list invalid @ '' are not compatible with group '' @ grp))
                 else Inr normalized))"

section \<open>Operations\<close>

definition get_item :: "string \<Rightarrow> work_item list \<Rightarrow> work_item res" where
  "get_item iid rows = (case List.find (\<lambda>w. w_id w = iid) rows of
       None \<Rightarrow> Inl (ValueError (''Work item '' @ iid @ '' was not found''))
     | Some w \<Rightarrow> Inr w)"

definition find_by_idempotency_key :: "string option \<Rightarrow> work_item list \<Rightarrow> work_item option" where
  "find_by_idempotency_key key rows = (case key of
       None \<Rightarrow> None
     | Some k \<Rightarrow> List.find (\<lambda>w. w_idempotency_key w = Some k) rows)"

definition enqueue_item ::
  "string \<Rightarrow> time \<Rightarrow> string \<Rightarrow> string \<Rightarrow> dict option \<Rightarrow> string option \<Rightarrow> int \<Rightarrow> time option
   \<Rightarrow> string option \<Rightarrow> (work_item \<times> bool) item_op" where
  "enqueue_item uuid clk family lane payload ws prio avail key rows =
     (let collides = (uuid \<in> w_id ` set rows
            \<or> (key \<noteq> None \<and> key \<in> w_idempotency_key ` set rows)) in
      if collides
      then (case find_by_idempotency_key key rows of
              None \<Rightarrow> (Inl IntegrityError, rows)
            | Some w \<Rightarrow> (Inr (w, False), rows))
      else let row = \<lparr>w_id = uuid, w_family = family, w_lane = lane, w_workspace = ws,
                      w_payload = (case payload of None \<Rightarrow> [] | Some d \<Rightarrow> dict_sort d),
                      w_status = ItemPending, w_priority = prio, w_attempts = 0,
                      w_available_at = now_or avail clk, w_created_at = clk, w_updated_at = clk,
                      w_claimed_at = None, w_completed_at = None, w_lease_owner = None,
                      w_lease_expires_at = None, w_idempotency_key = key, w_last_error = None\<rparr>;
               rows' = rows @ [row]
           in (case get_item uuid rows' of
                 Inl e \<Rightarrow> (Inl e, rows')
               | Inr w \<Rightarrow> (Inr (w, True), rows')))"

text \<open>The workspace argument of a claim: \<open>None\<close> is NULL, \<open>*\<close> is every workspace.\<close>

definition item_ws :: "string option \<Rightarrow> ws_filter" where
  "item_ws ws = (if ws = Some ''*'' then AnyWs else WsIs ws)"

definition item_due :: "time \<Rightarrow> work_item \<Rightarrow> bool" where
  "item_due now w =
     ((w_status w \<in> {ItemPending, ItemDeferred} \<and> w_available_at w \<le> now)
      \<or> (w_status w = ItemRunning \<and> (case w_lease_expires_at w of None \<Rightarrow> False | Some t \<Rightarrow> t \<le> now)))"

definition item_claim_update :: "string \<Rightarrow> time \<Rightarrow> time \<Rightarrow> work_item \<Rightarrow> work_item" where
  "item_claim_update owner now ttl w = w\<lparr>w_status := ItemRunning, w_attempts := w_attempts w + 1,
     w_updated_at := now, w_claimed_at := Some now, w_lease_owner := Some owner,
     w_lease_expires_at := Some (now + ttl), w_last_error := None\<rparr>"

definition claim_batch ::
  "time \<Rightarrow> string \<Rightarrow> string \<Rightarrow> string \<Rightarrow> int \<Rightarrow> string option \<Rightarrow> time option \<Rightarrow> time
   \<Rightarrow> work_item list item_op" where
  "claim_batch clk family lane owner limit ws now ttl rows =
     (if limit < 1 then (Inl (ValueError ''limit must be at least 1''), rows)
      else let current = now_or now clk;
               order = order_by (\<lambda>w. (w_priority w, w_created_at w));
               selected = limit_rows limit (order (filter (\<lambda>w. w_family w = family
                 \<and> w_lane w = lane \<and> item_due current w \<and> ws_match (item_ws ws) (w_workspace w)) rows))
        in if selected = [] then (Inr [], rows)
           else let ids = w_id ` set selected;
                    rows' = update_where (\<lambda>w. w_id w \<in> ids) (item_claim_update owner current ttl) rows
                in (Inr (order (filter (\<lambda>w. w_id w \<in> ids) rows')), rows'))"

definition claim_compatible_batch ::
  "time \<Rightarrow> string list \<Rightarrow> string \<Rightarrow> string \<Rightarrow> int \<Rightarrow> string option \<Rightarrow> time option \<Rightarrow> time
   \<Rightarrow> work_item list item_op" where
  "claim_compatible_batch clk families lane owner limit ws now ttl rows =
     (let normalized = filter (\<lambda>f. f \<noteq> []) families in
      if normalized = [] then (Inl (ValueError ''family_keys must include at least one family''), rows)
      else if limit < 1 then (Inl (ValueError ''limit must be at least 1''), rows)
      else let current = now_or now clk;
               order = order_by (\<lambda>w. (w_priority w, w_created_at w));
               selected = limit_rows limit (order (filter (\<lambda>w. w_family w \<in> set normalized
                 \<and> w_lane w = lane \<and> item_due current w \<and> ws_match (item_ws ws) (w_workspace w)) rows))
        in if selected = [] then (Inr [], rows)
           else let ids = w_id ` set selected;
                    rows' = update_where (\<lambda>w. w_id w \<in> ids) (item_claim_update owner current ttl) rows
                in (Inr (order (filter (\<lambda>w. w_id w \<in> ids) rows')), rows'))"

text \<open>The statement shared by the four operations on a running item, with its error.\<close>

definition update_running_item ::
  "(work_item \<Rightarrow> bool) \<Rightarrow> (work_item \<Rightarrow> work_item) \<Rightarrow> string \<Rightarrow> string \<Rightarrow> work_item item_op" where
  "update_running_item guard f iid msg rows =
     (let p = (\<lambda>w. w_id w = iid \<and> w_status w = ItemRunning \<and> guard w) in
      if rowcount p rows \<noteq> 1 then (Inl (ValueError msg), rows)
      else let rows' = update_where p f rows in (get_item iid rows', rows'))"

definition heartbeat_item ::
  "time \<Rightarrow> string \<Rightarrow> string \<Rightarrow> time \<Rightarrow> time option \<Rightarrow> work_item item_op" where
  "heartbeat_item clk iid owner ttl at_time =
     (let now = now_or at_time clk in
      update_running_item (\<lambda>w. w_lease_owner w = Some owner)
        (\<lambda>w. w\<lparr>w_updated_at := now, w_lease_expires_at := Some (now + ttl)\<rparr>) iid
        (''Work item '' @ iid @ '' is not running for lease owner '' @ owner))"

definition complete_item :: "time \<Rightarrow> string \<Rightarrow> time option \<Rightarrow> work_item item_op" where
  "complete_item clk iid completed_at =
     (let now = now_or completed_at clk in
      update_running_item (\<lambda>w. True)
        (\<lambda>w. w\<lparr>w_status := ItemCompleted, w_updated_at := now, w_completed_at := Some now,
               w_lease_owner := None, w_lease_expires_at := None, w_last_error := None\<rparr>) iid
        (''Work item '' @ iid @ '' is not running''))"

definition defer_item ::
  "time \<Rightarrow> string \<Rightarrow> string \<Rightarrow> time \<Rightarrow> time option \<Rightarrow> work_item item_op" where
  "defer_item clk iid err delay deferred_at =
     (let now = now_or deferred_at clk in
      update_running_item (\<lambda>w. True)
        (\<lambda>w. w\<lparr>w_status := ItemDeferred, w_updated_at := now, w_available_at := now + max delay 0,
               w_lease_owner := None, w_lease_expires_at := None, w_last_error := Some err\<rparr>) iid
        (''Work item '' @ iid @ '' is not running''))"

definition release_item :: "time \<Rightarrow> string \<Rightarrow> time option \<Rightarrow> work_item item_op" where
  "release_item clk iid released_at =
     (let now = now_or released_at clk in
      update_running_item (\<lambda>w. True)
        (\<lambda>w. w\<lparr>w_status := ItemPending, w_updated_at := now, w_lease_owner := None,
               w_lease_expires_at := None\<rparr>) iid
        (''Work item '' @ iid @ '' is not running''))"

definition list_items ::
  "string option \<Rightarrow> string option \<Rightarrow> string option \<Rightarrow> string option \<Rightarrow> string option \<Rightarrow> int
   \<Rightarrow> work_item list \<Rightarrow> work_item list" where
  "list_items family lane status ws owner limit rows =
     (let given = (\<lambda>arg x. case arg of None \<Rightarrow> True | Some a \<Rightarrow> x = Some a) in
      limit_rows limit (order_by (\<lambda>w. (- w_updated_at w, - w_created_at w))
        (filter (\<lambda>w. given family (Some (w_family w)) \<and> given lane (Some (w_lane w))
           \<and> given status (Some (item_status_name (w_status w))) \<and> given ws (w_workspace w)
           \<and> given owner (w_lease_owner w)) rows)))"

end
