(* ===== verification/WorkItemLaws.thy ===== *)
theory WorkItemLaws
  imports WorkItems
begin

text \<open>
  What the work-item store promises: the invariant of its rows, exclusive leases, idempotent
  submission, and the exact effect of a batch claim. The lease contract is a locale, proved once
  over an abstract store and interpreted on the claims of the model.
\<close>

section \<open>The invariant\<close>

definition item_ok :: "work_item \<Rightarrow> bool" where
  "item_ok w = (0 \<le> w_attempts w
     \<and> (w_status w = ItemRunning \<longrightarrow> w_lease_owner w \<noteq> None \<and> w_lease_expires_at w \<noteq> None
          \<and> w_claimed_at w \<noteq> None \<and> 1 \<le> w_attempts w)
     \<and> (w_status w \<noteq> ItemRunning \<longrightarrow> w_lease_owner w = None \<and> w_lease_expires_at w = None)
     \<and> (w_status w = ItemCompleted \<longrightarrow> w_completed_at w \<noteq> None))"

definition items_ok :: "work_item list \<Rightarrow> bool" where
  "items_ok rows = (distinct (map w_id rows)
     \<and> distinct (map w_idempotency_key (filter (\<lambda>w. w_idempotency_key w \<noteq> None) rows))
     \<and> (\<forall>w \<in> set rows. item_ok w))"

inductive item_move :: "work_item list \<Rightarrow> work_item list \<Rightarrow> bool" where
  items_stay: "item_move rows rows"
| items_insert: "w_id w \<notin> w_id ` set rows
    \<Longrightarrow> w_idempotency_key w = None \<or> w_idempotency_key w \<notin> w_idempotency_key ` set rows
    \<Longrightarrow> item_ok w \<Longrightarrow> item_move rows (rows @ [w])"
| items_edit: "(\<And>w. w_id (f w) = w_id w) \<Longrightarrow> (\<And>w. w_idempotency_key (f w) = w_idempotency_key w)
    \<Longrightarrow> (\<And>w. p w \<Longrightarrow> item_ok w \<Longrightarrow> item_ok (f w)) \<Longrightarrow> item_move rows (update_where p f rows)"

lemma item_move_ok: "item_move rows rows' \<Longrightarrow> items_ok rows \<Longrightarrow> items_ok rows'"
proof (induction rule: item_move.induct)
  case (items_insert w rows)
  then show ?case by (auto simp: items_ok_def)
next
  case (items_edit f p rows)
  have "map w_id (update_where p f rows) = map w_id rows"
    using items_edit(1) by (rule map_update_where)
  moreover have "map w_idempotency_key (filter (\<lambda>w. w_idempotency_key w \<noteq> None) (update_where p f rows)) =
      map w_idempotency_key (filter (\<lambda>w. w_idempotency_key w \<noteq> None) rows)"
    using items_edit(2) by (induction rows) auto
  moreover have "\<forall>w \<in> set (update_where p f rows). item_ok w"
    using items_edit(3,4) by (auto simp: in_update_where items_ok_def)
  ultimately show ?case using items_edit(4) by (simp add: items_ok_def)
qed simp

section \<open>The exact effect of a claim\<close>

definition item_eligible ::
  "string list \<Rightarrow> string \<Rightarrow> string option \<Rightarrow> time \<Rightarrow> work_item \<Rightarrow> bool" where
  "item_eligible families lane ws now w = (w_family w \<in> set families \<and> w_lane w = lane
     \<and> item_due now w \<and> ws_match (item_ws ws) (w_workspace w))"

abbreviation item_order :: "work_item \<Rightarrow> int \<times> time" where
  "item_order \<equiv> \<lambda>w. (w_priority w, w_created_at w)"

definition item_selection ::
  "string list \<Rightarrow> string \<Rightarrow> int \<Rightarrow> string option \<Rightarrow> time \<Rightarrow> work_item list \<Rightarrow> work_item list" where
  "item_selection families lane limit ws now rows =
     take (nat limit) (order_by item_order (filter (item_eligible families lane ws now) rows))"

lemma item_claim_update_simps [simp]:
  "w_id (item_claim_update owner now ttl w) = w_id w"
  "w_idempotency_key (item_claim_update owner now ttl w) = w_idempotency_key w"
  "w_priority (item_claim_update owner now ttl w) = w_priority w"
  "w_created_at (item_claim_update owner now ttl w) = w_created_at w"
  by (simp_all add: item_claim_update_def)

lemma claim_is_compatible:
  "family \<noteq> [] \<Longrightarrow> claim_batch clk family lane owner limit ws now ttl rows =
     claim_compatible_batch clk [family] lane owner limit ws now ttl rows"
  by (simp add: claim_batch_def claim_compatible_batch_def)

lemma claim_compatible_eq:
  assumes dist: "distinct (map w_id rows)" and lim: "1 \<le> limit" and fams: "\<exists>f \<in> set families. f \<noteq> []"
    and sel: "sel = item_selection (filter (\<lambda>f. f \<noteq> []) families) lane limit ws (now_or now clk) rows"
  shows "claim_compatible_batch clk families lane owner limit ws now ttl rows =
    (Inr (map (item_claim_update owner (now_or now clk) ttl) sel),
     map (\<lambda>w. if w \<in> set sel then item_claim_update owner (now_or now clk) ttl w else w) rows)"
proof -
  let ?n = "filter (\<lambda>f. f \<noteq> []) families"
  let ?f = "item_claim_update owner (now_or now clk) ttl"
  have some: "?n \<noteq> []" using fams by (simp add: filter_empty_conv)
  have limit: "limit_rows limit xs = take (nat limit) xs" for xs :: "work_item list"
    using lim by (simp add: limit_rows_def)
  note batch = batch_select [where key = w_id and k = item_order and f = ?f, OF dist
      sel [unfolded item_selection_def]]
  have eligible: "(\<lambda>w. w_family w \<in> set ?n \<and> w_lane w = lane \<and> item_due (now_or now clk) w
      \<and> ws_match (item_ws ws) (w_workspace w)) = item_eligible ?n lane ws (now_or now clk)"
    by (rule ext) (simp add: item_eligible_def)
  show ?thesis
  proof (cases "sel = []")
    case True
    then show ?thesis
      using some lim unfolding claim_compatible_batch_def Let_def limit eligible
      by (simp add: sel [unfolded item_selection_def, symmetric])
  next
    case False
    then show ?thesis
      using some lim batch unfolding claim_compatible_batch_def Let_def limit eligible
        sel [unfolded item_selection_def, symmetric]
      by simp
  qed
qed

lemma claim_compatible_error:
  "\<not> (1 \<le> limit \<and> (\<exists>f \<in> set families. f \<noteq> [])) \<Longrightarrow>
    \<exists>e. claim_compatible_batch clk families lane owner limit ws now ttl rows = (Inl e, rows)"
  by (auto simp: claim_compatible_batch_def Let_def)

section \<open>The operations are moves\<close>

lemma claim_compatible_move: "item_move rows (snd (claim_compatible_batch clk families lane owner limit ws now ttl rows))"
proof -
  have "item_move rows (update_where p (item_claim_update owner now' ttl) rows)" for p now'
    by (rule items_edit) (auto simp: item_ok_def item_claim_update_def)
  then show ?thesis by (simp add: claim_compatible_batch_def Let_def items_stay)
qed

lemma claim_batch_move: "item_move rows (snd (claim_batch clk family lane owner limit ws now ttl rows))"
proof -
  have "item_move rows (update_where p (item_claim_update owner now' ttl) rows)" for p now'
    by (rule items_edit) (auto simp: item_ok_def item_claim_update_def)
  then show ?thesis by (simp add: claim_batch_def Let_def items_stay)
qed

lemma enqueue_item_cases:
  obtains (new) w where "enqueue_item uuid clk family lane payload ws prio avail key rows = (Inr (w, True), rows @ [w])"
      "w_id w = uuid" "w_idempotency_key w = key" "w_id w \<notin> w_id ` set rows"
      "key = None \<or> key \<notin> w_idempotency_key ` set rows" "item_ok w" "w_status w = ItemPending"
    | (old) w k where "enqueue_item uuid clk family lane payload ws prio avail key rows = (Inr (w, False), rows)"
      "key = Some k" "find_by_idempotency_key key rows = Some w"
    | (clash) "enqueue_item uuid clk family lane payload ws prio avail key rows = (Inl IntegrityError, rows)"
      "find_by_idempotency_key key rows = None" "uuid \<in> w_id ` set rows"
proof (cases "uuid \<in> w_id ` set rows \<or> (key \<noteq> None \<and> key \<in> w_idempotency_key ` set rows)")
  case True
  show thesis
  proof (cases "find_by_idempotency_key key rows")
    case None
    have "\<not> (key \<noteq> None \<and> key \<in> w_idempotency_key ` set rows)"
      using None by (auto simp: find_by_idempotency_key_def find_None_iff split: option.splits)
    with True None show thesis by (intro clash) (auto simp: enqueue_item_def)
  next
    case (Some w)
    with True old show thesis by (cases key) (auto simp: enqueue_item_def find_by_idempotency_key_def)
  qed
next
  case False
  let ?w = "\<lparr>w_id = uuid, w_family = family, w_lane = lane, w_workspace = ws,
    w_payload = (case payload of None \<Rightarrow> [] | Some d \<Rightarrow> dict_sort d), w_status = ItemPending,
    w_priority = prio, w_attempts = 0, w_available_at = now_or avail clk, w_created_at = clk,
    w_updated_at = clk, w_claimed_at = None, w_completed_at = None, w_lease_owner = None,
    w_lease_expires_at = None, w_idempotency_key = key, w_last_error = None\<rparr>"
  have "List.find (\<lambda>w. w_id w = uuid) (rows @ [?w]) = Some ?w"
    using False by (induction rows) auto
  then have get: "get_item uuid (rows @ [?w]) = Inr ?w" by (simp add: get_item_def)
  show thesis
    using False by (intro new [of ?w]) (auto simp: enqueue_item_def Let_def get item_ok_def)
qed

lemma enqueue_item_move: "item_move rows (snd (enqueue_item uuid clk family lane payload ws prio avail key rows))"
proof (cases rule: enqueue_item_cases [where uuid = uuid and clk = clk and family = family and lane = lane
      and payload = payload and ws = ws and prio = prio and avail = avail and key = key and rows = rows])
  case (new w)
  then show ?thesis by (simp add: items_insert)
qed (simp_all add: items_stay)

lemma update_running_item_move:
  assumes "\<And>w. w_id (f w) = w_id w" and "\<And>w. w_idempotency_key (f w) = w_idempotency_key w"
    and "\<And>w. w_status w = ItemRunning \<Longrightarrow> guard w \<Longrightarrow> item_ok w \<Longrightarrow> item_ok (f w)"
  shows "item_move rows (snd (update_running_item guard f iid msg rows))"
  using assms by (auto simp: update_running_item_def Let_def intro!: items_stay items_edit)

lemma heartbeat_item_move: "item_move rows (snd (heartbeat_item clk iid owner ttl tm rows))"
  unfolding heartbeat_item_def Let_def by (rule update_running_item_move) (auto simp: item_ok_def)

lemma complete_item_move: "item_move rows (snd (complete_item clk iid tm rows))"
  unfolding complete_item_def Let_def by (rule update_running_item_move) (auto simp: item_ok_def)

lemma defer_item_move: "item_move rows (snd (defer_item clk iid err delay tm rows))"
  unfolding defer_item_def Let_def by (rule update_running_item_move) (auto simp: item_ok_def)

lemma release_item_move: "item_move rows (snd (release_item clk iid tm rows))"
  unfolding release_item_def Let_def by (rule update_running_item_move) (auto simp: item_ok_def)

section \<open>Steps and reachable states\<close>

inductive item_step :: "work_item list \<Rightarrow> work_item list \<Rightarrow> bool" where
  istep_enqueue: "item_step rows (snd (enqueue_item uuid clk family lane payload ws prio avail key rows))"
| istep_claim: "item_step rows (snd (claim_batch clk family lane owner limit ws now ttl rows))"
| istep_claim_compatible:
    "item_step rows (snd (claim_compatible_batch clk families lane owner limit ws now ttl rows))"
| istep_heartbeat: "item_step rows (snd (heartbeat_item clk iid owner ttl tm rows))"
| istep_complete: "item_step rows (snd (complete_item clk iid tm rows))"
| istep_defer: "item_step rows (snd (defer_item clk iid err delay tm rows))"
| istep_release: "item_step rows (snd (release_item clk iid tm rows))"

definition item_reach :: "work_item list \<Rightarrow> bool" where
  "item_reach rows = item_step\<^sup>*\<^sup>* [] rows"

lemma item_step_ok: "item_step rows rows' \<Longrightarrow> items_ok rows \<Longrightarrow> items_ok rows'"
  by (erule item_step.cases) (auto intro: item_move_ok enqueue_item_move claim_batch_move
      claim_compatible_move heartbeat_item_move complete_item_move defer_item_move release_item_move)

lemma item_reach_ok: "item_reach rows \<Longrightarrow> items_ok rows"
  unfolding item_reach_def by (induction rule: rtranclp_induct) (auto simp: items_ok_def[of "[]"] intro: item_step_ok)

section \<open>Leases\<close>

text \<open>
  The contract of a lease store, for a client that lets workers claim batches: \<open>held s i o t\<close>
  reads "\<open>o\<close> holds \<open>i\<close> until \<open>t\<close>"; \<open>claims o now until s ids s'\<close> reads "at time \<open>now\<close>, \<open>o\<close> claims
  the set \<open>ids\<close> until \<open>until\<close>"; \<open>other\<close> are the remaining steps, with the items whose lease they may
  end or move. While \<open>i\<close> is leased until \<open>deadline\<close>, a quiet step is a claim by anyone before the
  deadline, or another step that does not touch \<open>i\<close>.
\<close>

definition quiet_step ::
  "('o \<Rightarrow> time \<Rightarrow> time \<Rightarrow> 's \<Rightarrow> 'i set \<Rightarrow> 's \<Rightarrow> bool) \<Rightarrow> ('i set \<Rightarrow> 's \<Rightarrow> 's \<Rightarrow> bool) \<Rightarrow> 'i \<Rightarrow> time
   \<Rightarrow> 's \<Rightarrow> 's \<Rightarrow> bool" where
  "quiet_step claims other i deadline s s' =
     ((\<exists>a now until ids. claims a now until s ids s' \<and> now < deadline)
      \<or> (\<exists>touched. other touched s s' \<and> i \<notin> touched))"

locale lease_store =
  fixes held :: "'s \<Rightarrow> 'i \<Rightarrow> 'o \<Rightarrow> time \<Rightarrow> bool"
    and claims :: "'o \<Rightarrow> time \<Rightarrow> time \<Rightarrow> 's \<Rightarrow> 'i set \<Rightarrow> 's \<Rightarrow> bool"
    and other :: "'i set \<Rightarrow> 's \<Rightarrow> 's \<Rightarrow> bool"
    and good :: "'s \<Rightarrow> bool"
  assumes claim_good: "good s \<Longrightarrow> claims a now until s ids s' \<Longrightarrow> good s'"
    and other_good: "good s \<Longrightarrow> other touched s s' \<Longrightarrow> good s'"
    and claim_holds: "good s \<Longrightarrow> claims a now until s ids s' \<Longrightarrow> i \<in> ids \<Longrightarrow> held s' i a until"
    and claim_respects: "good s \<Longrightarrow> claims a now until s ids s' \<Longrightarrow> held s i b t \<Longrightarrow> now < t \<Longrightarrow> i \<notin> ids"
    and claim_keeps: "good s \<Longrightarrow> claims a now until s ids s' \<Longrightarrow> held s i b t \<Longrightarrow> i \<notin> ids \<Longrightarrow> held s' i b t"
    and other_keeps: "good s \<Longrightarrow> other touched s s' \<Longrightarrow> held s i b t \<Longrightarrow> i \<notin> touched \<Longrightarrow> held s' i b t"
    and held_unique: "good s \<Longrightarrow> held s i a t \<Longrightarrow> held s i b u \<Longrightarrow> a = b \<and> t = u"
begin

lemma quiet_good: "(quiet_step claims other i deadline)\<^sup>*\<^sup>* s s' \<Longrightarrow> good s \<Longrightarrow> good s'"
  by (induction rule: rtranclp_induct) (auto simp: quiet_step_def intro: claim_good other_good)

lemma lease_survives:
  "(quiet_step claims other i deadline)\<^sup>*\<^sup>* s s' \<Longrightarrow> good s \<Longrightarrow> held s i a deadline \<Longrightarrow> held s' i a deadline"
proof (induction rule: rtranclp_induct)
  case (step s' s'')
  then have "good s'" "held s' i a deadline" by (auto intro: quiet_good)
  with step.hyps(2) show ?case
    using claim_respects claim_keeps other_keeps unfolding quiet_step_def by metis
qed simp

theorem no_overlapping_claims:
  assumes "good s" and "claims a now until s ids s1" and "i \<in> ids"
    and "(quiet_step claims other i until)\<^sup>*\<^sup>* s1 s2" and "claims b later until' s2 js s3" and "later < until"
  shows "i \<notin> js"
proof -
  have "good s1" using assms(1,2) by (rule claim_good)
  then have "good s2" "held s2 i a until"
    using assms(1-4) by (auto intro: quiet_good lease_survives claim_holds)
  then show ?thesis using assms(5,6) claim_respects by blast
qed

end

text \<open>The store of the program: the lease of a running item, the batch claims, and every other
  operation with the item it touches.\<close>

definition item_held :: "work_item list \<Rightarrow> string \<Rightarrow> string \<Rightarrow> time \<Rightarrow> bool" where
  "item_held rows i a t = (\<exists>w \<in> set rows. w_id w = i \<and> w_status w = ItemRunning
     \<and> w_lease_owner w = Some a \<and> w_lease_expires_at w = Some t)"

definition item_claims :: "string \<Rightarrow> time \<Rightarrow> time \<Rightarrow> work_item list \<Rightarrow> string set \<Rightarrow> work_item list \<Rightarrow> bool" where
  "item_claims a now until rows ids rows' = (\<exists>clk families lane limit ws ttl ws'.
     until = now + ttl \<and> ids = w_id ` set ws'
     \<and> claim_compatible_batch clk families lane a limit ws (Some now) ttl rows = (Inr ws', rows'))"

inductive item_other :: "string set \<Rightarrow> work_item list \<Rightarrow> work_item list \<Rightarrow> bool" where
  other_enqueue: "item_other {} rows (snd (enqueue_item uuid clk family lane payload ws prio avail key rows))"
| other_heartbeat: "item_other {iid} rows (snd (heartbeat_item clk iid owner ttl tm rows))"
| other_complete: "item_other {iid} rows (snd (complete_item clk iid tm rows))"
| other_defer: "item_other {iid} rows (snd (defer_item clk iid err delay tm rows))"
| other_release: "item_other {iid} rows (snd (release_item clk iid tm rows))"

lemma update_running_item_held:
  assumes "item_held rows i a t" and "i \<noteq> iid"
  shows "item_held (snd (update_running_item guard f iid msg rows)) i a t"
proof -
  obtain w where w: "w \<in> set rows" "w_id w = i" "w_status w = ItemRunning"
      "w_lease_owner w = Some a" "w_lease_expires_at w = Some t"
    using assms(1) by (auto simp: item_held_def)
  then have "w \<in> set (update_where (\<lambda>w. w_id w = iid \<and> w_status w = ItemRunning \<and> guard w) f rows)"
    using assms(2) unfolding in_update_where by (intro bexI [of _ w]) auto
  with w assms(1) show ?thesis
    by (auto simp: update_running_item_def Let_def item_held_def)
qed

lemma item_other_keeps: "item_other touched rows rows' \<Longrightarrow> item_held rows i a t \<Longrightarrow> i \<notin> touched \<Longrightarrow> item_held rows' i a t"
proof (induction rule: item_other.induct)
  case (other_enqueue rows uuid clk family lane payload ws prio avail key)
  then show ?case
    by (cases rule: enqueue_item_cases [where uuid = uuid and clk = clk and family = family and lane = lane
      and payload = payload and ws = ws and prio = prio and avail = avail and key = key and rows = rows])
      (auto simp: item_held_def)
qed (simp_all add: heartbeat_item_def complete_item_def defer_item_def release_item_def Let_def
    update_running_item_held)

lemma item_other_ok: "item_other touched rows rows' \<Longrightarrow> items_ok rows \<Longrightarrow> items_ok rows'"
  by (erule item_other.cases) (auto intro: item_move_ok enqueue_item_move heartbeat_item_move
      complete_item_move defer_item_move release_item_move)

lemma item_claims_effect:
  assumes "items_ok rows" and "item_claims a now until rows ids rows'"
  obtains sel where "set sel \<subseteq> set rows" "\<And>w. w \<in> set sel \<Longrightarrow> item_due now w" "ids = w_id ` set sel"
    "rows' = map (\<lambda>w. if w \<in> set sel then item_claim_update a now (until - now) w else w) rows"
proof -
  obtain clk families lane limit ws ttl ws' where claim: "until = now + ttl" "ids = w_id ` set ws'"
      "claim_compatible_batch clk families lane a limit ws (Some now) ttl rows = (Inr ws', rows')"
    using assms(2) by (auto simp: item_claims_def)
  define sel where "sel = item_selection (filter (\<lambda>f. f \<noteq> []) families) lane limit ws now rows"
  have valid: "1 \<le> limit" "\<exists>f \<in> set families. f \<noteq> []"
    using claim_compatible_error [of limit families clk lane a ws "Some now" ttl rows] claim(3) by auto
  have dist: "distinct (map w_id rows)" using assms(1) by (simp add: items_ok_def)
  have eff: "ws' = map (item_claim_update a now ttl) sel"
    "rows' = map (\<lambda>w. if w \<in> set sel then item_claim_update a now ttl w else w) rows"
    using claim_compatible_eq [OF dist valid, of sel lane ws "Some now" clk a ttl] claim(3)
    by (simp_all add: sel_def now_or_def)
  have "set sel \<subseteq> {w \<in> set rows. item_due now w}"
    unfolding sel_def item_selection_def by (auto simp: item_eligible_def dest!: in_set_takeD)
  with that [of sel] eff claim(1,2) show thesis by (simp add: image_image subset_iff)
qed

interpretation wi: lease_store item_held item_claims item_other items_ok
proof (unfold_locales, goal_cases)
  case (1 s a now until ids s')
  then show ?case using claim_compatible_move item_move_ok
    by (auto simp: item_claims_def dest!: arg_cong [where f = snd]) (metis)
next
  case (2 s touched s')
  then show ?case by (blast intro: item_other_ok)
next
  case (3 s a now until ids s' i)
  obtain sel w where sel: "set sel \<subseteq> set s" "w \<in> set sel" "i = w_id w"
      "s' = map (\<lambda>w. if w \<in> set sel then item_claim_update a now (until - now) w else w) s"
    using 3 by (auto elim!: item_claims_effect)
  then have "item_claim_update a now (until - now) w \<in> set s'" by force
  then show ?case
    unfolding item_held_def sel(3) by (rule bexI [rotated]) (simp add: item_claim_update_def)
next
  case (4 s a now until ids s' i b t)
  obtain sel where sel: "set sel \<subseteq> set s" "\<And>w. w \<in> set sel \<Longrightarrow> item_due now w" "ids = w_id ` set sel"
    using item_claims_effect [OF 4(1,2)] by metis
  obtain w where w: "w \<in> set s" "i = w_id w" "w_status w = ItemRunning" "w_lease_expires_at w = Some t"
    using 4(3) by (auto simp: item_held_def)
  have "\<not> item_due now w" using w 4(4) by (simp add: item_due_def)
  moreover have "inj_on w_id (set s)" using 4(1) by (simp add: items_ok_def distinct_map)
  ultimately show ?case using sel w(1,2) by (auto dest: inj_onD)
next
  case (5 s a now until ids s' i b t)
  obtain sel where sel: "ids = w_id ` set sel"
      "s' = map (\<lambda>w. if w \<in> set sel then item_claim_update a now (until - now) w else w) s"
    using item_claims_effect [OF 5(1,2)] by metis
  with 5(3,4) show ?case by (force simp: item_held_def)
next
  case (6 s touched s' i b t)
  then show ?case by (blast intro: item_other_keeps)
next
  case (7 s i a t b u)
  then show ?case by (auto simp: item_held_def items_ok_def distinct_map dest: inj_onD)
qed

end
