(* ===== verification/WorkItemProps.thy ===== *)
theory WorkItemProps
  imports WorkItemLaws
begin

text \<open>The properties of the work-item store.\<close>

section \<open>A concrete store\<close>

definition demo_items :: "work_item list" where
  "demo_items = snd (enqueue_item ''i'' 10 ''memory_tagging'' ''agentic'' None None 5 None (Some ''k'') [])"

definition demo_item :: work_item where
  "demo_item = \<lparr>w_id = ''i'', w_family = ''memory_tagging'', w_lane = ''agentic'', w_workspace = None,
     w_payload = [], w_status = ItemPending, w_priority = 5, w_attempts = 0, w_available_at = 10,
     w_created_at = 10, w_updated_at = 10, w_claimed_at = None, w_completed_at = None,
     w_lease_owner = None, w_lease_expires_at = None, w_idempotency_key = Some ''k'', w_last_error = None\<rparr>"

lemma demo_items_eq: "demo_items = [demo_item]"
  by (simp add: demo_items_def demo_item_def enqueue_item_def get_item_def now_or_def Let_def)

lemma demo_items_reach: "item_reach demo_items"
  unfolding item_reach_def demo_items_def by (intro r_into_rtranclp istep_enqueue)

lemma demo_items_ok: "items_ok demo_items"
  using demo_items_reach by (rule item_reach_ok)

definition demo_leased :: "work_item list" where
  "demo_leased = snd (claim_batch 0 ''memory_tagging'' ''agentic'' ''w1'' 1 None (Some 20) 30 demo_items)"

lemma demo_claim:
  "claim_compatible_batch clk [''memory_tagging''] ''agentic'' a 1 None (Some t) ttl demo_items =
    (if 10 \<le> t then (Inr [item_claim_update a t ttl demo_item], [item_claim_update a t ttl demo_item])
     else (Inr [], demo_items))"
  by (simp add: claim_compatible_batch_def demo_items_eq demo_item_def item_due_def item_ws_def now_or_def
      limit_rows_def order_by_def item_claim_update_def)

lemma demo_leased_eq: "demo_leased = [item_claim_update ''w1'' 20 30 demo_item]"
  by (simp add: demo_leased_def claim_is_compatible demo_claim)

section \<open>Properties\<close>

text \<open>C34. Every reachable work-item table is well formed: identifiers and idempotency keys are
  unique; an item has a lease owner and an expiry exactly while it runs; attempts never go below
  zero and count at least one on a running item; a completed item has its completion time.\<close>

theorem work_item_invariant: "item_reach rows \<Longrightarrow> items_ok rows"
  by (rule item_reach_ok)

theorem work_item_invariant_witness: "items_ok demo_items"
  by (rule work_item_invariant) (rule demo_items_reach)

text \<open>A batch claim takes at most \<open>limit\<close> items, each of an asked family and lane, in the asked
  workspace and due: pending or deferred with its time come, or running with an expired lease.
  Items that sort strictly before a taken one by priority and age are never passed over, and none
  is left while there is room. Each taken item is leased to the owner for the TTL with one more
  attempt, in that order; every other row stays. A single family claims as a list of one.\<close>

lemma claim_batch_spec:
  assumes "items_ok rows" and "1 \<le> limit" and "family \<noteq> []"
  shows "\<exists>sel. set sel \<subseteq> set rows \<and> length sel \<le> nat limit \<and> distinct sel
    \<and> sorted (map (\<lambda>w. (w_priority w, w_created_at w)) sel)
    \<and> (\<forall>w \<in> set sel. w_family w = family \<and> w_lane w = lane \<and> item_due now w
         \<and> ws_match (item_ws ws) (w_workspace w))
    \<and> (\<forall>w \<in> set rows - set sel. w_family w = family \<and> w_lane w = lane \<and> item_due now w
         \<and> ws_match (item_ws ws) (w_workspace w)
         \<longrightarrow> length sel = nat limit \<and> (\<forall>s \<in> set sel. (w_priority s, w_created_at s) \<le> (w_priority w, w_created_at w)))
    \<and> claim_batch clk family lane owner limit ws (Some now) ttl rows =
        (Inr (map (item_claim_update owner now ttl) sel),
         map (\<lambda>w. if w \<in> set sel then item_claim_update owner now ttl w else w) rows)
    \<and> claim_batch clk family lane owner limit ws (Some now) ttl rows =
        claim_compatible_batch clk [family] lane owner limit ws (Some now) ttl rows"
proof -
  let ?ok = "item_eligible [family] lane ws now"
  let ?all = "order_by item_order (filter ?ok rows)"
  define sel where "sel = item_selection [family] lane limit ws now rows"
  have sel: "sel = take (nat limit) ?all" by (simp add: sel_def item_selection_def)
  have dist: "distinct (map w_id rows)" using assms(1) by (simp add: items_ok_def)
  have sub: "set sel \<subseteq> {w \<in> set rows. ?ok w}" unfolding sel by (auto dest: in_set_takeD)
  have sorted: "sorted (map item_order ?all)" by (rule sorted_order_by)
  have claim: "claim_compatible_batch clk [family] lane owner limit ws (Some now) ttl rows =
      (Inr (map (item_claim_update owner now ttl) sel),
       map (\<lambda>w. if w \<in> set sel then item_claim_update owner now ttl w else w) rows)"
    using claim_compatible_eq [OF dist assms(2), where families = "[family]" and now = "Some now"] assms(3)
    by (simp add: sel_def now_or_def)
  have left: "length sel = nat limit \<and> (\<forall>s \<in> set sel. item_order s \<le> item_order w)"
    if w: "w \<in> set rows - set sel" "?ok w" for w
  proof
    have mem: "w \<in> set ?all - set (take (nat limit) ?all)" using w unfolding sel by simp
    then show "\<forall>s \<in> set sel. item_order s \<le> item_order w"
      using take_sorted_le [OF sorted] unfolding sel by blast
    have "\<not> length ?all \<le> nat limit" using mem by auto
    then show "length sel = nat limit" unfolding sel by simp
  qed
  show ?thesis
  proof (intro exI [of _ sel] conjI)
    show "distinct sel" using dist unfolding sel by (simp add: distinct_map)
    show "sorted (map item_order sel)" using sorted unfolding sel take_map [symmetric] by (rule sorted_wrt_take)
    show "length sel \<le> nat limit" unfolding sel by simp
    show "set sel \<subseteq> set rows" using sub by blast
  qed (use sub left in \<open>auto simp: claim claim_is_compatible [OF assms(3)] item_eligible_def\<close>)
qed

theorem claim_batch_spec_witness:
  "items_ok demo_items \<and> (\<exists>sel. length sel \<le> 1
     \<and> claim_batch 0 ''memory_tagging'' ''agentic'' ''w1'' 1 None (Some 20) 30 demo_items =
        (Inr (map (item_claim_update ''w1'' 20 30) sel),
         map (\<lambda>w. if w \<in> set sel then item_claim_update ''w1'' 20 30 w else w) demo_items))"
  using claim_batch_spec [OF demo_items_ok, of 1 "''memory_tagging''" "''agentic''" 20 None 0 "''w1''" 30]
  by (auto simp: demo_items_ok)



text \<open>Submission with an idempotency key is idempotent: if it returns an item, the item carries
  the key; it is new exactly when no item had the key; and a second submission with the key,
  whatever its other arguments, returns an item with this key and changes nothing.\<close>

lemma enqueue_item_idempotent:
  assumes "items_ok rows"
    and "enqueue_item uuid clk family lane payload ws prio avail (Some k) rows = (Inr (w, created), rows')"
  shows "w \<in> set rows' \<and> w_idempotency_key w = Some k
    \<and> (created \<longleftrightarrow> Some k \<notin> w_idempotency_key ` set rows)
    \<and> rows' = (if created then rows @ [w] else rows)
    \<and> enqueue_item uuid' clk' family' lane' payload' ws' prio' avail' (Some k) rows' = (Inr (w, False), rows')"
proof -
  have main: "w \<in> set rows' \<and> w_idempotency_key w = Some k
    \<and> (created \<longleftrightarrow> Some k \<notin> w_idempotency_key ` set rows) \<and> rows' = (if created then rows @ [w] else rows)"
    using assms(2)
  proof (cases rule: enqueue_item_cases [where uuid = uuid and clk = clk and family = family and lane = lane
      and payload = payload and ws = ws and prio = prio and avail = avail and key = "Some k" and rows = rows])
    case (new w')
    with assms(2) show ?thesis by auto
  next
    case (old w' k')
    from old(3) have "w' \<in> set rows" "w_idempotency_key w' = Some k"
      by (auto simp: find_by_idempotency_key_def dest: find_SomeD)
    with old assms(2) show ?thesis by force
  next
    case clash
    with assms(2) show ?thesis by simp
  qed
  have ok: "items_ok rows'"
    using item_move_ok [OF enqueue_item_move assms(1)] assms(2) by (metis snd_conv)
  have "find_by_idempotency_key (Some k) rows' = Some w"
  proof -
    let ?keyed = "filter (\<lambda>w. w_idempotency_key w \<noteq> None) rows'"
    have "find_by_idempotency_key (Some k) xs =
        List.find (\<lambda>w. w_idempotency_key w = Some k) (filter (\<lambda>w. w_idempotency_key w \<noteq> None) xs)" for xs
      unfolding find_by_idempotency_key_def by (induction xs) auto
    moreover have "List.find (\<lambda>w. w_idempotency_key w = Some k) ?keyed = Some w"
      using ok main by (intro find_key [where k = w_idempotency_key]) (auto simp: items_ok_def)
    ultimately show ?thesis by (simp only:)
  qed
  moreover have "Some k \<in> w_idempotency_key ` set rows'" using main by force
  ultimately have "enqueue_item uuid' clk' family' lane' payload' ws' prio' avail' (Some k) rows' = (Inr (w, False), rows')"
    by (simp add: enqueue_item_def Let_def)
  with main show ?thesis by blast
qed

theorem enqueue_item_idempotent_witness:
  "enqueue_item ''j'' 11 ''f'' ''l'' None None 1 None (Some ''k'') demo_items = (Inr (demo_item, False), demo_items)"
proof -
  have res: "enqueue_item ''h'' 10 ''f'' ''l'' None None 1 None (Some ''k'') demo_items =
      (Inr (demo_item, False), demo_items)"
    by (simp add: enqueue_item_def find_by_idempotency_key_def demo_items_eq demo_item_def)
  show ?thesis using enqueue_item_idempotent [OF demo_items_ok res] by blast
qed

text \<open>The lease owner is checked by the heartbeat only. A worker whose lease has expired can still
  complete the item that another worker holds by now.\<close>

lemma stale_worker_completes:
  "\<exists>leased w. claim_batch 0 ''memory_tagging'' ''agentic'' ''w2'' 1 None (Some 60) 30 demo_leased = (Inr [leased], [leased])
    \<and> w_lease_owner leased = Some ''w2'' \<and> w_lease_expires_at leased = Some 90
    \<and> fst (heartbeat_item 61 ''i'' ''w1'' 30 None [leased]) \<noteq> Inr w
    \<and> complete_item 61 ''i'' None [leased] = (Inr w, [w]) \<and> w_status w = ItemCompleted"
  by (simp add: claim_batch_def demo_leased_eq item_claim_update_def demo_item_def item_due_def item_ws_def
      now_or_def limit_rows_def order_by_def heartbeat_item_def complete_item_def update_running_item_def
      get_item_def Let_def)

section \<open>Compatibility groups\<close>

text \<open>The families of a compatibility group: an accepted answer holds only families of the
  group, each once and never none, and holds exactly the asked ones that are not blank when any
  were asked; an unknown group, a blank-only list and a family outside the group are errors.\<close>

theorem compatibility_group_families_spec:
  "case compatibility_group_families grp allowed of
     Inr fs \<Rightarrow> (\<exists>all. map_of WORK_ITEM_COMPATIBILITY_GROUPS grp = Some all \<and> fs \<noteq> [] \<and> distinct fs
       \<and> set fs \<subseteq> set all
       \<and> set fs = (case allowed of None \<Rightarrow> set all | Some as \<Rightarrow> if as = [] then set all
                    else {f \<in> set as. py_strip f \<noteq> []}))
   | Inl e \<Rightarrow> map_of WORK_ITEM_COMPATIBILITY_GROUPS grp = None
       \<or> (\<exists>all as. map_of WORK_ITEM_COMPATIBILITY_GROUPS grp = Some all \<and> allowed = Some as \<and> as \<noteq> []
            \<and> ((\<forall>f \<in> set as. py_strip f = []) \<or> (\<exists>f \<in> set as. py_strip f \<noteq> [] \<and> f \<notin> set all)))"
proof (cases "map_of WORK_ITEM_COMPATIBILITY_GROUPS grp")
  case None
  then show ?thesis by (simp add: compatibility_group_families_def)
next
  case (Some all)
  then have group_list: "distinct all" "all \<noteq> []"
    by (auto simp: WORK_ITEM_COMPATIBILITY_GROUPS_def split: if_splits)
  show ?thesis
  proof (cases "allowed = None \<or> allowed = Some []")
    case True
    with Some group_list show ?thesis by (auto simp: compatibility_group_families_def)
  next
    case False
    then obtain a as where allowed: "allowed = Some (a # as)"
      by (cases allowed; cases "the allowed") auto
    define asked where "asked = ordered_unique (filter (\<lambda>f. py_strip f \<noteq> []) (a # as))"
    have res: "compatibility_group_families grp allowed =
        (if asked = [] then Inl (ValueError ''allowed_families must include at least one family when provided'')
         else if filter (\<lambda>f. f \<notin> set all) asked \<noteq> []
         then Inl (ValueError (''Families '' @ repr_list (filter (\<lambda>f. f \<notin> set all) asked) @
             '' are not compatible with group '' @ grp)) else Inr asked)"
      unfolding compatibility_group_families_def Some allowed asked_def by (simp add: Let_def)
    have asked: "distinct asked" "set asked = {f \<in> set (a # as). py_strip f \<noteq> []}"
      unfolding asked_def by (simp, simp only: set_ordered_unique set_filter)
    then have "asked = [] \<longleftrightarrow> (\<forall>f \<in> set (a # as). py_strip f = [])" by (metis (mono_tags, lifting)
        empty_Collect_eq set_empty)
    with asked show ?thesis
      unfolding res using Some allowed by (auto simp: filter_empty_conv)
  qed
qed

theorem compatibility_group_families_spec_witness:
  "\<exists>fs. compatibility_group_families ''lightweight_review'' None = Inr fs \<and> distinct fs"
proof -
  have "compatibility_group_families ''lightweight_review'' None \<noteq> Inl e" for e
    by (simp add: compatibility_group_families_def WORK_ITEM_COMPATIBILITY_GROUPS_def)
  then show ?thesis
    using compatibility_group_families_spec [of "''lightweight_review''" None]
    by (cases "compatibility_group_families ''lightweight_review'' None") auto
qed

end
