(* ===== verification/Journal.thy ===== *)
theory Journal
  imports TaskQueue
begin

text \<open>
  The System 1 journal, \<open>core/journal.py\<close> over the table \<open>system1_journal\<close>: raw thoughts are
  recorded as pending, claimed by one ingest task, and then deleted, released or kept
  recoverable for a while. \<open>id\<close> is an AUTOINCREMENT key, so \<open>next_id\<close> never falls.
\<close>

section \<open>Records\<close>

datatype entry_status = EPending | EClaimed | ERecoverable | EProcessed | EArchived

fun entry_status_name :: "entry_status \<Rightarrow> string" where
  "entry_status_name EPending = ''pending''"
| "entry_status_name EClaimed = ''claimed''"
| "entry_status_name ERecoverable = ''recoverable''"
| "entry_status_name EProcessed = ''processed''"
| "entry_status_name EArchived = ''archived''"

text \<open>A row of the table, and the \<open>JournalEntry\<close> that the class hands out.\<close>

record journal_row =
  j_id :: int
  j_content :: string
  j_workspace :: "string option"
  j_timestamp :: time
  j_status :: entry_status
  j_claim_task :: "string option"
  j_claimed_at :: "time option"
  j_recoverable_until :: "time option"

record journal_entry =
  e_id :: int
  e_content :: string
  e_workspace :: "string option"
  e_timestamp :: time
  e_status :: entry_status

record journal =
  entries :: "journal_row list"
  next_id :: int

type_synonym 'a journal_op = "journal \<Rightarrow> 'a res \<times> journal"

definition empty_journal :: journal where
  "empty_journal = \<lparr>entries = [], next_id = 1\<rparr>"

definition entry_of :: "journal_row \<Rightarrow> journal_entry" where
  "entry_of r = \<lparr>e_id = j_id r, e_content = j_content r, e_workspace = j_workspace r,
     e_timestamp = j_timestamp r, e_status = j_status r\<rparr>"

definition to_dict :: "journal_entry \<Rightarrow> dict" where
  "to_dict e = [(''id'', JInt (e_id e)), (''content'', JStr (e_content e)),
     (''workspace_id'', opt_json_str (e_workspace e)), (''timestamp'', JFloat (e_timestamp e)),
     (''status'', JStr (entry_status_name (e_status e)))]"

section \<open>Capture\<close>

definition record_with_timestamp ::
  "time \<Rightarrow> string \<Rightarrow> string option \<Rightarrow> time option \<Rightarrow> journal_entry journal_op" where
  "record_with_timestamp clk content ws ts j =
     (if blank content then (Inl (ValueError ''Journal content cannot be empty''), j)
      else let text = py_strip content; now = now_or ts clk in
        case List.find (\<lambda>r. j_content r = text \<and> j_workspace r = ws \<and> j_timestamp r = now) (entries j) of
          Some r \<Rightarrow> (Inr (entry_of r), j)
        | None \<Rightarrow>
            let row = \<lparr>j_id = next_id j, j_content = text, j_workspace = ws, j_timestamp = now,
                       j_status = EPending, j_claim_task = None, j_claimed_at = None,
                       j_recoverable_until = None\<rparr>
            in (Inr (entry_of row), j\<lparr>entries := entries j @ [row], next_id := next_id j + 1\<rparr>))"

definition record_entry :: "time \<Rightarrow> string \<Rightarrow> string option \<Rightarrow> journal_entry journal_op" where
  "record_entry clk content ws = record_with_timestamp clk content ws None"

section \<open>Claims\<close>

definition pending_rows :: "int \<Rightarrow> ws_filter \<Rightarrow> journal \<Rightarrow> journal_row list" where
  "pending_rows limit ws j = limit_rows limit
     (order_by j_timestamp (filter (\<lambda>r. j_status r = EPending \<and> ws_match ws (j_workspace r)) (entries j)))"

definition get_pending :: "int \<Rightarrow> ws_filter \<Rightarrow> journal \<Rightarrow> journal_entry list" where
  "get_pending limit ws j = map entry_of (pending_rows limit ws j)"

definition claim_row :: "string \<Rightarrow> time \<Rightarrow> journal_row \<Rightarrow> journal_row" where
  "claim_row task now r = r\<lparr>j_status := EClaimed, j_claim_task := Some task, j_claimed_at := Some now\<rparr>"

definition claim_pending ::
  "time \<Rightarrow> string \<Rightarrow> int \<Rightarrow> ws_filter \<Rightarrow> time option \<Rightarrow> journal_entry list journal_op" where
  "claim_pending clk task_id limit ws claimed_at j =
     (if blank task_id then (Inl (ValueError ''task_id is required''), j)
      else let now = now_or claimed_at clk;
               rows = pending_rows limit ws j
        in if rows = [] then (Inr [], j)
           else let ids = map j_id rows;
                    guard = (\<lambda>r. j_id r \<in> set ids \<and> j_status r = EPending)
                in if rowcount guard (entries j) \<noteq> length ids
                   then (Inl (RuntimeError ''failed to claim journal entries atomically''), j)
                   else (Inr (map (\<lambda>r. (entry_of r)\<lparr>e_status := EClaimed\<rparr>) rows),
                         j\<lparr>entries := update_where guard (claim_row (py_strip task_id) now) (entries j)\<rparr>))"

text \<open>\<open>_normalize_claimed_entry_ids\<close>: the entries that the task has claimed, of the given ones if
  any are given, oldest first.\<close>

definition normalize_claimed_entry_ids :: "string \<Rightarrow> int list option \<Rightarrow> journal \<Rightarrow> int list" where
  "normalize_claimed_entry_ids task_id ids j =
     (if blank task_id then []
      else let claimed = (\<lambda>r. j_status r = EClaimed \<and> j_claim_task r = Some (py_strip task_id));
               select = (\<lambda>p. map j_id (order_by j_timestamp (filter p (entries j))))
        in case ids of
             None \<Rightarrow> select claimed
           | Some given \<Rightarrow>
               let normalized = filter (\<lambda>i. i > 0) given in
               if normalized = [] then []
               else select (\<lambda>r. claimed r \<and> j_id r \<in> set normalized))"

definition get_claimed_entry_ids :: "string \<Rightarrow> journal \<Rightarrow> int list" where
  "get_claimed_entry_ids task_id j = normalize_claimed_entry_ids task_id None j"

definition reset_row :: "entry_status \<Rightarrow> journal_row \<Rightarrow> journal_row" where
  "reset_row st r = r\<lparr>j_status := st, j_claim_task := None, j_claimed_at := None,
     j_recoverable_until := None\<rparr>"

definition owned_guard :: "string \<Rightarrow> int list \<Rightarrow> journal_row \<Rightarrow> bool" where
  "owned_guard task_id ids r = (j_id r \<in> set ids \<and> j_status r = EClaimed
     \<and> j_claim_task r = Some (py_strip task_id))"

definition release_claimed_entry_ids :: "string \<Rightarrow> int list \<Rightarrow> journal \<Rightarrow> int list \<times> journal" where
  "release_claimed_entry_ids task_id entry_ids j =
     (let ids = normalize_claimed_entry_ids task_id (Some entry_ids) j in
      if ids = [] then ([], j)
      else (ids, j\<lparr>entries := update_where (owned_guard task_id ids) (reset_row EPending) (entries j)\<rparr>))"

abbreviation "RECOVERABLE_RETENTION_SECONDS \<equiv> (48 * 60 * 60 :: time)"

definition recoverable_row :: "time \<Rightarrow> journal_row \<Rightarrow> journal_row" where
  "recoverable_row until r = r\<lparr>j_status := ERecoverable, j_claim_task := None, j_claimed_at := None,
     j_recoverable_until := Some until\<rparr>"

definition move_claimed_entry_ids_to_recoverable ::
  "time \<Rightarrow> string \<Rightarrow> int list \<Rightarrow> time option \<Rightarrow> journal \<Rightarrow> int list \<times> journal" where
  "move_claimed_entry_ids_to_recoverable clk task_id entry_ids until j =
     (let ids = normalize_claimed_entry_ids task_id (Some entry_ids) j in
      if ids = [] then ([], j)
      else let expiry = now_or until (clk + RECOVERABLE_RETENTION_SECONDS)
           in (ids, j\<lparr>entries := update_where (owned_guard task_id ids) (recoverable_row expiry) (entries j)\<rparr>))"

definition delete_claimed_entry_ids :: "string \<Rightarrow> int list \<Rightarrow> journal \<Rightarrow> int list \<times> journal" where
  "delete_claimed_entry_ids task_id entry_ids j =
     (let ids = normalize_claimed_entry_ids task_id (Some entry_ids) j in
      if ids = [] then ([], j)
      else (ids, j\<lparr>entries := filter (\<lambda>r. \<not> owned_guard task_id ids r) (entries j)\<rparr>))"

definition release_claims :: "string \<Rightarrow> journal \<Rightarrow> int list \<times> journal" where
  "release_claims task_id j =
     (if blank task_id then ([], j)
      else release_claimed_entry_ids task_id (get_claimed_entry_ids task_id j) j)"

definition move_claims_to_recoverable ::
  "time \<Rightarrow> string \<Rightarrow> time option \<Rightarrow> journal \<Rightarrow> int list \<times> journal" where
  "move_claims_to_recoverable clk task_id until j =
     (if blank task_id then ([], j)
      else move_claimed_entry_ids_to_recoverable clk task_id (get_claimed_entry_ids task_id j) until j)"

definition delete_claims :: "string \<Rightarrow> journal \<Rightarrow> int list \<times> journal" where
  "delete_claims task_id j =
     (if blank task_id then ([], j)
      else delete_claimed_entry_ids task_id (get_claimed_entry_ids task_id j) j)"

section \<open>Maintenance\<close>

text \<open>\<open>release_orphaned_claims\<close> selects the claimed entries without a running owner and then
  updates by identifier; the two statements are not one transaction, so they are two functions
  here.\<close>

definition orphaned :: "taskdb \<Rightarrow> journal_row \<Rightarrow> bool" where
  "orphaned db r = (j_status r = EClaimed
     \<and> (case j_claim_task r of
          None \<Rightarrow> True
        | Some tid \<Rightarrow> tid \<notin> t_id ` {t \<in> set (tasks db). t_status t = Running}))"

definition select_orphaned_claims :: "taskdb \<Rightarrow> journal \<Rightarrow> int list" where
  "select_orphaned_claims db j = map j_id (order_by j_timestamp (filter (orphaned db) (entries j)))"

definition release_selected_claims :: "int list \<Rightarrow> journal \<Rightarrow> journal" where
  "release_selected_claims ids j = j\<lparr>entries :=
     update_where (\<lambda>r. j_id r \<in> set ids \<and> j_status r = EClaimed) (reset_row EPending) (entries j)\<rparr>"

definition release_orphaned_claims :: "taskdb \<Rightarrow> journal \<Rightarrow> int list \<times> journal" where
  "release_orphaned_claims db j =
     (let ids = select_orphaned_claims db j in
      if ids = [] then ([], j) else (ids, release_selected_claims ids j))"

definition expired_recoverable :: "time \<Rightarrow> journal_row \<Rightarrow> bool" where
  "expired_recoverable cutoff r = (j_status r = ERecoverable
     \<and> (case j_recoverable_until r of None \<Rightarrow> False | Some u \<Rightarrow> u \<le> cutoff))"

definition purge_expired_recoverable :: "time \<Rightarrow> time option \<Rightarrow> journal \<Rightarrow> int list \<times> journal" where
  "purge_expired_recoverable clk now j =
     (let cutoff = now_or now clk;
          ids = map j_id (order_by j_timestamp (filter (expired_recoverable cutoff) (entries j)))
      in if ids = [] then ([], j)
         else (ids, j\<lparr>entries := filter (\<lambda>r. \<not> (j_id r \<in> set ids \<and> j_status r = ERecoverable)) (entries j)\<rparr>))"

definition mark_processed :: "int list \<Rightarrow> journal \<Rightarrow> nat \<times> journal" where
  "mark_processed ids j =
     (if ids = [] then (0, j)
      else let guard = (\<lambda>r. j_id r \<in> set ids \<and> j_status r = EPending)
           in (rowcount guard (entries j),
               j\<lparr>entries := update_where guard (reset_row EProcessed) (entries j)\<rparr>))"

definition mark_archived :: "int list \<Rightarrow> journal \<Rightarrow> nat \<times> journal" where
  "mark_archived ids j =
     (if ids = [] then (0, j)
      else let guard = (\<lambda>r. j_id r \<in> set ids \<and> j_status r = EProcessed)
           in (rowcount guard (entries j),
               j\<lparr>entries := update_where guard (reset_row EArchived) (entries j)\<rparr>))"

section \<open>Queries\<close>

definition journal_count_by_status :: "ws_filter \<Rightarrow> journal \<Rightarrow> string \<Rightarrow> int option" where
  "journal_count_by_status ws j s =
     (let n = length (filter (\<lambda>r. ws_match ws (j_workspace r) \<and> entry_status_name (j_status r) = s) (entries j))
      in if n = 0 then None else Some (int n))"

definition get_oldest_pending_timestamp :: "ws_filter \<Rightarrow> journal \<Rightarrow> time option" where
  "get_oldest_pending_timestamp ws j =
     (case map j_timestamp (filter (\<lambda>r. j_status r = EPending \<and> ws_match ws (j_workspace r)) (entries j)) of
        [] \<Rightarrow> None
      | t # ts \<Rightarrow> Some (fold min ts t))"

definition get_latest_thought_timestamp :: "ws_filter \<Rightarrow> journal \<Rightarrow> time option" where
  "get_latest_thought_timestamp ws j =
     (case map j_timestamp (filter (\<lambda>r. ws_match ws (j_workspace r)) (entries j)) of
        [] \<Rightarrow> None
      | t # ts \<Rightarrow> Some (fold max ts t))"

definition get_recent :: "int \<Rightarrow> journal \<Rightarrow> journal_entry list" where
  "get_recent limit j = map entry_of (limit_rows limit (order_by (\<lambda>r. - j_timestamp r) (entries j)))"

end
