(* ===== verification/JournalLaws.thy ===== *)
theory JournalLaws
  imports Journal
begin

text \<open>
  What the journal promises: an abstract machine on its rows (\<open>entry_edge\<close>, \<open>journal_move\<close>) that
  every operation follows, the invariant of the table, and the exact effect of a claim and of
  its release.
\<close>

section \<open>The life of an entry\<close>

inductive entry_edge :: "entry_status \<Rightarrow> entry_status \<Rightarrow> bool" where
  "entry_edge EPending EClaimed"
| "entry_edge EClaimed EPending"
| "entry_edge EClaimed ERecoverable"
| "entry_edge EPending EProcessed"
| "entry_edge EProcessed EArchived"

code_pred entry_edge .

inductive_simps entry_edge_simps [simp]:
  "entry_edge EPending s" "entry_edge EClaimed s" "entry_edge ERecoverable s"
  "entry_edge EProcessed s" "entry_edge EArchived s"

definition same_thought :: "journal_row \<Rightarrow> journal_row \<Rightarrow> bool" where
  "same_thought r r' = (j_id r' = j_id r \<and> j_content r' = j_content r \<and> j_workspace r' = j_workspace r
     \<and> j_timestamp r' = j_timestamp r)"

definition entry_ok :: "journal_row \<Rightarrow> bool" where
  "entry_ok r = (1 \<le> j_id r \<and> j_content r \<noteq> [] \<and> py_strip (j_content r) = j_content r
     \<and> (if j_status r = EClaimed
        then j_claimed_at r \<noteq> None \<and> (\<exists>t. j_claim_task r = Some t \<and> \<not> blank t \<and> py_strip t = t)
        else j_claimed_at r = None \<and> j_claim_task r = None)
     \<and> (j_recoverable_until r \<noteq> None \<longleftrightarrow> j_status r = ERecoverable))"

definition thought_key :: "journal_row \<Rightarrow> string \<times> string option \<times> time" where
  "thought_key r = (j_content r, j_workspace r, j_timestamp r)"

definition journal_ok :: "journal \<Rightarrow> bool" where
  "journal_ok j = (distinct (map j_id (entries j)) \<and> distinct (map thought_key (entries j))
     \<and> (\<forall>r \<in> set (entries j). entry_ok r \<and> j_id r < next_id j))"

inductive journal_move :: "journal \<Rightarrow> journal \<Rightarrow> bool" where
  jmove_stay: "journal_move j j"
| jmove_insert: "j_id r = next_id j \<Longrightarrow> j_status r = EPending \<Longrightarrow> (1 \<le> next_id j \<Longrightarrow> entry_ok r)
    \<Longrightarrow> thought_key r \<notin> thought_key ` set (entries j)
    \<Longrightarrow> journal_move j (j\<lparr>entries := entries j @ [r], next_id := next_id j + 1\<rparr>)"
| jmove_update: "(\<And>r. same_thought r (f r)) \<Longrightarrow> (\<And>r. p r \<Longrightarrow> entry_edge (j_status r) (j_status (f r)))
    \<Longrightarrow> (\<And>r. p r \<Longrightarrow> entry_ok r \<Longrightarrow> entry_ok (f r))
    \<Longrightarrow> journal_move j (j\<lparr>entries := update_where p f (entries j)\<rparr>)"
| jmove_delete: "(\<And>r. p r \<Longrightarrow> j_status r \<in> {EClaimed, ERecoverable})
    \<Longrightarrow> journal_move j (j\<lparr>entries := filter (\<lambda>r. \<not> p r) (entries j)\<rparr>)"

lemma entry_ok_pos: "journal_ok j \<Longrightarrow> entries j \<noteq> [] \<Longrightarrow> 1 \<le> next_id j"
  by (cases "entries j") (force simp: journal_ok_def entry_ok_def)+

definition journal_inv :: "journal \<Rightarrow> bool" where
  "journal_inv j = (journal_ok j \<and> 1 \<le> next_id j)"

lemma journal_move_inv: "journal_move j j' \<Longrightarrow> journal_inv j \<Longrightarrow> journal_inv j'"
proof (induction rule: journal_move.induct)
  case (jmove_insert r j)
  then show ?case by (fastforce simp: journal_inv_def journal_ok_def)
next
  case (jmove_update f p j)
  have "map j_id (update_where p f (entries j)) = map j_id (entries j)"
    "map thought_key (update_where p f (entries j)) = map thought_key (entries j)"
    using jmove_update(1) by (auto intro!: map_update_where simp: same_thought_def thought_key_def)
  moreover have "entry_ok r \<and> j_id r < next_id j" if "r \<in> set (update_where p f (entries j))" for r
    using that jmove_update(1,3,4)
    by (auto simp: in_update_where journal_inv_def journal_ok_def same_thought_def split: if_splits)
  ultimately show ?case using jmove_update(4) by (simp add: journal_inv_def journal_ok_def)
next
  case (jmove_delete p j)
  then show ?case by (auto simp: journal_inv_def journal_ok_def distinct_map_filter)
qed simp

text \<open>A row after a move: the same, one edge on, or deleted from \<open>claimed\<close> or \<open>recoverable\<close>.\<close>

lemma journal_move_row:
  assumes "journal_move j j'" and "r \<in> set (entries j)"
  shows "(\<exists>r' \<in> set (entries j'). same_thought r r' \<and> (r' = r \<or> entry_edge (j_status r) (j_status r')))
    \<or> j_status r \<in> {EClaimed, ERecoverable}"
  using assms
proof (induction rule: journal_move.induct)
  case (jmove_update f p j)
  have "(if p r then f r else r) \<in> set (update_where p f (entries j))"
    using jmove_update(4) unfolding in_update_where by blast
  then show ?case using jmove_update(1,2) [of r]
    by (intro disjI1) (auto intro!: bexI [of _ "if p r then f r else r"] simp: same_thought_def)
next
  case (jmove_delete p j)
  then show ?case by (cases "p r") (auto simp: same_thought_def)
qed (auto simp: same_thought_def)

section \<open>The operations are moves\<close>

lemma py_strip_nonblank: "\<not> blank s \<Longrightarrow> py_strip s \<noteq> []"
  by (simp add: blank_def)

lemma record_move: "journal_move j (snd (record_with_timestamp clk content ws ts j))"
proof (cases "blank content")
  case True
  then show ?thesis by (simp add: record_with_timestamp_def jmove_stay)
next
  case False
  let ?p = "\<lambda>r. j_content r = py_strip content \<and> j_workspace r = ws \<and> j_timestamp r = now_or ts clk"
  show ?thesis
  proof (cases "List.find ?p (entries j)")
    case None
    then have "(py_strip content, ws, now_or ts clk) \<notin> thought_key ` set (entries j)"
      by (auto simp: find_None_iff thought_key_def)
    with None False show ?thesis
      by (auto simp: record_with_timestamp_def Let_def entry_ok_def py_strip_nonblank thought_key_def
          intro!: jmove_insert)
  next
    case (Some r)
    with False show ?thesis by (simp add: record_with_timestamp_def Let_def jmove_stay)
  qed
qed

lemma claim_pending_move: "journal_move j (snd (claim_pending clk tid limit ws tm j))"
proof -
  have "journal_move j (j\<lparr>entries := update_where (\<lambda>r. j_id r \<in> ids \<and> j_status r = EPending)
      (claim_row (py_strip tid) now) (entries j)\<rparr>)" if "\<not> blank tid" for ids now
    using that by (intro jmove_update)
      (auto simp: same_thought_def claim_row_def entry_ok_def blank_def)
  then show ?thesis by (simp add: claim_pending_def Let_def jmove_stay)
qed

lemma owned_update_move:
  assumes "\<And>r. same_thought r (f r)" and "\<And>r. j_status (f r) = st" and "st \<in> {EPending, ERecoverable}"
    and "\<And>r. j_status r = EClaimed \<Longrightarrow> entry_ok r \<Longrightarrow> entry_ok (f r)"
  shows "journal_move j (j\<lparr>entries := update_where (owned_guard tid ids) f (entries j)\<rparr>)"
  using assms by (intro jmove_update) (auto simp: owned_guard_def)

lemma release_claimed_entry_ids_move: "journal_move j (snd (release_claimed_entry_ids tid ids j))"
  by (auto simp: release_claimed_entry_ids_def Let_def same_thought_def reset_row_def entry_ok_def
      intro!: jmove_stay owned_update_move)

lemma move_recoverable_move:
  "journal_move j (snd (move_claimed_entry_ids_to_recoverable clk tid ids until j))"
  by (auto simp: move_claimed_entry_ids_to_recoverable_def Let_def same_thought_def recoverable_row_def
      entry_ok_def intro!: jmove_stay owned_update_move)

lemma delete_claimed_entry_ids_move: "journal_move j (snd (delete_claimed_entry_ids tid ids j))"
proof -
  have "journal_move j (j\<lparr>entries := filter (\<lambda>r. \<not> owned_guard tid claimed r) (entries j)\<rparr>)" for claimed
    by (rule jmove_delete) (simp add: owned_guard_def)
  then show ?thesis by (simp add: delete_claimed_entry_ids_def Let_def jmove_stay)
qed

lemma release_selected_claims_move: "journal_move j (release_selected_claims ids j)"
  unfolding release_selected_claims_def
  by (rule jmove_update) (auto simp: same_thought_def reset_row_def entry_ok_def)

lemma release_orphaned_claims_move: "journal_move j (snd (release_orphaned_claims db j))"
  by (simp add: release_orphaned_claims_def Let_def jmove_stay release_selected_claims_move)

lemma purge_move: "journal_move j (snd (purge_expired_recoverable clk now j))"
proof -
  have "journal_move j (j\<lparr>entries := filter (\<lambda>r. \<not> (j_id r \<in> ids \<and> j_status r = ERecoverable)) (entries j)\<rparr>)" for ids
    by (rule jmove_delete) simp
  then show ?thesis by (simp add: purge_expired_recoverable_def Let_def jmove_stay)
qed

lemma mark_processed_move: "journal_move j (snd (mark_processed ids j))"
proof -
  have "journal_move j (j\<lparr>entries := update_where (\<lambda>r. j_id r \<in> set ids \<and> j_status r = EPending)
      (reset_row EProcessed) (entries j)\<rparr>)"
    by (rule jmove_update) (auto simp: same_thought_def reset_row_def entry_ok_def)
  then show ?thesis by (simp add: mark_processed_def Let_def jmove_stay)
qed

lemma mark_archived_move: "journal_move j (snd (mark_archived ids j))"
proof -
  have "journal_move j (j\<lparr>entries := update_where (\<lambda>r. j_id r \<in> set ids \<and> j_status r = EProcessed)
      (reset_row EArchived) (entries j)\<rparr>)"
    by (rule jmove_update) (auto simp: same_thought_def reset_row_def entry_ok_def)
  then show ?thesis by (simp add: mark_archived_def Let_def jmove_stay)
qed

section \<open>The effect of a claim\<close>

lemma pending_rows_sub:
  "set (pending_rows limit ws j) \<subseteq> {r \<in> set (entries j). j_status r = EPending \<and> ws_match ws (j_workspace r)}"
  using set_limit_rows by (fastforce simp: pending_rows_def)

lemma distinct_pending_rows: "distinct (entries j) \<Longrightarrow> distinct (pending_rows limit ws j)"
  by (simp add: pending_rows_def limit_rows_def)

lemma claim_pending_eq:
  assumes ok: "journal_ok j" and task: "\<not> blank tid"
  shows "claim_pending clk tid limit ws tm j =
    (Inr (map (\<lambda>r. (entry_of r)\<lparr>e_status := EClaimed\<rparr>) (pending_rows limit ws j)),
     j\<lparr>entries := map (\<lambda>r. if r \<in> set (pending_rows limit ws j)
                          then claim_row (py_strip tid) (now_or tm clk) r else r) (entries j)\<rparr>)"
proof -
  let ?sel = "pending_rows limit ws j"
  let ?p = "\<lambda>r. j_id r \<in> set (map j_id ?sel) \<and> j_status r = EPending"
  let ?f = "claim_row (py_strip tid) (now_or tm clk)"
  have dist: "distinct (entries j)" "inj_on j_id (set (entries j))"
    using ok by (simp_all add: journal_ok_def distinct_map)
  have sub: "set ?sel \<subseteq> set (entries j)" using pending_rows_sub by blast
  have guard: "?p r \<longleftrightarrow> r \<in> set ?sel" if "r \<in> set (entries j)" for r
    using inj_on_image_mem_iff [OF dist(2) that sub] pending_rows_sub by auto
  have "rowcount ?p (entries j) = length ?sel"
    using dist(1) distinct_pending_rows [OF dist(1)] sub guard by (rule rowcount_select)
  moreover have "update_where ?p ?f (entries j) = map (\<lambda>r. if r \<in> set ?sel then ?f r else r) (entries j)"
    unfolding update_where_def by (rule map_cong [OF refl]) (simp only: guard)
  moreover have "map (\<lambda>r. if r \<in> set [] then ?f r else r) (entries j) = entries j" by (simp add: map_idI)
  ultimately show ?thesis
    using task by (cases "?sel = []") (simp_all add: claim_pending_def Let_def map_idI)
qed

section \<open>The claims of a task\<close>

definition owned :: "string \<Rightarrow> journal_row \<Rightarrow> bool" where
  "owned tid r = (j_status r = EClaimed \<and> j_claim_task r = Some (py_strip tid))"

lemma get_claimed_entry_ids_eq:
  "\<not> blank tid \<Longrightarrow> get_claimed_entry_ids tid j = map j_id (order_by j_timestamp (filter (owned tid) (entries j)))"
  by (simp add: get_claimed_entry_ids_def normalize_claimed_entry_ids_def owned_def [abs_def])

lemma owned_guard_all:
  "\<not> blank tid \<Longrightarrow> r \<in> set (entries j) \<Longrightarrow> owned_guard tid (get_claimed_entry_ids tid j) r = owned tid r"
  by (auto simp: get_claimed_entry_ids_eq owned_guard_def owned_def)

lemma normalize_own_claims:
  assumes "journal_ok j" and "\<not> blank tid"
  shows "normalize_claimed_entry_ids tid (Some (get_claimed_entry_ids tid j)) j = get_claimed_entry_ids tid j"
proof -
  let ?ids = "get_claimed_entry_ids tid j"
  have "\<forall>i \<in> set ?ids. i > 0"
    using assms by (force simp: get_claimed_entry_ids_eq journal_ok_def entry_ok_def)
  then have pos: "filter (\<lambda>i. i > 0) ?ids = ?ids" by simp
  have "filter (\<lambda>r. (j_status r = EClaimed \<and> j_claim_task r = Some (py_strip tid)) \<and> j_id r \<in> set ?ids) (entries j) =
      filter (owned tid) (entries j)"
    using assms(2) by (intro filter_cong [OF refl]) (auto simp: get_claimed_entry_ids_eq owned_def)
  then show ?thesis
    using assms(2) pos by (auto simp: normalize_claimed_entry_ids_def get_claimed_entry_ids_eq Let_def)
qed

lemma no_owned: "\<not> blank tid \<Longrightarrow> get_claimed_entry_ids tid j = [] \<longleftrightarrow> (\<forall>r \<in> set (entries j). \<not> owned tid r)"
  by (simp add: get_claimed_entry_ids_eq filter_empty_conv)

lemma owned_update:
  assumes "\<not> blank tid"
  shows "update_where (owned_guard tid (get_claimed_entry_ids tid j)) f (entries j) =
    map (\<lambda>r. if owned tid r then f r else r) (entries j)"
  unfolding update_where_def by (rule map_cong [OF refl]) (simp only: owned_guard_all [OF assms])

lemma release_claims_eq:
  assumes "journal_ok j" and "\<not> blank tid"
  shows "release_claims tid j = (get_claimed_entry_ids tid j,
    j\<lparr>entries := map (\<lambda>r. if owned tid r then reset_row EPending r else r) (entries j)\<rparr>)"
proof (cases "get_claimed_entry_ids tid j = []")
  case True
  then have "map (\<lambda>r. if owned tid r then reset_row EPending r else r) (entries j) = entries j"
    using no_owned [OF assms(2)] by (auto intro: map_idI)
  with True show ?thesis
    using assms(2) normalize_own_claims [OF assms]
    by (simp add: release_claims_def release_claimed_entry_ids_def)
next
  case False
  with assms(2) show ?thesis
    by (simp add: release_claims_def release_claimed_entry_ids_def normalize_own_claims [OF assms] owned_update)
qed

lemma delete_claims_eq:
  assumes "journal_ok j" and "\<not> blank tid"
  shows "delete_claims tid j = (get_claimed_entry_ids tid j,
    j\<lparr>entries := filter (\<lambda>r. \<not> owned tid r) (entries j)\<rparr>)"
proof (cases "get_claimed_entry_ids tid j = []")
  case True
  then have "filter (\<lambda>r. \<not> owned tid r) (entries j) = entries j"
    using no_owned [OF assms(2)] by simp
  with True show ?thesis
    using assms(2) normalize_own_claims [OF assms]
    by (simp add: delete_claims_def delete_claimed_entry_ids_def)
next
  case False
  have "filter (\<lambda>r. \<not> owned_guard tid (get_claimed_entry_ids tid j) r) (entries j) =
      filter (\<lambda>r. \<not> owned tid r) (entries j)"
    by (rule filter_cong [OF refl]) (simp only: owned_guard_all [OF assms(2)])
  with False assms(2) show ?thesis
    by (simp add: delete_claims_def delete_claimed_entry_ids_def normalize_own_claims [OF assms])
qed

lemma move_claims_to_recoverable_eq:
  assumes "journal_ok j" and "\<not> blank tid"
  shows "move_claims_to_recoverable clk tid until j = (get_claimed_entry_ids tid j,
    j\<lparr>entries := map (\<lambda>r. if owned tid r
       then recoverable_row (now_or until (clk + RECOVERABLE_RETENTION_SECONDS)) r else r) (entries j)\<rparr>)"
proof (cases "get_claimed_entry_ids tid j = []")
  case True
  then have "map (\<lambda>r. if owned tid r then recoverable_row t r else r) (entries j) = entries j" for t
    using no_owned [OF assms(2)] by (auto intro: map_idI)
  with True show ?thesis
    using assms(2) normalize_own_claims [OF assms]
    by (simp add: move_claims_to_recoverable_def move_claimed_entry_ids_to_recoverable_def)
next
  case False
  with assms(2) show ?thesis
    by (simp add: move_claims_to_recoverable_def move_claimed_entry_ids_to_recoverable_def
        normalize_own_claims [OF assms] owned_update Let_def)
qed

end
