(* ===== verification/JournalProps.thy ===== *)
theory JournalProps
  imports JournalLaws TaskQueueProps
begin

text \<open>The properties of the journal.\<close>

section \<open>Steps and reachable states\<close>

text \<open>The steps of the journal. The two halves of \<open>release_orphaned_claims\<close> are statements of
  their own, so any operation may come between them: \<open>jstep_release_selected\<close> is the second
  half on identifiers read at any earlier time.\<close>

inductive journal_step :: "journal \<Rightarrow> journal \<Rightarrow> bool" where
  jstep_record: "journal_step j (snd (record_with_timestamp clk content ws ts j))"
| jstep_claim: "journal_step j (snd (claim_pending clk tid limit ws_f tm j))"
| jstep_release: "journal_step j (snd (release_claimed_entry_ids tid ids j))"
| jstep_recoverable: "journal_step j (snd (move_claimed_entry_ids_to_recoverable clk tid ids until j))"
| jstep_delete: "journal_step j (snd (delete_claimed_entry_ids tid ids j))"
| jstep_release_selected: "journal_step j (release_selected_claims ids j)"
| jstep_purge: "journal_step j (snd (purge_expired_recoverable clk now j))"
| jstep_processed: "journal_step j (snd (mark_processed ids j))"
| jstep_archived: "journal_step j (snd (mark_archived ids j))"

definition journal_reach :: "journal \<Rightarrow> bool" where
  "journal_reach j = journal_step\<^sup>*\<^sup>* empty_journal j"

lemma journal_step_move: "journal_step j j' \<Longrightarrow> journal_move j j'"
  by (erule journal_step.cases) (auto intro: record_move claim_pending_move release_claimed_entry_ids_move
      move_recoverable_move delete_claimed_entry_ids_move release_selected_claims_move purge_move
      mark_processed_move mark_archived_move)

lemma journal_steps_inv: "journal_step\<^sup>*\<^sup>* j j' \<Longrightarrow> journal_inv j \<Longrightarrow> journal_inv j'"
  by (induction rule: rtranclp_induct) (auto intro: journal_move_inv journal_step_move)

lemma journal_reach_inv: "journal_reach j \<Longrightarrow> journal_inv j"
  unfolding journal_reach_def
  by (rule journal_steps_inv) (auto simp: journal_inv_def journal_ok_def empty_journal_def)

text \<open>The task-level releases are the entry-level ones on all the claims of the task.\<close>

lemma journal_step_task_level:
  "journal_step\<^sup>*\<^sup>* j (snd (release_claims tid j))" "journal_step\<^sup>*\<^sup>* j (snd (delete_claims tid j))"
  "journal_step\<^sup>*\<^sup>* j (snd (move_claims_to_recoverable clk tid until j))"
  "journal_step\<^sup>*\<^sup>* j (snd (release_orphaned_claims db j))"
  by (auto simp: release_claims_def delete_claims_def move_claims_to_recoverable_def
      release_orphaned_claims_def Let_def intro: r_into_rtranclp jstep_release jstep_delete
      jstep_recoverable jstep_release_selected)

section \<open>A concrete journal\<close>

definition demo_journal :: journal where
  "demo_journal = snd (record_with_timestamp 10 ''note'' None None empty_journal)"

definition demo_thought :: journal_row where
  "demo_thought = \<lparr>j_id = 1, j_content = ''note'', j_workspace = None, j_timestamp = 10,
     j_status = EPending, j_claim_task = None, j_claimed_at = None, j_recoverable_until = None\<rparr>"

lemma demo_journal_eq: "demo_journal = \<lparr>entries = [demo_thought], next_id = 2\<rparr>"
  by (simp add: demo_journal_def demo_thought_def record_with_timestamp_def empty_journal_def blank_def
      py_strip_def py_isspace_def now_or_def Let_def)

lemma demo_journal_reach: "journal_reach demo_journal"
  unfolding journal_reach_def demo_journal_def by (intro r_into_rtranclp jstep_record)

lemma demo_journal_inv: "journal_inv demo_journal"
  using demo_journal_reach by (rule journal_reach_inv)

lemma demo_pending_rows: "pending_rows 5 AnyWs demo_journal = [demo_thought]"
  by (simp add: pending_rows_def demo_journal_eq demo_thought_def limit_rows_def order_by_def)

lemma not_blank_a: "\<not> blank ''a''"
  by (simp add: blank_def py_strip_def py_isspace_def)

section \<open>Properties\<close>

text \<open>In every reachable journal the entries have distinct positive identifiers below the next
  one, no two record the same thought of a workspace at the same time, contents are stripped and
  not empty, and an entry names its task and claim time exactly while it is claimed and an expiry
  exactly while it is recoverable.\<close>

lemma journal_invariant: "journal_reach j \<Longrightarrow> journal_inv j"
  by (rule journal_reach_inv)

theorem journal_invariant_witness: "journal_inv demo_journal"
  by (rule journal_invariant) (rule demo_journal_reach)



text \<open>C32. A claim takes the oldest pending entries of the workspace, at most \<open>limit\<close> of them (all,
  if the limit is negative), marks each as claimed by the task and leaves every other entry; it
  never fails on a well-formed journal. Releasing the claims of a task that held none before
  restores the journal exactly as it was.\<close>

theorem claim_release_roundtrip:
  assumes ok: "journal_inv j" and task: "\<not> blank tid" and none: "get_claimed_entry_ids tid j = []"
    and sel: "sel = pending_rows limit ws j"
  shows "\<exists>j'. claim_pending clk tid limit ws tm j = (Inr (map (\<lambda>r. (entry_of r)\<lparr>e_status := EClaimed\<rparr>) sel), j')
    \<and> entries j' = map (\<lambda>r. if r \<in> set sel then claim_row (py_strip tid) (now_or tm clk) r else r) (entries j)
    \<and> sorted (map j_timestamp sel) \<and> (0 \<le> limit \<longrightarrow> length sel \<le> nat limit)
    \<and> (\<forall>r \<in> set (entries j) - set sel. j_status r = EPending \<and> ws_match ws (j_workspace r)
         \<longrightarrow> (\<forall>s \<in> set sel. j_timestamp s \<le> j_timestamp r))
    \<and> snd (release_claims tid j') = j"
proof -
  let ?f = "claim_row (py_strip tid) (now_or tm clk)"
  let ?rows = "map (\<lambda>r. if r \<in> set sel then ?f r else r) (entries j)"
  let ?j = "j\<lparr>entries := ?rows\<rparr>"
  let ?all = "order_by j_timestamp (filter (\<lambda>r. j_status r = EPending \<and> ws_match ws (j_workspace r)) (entries j))"
  have jok: "journal_ok j" using ok by (simp add: journal_inv_def)
  have claim: "claim_pending clk tid limit ws tm j = (Inr (map (\<lambda>r. (entry_of r)\<lparr>e_status := EClaimed\<rparr>) sel), ?j)"
    unfolding sel by (rule claim_pending_eq [OF jok task])
  have sub: "set sel \<subseteq> {r \<in> set (entries j). j_status r = EPending}" using pending_rows_sub sel by blast
  have prefix: "sel = ?all \<or> sel = take (nat limit) ?all"
    unfolding sel pending_rows_def limit_rows_def by (auto split: if_splits)
  have sorted: "sorted (map j_timestamp ?all)" by (rule sorted_order_by)
  have unowned: "\<not> owned tid r" if "r \<in> set (entries j)" for r
    using none that no_owned [OF task] by blast
  have restore: "(if owned tid (if r \<in> set sel then ?f r else r)
      then reset_row EPending (if r \<in> set sel then ?f r else r) else (if r \<in> set sel then ?f r else r)) = r"
    if r: "r \<in> set (entries j)" for r
  proof (cases "r \<in> set sel")
    case True
    then have "entry_ok r" "j_status r = EPending" using sub r jok by (auto simp: journal_ok_def)
    with True show ?thesis by (simp add: owned_def claim_row_def reset_row_def entry_ok_def)
  next
    case False
    then show ?thesis using unowned [OF r] by simp
  qed
  have "journal_move j ?j" using claim_pending_move [of j clk tid limit ws tm] claim by simp
  then have "journal_inv ?j" using ok by (rule journal_move_inv)
  then have "release_claims tid ?j = (get_claimed_entry_ids tid ?j,
      ?j\<lparr>entries := map (\<lambda>r. if owned tid r then reset_row EPending r else r) ?rows\<rparr>)"
    using release_claims_eq [OF _ task, of ?j] by (simp add: journal_inv_def)
  moreover have "map (\<lambda>r. if owned tid r then reset_row EPending r else r) ?rows = entries j"
    unfolding map_map o_def by (rule map_idI) (rule restore)
  ultimately have released: "snd (release_claims tid ?j) = j" by simp
  have least: "\<forall>s \<in> set sel. j_timestamp s \<le> j_timestamp r"
    if "r \<in> set (entries j) - set sel" "j_status r = EPending \<and> ws_match ws (j_workspace r)" for r
  proof -
    have mem: "r \<in> set ?all - set sel" using that by simp
    from prefix show ?thesis
    proof
      assume "sel = ?all"
      with mem show ?thesis by blast
    next
      assume *: "sel = take (nat limit) ?all"
      show ?thesis using take_sorted_le [OF sorted _ mem [unfolded *]] unfolding * by blast
    qed
  qed
  have bound: "0 \<le> limit \<longrightarrow> length sel \<le> nat limit"
    unfolding sel pending_rows_def by (simp add: length_limit_rows)
  have "sorted (map j_timestamp sel)"
    using prefix sorted sorted_wrt_take [of "(\<le>)" "map j_timestamp ?all"] by (auto simp only: take_map)
  moreover have "entries ?j = ?rows" by simp
  ultimately show ?thesis
    using claim released least bound by (intro exI [of _ ?j] conjI ballI impI) blast+
qed

theorem claim_release_roundtrip_witness:
  "\<exists>j'. entries j' = [claim_row ''a'' 20 demo_thought] \<and> snd (release_claims ''a'' j') = demo_journal"
proof -
  have none: "get_claimed_entry_ids ''a'' demo_journal = []"
    by (simp add: no_owned [OF not_blank_a] demo_journal_eq demo_thought_def owned_def)
  have strip: "py_strip ''a'' = ''a''" by (simp add: py_strip_def py_isspace_def)
  show ?thesis
    using claim_release_roundtrip [OF demo_journal_inv not_blank_a none demo_pending_rows [symmetric], of 20 None]
    by (auto simp: demo_journal_eq now_or_def strip)
qed

lemma release_orphaned_rows:
  assumes "journal_inv j"
  shows "entries (snd (release_orphaned_claims db j)) =
      map (\<lambda>r. if orphaned db r then reset_row EPending r else r) (entries j)
    \<and> set (fst (release_orphaned_claims db j)) = j_id ` {r \<in> set (entries j). orphaned db r}
    \<and> (\<forall>r \<in> set (entries (snd (release_orphaned_claims db j))). j_status r = EClaimed
         \<longrightarrow> (\<exists>t \<in> set (tasks db). t_status t = Running \<and> j_claim_task r = Some (t_id t)))"
proof -
  let ?ids = "select_orphaned_claims db j"
  have sel: "set ?ids = j_id ` {r \<in> set (entries j). orphaned db r}"
    by (simp add: select_orphaned_claims_def)
  have inj: "inj_on j_id (set (entries j))" using assms by (simp add: journal_inv_def journal_ok_def distinct_map)
  have key: "(j_id r \<in> set ?ids \<and> j_status r = EClaimed) = orphaned db r" if r: "r \<in> set (entries j)" for r
  proof -
    have "j_id r \<in> set ?ids \<longleftrightarrow> orphaned db r"
      unfolding sel using inj_on_image_mem_iff [OF inj r, of "{r \<in> set (entries j). orphaned db r}"] r by simp
    then show ?thesis by (auto simp: orphaned_def)
  qed
  have "update_where (\<lambda>r. j_id r \<in> set ?ids \<and> j_status r = EClaimed) (reset_row EPending) (entries j) =
      map (\<lambda>r. if orphaned db r then reset_row EPending r else r) (entries j)"
    unfolding update_where_def by (rule map_cong [OF refl]) (simp only: key)
  moreover have "map (\<lambda>r. if orphaned db r then reset_row EPending r else r) (entries j) = entries j" if "?ids = []"
    using sel that by (intro map_idI) auto
  ultimately have rows: "entries (snd (release_orphaned_claims db j)) =
      map (\<lambda>r. if orphaned db r then reset_row EPending r else r) (entries j)"
    by (simp add: release_orphaned_claims_def Let_def release_selected_claims_def)
  moreover have "fst (release_orphaned_claims db j) = ?ids" by (simp add: release_orphaned_claims_def Let_def)
  ultimately show ?thesis using sel
    by (auto simp: orphaned_def reset_row_def split: option.splits)
qed

text \<open>Against the task queue: after \<open>release_orphaned_claims\<close> every claimed entry belongs to a
  running task, the claims of running tasks are untouched, and exactly the orphaned entries went
  back to pending, losing their claim.\<close>

lemma release_orphaned_spec:
  assumes "journal_inv j"
  shows "entries (snd (release_orphaned_claims db j)) =
      map (\<lambda>r. if orphaned db r then reset_row EPending r else r) (entries j)
    \<and> set (fst (release_orphaned_claims db j)) = j_id ` {r \<in> set (entries j). orphaned db r}
    \<and> (\<forall>r \<in> set (entries (snd (release_orphaned_claims db j))). j_status r = EClaimed
         \<longrightarrow> (\<exists>t \<in> set (tasks db). t_status t = Running \<and> j_claim_task r = Some (t_id t)))"
  using assms by (rule release_orphaned_rows)

theorem release_orphaned_spec_witness:
  "entries (snd (release_orphaned_claims empty_taskdb
     (demo_journal\<lparr>entries := [claim_row ''a'' 20 demo_thought]\<rparr>))) = [reset_row EPending (claim_row ''a'' 20 demo_thought)]"
proof -
  let ?j = "demo_journal\<lparr>entries := [claim_row ''a'' 20 demo_thought]\<rparr>"
  have "journal_move demo_journal ?j"
    using claim_pending_move [of demo_journal 20 "''a''" 5 AnyWs None]
      claim_pending_eq [of demo_journal "''a''" 20 5 AnyWs None] demo_journal_inv not_blank_a
    by (simp add: demo_pending_rows journal_inv_def) (simp add: demo_journal_eq now_or_def py_strip_def py_isspace_def)
  then have inv: "journal_inv ?j" using demo_journal_inv by (rule journal_move_inv)
  have orphan: "orphaned empty_taskdb (claim_row ''a'' 20 demo_thought)"
    by (simp add: orphaned_def claim_row_def empty_taskdb_def)
  show ?thesis using release_orphaned_spec [OF inv, of empty_taskdb] orphan by simp
qed

text \<open>The two halves of the release are not one transaction: an entry that was released and claimed
  again in between, now by a running task, is taken from that task.\<close>

lemma orphan_release_race:
  assumes "r = claim_row ''a'' 20 demo_thought" and "j = demo_journal\<lparr>entries := [r]\<rparr>"
    and "entries j2 = [claim_row ''b'' 30 demo_thought]" and "\<exists>t \<in> set (tasks db). t_id t = ''b'' \<and> t_status t = Running"
    and "\<forall>t \<in> set (tasks db0). t_id t \<noteq> ''a''"
  shows "\<not> orphaned db (claim_row ''b'' 30 demo_thought)
    \<and> entries (release_selected_claims (select_orphaned_claims db0 j) j2) = [reset_row EPending (claim_row ''b'' 30 demo_thought)]"
  using assms by (auto simp: orphaned_def claim_row_def demo_thought_def release_selected_claims_def
      select_orphaned_claims_def order_by_def image_iff)

end
