(* ===== verification/IngestClaims.thy ===== *)
theory IngestClaims
  imports Journal
begin

text \<open>
  The life of the claims of an ingest task, \<open>core/ingest_claim_lifecycle.py\<close>: what the agent
  reports while it runs is kept in the task's data, and at the end each claimed thought is either
  kept recoverable or released. The journal and the task queue are reached through their ports
  (\<open>ctx.journal\<close>, \<open>ctx.task_queue\<close>), so the functions here take the operations they call as
  arguments; \<open>None\<close> for the queue stands for a context without one. The evidence stores
  (\<open>core/ingress_evidence.py\<close>) are arguments too.
\<close>

section \<open>Arguments of the ingest tools\<close>

text \<open>\<open>str.isdigit\<close> below code point 256: the decimal digits and the superscripts.\<close>

definition py_isdigit :: "string \<Rightarrow> bool" where
  "py_isdigit s = (s \<noteq> [] \<and> list_all (\<lambda>c. digit_value c \<noteq> None \<or> (of_char c :: nat) \<in> {178, 179, 185}) s)"

text \<open>The value of one item, or the exception of \<open>int\<close> where \<open>isdigit\<close> let a superscript pass.\<close>

fun entry_id_value :: "json \<Rightarrow> int option res" where
  "entry_id_value (JInt i) = Inr (Some i)"
| "entry_id_value (JStr s) =
     (if py_isdigit (py_strip s)
      then (case py_int_of_str (py_strip s) of
              None \<Rightarrow> Inl (ValueError ''invalid literal for int() with base 10'')
            | Some i \<Rightarrow> Inr (Some i))
      else Inr None)"
| "entry_id_value _ = Inr None"

fun normalize_ids_loop :: "string \<Rightarrow> json list \<Rightarrow> int list \<Rightarrow> int list res" where
  "normalize_ids_loop field [] normalized = Inr normalized"
| "normalize_ids_loop field (item # items) normalized =
     (case entry_id_value item of
        Inl e \<Rightarrow> Inl e
      | Inr None \<Rightarrow> Inl (ValueError (field @ '' must contain only positive integer ids''))
      | Inr (Some v) \<Rightarrow>
          if v \<le> 0 then Inl (ValueError (field @ '' must contain only positive integer ids''))
          else if v \<in> set normalized then normalize_ids_loop field items normalized
          else normalize_ids_loop field items (normalized @ [v]))"

definition normalize_ingest_entry_ids :: "dict \<Rightarrow> string \<Rightarrow> int list res" where
  "normalize_ingest_entry_ids arguments field =
     (case dict_get arguments field of
        Some (JList (v # vs)) \<Rightarrow>
          (case normalize_ids_loop field (v # vs) [] of
             Inl e \<Rightarrow> Inl e
           | Inr normalized \<Rightarrow>
               if normalized = [] then Inl (ValueError (field @ '' must contain at least one entry id''))
               else Inr normalized)
      | _ \<Rightarrow> Inl (ValueError (field @ '' must contain at least one entry id'')))"

section \<open>What a running task records\<close>

abbreviation "INGEST_HANDLED_ENTRY_IDS_TASK_DATA_KEY \<equiv> ''ingest_handled_entry_ids''"
abbreviation "INGEST_ENTRY_DISPOSITIONS_TASK_DATA_KEY \<equiv> ''ingest_entry_dispositions''"
abbreviation "INGEST_TOOL_INVOCATIONS_TASK_DATA_KEY \<equiv> ''ingest_tool_invocations''"
abbreviation "INGEST_TOUCHED_MEMORY_IDS_TASK_DATA_KEY \<equiv> ''ingest_touched_memory_ids''"

text \<open>A call whose \<open>ValueError\<close> is swallowed: other exceptions pass.\<close>

definition ignoring_value_error :: "('s \<Rightarrow> 'a res \<times> 's) \<Rightarrow> 's \<Rightarrow> unit res \<times> 's" where
  "ignoring_value_error f s = (case f s of
       (Inl (ValueError m), s') \<Rightarrow> (Inr (), s')
     | (Inl e, s') \<Rightarrow> (Inl e, s')
     | (Inr _, s') \<Rightarrow> (Inr (), s'))"

definition reset_recorded_ingest_handled_entry_ids ::
  "(string \<Rightarrow> string list \<Rightarrow> 's \<Rightarrow> 'a res \<times> 's) option \<Rightarrow> string \<Rightarrow> 's \<Rightarrow> unit res \<times> 's" where
  "reset_recorded_ingest_handled_entry_ids clear_data_keys task_id s = (case clear_data_keys of
       None \<Rightarrow> (Inr (), s)
     | Some clear \<Rightarrow> ignoring_value_error (clear task_id
         [INGEST_HANDLED_ENTRY_IDS_TASK_DATA_KEY, INGEST_ENTRY_DISPOSITIONS_TASK_DATA_KEY,
          INGEST_TOUCHED_MEMORY_IDS_TASK_DATA_KEY, INGEST_TOOL_INVOCATIONS_TASK_DATA_KEY]) s)"

text \<open>The list under a key of the data of a task, where the task exists and the value is a list.\<close>

definition recorded_list :: "(string \<Rightarrow> task res) option \<Rightarrow> string \<Rightarrow> string \<Rightarrow> json list option" where
  "recorded_list get task_id key = (case get of
       None \<Rightarrow> None
     | Some g \<Rightarrow> (case g task_id of
          Inl _ \<Rightarrow> None
        | Inr t \<Rightarrow> (case dict_get (t_data t) key of Some (JList vs) \<Rightarrow> Some vs | _ \<Rightarrow> None)))"

text \<open>A field that is a string with something in it, stripped.\<close>

definition text_field :: "dict \<Rightarrow> string \<Rightarrow> string option" where
  "text_field d k = (case dict_get d k of
       Some (JStr s) \<Rightarrow> if py_strip s = [] then None else Some (py_strip s)
     | _ \<Rightarrow> None)"

record tool_usage =
  tool_calls_executed :: nat
  mutations :: nat
  tool_names_used :: "string list"

fun invocation_of :: "json \<Rightarrow> (string \<times> bool) option" where
  "invocation_of (JObj d) = (case text_field d ''tool_name'' of
       None \<Rightarrow> None
     | Some name \<Rightarrow> Some (name, py_bool (dict_get d ''mutation'')))"
| "invocation_of _ = None"

definition recorded_ingest_tool_usage :: "(string \<Rightarrow> task res) option \<Rightarrow> string \<Rightarrow> tool_usage" where
  "recorded_ingest_tool_usage get task_id =
     (case recorded_list get task_id INGEST_TOOL_INVOCATIONS_TASK_DATA_KEY of
        None \<Rightarrow> \<lparr>tool_calls_executed = 0, mutations = 0, tool_names_used = []\<rparr>
      | Some vs \<Rightarrow>
          let invs = List.map_filter invocation_of vs
          in \<lparr>tool_calls_executed = length invs, mutations = length (filter snd invs),
              tool_names_used = sort (remdups (map fst invs))\<rparr>)"

definition recorded_ingest_handled_entry_ids :: "(string \<Rightarrow> task res) option \<Rightarrow> string \<Rightarrow> int list" where
  "recorded_ingest_handled_entry_ids get task_id =
     (case recorded_list get task_id INGEST_HANDLED_ENTRY_IDS_TASK_DATA_KEY of
        None \<Rightarrow> []
      | Some vs \<Rightarrow> List.map_filter positive_int vs)"

fun disposition_of :: "json \<Rightarrow> dict option" where
  "disposition_of (JObj d) =
     (case dict_get d ''entry_id'' of
        Some (JInt i) \<Rightarrow>
          if i \<le> 0 then None
          else (case text_field d ''disposition'' of
                  None \<Rightarrow> None
                | Some disposition \<Rightarrow>
                    let opt = (\<lambda>k. case text_field d k of None \<Rightarrow> [] | Some v \<Rightarrow> [(k, JStr v)])
                    in Some ([(''entry_id'', JInt i), (''disposition'', JStr disposition)]
                             @ opt ''memory_id'' @ opt ''memory_title'' @ opt ''reason''))
      | _ \<Rightarrow> None)"
| "disposition_of _ = None"

definition recorded_ingest_entry_dispositions :: "(string \<Rightarrow> task res) option \<Rightarrow> string \<Rightarrow> dict list" where
  "recorded_ingest_entry_dispositions get task_id =
     (case recorded_list get task_id INGEST_ENTRY_DISPOSITIONS_TASK_DATA_KEY of
        None \<Rightarrow> []
      | Some vs \<Rightarrow> List.map_filter disposition_of vs)"

fun touched_memory_id :: "json \<Rightarrow> string option" where
  "touched_memory_id (JStr s) = (if py_strip s = [] then None else Some (py_strip s))"
| "touched_memory_id (JObj d) = text_field d ''memory_id''"
| "touched_memory_id _ = None"

definition recorded_ingest_touched_memory_ids :: "(string \<Rightarrow> task res) option \<Rightarrow> string \<Rightarrow> string list" where
  "recorded_ingest_touched_memory_ids get task_id =
     (case recorded_list get task_id INGEST_TOUCHED_MEMORY_IDS_TASK_DATA_KEY of
        None \<Rightarrow> []
      | Some vs \<Rightarrow> sort (remdups (List.map_filter touched_memory_id vs)))"

record ingest_run_metadata =
  handled_entry_ids :: "int list"
  entry_dispositions :: "dict list"
  touched_memory_ids :: "string list"
  usage_of_tools :: tool_usage

definition recorded_ingest_run_metadata :: "(string \<Rightarrow> task res) option \<Rightarrow> string \<Rightarrow> ingest_run_metadata" where
  "recorded_ingest_run_metadata get task_id =
     \<lparr>handled_entry_ids = recorded_ingest_handled_entry_ids get task_id,
      entry_dispositions = recorded_ingest_entry_dispositions get task_id,
      touched_memory_ids = recorded_ingest_touched_memory_ids get task_id,
      usage_of_tools = recorded_ingest_tool_usage get task_id\<rparr>"

text \<open>The recording side: \<open>extend\<close> is the queue's list extension (task, field, values).\<close>

type_synonym 's extend_op = "string \<Rightarrow> string \<Rightarrow> json list \<Rightarrow> 's \<Rightarrow> task res \<times> 's"

definition record_successful_ingest_entry_ids ::
  "'s extend_op option \<Rightarrow> string \<Rightarrow> int list \<Rightarrow> 's \<Rightarrow> unit res \<times> 's" where
  "record_successful_ingest_entry_ids ext task_id ids s = (case ext of
       None \<Rightarrow> (Inr (), s)
     | Some f \<Rightarrow> ignoring_value_error (f task_id INGEST_HANDLED_ENTRY_IDS_TASK_DATA_KEY (map JInt ids)) s)"

definition record_successful_ingest_entry_dispositions ::
  "'s extend_op option \<Rightarrow> string \<Rightarrow> dict list \<Rightarrow> 's \<Rightarrow> unit res \<times> 's" where
  "record_successful_ingest_entry_dispositions ext task_id ds s = (case ext of
       None \<Rightarrow> (Inr (), s)
     | Some f \<Rightarrow> ignoring_value_error (f task_id INGEST_ENTRY_DISPOSITIONS_TASK_DATA_KEY (map JObj ds)) s)"

definition record_ingest_tool_invocation ::
  "'s extend_op option \<Rightarrow> string \<Rightarrow> string \<Rightarrow> bool \<Rightarrow> 's \<Rightarrow> unit res \<times> 's" where
  "record_ingest_tool_invocation ext task_id tool_name mutation s = (case ext of
       None \<Rightarrow> (Inr (), s)
     | Some f \<Rightarrow> ignoring_value_error (f task_id INGEST_TOOL_INVOCATIONS_TASK_DATA_KEY
         [JObj [(''tool_name'', JStr tool_name), (''mutation'', JBool mutation)]]) s)"

definition record_touched_memory_ids ::
  "'s extend_op option \<Rightarrow> string \<Rightarrow> string list \<Rightarrow> 's \<Rightarrow> unit res \<times> 's" where
  "record_touched_memory_ids ext task_id ids s = (case ext of
       None \<Rightarrow> (Inr (), s)
     | Some f \<Rightarrow>
         let normalized = filter (\<lambda>m. py_strip m \<noteq> []) ids in
         if normalized = [] then (Inr (), s)
         else ignoring_value_error (f task_id INGEST_TOUCHED_MEMORY_IDS_TASK_DATA_KEY
           (map (\<lambda>m. JObj [(''memory_id'', JStr (py_strip m))]) normalized)) s)"

definition journal_entry_payload :: "journal_entry \<Rightarrow> dict" where
  "journal_entry_payload e = [(''id'', JInt (e_id e)), (''content'', JStr (e_content e)),
     (''workspace_id'', opt_json_str (e_workspace e)), (''timestamp'', JFloat (e_timestamp e)),
     (''status'', JStr (entry_status_name (e_status e)))]"

section \<open>Evidence of finalized entries\<close>

datatype receipt_status = AppliedUnverified | NoOp | Stale | ReceiptFailed | ReceiptUnobserved

datatype coverage_outcome =
    CovCreated | CovAppended | CovMatchedExisting | CovIgnored | CovNoMutation | CovUnobserved

record source_coverage =
  c_entry_id :: string
  c_outcome :: coverage_outcome
  c_action_id :: "string option"

record action_receipt =
  a_batch_id :: string
  a_entry_ids :: "string list"
  a_status :: receipt_status

record batch_evidence =
  b_task_id :: string

text \<open>The three stores of a context, each with what it returns: \<open>list_for_entries\<close> (\<open>None\<close> where
  it raises or returns no list), the receipt of an action and the evidence of a batch (\<open>None\<close>
  where there is none, or the call raises).\<close>

record evidence_stores =
  list_for_entries :: "string list \<Rightarrow> source_coverage list option"
  get_receipt :: "string \<Rightarrow> action_receipt option"
  get_batch :: "string \<Rightarrow> batch_evidence option"

text \<open>\<open>{int(record.entry_id): record for record in ... if ...}\<close>: the last record of an entry wins.
  \<open>int\<close> raises on a superscript digit.\<close>

fun coverage_by_entry :: "source_coverage list \<Rightarrow> (int \<rightharpoonup> source_coverage) res" where
  "coverage_by_entry [] = Inr Map.empty"
| "coverage_by_entry (c # cs) =
     (if \<not> py_isdigit (c_entry_id c) then coverage_by_entry cs
      else case py_int_of_str (c_entry_id c) of
             None \<Rightarrow> Inl (ValueError ''invalid literal for int() with base 10'')
           | Some i \<Rightarrow> bind_res (coverage_by_entry cs) (\<lambda>m.
               Inr (if i > 0 \<and> m i = None then m(i \<mapsto> c) else m)))"

definition finalized_by_evidence ::
  "evidence_stores \<Rightarrow> string \<Rightarrow> (int \<rightharpoonup> source_coverage) \<Rightarrow> int \<Rightarrow> bool" where
  "finalized_by_evidence ev task_id by_entry i =
     (case by_entry i of
        None \<Rightarrow> False
      | Some c \<Rightarrow>
          c_entry_id c = py_str_int i
          \<and> c_outcome c \<in> {CovCreated, CovAppended, CovMatchedExisting, CovIgnored, CovNoMutation}
          \<and> (case c_action_id c of
               None \<Rightarrow> False
             | Some action \<Rightarrow> py_strip action \<noteq> []
                 \<and> (case get_receipt ev action of
                      None \<Rightarrow> False
                    | Some receipt \<Rightarrow>
                        (case get_batch ev (a_batch_id receipt) of
                           None \<Rightarrow> False
                         | Some batch \<Rightarrow> a_status receipt = AppliedUnverified
                             \<and> py_str_int i \<in> set (a_entry_ids receipt) \<and> b_task_id batch = task_id))))"

definition authoritative_finalized_ingest_entry_ids ::
  "evidence_stores option \<Rightarrow> string \<Rightarrow> int list \<Rightarrow> int set \<Rightarrow> int list res" where
  "authoritative_finalized_ingest_entry_ids ev task_id handled claimed =
     (case ev of
        None \<Rightarrow> Inr []
      | Some stores \<Rightarrow>
          let candidates = ordered_unique (filter (\<lambda>i. i \<notin> claimed) handled) in
          if candidates = [] then Inr []
          else (case list_for_entries stores (map py_str_int candidates) of
                  None \<Rightarrow> Inr []
                | Some records \<Rightarrow> bind_res (coverage_by_entry records)
                    (\<lambda>by_entry. Inr (filter (finalized_by_evidence stores task_id by_entry) candidates))))"

section \<open>Finalization\<close>

text \<open>The part of the journal that finalization calls.\<close>

record 's journal_port =
  port_claimed_ids :: "string \<Rightarrow> 's \<Rightarrow> int list"
  port_to_recoverable :: "string \<Rightarrow> int list \<Rightarrow> 's \<Rightarrow> int list \<times> 's"
  port_release :: "string \<Rightarrow> int list \<Rightarrow> 's \<Rightarrow> int list \<times> 's"

definition finalize_claimed_ingest_entries ::
  "'s journal_port option \<Rightarrow> evidence_stores option \<Rightarrow> string \<Rightarrow> int list
   \<Rightarrow> 's \<Rightarrow> (int list \<times> int list \<times> int list) res \<times> 's" where
  "finalize_claimed_ingest_entries port ev task_id handled s = (case port of
       None \<Rightarrow> (Inr ([], [], []), s)
     | Some p \<Rightarrow>
        (let claimed_ids = port_claimed_ids p task_id s;
             handled_claimed = filter (\<lambda>i. i \<in> set claimed_ids) handled
         in case authoritative_finalized_ingest_entry_ids ev task_id handled (set claimed_ids) of
              Inl e \<Rightarrow> (Inl e, s)
            | Inr finalized \<Rightarrow>
                let (moved, s1) = port_to_recoverable p task_id handled_claimed s;
                    recoverable_ids = ordered_unique (finalized @ moved);
                    (released, s2) = port_release p task_id
                      (filter (\<lambda>i. i \<notin> set recoverable_ids) claimed_ids) s1
                in (Inr (ordered_unique (claimed_ids @ finalized), recoverable_ids, released), s2)))"

text \<open>The port of a context with the SQLite journal, at a given clock.\<close>

definition sqlite_journal_port :: "time \<Rightarrow> journal journal_port" where
  "sqlite_journal_port clk = \<lparr>port_claimed_ids = get_claimed_entry_ids,
     port_to_recoverable = (\<lambda>tid ids. move_claimed_entry_ids_to_recoverable clk tid ids None),
     port_release = release_claimed_entry_ids\<rparr>"

end
