(* ===== verification/IngestProps.thy ===== *)
theory IngestProps
  imports IngestClaims JournalProps TaskQueueRecovery
begin

text \<open>
  The properties of the ingest claims. Finalization is proved over a contract of the journal, a
  locale, and the contract is discharged for the journal of the program.
\<close>

section \<open>The contract of the journal\<close>

text \<open>\<open>claimed s t\<close> are the entries the task \<open>t\<close> holds, \<open>pending s\<close> and \<open>recoverable s\<close> the
  entries in these states.\<close>

locale claim_journal =
  fixes port :: "'s journal_port"
    and claimed :: "'s \<Rightarrow> string \<Rightarrow> int set" and pending :: "'s \<Rightarrow> int set" and recoverable :: "'s \<Rightarrow> int set"
    and good :: "'s \<Rightarrow> bool"
  assumes claimed_ids: "good s \<Longrightarrow> \<not> blank t \<Longrightarrow> set (port_claimed_ids port t s) = claimed s t"
    and to_recoverable: "good s \<Longrightarrow> \<not> blank t \<Longrightarrow> port_to_recoverable port t ids s = (out, s') \<Longrightarrow>
      good s' \<and> set out = set ids \<inter> claimed s t \<and> claimed s' t = claimed s t - set ids
      \<and> pending s' = pending s \<and> recoverable s' = recoverable s \<union> set out
      \<and> (\<forall>u. py_strip u \<noteq> py_strip t \<longrightarrow> claimed s' u = claimed s u)"
    and release: "good s \<Longrightarrow> \<not> blank t \<Longrightarrow> port_release port t ids s = (out, s') \<Longrightarrow>
      good s' \<and> set out = set ids \<inter> claimed s t \<and> claimed s' t = claimed s t - set ids
      \<and> pending s' = pending s \<union> set out \<and> recoverable s' = recoverable s
      \<and> (\<forall>u. py_strip u \<noteq> py_strip t \<longrightarrow> claimed s' u = claimed s u)"
begin

lemma finalize_partition:
  assumes good: "good s" and task: "\<not> blank t"
    and evidence: "authoritative_finalized_ingest_entry_ids ev t handled (claimed s t) = Inr done"
    and "done_free": "set done \<inter> claimed s t = {}"
  shows "\<exists>all kept released s'. finalize_claimed_ingest_entries (Some port) ev t handled s =
      (Inr (all, kept, released), s') \<and> good s'
    \<and> set all = claimed s t \<union> set done \<and> set kept = (set handled \<inter> claimed s t) \<union> set done
    \<and> set released = claimed s t - set handled \<and> claimed s' t = {}
    \<and> recoverable s' = recoverable s \<union> (set handled \<inter> claimed s t)
    \<and> pending s' = pending s \<union> (claimed s t - set handled)
    \<and> (\<forall>u. py_strip u \<noteq> py_strip t \<longrightarrow> claimed s' u = claimed s u)"
proof -
  note ids = claimed_ids [OF good task]
  obtain moved s1 where move: "port_to_recoverable port t
      (filter (\<lambda>i. i \<in> claimed s t) handled) s = (moved, s1)" by fastforce
  note m = to_recoverable [OF good task move]
  let ?kept = "ordered_unique (done @ moved)"
  obtain rel s2 where rel: "port_release port t
      (filter (\<lambda>i. i \<notin> set ?kept) (port_claimed_ids port t s)) s1 = (rel, s2)" by fastforce
  have "good s1" using m by blast
  note r = release [OF this task rel]
  have run: "finalize_claimed_ingest_entries (Some port) ev t handled s =
      (Inr (ordered_unique (port_claimed_ids port t s @ done), ?kept, rel), s2)"
    by (simp add: finalize_claimed_ingest_entries_def ids evidence move rel [simplified] Let_def)
  show ?thesis
    unfolding run using m r ids done_free by auto
qed

end

section \<open>The journal of the program\<close>

definition journal_claimed :: "journal \<Rightarrow> string \<Rightarrow> int set" where
  "journal_claimed j t = j_id ` {r \<in> set (entries j). owned t r}"

definition journal_with :: "entry_status \<Rightarrow> journal \<Rightarrow> int set" where
  "journal_with st j = j_id ` {r \<in> set (entries j). j_status r = st}"

lemma normalize_given:
  assumes "journal_inv j" and "\<not> blank t"
  shows "set (normalize_claimed_entry_ids t (Some ids) j) = set ids \<inter> journal_claimed j t"
proof -
  have pos: "j_id r > 0" if "r \<in> set (entries j)" for r
    using assms(1) that by (force simp: journal_inv_def journal_ok_def entry_ok_def)
  have "set (normalize_claimed_entry_ids t (Some ids) j) =
      j_id ` {r \<in> set (entries j). owned t r \<and> j_id r \<in> set (filter (\<lambda>i. i > 0) ids)}"
    using assms(2) by (auto simp: normalize_claimed_entry_ids_def owned_def filter_empty_conv Let_def)
  also have "\<dots> = set ids \<inter> journal_claimed j t"
    using pos by (auto simp: journal_claimed_def)
  finally show ?thesis .
qed

text \<open>A statement on the claims of a task, with the state it leaves them in.\<close>

lemma owned_statement:
  assumes inv: "journal_inv j" and task: "\<not> blank t"
    and ids: "out = normalize_claimed_entry_ids t (Some ids) j"
    and f: "\<And>r. j_id (f r) = j_id r" "\<And>r. j_status (f r) = st" "st \<noteq> EClaimed"
    and j': "j' = (if out = [] then j else j\<lparr>entries := update_where (owned_guard t out) f (entries j)\<rparr>)"
  shows "set out = set ids \<inter> journal_claimed j t" and "journal_claimed j' t = journal_claimed j t - set ids"
    and "py_strip u \<noteq> py_strip t \<Longrightarrow> journal_claimed j' u = journal_claimed j u"
    and "st' \<noteq> EClaimed \<Longrightarrow> journal_with st' j' = (if st' = st then journal_with st' j \<union> set out else journal_with st' j)"
proof -
  show out: "set out = set ids \<inter> journal_claimed j t"
    unfolding ids by (rule normalize_given [OF inv task])
  have inj: "inj_on j_id (set (entries j))" using inv by (simp add: journal_inv_def journal_ok_def distinct_map)
  have guard: "owned_guard t out r \<longleftrightarrow> owned t r \<and> j_id r \<in> set ids" if "r \<in> set (entries j)" for r
    using that inj out by (auto simp: owned_guard_def owned_def journal_claimed_def dest: inj_onD)
  have rows: "entries j' = map (\<lambda>r. if owned t r \<and> j_id r \<in> set ids then f r else r) (entries j)"
  proof (cases "out = []")
    case True
    then have "map (\<lambda>r. if owned t r \<and> j_id r \<in> set ids then f r else r) (entries j) = entries j"
      using out by (intro map_idI) (auto simp: journal_claimed_def)
    with True j' show ?thesis by simp
  next
    case False
    have "update_where (owned_guard t out) f (entries j) =
        map (\<lambda>r. if owned t r \<and> j_id r \<in> set ids then f r else r) (entries j)"
      unfolding update_where_def by (rule map_cong [OF refl]) (simp only: guard)
    with False j' show ?thesis by simp
  qed
  have sel: "j_id ` {r \<in> set (entries j'). P r} =
      j_id ` {r \<in> set (entries j). P (if owned t r \<and> j_id r \<in> set ids then f r else r)}" for P
  proof -
    define g where "g = (\<lambda>r. if owned t r \<and> j_id r \<in> set ids then f r else r)"
    have "j_id (g r) = j_id r" for r using f(1) by (simp add: g_def)
    moreover have "{r \<in> set (map g (entries j)). P r} = g ` {r \<in> set (entries j). P (g r)}" by auto
    ultimately have "j_id ` {r \<in> set (map g (entries j)). P r} = j_id ` {r \<in> set (entries j). P (g r)}"
      by (simp only: image_image)
    then show ?thesis unfolding rows g_def .
  qed
  have "{r \<in> set (entries j). owned t (if owned t r \<and> j_id r \<in> set ids then f r else r)} =
      {r \<in> set (entries j). owned t r} - {r \<in> set (entries j). j_id r \<in> set ids}"
    using f by (auto simp: owned_def)
  then show "journal_claimed j' t = journal_claimed j t - set ids"
    unfolding journal_claimed_def sel by auto
  show "journal_claimed j' u = journal_claimed j u" if "py_strip u \<noteq> py_strip t"
  proof -
    have "owned u (if owned t r \<and> j_id r \<in> set ids then f r else r) = owned u r" for r
      using that f by (auto simp: owned_def)
    then show ?thesis unfolding journal_claimed_def sel by simp
  qed
  show "journal_with st' j' = (if st' = st then journal_with st' j \<union> set out else journal_with st' j)" if "st' \<noteq> EClaimed"
  proof -
    have "{r \<in> set (entries j). j_status (if owned t r \<and> j_id r \<in> set ids then f r else r) = st'} =
        {r \<in> set (entries j). j_status r = st'} \<union>
        (if st' = st then {r \<in> set (entries j). owned t r \<and> j_id r \<in> set ids} else {})"
      using that f by (auto simp: owned_def)
    moreover have "set out = j_id ` {r \<in> set (entries j). owned t r \<and> j_id r \<in> set ids}"
      unfolding out journal_claimed_def by auto
    ultimately show ?thesis unfolding journal_with_def sel by (auto simp: image_Un)
  qed
qed

interpretation sj: claim_journal "sqlite_journal_port clk" journal_claimed "journal_with EPending"
  "journal_with ERecoverable" journal_inv for clk
proof (unfold_locales, goal_cases)
  case (1 s t)
  then show ?case by (simp add: sqlite_journal_port_def get_claimed_entry_ids_eq journal_claimed_def)
next
  case (2 s t ids out s')
  let ?f = "recoverable_row (clk + RECOVERABLE_RETENTION_SECONDS)"
  have out: "out = normalize_claimed_entry_ids t (Some ids) s"
    and s': "s' = (if out = [] then s else s\<lparr>entries := update_where (owned_guard t out) ?f (entries s)\<rparr>)"
    using 2(3) by (auto simp: sqlite_journal_port_def move_claimed_entry_ids_to_recoverable_def now_or_def Let_def
        split: if_splits)
  have "journal_inv s'"
    using journal_move_inv [OF move_recoverable_move 2(1), of clk t ids None] 2(3)
    by (simp add: sqlite_journal_port_def)
  moreover note st = owned_statement [where f = ?f and st = ERecoverable, OF 2(1,2) out _ _ _ s']
  ultimately show ?case by (simp add: st recoverable_row_def)
next
  case (3 s t ids out s')
  have out: "out = normalize_claimed_entry_ids t (Some ids) s"
    and s': "s' = (if out = [] then s else s\<lparr>entries := update_where (owned_guard t out) (reset_row EPending) (entries s)\<rparr>)"
    using 3(3) by (auto simp: sqlite_journal_port_def release_claimed_entry_ids_def Let_def split: if_splits)
  have "journal_inv s'"
    using journal_move_inv [OF release_claimed_entry_ids_move 3(1), of t ids] 3(3)
    by (simp add: sqlite_journal_port_def)
  moreover note st = owned_statement [where f = "reset_row EPending" and st = EPending, OF 3(1,2) out _ _ _ s']
  ultimately show ?case by (simp add: st reset_row_def)
qed

section \<open>Properties\<close>

lemma authoritative_sub:
  assumes "authoritative_finalized_ingest_entry_ids ev t handled claimed = Inr fin"
  shows "set fin \<subseteq> set handled - claimed"
proof (cases ev)
  case None
  with assms show ?thesis by (simp add: authoritative_finalized_ingest_entry_ids_def)
next
  case (Some stores)
  let ?c = "ordered_unique (filter (\<lambda>i. i \<notin> claimed) handled)"
  have sub: "set ?c = set handled - claimed" by auto
  show ?thesis
  proof (cases "list_for_entries stores (map py_str_int ?c)")
    case None
    with assms Some show ?thesis
      by (auto simp: authoritative_finalized_ingest_entry_ids_def Let_def split: if_splits)
  next
    case (Some records)
    with assms \<open>ev = Some stores\<close> show ?thesis
      by (cases "coverage_by_entry records")
        (auto simp: authoritative_finalized_ingest_entry_ids_def Let_def split: if_splits)
  qed
qed

text \<open>C6. Finalizing an ingest task partitions its thoughts: every entry it had claimed is either
  kept recoverable, exactly when the task reported it as handled, or released to pending again;
  the entries that evidence shows to be finalized before are reported as kept; afterwards the
  task holds no claim, and no other entry and no claim of another task is touched.\<close>

theorem finalize_partitions_claims:
  assumes "journal_inv j" and "\<not> blank t"
    and "authoritative_finalized_ingest_entry_ids ev t handled (journal_claimed j t) = Inr fin"
  shows "\<exists>all kept released j'. finalize_claimed_ingest_entries (Some (sqlite_journal_port clk)) ev t handled j =
      (Inr (all, kept, released), j')
    \<and> set all = journal_claimed j t \<union> set fin \<and> set kept \<union> set released = set all
    \<and> set kept \<inter> set released = {}
    \<and> set kept = (set handled \<inter> journal_claimed j t) \<union> set fin
    \<and> journal_claimed j' t = {}
    \<and> journal_with ERecoverable j' = journal_with ERecoverable j \<union> (set handled \<inter> journal_claimed j t)
    \<and> journal_with EPending j' = journal_with EPending j \<union> (journal_claimed j t - set handled)
    \<and> (\<forall>u. py_strip u \<noteq> py_strip t \<longrightarrow> journal_claimed j' u = journal_claimed j u)"
proof -
  have sub: "set fin \<subseteq> set handled - journal_claimed j t" using assms(3) by (rule authoritative_sub)
  then have "set fin \<inter> journal_claimed j t = {}" by blast
  from sj.finalize_partition [OF assms this, of clk] sub show ?thesis by (elim exE) (intro exI, auto)
qed

theorem finalize_partitions_claims_witness:
  "\<exists>all kept released j'. finalize_claimed_ingest_entries (Some (sqlite_journal_port 30)) None ''a'' [1]
      (snd (claim_pending 20 ''a'' 5 AnyWs None demo_journal)) = (Inr (all, kept, released), j')
    \<and> set kept = {1} \<and> journal_with ERecoverable j' = {1}"
proof -
  let ?j = "snd (claim_pending 20 ''a'' 5 AnyWs None demo_journal)"
  have inv: "journal_inv ?j" using claim_pending_move demo_journal_inv by (rule journal_move_inv)
  have "?j = demo_journal\<lparr>entries := [claim_row ''a'' 20 demo_thought]\<rparr>"
    using claim_pending_eq [of demo_journal "''a''" 20 5 AnyWs None] demo_journal_inv not_blank_a
    by (simp add: demo_pending_rows journal_inv_def) (simp add: demo_journal_eq now_or_def py_strip_def py_isspace_def)
  moreover have "owned ''a'' (claim_row ''a'' 20 demo_thought)" "j_id (claim_row ''a'' 20 demo_thought) = 1"
    "j_status (claim_row ''a'' 20 demo_thought) = EClaimed"
    by (simp_all add: owned_def claim_row_def demo_thought_def py_strip_def py_isspace_def)
  ultimately have held: "journal_claimed ?j ''a'' = {1}" "journal_with ERecoverable ?j = {}"
    by (auto simp: journal_claimed_def journal_with_def)
  have "authoritative_finalized_ingest_entry_ids None ''a'' [1] (journal_claimed ?j ''a'') = Inr []"
    by (simp add: authoritative_finalized_ingest_entry_ids_def)
  from finalize_partitions_claims [OF inv not_blank_a this, of 30] held show ?thesis by auto
qed

lemma normalize_ids_loop_spec:
  "case normalize_ids_loop field vs acc of
     Inr ids \<Rightarrow> (\<forall>v \<in> set vs. \<exists>i>0. entry_id_value v = Inr (Some i))
       \<and> set ids = set acc \<union> {i. \<exists>v \<in> set vs. entry_id_value v = Inr (Some i)}
       \<and> (distinct acc \<longrightarrow> distinct ids) \<and> take (length acc) ids = acc
   | Inl e \<Rightarrow> (\<exists>m. e = ValueError m) \<and> \<not> (\<forall>v \<in> set vs. \<exists>i>0. entry_id_value v = Inr (Some i))"
proof (induction vs arbitrary: acc)
  case (Cons v vs)
  have err: "\<exists>m. e = ValueError m" if "entry_id_value v = Inl e" for e
    using that by (cases v rule: entry_id_value.cases) (auto split: if_splits option.splits)
  consider (raise) e where "entry_id_value v = Inl e" | (no) "entry_id_value v = Inr None"
    | (neg) i where "entry_id_value v = Inr (Some i)" "i \<le> 0"
    | (seen) i where "entry_id_value v = Inr (Some i)" "0 < i" "i \<in> set acc"
    | (fresh) i where "entry_id_value v = Inr (Some i)" "0 < i" "i \<notin> set acc"
    by (cases "entry_id_value v") (auto, metis not_le_imp_less option.exhaust)
  then show ?case
  proof cases
    case seen
    then show ?thesis using Cons.IH [of acc] by (auto split: sum.splits)
  next
    case fresh
    then show ?thesis using Cons.IH [of "acc @ [i]"]
      by (auto split: sum.splits) (metis append_eq_conv_conj append_take_drop_id take_add append_assoc)+
  qed (use err in auto)
qed simp

text \<open>The entry ids a tool is called with: an accepted list comes back without repetitions, holds
  exactly the values of its items, all positive; it is refused, with a \<open>ValueError\<close>, exactly
  when it is missing, no list, empty, or has an item that is not a positive integer or its
  decimal text.\<close>

lemma normalize_ingest_entry_ids_spec:
  "case normalize_ingest_entry_ids arguments field of
     Inr ids \<Rightarrow> (\<exists>vs. dict_get arguments field = Some (JList vs) \<and> ids \<noteq> [] \<and> distinct ids
       \<and> (\<forall>i \<in> set ids. 0 < i) \<and> (\<forall>v \<in> set vs. \<exists>i>0. entry_id_value v = Inr (Some i))
       \<and> set ids = {i. \<exists>v \<in> set vs. entry_id_value v = Inr (Some i)})
   | Inl e \<Rightarrow> (\<exists>m. e = ValueError m)
       \<and> \<not> (\<exists>vs. dict_get arguments field = Some (JList vs) \<and> vs \<noteq> []
            \<and> (\<forall>v \<in> set vs. \<exists>i>0. entry_id_value v = Inr (Some i)))"
proof (cases "\<exists>v vs. dict_get arguments field = Some (JList (v # vs))")
  case True
  then obtain v vs where get: "dict_get arguments field = Some (JList (v # vs))" by blast
  have spec: "case normalize_ids_loop field (v # vs) [] of
     Inr ids \<Rightarrow> (\<forall>w \<in> set (v # vs). \<exists>i>0. entry_id_value w = Inr (Some i))
       \<and> set ids = {i. \<exists>w \<in> set (v # vs). entry_id_value w = Inr (Some i)} \<and> distinct ids
   | Inl e \<Rightarrow> (\<exists>m. e = ValueError m) \<and> \<not> (\<forall>w \<in> set (v # vs). \<exists>i>0. entry_id_value w = Inr (Some i))"
    using normalize_ids_loop_spec [where field = field and vs = "v # vs" and acc = "[]"] by (cases "normalize_ids_loop field (v # vs) []") (simp_all only: sum.case, simp_all)
  have run: "normalize_ingest_entry_ids arguments field = (case normalize_ids_loop field (v # vs) [] of
      Inl e \<Rightarrow> Inl e
    | Inr ids \<Rightarrow> if ids = [] then Inl (ValueError (field @ '' must contain at least one entry id'')) else Inr ids)"
    by (simp only: normalize_ingest_entry_ids_def get option.case json.case list.case)
  show ?thesis
  proof (cases "normalize_ids_loop field (v # vs) []")
    case (Inl e)
    then show ?thesis unfolding run using spec get by (simp only: sum.case) auto
  next
    case (Inr ids)
    have "set ids \<noteq> {}" using spec unfolding Inr by force
    then show ?thesis unfolding run using spec get Inr by (simp only: sum.case if_False set_empty) force
  qed
next
  case False
  then have "normalize_ingest_entry_ids arguments field =
      Inl (ValueError (field @ '' must contain at least one entry id''))"
    by (auto simp: normalize_ingest_entry_ids_def split: option.splits json.splits list.splits)
  with False show ?thesis by (simp add: neq_Nil_conv) blast
qed

theorem normalize_ingest_entry_ids_spec_witness:
  "normalize_ingest_entry_ids [(''entry_ids'', JList [JInt 3, JInt 7, JInt 3])] ''entry_ids'' = Inr [3, 7]
    \<and> distinct [3, 7 :: int] \<and> set [3, 7] = {i. \<exists>v \<in> {JInt 3, JInt 7}. entry_id_value v = Inr (Some i)}"
proof -
  have run: "normalize_ingest_entry_ids [(''entry_ids'', JList [JInt 3, JInt 7, JInt 3])] ''entry_ids'' = Inr [3, 7]"
    by (simp add: normalize_ingest_entry_ids_def dict_get_def)
  have "distinct [3, 7 :: int] \<and> set [3, 7] = {i. \<exists>v \<in> {JInt 3, JInt 7}. entry_id_value v = Inr (Some i)}"
    using normalize_ingest_entry_ids_spec [of "[(''entry_ids'', JList [JInt 3, JInt 7, JInt 3])]" "''entry_ids''"]
    unfolding run by (auto simp: dict_get_def)
  with run show ?thesis by blast
qed

end
