(* ===== verification/Scheduling.thy ===== *)
theory Scheduling
  imports Journal
begin

text \<open>
  Scheduling of the ingest task, \<open>core/system1_scheduling.py\<close>, and of summary refreshes,
  \<open>core/task_submission.py\<close>. The functions take the task queue through its port
  (\<open>core/ports/tasks.py\<close>): a record of the operations they call. The suppression windows are
  those of \<open>config.py\<close>.
\<close>

section \<open>The queue port\<close>

record 's queue_port =
  q_find_open_any :: "string \<Rightarrow> 's \<Rightarrow> task option"
  q_find_open_any_with_data :: "string \<Rightarrow> dict \<Rightarrow> 's \<Rightarrow> task option"
  q_enqueue :: "string \<Rightarrow> string option \<Rightarrow> dict \<Rightarrow> int \<Rightarrow> 's \<Rightarrow> task res \<times> 's"
  q_enqueue_unique :: "string \<Rightarrow> string option \<Rightarrow> dict \<Rightarrow> int \<Rightarrow> time option \<Rightarrow> 's \<Rightarrow> (task \<times> bool) res \<times> 's"
  q_update_pending :: "string \<Rightarrow> dict option \<Rightarrow> time option \<Rightarrow> int option \<Rightarrow> 's \<Rightarrow> task res \<times> 's"
  q_latest_completion :: "string \<Rightarrow> 's \<Rightarrow> time option"

text \<open>The SQLite queue behind the port, with the default of three retries. \<open>uuid name\<close> is the
  identifier drawn when a task of that name is inserted.\<close>

definition sqlite_queue_port :: "(string \<Rightarrow> string) \<Rightarrow> time \<Rightarrow> taskdb queue_port" where
  "sqlite_queue_port uuid clk =
     \<lparr>q_find_open_any = find_open_task_any_workspace,
      q_find_open_any_with_data = find_open_task_with_data_any_workspace,
      q_enqueue = (\<lambda>name ws d prio. enqueue (uuid name) clk name d ws prio 3 None None),
      q_enqueue_unique = (\<lambda>name ws d prio avail. enqueue_unique (uuid name) clk name d ws prio 3 avail),
      q_update_pending = update_pending_task clk,
      q_latest_completion = get_latest_successful_task_completion\<rparr>"

section \<open>Workspaces\<close>

abbreviation "ALL_WORKSPACES_WIRE \<equiv> ''*''"

definition pending_in :: "ws_filter \<Rightarrow> journal \<Rightarrow> int" where
  "pending_in ws j = (case journal_count_by_status ws j ''pending'' of None \<Rightarrow> 0 | Some n \<Rightarrow> n)"

definition resolve_pending_workspace_id :: "journal \<Rightarrow> string option \<Rightarrow> ws_filter" where
  "resolve_pending_workspace_id j ws =
     (if ws = Some ALL_WORKSPACES_WIRE then AnyWs
      else if ws = None then AnyWs
      else if pending_in (WsIs ws) j > 0 \<or> ws = None then WsIs ws
      else if pending_in AnyWs j > 0 then AnyWs
      else WsIs ws)"

fun serialize_pending_workspace_id :: "ws_filter \<Rightarrow> string option" where
  "serialize_pending_workspace_id AnyWs = Some ALL_WORKSPACES_WIRE"
| "serialize_pending_workspace_id (WsIs w) = w"

record scheduling_context =
  sc_journal_workspace :: ws_filter
  sc_pending_count :: int
  sc_oldest_pending :: time

definition build_ingest_scheduling_context :: "journal \<Rightarrow> scheduling_context option" where
  "build_ingest_scheduling_context j =
     (let ws = resolve_pending_workspace_id j None;
          n = pending_in ws j
      in if n \<le> 0 then None
         else case get_oldest_pending_timestamp ws j of
                None \<Rightarrow> None
              | Some t \<Rightarrow> Some \<lparr>sc_journal_workspace = ws, sc_pending_count = n, sc_oldest_pending = t\<rparr>)"

section \<open>Suppression windows\<close>

record suppression_window =
  start_hour :: int
  end_hour :: int
  days_of_week :: "int list"

definition make_suppression_window :: "int \<Rightarrow> int \<Rightarrow> int list \<Rightarrow> suppression_window res" where
  "make_suppression_window s e days =
     (if \<not> (0 \<le> s \<and> s \<le> 23) then Inl (ValueError ''ingest_suppression.windows.start_hour must be in [0, 23]'')
      else if \<not> (0 \<le> e \<and> e \<le> 23) then Inl (ValueError ''ingest_suppression.windows.end_hour must be in [0, 23]'')
      else if list_ex (\<lambda>d. \<not> (0 \<le> d \<and> d \<le> 6)) days
      then Inl (ValueError ''ingest_suppression.windows.days_of_week must contain integers in [0, 6]'')
      else Inr \<lparr>start_hour = s, end_hour = e, days_of_week = ordered_unique days\<rparr>)"

record suppression_config =
  suppression_enabled :: bool
  windows :: "suppression_window list"

text \<open>
  The calendar of \<open>datetime.fromtimestamp(now).astimezone()\<close>: a date time with the UTC offset
  \<open>tz\<close> (in seconds) that the local zone has at \<open>now\<close>, kept by \<open>replace\<close>, \<open>timedelta\<close> and
  \<open>timestamp\<close>. Day 0 is Thursday, 1 January 1970, and Monday is weekday 0. A time stamp is
  taken to be a whole number of microseconds, so \<open>second\<close> is the floor.
\<close>

definition local_day :: "real \<Rightarrow> time \<Rightarrow> int" where
  "local_day tz now = \<lfloor>(now + tz) / 86400\<rfloor>"

definition weekday :: "real \<Rightarrow> time \<Rightarrow> int" where
  "weekday tz now = (local_day tz now + 3) mod 7"

definition second_of_day :: "real \<Rightarrow> time \<Rightarrow> int" where
  "second_of_day tz now = \<lfloor>now + tz\<rfloor> - 86400 * local_day tz now"

definition current_hour :: "real \<Rightarrow> time \<Rightarrow> real" where
  "current_hour tz now =
     (let s = second_of_day tz now
      in of_int (s div 3600) + of_int (s mod 3600 div 60) / 60 + of_int (s mod 60) / 3600)"

text \<open>\<open>(current + timedelta(days=n)).replace(hour=h, minute=0, second=0, microsecond=0).timestamp()\<close>.\<close>

definition at_hour :: "real \<Rightarrow> time \<Rightarrow> int \<Rightarrow> int \<Rightarrow> time" where
  "at_hour tz now n h = of_int (86400 * (local_day tz now + n) + 3600 * h) - tz"

text \<open>The end that one window contributes, if it is active now.\<close>

definition window_end :: "real \<Rightarrow> time \<Rightarrow> suppression_window \<Rightarrow> time option" where
  "window_end tz now w =
     (let days = set (days_of_week w);
          today = (days = {} \<or> weekday tz now \<in> days);
          yesterday = (days = {} \<or> (weekday tz now - 1) mod 7 \<in> days);
          h = current_hour tz now
      in if start_hour w = end_hour w
         then (if today then Some (at_hour tz now 1 (end_hour w)) else None)
         else if start_hour w < end_hour w
         then (if today \<and> of_int (start_hour w) \<le> h \<and> h < of_int (end_hour w)
               then Some (at_hour tz now 0 (end_hour w)) else None)
         else if h \<ge> of_int (start_hour w) \<and> today then Some (at_hour tz now 1 (end_hour w))
         else if h < of_int (end_hour w) \<and> yesterday then Some (at_hour tz now 0 (end_hour w))
         else None)"

definition resolve_ingest_suppression_until ::
  "real \<Rightarrow> time \<Rightarrow> suppression_config option \<Rightarrow> time option" where
  "resolve_ingest_suppression_until tz now cfg =
     (case cfg of
        None \<Rightarrow> None
      | Some c \<Rightarrow>
          if \<not> suppression_enabled c then None
          else case List.map_filter (window_end tz now) (windows c) of
                 [] \<Rightarrow> None
               | u # us \<Rightarrow> Some (fold min us u))"

section \<open>The ingest task\<close>

definition resolve_auto_ingest_rate_limit_until :: "'s queue_port \<Rightarrow> string \<Rightarrow> time \<Rightarrow> 's \<Rightarrow> time option" where
  "resolve_auto_ingest_rate_limit_until q name cooldown s =
     map_option (\<lambda>t. t + cooldown) (q_latest_completion q name s)"

definition is_auto_scheduled_ingest_task :: "task \<Rightarrow> bool" where
  "is_auto_scheduled_ingest_task t = (case dict_get (t_data t) ''trigger'' of
       Some (JStr trigger) \<Rightarrow> str_prefix ''system1_'' trigger
     | _ \<Rightarrow> False)"

record schedule_result =
  sr_task :: task
  sr_created :: bool
  sr_pending_count :: int
  sr_trigger :: string

definition needs_update :: "dict \<Rightarrow> time \<Rightarrow> task \<Rightarrow> bool" where
  "needs_update task_data available_at t =
     (t_status t = Pending \<and> is_auto_scheduled_ingest_task t
      \<and> (t_workspace t \<noteq> None \<or> \<bar>available_at - t_available_at t\<bar> > 1 / 10 ^ 6
         \<or> t_priority t \<noteq> SYSTEM1_INGEST_PRIORITY \<or> \<not> dict_eq (t_data t) task_data))"

definition ingest_task_data ::
  "string option \<Rightarrow> ws_filter \<Rightarrow> string \<Rightarrow> int \<Rightarrow> time \<Rightarrow> time option \<Rightarrow> time option \<Rightarrow> dict" where
  "ingest_task_data ws jws trigger n oldest rate_limited suppressed =
     [(''workspace_id'', opt_json_str ws),
      (''journal_workspace_id'', opt_json_str (serialize_pending_workspace_id jws)),
      (''trigger'', JStr trigger), (''pending_count'', JInt n),
      (''oldest_pending_timestamp'', JFloat oldest)]
     @ (case rate_limited of None \<Rightarrow> [] | Some r \<Rightarrow> [(''rate_limited_until'', JFloat r)])
     @ (case suppressed of None \<Rightarrow> [] | Some r \<Rightarrow> [(''suppressed_until'', JFloat r)])"

definition enqueue_system1_ingest_task ::
  "'s queue_port \<Rightarrow> string option \<Rightarrow> ws_filter \<Rightarrow> int \<Rightarrow> time \<Rightarrow> string \<Rightarrow> time \<Rightarrow> time option \<Rightarrow> time option
   \<Rightarrow> 's \<Rightarrow> schedule_result res \<times> 's" where
  "enqueue_system1_ingest_task q ws jws n oldest trigger available_at rate_limited suppressed s =
     (let task_data = ingest_task_data ws jws trigger n oldest rate_limited suppressed;
          result = (\<lambda>t created. \<lparr>sr_task = t, sr_created = created, sr_pending_count = n, sr_trigger = trigger\<rparr>);
          refresh = (\<lambda>t s. case q_update_pending q (t_id t) (Some task_data) (Some available_at)
                                  (Some SYSTEM1_INGEST_PRIORITY) s of
                        (Inl e, s') \<Rightarrow> (Inl e, s')
                      | (Inr t', s') \<Rightarrow> (Inr (result t' False), s'))
      in case q_find_open_any q SYSTEM1_INGEST_TASK_NAME s of
           Some t \<Rightarrow> if needs_update task_data available_at t then refresh t s else (Inr (result t False), s)
         | None \<Rightarrow>
             (case q_enqueue_unique q SYSTEM1_INGEST_TASK_NAME None task_data SYSTEM1_INGEST_PRIORITY
                     (Some available_at) s of
                (Inl e, s') \<Rightarrow> (Inl e, s')
              | (Inr (t, created), s') \<Rightarrow>
                  if \<not> created \<and> needs_update task_data available_at t then refresh t s'
                  else (Inr (result t created), s')))"

definition schedule_system1_ingest ::
  "'s queue_port \<Rightarrow> real \<Rightarrow> time \<Rightarrow> journal \<Rightarrow> string option \<Rightarrow> time option \<Rightarrow> suppression_config option
   \<Rightarrow> 's \<Rightarrow> schedule_result option res \<times> 's" where
  "schedule_system1_ingest q tz clk j ws now cfg s =
     (let scheduled_at = now_or now clk in
      case build_ingest_scheduling_context j of
        None \<Rightarrow> (Inr None, s)
      | Some c \<Rightarrow>
          let below = (sc_pending_count c < SYSTEM1_INGEST_THRESHOLD);
              trigger0 = (if below then ''system1_debounce'' else ''system1_threshold'');
              avail0 = (if below then scheduled_at + SYSTEM1_INGEST_DEBOUNCE_SECONDS else scheduled_at);
              rate = resolve_auto_ingest_rate_limit_until q SYSTEM1_INGEST_TASK_NAME
                       SYSTEM1_AUTO_INGEST_RATE_LIMIT_SECONDS s;
              (trigger1, avail1) = (case rate of
                  Some r \<Rightarrow> if avail0 < r then (trigger0 @ ''_rate_limited'', r) else (trigger0, avail0)
                | None \<Rightarrow> (trigger0, avail0));
              suppressed = resolve_ingest_suppression_until tz scheduled_at cfg;
              (trigger2, avail2) = (case suppressed of
                  Some u \<Rightarrow> if avail1 < u then (trigger1 @ ''_suppressed'', max avail1 u) else (trigger1, avail1)
                | None \<Rightarrow> (trigger1, avail1))
          in (case enqueue_system1_ingest_task q ws (sc_journal_workspace c) (sc_pending_count c)
                     (sc_oldest_pending c) trigger2 avail2 rate suppressed s of
                (Inl e, s') \<Rightarrow> (Inl e, s')
              | (Inr r, s') \<Rightarrow> (Inr (Some r), s')))"

definition schedule_system1_ingest_continuation ::
  "'s queue_port \<Rightarrow> real \<Rightarrow> time \<Rightarrow> journal \<Rightarrow> string option \<Rightarrow> time option \<Rightarrow> suppression_config option
   \<Rightarrow> 's \<Rightarrow> schedule_result option res \<times> 's" where
  "schedule_system1_ingest_continuation q tz clk j ws now cfg s =
     (let scheduled_at = now_or now clk in
      case build_ingest_scheduling_context j of
        None \<Rightarrow> (Inr None, s)
      | Some c \<Rightarrow>
          let suppressed = resolve_ingest_suppression_until tz scheduled_at cfg;
              (trigger, avail) = (case suppressed of
                  Some u \<Rightarrow> if scheduled_at < u then (''system1_backlog_continuation_suppressed'', u)
                            else (''system1_backlog_continuation'', scheduled_at)
                | None \<Rightarrow> (''system1_backlog_continuation'', scheduled_at))
          in (case enqueue_system1_ingest_task q ws (sc_journal_workspace c) (sc_pending_count c)
                     (sc_oldest_pending c) trigger avail None suppressed s of
                (Inl e, s') \<Rightarrow> (Inl e, s')
              | (Inr r, s') \<Rightarrow> (Inr (Some r), s')))"

section \<open>Summary refreshes\<close>

definition enqueue_summary_refresh_task ::
  "'s queue_port option \<Rightarrow> string \<Rightarrow> 's \<Rightarrow> task option res \<times> 's" where
  "enqueue_summary_refresh_task port memory_id s = (case port of
       None \<Rightarrow> (Inr None, s)
     | Some q \<Rightarrow>
         (case q_find_open_any_with_data q SUMMARIZE_MEMORY_TASK_NAME [(''memory_id'', JStr memory_id)] s of
            Some t \<Rightarrow> (Inr (Some t), s)
          | None \<Rightarrow>
              (case q_enqueue q SUMMARIZE_MEMORY_TASK_NAME None [(''memory_id'', JStr memory_id)] 20 s of
                 (Inl e, s') \<Rightarrow> (Inl e, s')
               | (Inr t, s') \<Rightarrow> (Inr (Some t), s'))))"

end
