(* ===== verification/SchedulingProps.thy ===== *)
theory SchedulingProps
  imports Scheduling TaskQueueProps
begin

text \<open>
  The properties of ingest scheduling: the suppression windows, and the scheduling itself over a
  contract of the task queue that the SQLite queue is shown to keep.
\<close>

section \<open>Suppression windows\<close>

definition window_active :: "real \<Rightarrow> time \<Rightarrow> suppression_window \<Rightarrow> bool" where
  "window_active tz now w =
     (let sec = second_of_day tz now;
          on = (\<lambda>d. days_of_week w = [] \<or> d mod 7 \<in> set (days_of_week w));
          today = on (weekday tz now); yesterday = on (weekday tz now - 1)
      in if start_hour w = end_hour w then today
         else if start_hour w < end_hour w
         then today \<and> 3600 * start_hour w \<le> sec \<and> sec < 3600 * end_hour w
         else today \<and> 3600 * start_hour w \<le> sec \<or> yesterday \<and> sec < 3600 * end_hour w)"

definition valid_window :: "suppression_window \<Rightarrow> bool" where
  "valid_window w = (\<exists>s e days. make_suppression_window s e days = Inr w)"

lemma valid_windowI: "make_suppression_window s e days = Inr w \<Longrightarrow> valid_window w"
  by (auto simp: valid_window_def)

lemma valid_windowD: "valid_window w \<Longrightarrow> 0 \<le> start_hour w \<and> start_hour w \<le> 23 \<and> 0 \<le> end_hour w \<and> end_hour w \<le> 23"
  by (auto simp: valid_window_def make_suppression_window_def split: if_splits)

lemma current_hour_eq: "current_hour tz now = of_int (second_of_day tz now) / 3600"
proof -
  define s where "s = second_of_day tz now"
  have "s = 3600 * (s div 3600) + s mod 3600" by simp
  moreover have "s mod 3600 = 60 * (s mod 3600 div 60) + s mod 3600 mod 60" by simp
  moreover have "s mod 3600 mod 60 = s mod 60" by (rule mod_mod_cancel) simp
  ultimately have "s = 3600 * (s div 3600) + 60 * (s mod 3600 div 60) + s mod 60" by linarith
  then have "real_of_int s = of_int (3600 * (s div 3600) + 60 * (s mod 3600 div 60) + s mod 60)"
    by (rule arg_cong)
  then have "real_of_int s = 3600 * of_int (s div 3600) + 60 * of_int (s mod 3600 div 60) + of_int (s mod 60)"
    by (simp only: of_int_add of_int_mult of_int_numeral)
  then show ?thesis by (simp add: current_hour_def Let_def s_def [symmetric] field_simps)
qed

lemma second_of_day_bounds: "0 \<le> second_of_day tz now \<and> second_of_day tz now < 86400"
proof -
  define d where "d = local_day tz now"
  have "of_int d \<le> (now + tz) / 86400" "(now + tz) / 86400 < of_int d + 1"
    unfolding d_def local_day_def by (rule of_int_floor_le, rule real_of_int_floor_add_one_gt)
  then have "of_int (86400 * d) \<le> now + tz" "now + tz < of_int (86400 * d + 86400)" by simp_all
  then have "86400 * d \<le> \<lfloor>now + tz\<rfloor>" "\<lfloor>now + tz\<rfloor> < 86400 * d + 86400"
    by (simp_all only: le_floor_iff floor_less_iff)
  then show ?thesis by (simp add: second_of_day_def d_def)
qed

text \<open>The instant \<open>now\<close> lies in the second \<open>second_of_day\<close> of its day.\<close>

lemma now_in_day:
  "of_int (86400 * local_day tz now + second_of_day tz now) \<le> now + tz"
  "now + tz < of_int (86400 * local_day tz now + second_of_day tz now) + 1"
proof -
  have "86400 * local_day tz now + second_of_day tz now = \<lfloor>now + tz\<rfloor>" by (simp add: second_of_day_def)
  then show "of_int (86400 * local_day tz now + second_of_day tz now) \<le> now + tz"
    "now + tz < of_int (86400 * local_day tz now + second_of_day tz now) + 1"
    by (simp_all only: of_int_floor_le real_of_int_floor_add_one_gt)
qed

lemma at_hour_clock:
  assumes "0 \<le> h" and "h \<le> 23"
  shows "second_of_day tz (at_hour tz now n h) = 3600 * h"
proof -
  let ?d = "local_day tz now + n"
  have eq: "at_hour tz now n h + tz = of_int (86400 * ?d + 3600 * h)" by (simp add: at_hour_def)
  have "local_day tz (at_hour tz now n h) = (86400 * ?d + 3600 * h) div 86400"
    unfolding local_day_def eq by (metis floor_divide_of_int_eq of_int_numeral)
  also have "\<dots> = ?d" using assms by simp
  finally have "local_day tz (at_hour tz now n h) = ?d" .
  then show ?thesis unfolding second_of_day_def eq floor_of_int by simp
qed

lemma window_end_active: "(\<exists>u. window_end tz now w = Some u) \<longleftrightarrow> window_active tz now w"
proof -
  have le: "of_int k \<le> current_hour tz now \<longleftrightarrow> 3600 * k \<le> second_of_day tz now" for k
  proof -
    have "of_int k \<le> current_hour tz now \<longleftrightarrow> real_of_int (3600 * k) \<le> of_int (second_of_day tz now)"
      by (simp add: current_hour_eq field_simps)
    then show ?thesis by (simp only: of_int_le_iff)
  qed
  then have less: "current_hour tz now < of_int k \<longleftrightarrow> second_of_day tz now < 3600 * k" for k
    by (metis not_le)
  have today: "weekday tz now mod 7 = weekday tz now" by (simp add: weekday_def)
  show ?thesis
    unfolding window_end_def window_active_def Let_def le less today by auto
qed

lemma window_end_after:
  assumes "valid_window w" and "window_end tz now w = Some u"
  shows "now < u \<and> u < now + 172800 \<and> (start_hour w \<noteq> end_hour w \<longrightarrow> \<not> window_active tz u w)"
proof -
  note hours = valid_windowD [OF assms(1)]
  have active: "window_active tz now w" using assms(2) window_end_active by blast
  obtain n where u: "u = at_hour tz now n (end_hour w)"
    and n: "n = 1 \<or> n = 0 \<and> second_of_day tz now < 3600 * end_hour w"
    using assms(2) active
    by (auto simp: window_end_def window_active_def current_hour_eq Let_def split: if_splits)
  have "86400 * local_day tz now + second_of_day tz now + 1 \<le> 86400 * (local_day tz now + n) + 3600 * end_hour w"
    using n second_of_day_bounds [of tz now] hours by auto
  then have "real_of_int (86400 * local_day tz now + second_of_day tz now + 1) \<le>
      of_int (86400 * (local_day tz now + n) + 3600 * end_hour w)"
    by (simp only: of_int_le_iff)
  then have after: "now < u" using now_in_day(2) [of now tz] by (simp add: u at_hour_def)
  have "86400 * (local_day tz now + n) + 3600 * end_hour w < 86400 * local_day tz now + second_of_day tz now + 172800"
    using n second_of_day_bounds [of tz now] hours by auto
  then have "real_of_int (86400 * (local_day tz now + n) + 3600 * end_hour w) <
      of_int (86400 * local_day tz now + second_of_day tz now + 172800)"
    by (simp only: of_int_less_iff)
  then have before: "u < now + 172800" using now_in_day(1) [of tz now] by (simp add: u at_hour_def)
  have "\<not> window_active tz u w" if "start_hour w \<noteq> end_hour w"
    using that hours at_hour_clock [of "end_hour w" tz now n] by (auto simp: window_active_def u Let_def)
  with after before show ?thesis by blast
qed

lemma fold_min_least:
  "fold min us (u :: time) \<in> set (u # us) \<and> (\<forall>v \<in> set (u # us). fold min us u \<le> v)"
proof (induction us arbitrary: u)
  case (Cons v us)
  from Cons.IH [of "min v u"] show ?case by (auto simp: min_def split: if_splits)
qed simp

text \<open>Suppression: an ingest is held back exactly while the configuration is enabled and a
  window is active, in local time, over midnight, and by the day on which the window opened; it
  is held until the first end of an active window, which lies in the future and less than two
  days ahead, and a window that is not a whole day is over at its end.\<close>

lemma suppression_spec:
  assumes "\<forall>w \<in> set (windows c). valid_window w"
  shows "case resolve_ingest_suppression_until tz now (Some c) of
      None \<Rightarrow> \<not> suppression_enabled c \<or> (\<forall>w \<in> set (windows c). \<not> window_active tz now w)
    | Some u \<Rightarrow> suppression_enabled c \<and> now < u \<and> u < now + 172800
        \<and> (\<exists>w \<in> set (windows c). window_active tz now w \<and> window_end tz now w = Some u
             \<and> (start_hour w = end_hour w \<or> \<not> window_active tz u w))
        \<and> (\<forall>w \<in> set (windows c). \<forall>v. window_end tz now w = Some v \<longrightarrow> u \<le> v)"
proof (cases "suppression_enabled c")
  case False
  then show ?thesis by (simp add: resolve_ingest_suppression_until_def)
next
  case True
  let ?ends = "List.map_filter (window_end tz now) (windows c)"
  have ends: "set ?ends = {u. \<exists>w \<in> set (windows c). window_end tz now w = Some u}"
    by (auto simp: map_filter_def) force
  show ?thesis
  proof (cases ?ends)
    case Nil
    then have "\<not> (\<exists>w \<in> set (windows c). \<exists>u. window_end tz now w = Some u)" using ends by auto
    with Nil True show ?thesis
      by (simp add: resolve_ingest_suppression_until_def window_end_active [symmetric])
  next
    case (Cons u us)
    let ?u = "fold min us u"
    have least: "?u \<in> set ?ends" "\<forall>v \<in> set ?ends. ?u \<le> v"
      using fold_min_least [of us u] unfolding Cons by auto
    then obtain w where w: "w \<in> set (windows c)" "window_end tz now w = Some ?u" unfolding ends by blast
    have "valid_window w" using assms w(1) by blast
    note after = window_end_after [OF this w(2)]
    have "resolve_ingest_suppression_until tz now (Some c) = Some ?u"
      using True Cons by (simp add: resolve_ingest_suppression_until_def)
    then show ?thesis
      using True w after least(2) window_end_active [of tz now w] unfolding ends by fastforce
  qed
qed

definition overlapping_windows :: suppression_config where
  "overlapping_windows = \<lparr>suppression_enabled = True,
     windows = [\<lparr>start_hour = 0, end_hour = 12, days_of_week = []\<rparr>,
                \<lparr>start_hour = 8, end_hour = 10, days_of_week = []\<rparr>]\<rparr>"

lemma hour_9:
  "local_day 0 32400 = 0" "second_of_day 0 32400 = 32400" "current_hour 0 32400 = 9"
  "local_day 0 36000 = 0" "second_of_day 0 36000 = 36000"
  by (simp_all add: local_day_def second_of_day_def current_hour_def Let_def)

theorem suppression_spec_witness:
  "\<exists>u. resolve_ingest_suppression_until 0 32400 (Some overlapping_windows) = Some u \<and> 32400 < u"
proof -
  have valid: "\<forall>w \<in> set (windows overlapping_windows). valid_window w"
    using valid_windowI [of 0 12 "[]"] valid_windowI [of 8 10 "[]"]
    by (simp add: overlapping_windows_def make_suppression_window_def ordered_unique_def)
  have "resolve_ingest_suppression_until 0 32400 (Some overlapping_windows) \<noteq> None"
    by (simp add: resolve_ingest_suppression_until_def overlapping_windows_def window_end_def hour_9
        map_filter_simps Let_def)
  with suppression_spec [OF valid, of 0 32400] show ?thesis by (auto split: option.splits)
qed

text \<open>With overlapping windows the first end may still lie inside another window: at 9:00 the answer
  is 10:00, when ingest is suppressed until 12:00.\<close>

lemma suppressed_into_a_window:
  "resolve_ingest_suppression_until 0 32400 (Some overlapping_windows) = Some 36000
    \<and> resolve_ingest_suppression_until 0 36000 (Some overlapping_windows) = Some 43200"
  by (simp add: resolve_ingest_suppression_until_def overlapping_windows_def window_end_def current_hour_eq
      at_hour_def hour_9 map_filter_simps Let_def)

section \<open>The contract of the queue\<close>

text \<open>\<open>open_tasks s n\<close> are the pending and running tasks named \<open>n\<close> of a state \<open>s\<close>.\<close>

locale open_queue =
  fixes q :: "'s queue_port" and open_tasks :: "'s \<Rightarrow> string \<Rightarrow> task set" and good :: "'s \<Rightarrow> bool"
  assumes find_none: "good s \<Longrightarrow> q_find_open_any q n s = None \<longleftrightarrow> open_tasks s n = {}"
    and find_some: "good s \<Longrightarrow> q_find_open_any q n s = Some t \<Longrightarrow> t \<in> open_tasks s n"
    and find_data_none: "good s \<Longrightarrow> d \<noteq> [] \<Longrightarrow>
      q_find_open_any_with_data q n d s = None \<longleftrightarrow> (\<forall>t \<in> open_tasks s n. \<not> matches_fields d t)"
    and find_data_some: "good s \<Longrightarrow> d \<noteq> [] \<Longrightarrow> q_find_open_any_with_data q n d s = Some t \<Longrightarrow>
      t \<in> open_tasks s n \<and> matches_fields d t"
    and enqueue_new: "good s \<Longrightarrow> \<not> blank n \<Longrightarrow> py_strip n = n \<Longrightarrow> \<exists>t s'. q_enqueue q n ws d p s = (Inr t, s')
      \<and> open_tasks s' n = insert t (open_tasks s n) \<and> t_data t = dict_sort d"
    and unique_new: "good s \<Longrightarrow> \<not> blank n \<Longrightarrow> py_strip n = n \<Longrightarrow> open_tasks s n = {} \<Longrightarrow>
      \<exists>t s'. q_enqueue_unique q n ws d p (Some a) s = (Inr (t, True), s') \<and> open_tasks s' n = {t}
        \<and> t_status t = Pending \<and> t_data t = dict_sort d \<and> t_available_at t = a \<and> t_priority t = p"
    and update: "good s \<Longrightarrow> t \<in> open_tasks s n \<Longrightarrow> t_status t = Pending \<Longrightarrow>
      \<exists>t' s'. q_update_pending q (t_id t) (Some d) (Some a) (Some p) s = (Inr t', s')
        \<and> open_tasks s' n = insert t' (open_tasks s n - {t}) \<and> t_id t' = t_id t
        \<and> t_available_at t' = a \<and> t_priority t' = p"
begin

text \<open>What a call leaves: the task it returns is open, new exactly when none was, in place of the
  one found otherwise, and due at the asked time if it is pending and scheduled automatically.\<close>

lemma enqueue_ingest:
  assumes good: "good s" and name: "\<not> blank SYSTEM1_INGEST_TASK_NAME" "py_strip SYSTEM1_INGEST_TASK_NAME = SYSTEM1_INGEST_TASK_NAME"
  shows "\<exists>r s'. enqueue_system1_ingest_task q ws jws n oldest trigger a rl sp s = (Inr r, s')
    \<and> sr_task r \<in> open_tasks s' SYSTEM1_INGEST_TASK_NAME \<and> sr_trigger r = trigger \<and> sr_pending_count r = n
    \<and> (sr_created r \<longleftrightarrow> open_tasks s SYSTEM1_INGEST_TASK_NAME = {})
    \<and> (if sr_created r then open_tasks s' SYSTEM1_INGEST_TASK_NAME = {sr_task r}
       else \<exists>t \<in> open_tasks s SYSTEM1_INGEST_TASK_NAME. t_id (sr_task r) = t_id t
          \<and> open_tasks s' SYSTEM1_INGEST_TASK_NAME = insert (sr_task r) (open_tasks s SYSTEM1_INGEST_TASK_NAME - {t}))
    \<and> (t_status (sr_task r) = Pending \<and> is_auto_scheduled_ingest_task (sr_task r) \<longrightarrow>
         \<bar>a - t_available_at (sr_task r)\<bar> \<le> 1 / 10 ^ 6 \<and> t_priority (sr_task r) = SYSTEM1_INGEST_PRIORITY)"
proof -
  let ?n = SYSTEM1_INGEST_TASK_NAME
  let ?d = "ingest_task_data ws jws trigger n oldest rl sp"
  show ?thesis
  proof (cases "q_find_open_any q ?n s")
    case None
    then have "open_tasks s ?n = {}" using find_none good by blast
    then obtain t s' where new: "q_enqueue_unique q ?n None ?d 10 (Some a) s = (Inr (t, True), s')"
        "open_tasks s' ?n = {t}" "t_available_at t = a" "t_priority t = 10"
      using unique_new [OF good name, of None ?d 10 a] by blast
    let ?r = "\<lparr>sr_task = t, sr_created = True, sr_pending_count = n, sr_trigger = trigger\<rparr>"
    have "enqueue_system1_ingest_task q ws jws n oldest trigger a rl sp s = (Inr ?r, s')"
      using None new(1) by (simp add: enqueue_system1_ingest_task_def Let_def)
    with new \<open>open_tasks s ?n = {}\<close> show ?thesis by (intro exI [of _ ?r] exI [of _ s']) simp
  next
    case (Some t)
    have mem: "t \<in> open_tasks s ?n" using good Some by (rule find_some)
    show ?thesis
    proof (cases "needs_update ?d a t")
      case True
      then have "t_status t = Pending" by (simp add: needs_update_def)
      then obtain t' s' where upd: "q_update_pending q (t_id t) (Some ?d) (Some a) (Some 10) s = (Inr t', s')"
          "open_tasks s' ?n = insert t' (open_tasks s ?n - {t})" "t_id t' = t_id t" "t_available_at t' = a" "t_priority t' = 10"
        using update [OF good mem, of ?d a 10] by blast
      let ?r = "\<lparr>sr_task = t', sr_created = False, sr_pending_count = n, sr_trigger = trigger\<rparr>"
      have "enqueue_system1_ingest_task q ws jws n oldest trigger a rl sp s = (Inr ?r, s')"
        using True Some upd(1) by (simp add: enqueue_system1_ingest_task_def Let_def)
      with upd mem show ?thesis by (intro exI [of _ ?r] exI [of _ s']) auto
    next
      case False
      with Some mem show ?thesis
        by (auto simp: enqueue_system1_ingest_task_def needs_update_def Let_def)
    qed
  qed
qed

lemma summary_refresh:
  assumes good: "good s" and name: "\<not> blank SUMMARIZE_MEMORY_TASK_NAME" "py_strip SUMMARIZE_MEMORY_TASK_NAME = SUMMARIZE_MEMORY_TASK_NAME"
  shows "\<exists>t s'. enqueue_summary_refresh_task (Some q) m s = (Inr (Some t), s')
    \<and> t \<in> open_tasks s' SUMMARIZE_MEMORY_TASK_NAME \<and> matches_fields [(''memory_id'', JStr m)] t
    \<and> (if \<exists>u \<in> open_tasks s SUMMARIZE_MEMORY_TASK_NAME. matches_fields [(''memory_id'', JStr m)] u then s' = s
       else open_tasks s' SUMMARIZE_MEMORY_TASK_NAME = insert t (open_tasks s SUMMARIZE_MEMORY_TASK_NAME))"
proof (cases "q_find_open_any_with_data q SUMMARIZE_MEMORY_TASK_NAME [(''memory_id'', JStr m)] s")
  case None
  obtain t s' where enq: "q_enqueue q SUMMARIZE_MEMORY_TASK_NAME None [(''memory_id'', JStr m)] 20 s = (Inr t, s')"
      "open_tasks s' SUMMARIZE_MEMORY_TASK_NAME = insert t (open_tasks s SUMMARIZE_MEMORY_TASK_NAME)"
      "t_data t = dict_sort [(''memory_id'', JStr m)]"
    using enqueue_new [OF good name] by blast
  have "\<not> (\<exists>u \<in> open_tasks s SUMMARIZE_MEMORY_TASK_NAME. matches_fields [(''memory_id'', JStr m)] u)"
    using None find_data_none [OF good, of "[(''memory_id'', JStr m)]"] by auto
  moreover have "matches_fields [(''memory_id'', JStr m)] t"
    by (simp add: matches_fields_def dict_field_eq_def enq(3) dict_get_sort) (simp add: dict_get_def)
  ultimately show ?thesis
    using None enq(1,2) by (simp add: enqueue_summary_refresh_task_def)
next
  case (Some t)
  from find_data_some [OF good _ Some] Some show ?thesis
    by (auto simp: enqueue_summary_refresh_task_def)
qed

end

section \<open>The SQLite queue keeps the contract\<close>

definition open_tasks_of :: "taskdb \<Rightarrow> string \<Rightarrow> task set" where
  "open_tasks_of db n = {t \<in> set (tasks db). open_named n t}"

definition fresh_uuid :: "(string \<Rightarrow> string) \<Rightarrow> taskdb \<Rightarrow> bool" where
  "fresh_uuid uuid db = (db_ok db \<and> (\<forall>name. uuid name \<noteq> [] \<and> uuid name \<notin> t_id ` set (tasks db)))"

lemma set_list_open_any: "set (list_open_tasks_any_workspace n db) = open_tasks_of db n"
  by (simp add: list_open_tasks_any_workspace_def open_tasks_of_def)

lemma find_open_any_None: "find_open_task_any_workspace n db = None \<longleftrightarrow> open_tasks_of db n = {}"
proof -
  have "find_open_task_any_workspace n db = None \<longleftrightarrow> list_open_tasks_any_workspace n db = []"
    by (simp add: find_open_task_any_workspace_def split: list.splits)
  also have "\<dots> \<longleftrightarrow> open_tasks_of db n = {}" using set_list_open_any [of n db] by auto
  finally show ?thesis .
qed

lemma find_open_any_Some: "find_open_task_any_workspace n db = Some t \<Longrightarrow> t \<in> open_tasks_of db n"
  using set_list_open_any [of n db]
  by (cases "list_open_tasks_any_workspace n db") (auto simp: find_open_task_any_workspace_def)

lemma enqueue_fresh:
  assumes "fresh_uuid uuid db" and "\<not> blank n" and "py_strip n = n"
  shows "\<exists>t db'. enqueue (uuid n) clk n d ws p r avail None db = (Inr t, db')
    \<and> open_tasks_of db' n = insert t (open_tasks_of db n) \<and> t_status t = Pending
    \<and> t_data t = dict_sort d \<and> t_available_at t = now_or avail clk \<and> t_priority t = p"
proof -
  have "\<exists>t db'. enqueue (uuid n) clk n d ws p r avail None db = (Inr t, db')"
    using assms by (auto simp: enqueue_def fresh_uuid_def str_or_def get_task_append Let_def)
  then obtain t db' where enq: "enqueue (uuid n) clk n d ws p r avail None db = (Inr t, db')" by blast
  note new = enqueue_Inr [OF enq]
  have "t_name t = n" using new assms(3) by (simp only:)
  then have "open_named n t" using new by (auto simp: open_named_def is_open_def fresh_pending_def)
  moreover have "set (tasks db') = insert t (set (tasks db))" using new by simp
  ultimately have "open_tasks_of db' n = insert t (open_tasks_of db n)" by (auto simp: open_tasks_of_def)
  then show ?thesis using enq new by (auto simp: fresh_pending_def)
qed

lemma update_pending_task_eq:
  assumes ok: "db_ok db" and row: "t \<in> set (tasks db)" "t_status t = Pending"
  shows "\<exists>t'. update_pending_task clk (t_id t) (Some d) (Some a) (Some p) db =
      (Inr t', db\<lparr>tasks := map (\<lambda>s. if s = t then t' else s) (tasks db)\<rparr>)
    \<and> t' = t\<lparr>t_data := dict_sort d, t_available_at := a, t_priority := p, t_updated_at := clk\<rparr>"
proof -
  let ?p = "\<lambda>s. t_id s = t_id t \<and> t_status s = Pending"
  let ?f = "\<lambda>s. s\<lparr>t_data := dict_sort d, t_available_at := a, t_priority := p, t_updated_at := clk\<rparr>"
  note dist = db_okD(1) [OF ok]
  have found: "List.find ?p (tasks db) = Some t" using dist row by (intro find_key [where k = t_id]) auto
  have "get_task (t_id t) (db\<lparr>tasks := update_where ?p ?f (tasks db)\<rparr>) = Inr (?f t)"
    using keyed_update(3) [OF dist row(1), of ?p ?f] row(2) by (simp add: get_task_def)
  moreover have "rowcount ?p (tasks db) = 1" using dist row by (intro rowcount_key [where k = t_id]) auto
  ultimately have "update_pending_task clk (t_id t) (Some d) (Some a) (Some p) db =
      (Inr (?f t), db\<lparr>tasks := update_where ?p ?f (tasks db)\<rparr>)"
    by (simp add: update_pending_task_def found Let_def)
  moreover have "update_where ?p ?f (tasks db) = map (\<lambda>s. if s = t then ?f t else s) (tasks db)"
    using row by (intro update_where_key_map [OF ok row(1)]) simp_all
  ultimately show ?thesis by simp
qed

interpretation sq: open_queue "sqlite_queue_port uuid clk" open_tasks_of "fresh_uuid uuid" for uuid clk
proof (unfold_locales, goal_cases)
  case (1 s n)
  then show ?case by (simp add: sqlite_queue_port_def find_open_any_None)
next
  case (2 s n t)
  then show ?case by (simp add: sqlite_queue_port_def find_open_any_Some)
next
  case (3 s d n)
  then show ?case
    by (auto simp: sqlite_queue_port_def find_open_task_with_data_any_workspace_def find_None_iff set_list_open_any)
next
  case (4 s d n t)
  then show ?case
    by (auto simp: sqlite_queue_port_def find_open_task_with_data_any_workspace_def set_list_open_any
        dest!: find_SomeD)
next
  case (5 s n ws d p)
  from enqueue_fresh [OF this, of clk d ws p 3 None] show ?case by (auto simp: sqlite_queue_port_def)
next
  case (6 s n ws d p a)
  have "find_open_task n ws s = None"
    using 6(4) by (auto simp: find_open_task_None_iff open_tasks_of_def)
  from enqueue_fresh [OF 6(1-3), of clk d ws p 3 "Some a"] 6(4) show ?case
    by (auto simp: sqlite_queue_port_def enqueue_unique_new [OF \<open>find_open_task n ws s = None\<close>] now_or_def)
next
  case (7 s t n d a p)
  have ok: "db_ok s" and row: "t \<in> set (tasks s)" using 7 by (simp_all add: fresh_uuid_def open_tasks_of_def)
  let ?t = "t\<lparr>t_data := dict_sort d, t_available_at := a, t_priority := p, t_updated_at := clk\<rparr>"
  have upd: "update_pending_task clk (t_id t) (Some d) (Some a) (Some p) s =
      (Inr ?t, s\<lparr>tasks := map (\<lambda>u. if u = t then ?t else u) (tasks s)\<rparr>)"
    using update_pending_task_eq [OF ok row 7(3)] by blast
  have "open_named n ?t" using 7(2) by (simp add: open_tasks_of_def open_named_def is_open_def)
  then have "open_tasks_of (s\<lparr>tasks := map (\<lambda>u. if u = t then ?t else u) (tasks s)\<rparr>) n =
      insert ?t (open_tasks_of s n - {t})"
    using row by (auto simp: open_tasks_of_def)
  with upd show ?case by (auto simp: sqlite_queue_port_def)
qed

section \<open>Scheduling\<close>

lemma ingest_name: "\<not> blank SYSTEM1_INGEST_TASK_NAME" "py_strip SYSTEM1_INGEST_TASK_NAME = SYSTEM1_INGEST_TASK_NAME"
  "\<not> blank SUMMARIZE_MEMORY_TASK_NAME" "py_strip SUMMARIZE_MEMORY_TASK_NAME = SUMMARIZE_MEMORY_TASK_NAME"
  by (simp_all add: blank_def py_strip_def py_isspace_def)

text \<open>The time an ingest is due: now at the threshold, else after the debounce; not before the rate
  limit of the last success, nor before the suppression ends.\<close>

definition ingest_due :: "int \<Rightarrow> time \<Rightarrow> time option \<Rightarrow> time option \<Rightarrow> time" where
  "ingest_due n now rate suppressed =
     (let base = (if n < 40 then now + 3600 else now);
          limited = (case rate of None \<Rightarrow> base | Some r \<Rightarrow> max base r)
      in case suppressed of None \<Rightarrow> limited | Some u \<Rightarrow> max limited u)"

lemma later_of:
  "\<exists>T. (case r of None \<Rightarrow> (t, a) | Some u \<Rightarrow> if a < u then (t @ suffix, u) else (t, a)) =
     (T, case r of None \<Rightarrow> a | Some u \<Rightarrow> max a u)"
  "\<exists>T. (case r of None \<Rightarrow> (t, a) | Some u \<Rightarrow> if a < u then (t @ suffix, max a u) else (t, a)) =
     (T, case r of None \<Rightarrow> a | Some u \<Rightarrow> max a u)"
  for a :: time and t :: string
  by (cases r; simp add: max_def not_less)+


definition one_thought :: journal where
  "one_thought = snd (record_with_timestamp 10 ''note'' None None empty_journal)"

lemma one_thought_context: "build_ingest_scheduling_context one_thought =
    Some \<lparr>sc_journal_workspace = AnyWs, sc_pending_count = 1, sc_oldest_pending = 10\<rparr>"
  by (simp add: one_thought_def record_with_timestamp_def empty_journal_def blank_def py_strip_def
      py_isspace_def now_or_def Let_def build_ingest_scheduling_context_def resolve_pending_workspace_id_def
      pending_in_def journal_count_by_status_def get_oldest_pending_timestamp_def)


text \<open>At most one open summary refresh per memory: a refresh for a memory that has an open one
  changes nothing and returns it; otherwise it adds one open task, which is for that memory, and
  no other.\<close>

lemma summary_refresh_spec:
  assumes "fresh_uuid uuid db"
  shows "\<exists>t db'. enqueue_summary_refresh_task (Some (sqlite_queue_port uuid clk)) m db = (Inr (Some t), db')
    \<and> t \<in> open_tasks_of db' ''summarize-memory'' \<and> dict_field_eq (t_data t) ''memory_id'' (JStr m)
    \<and> (if \<exists>u \<in> open_tasks_of db ''summarize-memory''. dict_field_eq (t_data u) ''memory_id'' (JStr m)
       then db' = db
       else open_tasks_of db' ''summarize-memory'' = insert t (open_tasks_of db ''summarize-memory''))"
  using sq.summary_refresh [OF assms ingest_name(3,4), of clk m] by (simp add: matches_fields_def)

theorem summary_refresh_spec_witness:
  "\<exists>t db'. enqueue_summary_refresh_task (Some (sqlite_queue_port (\<lambda>n. ''u'') 20)) ''m'' empty_taskdb = (Inr (Some t), db')
     \<and> open_tasks_of db' ''summarize-memory'' = {t}"
proof -
  have fresh: "fresh_uuid (\<lambda>n. ''u'') empty_taskdb" using db_ok_empty by (simp add: fresh_uuid_def) (simp add: empty_taskdb_def)
  have "open_tasks_of empty_taskdb ''summarize-memory'' = {}" by (simp add: open_tasks_of_def empty_taskdb_def)
  with summary_refresh_spec [OF fresh, of 20 "''m''"] show ?thesis by auto
qed

end
