(* ===== verification/MaintenanceIdle.thy ===== *)
theory MaintenanceIdle
  imports Scheduling
begin

text \<open>
  Idle-aware recurring maintenance, \<open>core/maintenance_idle.py\<close>, with the jitter of
  \<open>core/recurring_jitter.py\<close>: autonomous maintenance pauses while no thoughts come in, a pause
  is kept until one does, and tasks of retired families are drained into one curator task.
\<close>

section \<open>Jitter\<close>

text \<open>\<open>round(x, 6)\<close>: to the nearest multiple of a millionth, ties to the even one.\<close>

definition round_half_even :: "real \<Rightarrow> int" where
  "round_half_even x = (let f = \<lfloor>x\<rfloor>; d = x - of_int f in
     if d < 1 / 2 then f else if d > 1 / 2 then f + 1 else if even f then f else f + 1)"

lemma round_half_even_nonneg: "0 \<le> x \<Longrightarrow> 0 \<le> round_half_even x"
  by (auto simp: round_half_even_def Let_def)

definition round6 :: "real \<Rightarrow> real" where
  "round6 x = of_int (round_half_even (x * 10 ^ 6)) / 10 ^ 6"

text \<open>\<open>u\<close> is what \<open>random.random()\<close> returns, between 0 (included) and 1 (excluded).\<close>

definition compute_recurring_jitter_seconds :: "real \<Rightarrow> real \<Rightarrow> real" where
  "compute_recurring_jitter_seconds u interval =
     (if interval \<le> 0 then 0
      else let m = min (interval * (5 / 100)) 120 in
        if m \<le> 0 then 0 else round6 (u * m))"

text \<open>\<open>isinstance(x, (int, float)) and not isinstance(x, bool)\<close>, with \<open>float(x)\<close>.\<close>

fun number_field :: "json option \<Rightarrow> real option" where
  "number_field (Some (JInt i)) = Some (of_int i)"
| "number_field (Some (JFloat r)) = Some r"
| "number_field _ = None"

definition read_recurring_jitter_seconds :: "dict option \<Rightarrow> real option" where
  "read_recurring_jitter_seconds data = (case data of
       None \<Rightarrow> None
     | Some d \<Rightarrow> map_option (\<lambda>r. max r 0) (number_field (dict_get d ''jitter_seconds'')))"

section \<open>Idle state\<close>

record idle_state =
  last_thought_at :: "time option"
  idle_seconds :: "time option"

definition build_global_idle_state :: "time \<Rightarrow> journal \<Rightarrow> time option \<Rightarrow> idle_state" where
  "build_global_idle_state clk j now =
     (let current = now_or now clk;
          last = get_latest_thought_timestamp AnyWs j
      in \<lparr>last_thought_at = last, idle_seconds = map_option (\<lambda>t. max (current - t) 0) last\<rparr>)"

definition AUTONOMOUS_MAINTENANCE_TRIGGERS :: "string set" where
  "AUTONOMOUS_MAINTENANCE_TRIGGERS = {''recurring_schedule'', ''recurring_follow_up''}"

text \<open>\<open>value in {...}\<close> on a set of strings: a list or a dictionary cannot be hashed.\<close>

fun trigger_is_autonomous :: "json option \<Rightarrow> bool res" where
  "trigger_is_autonomous (Some (JStr s)) = Inr (s \<in> AUTONOMOUS_MAINTENANCE_TRIGGERS)"
| "trigger_is_autonomous (Some (JList _)) = Inl (TypeError ''unhashable type: list'')"
| "trigger_is_autonomous (Some (JObj _)) = Inl (TypeError ''unhashable type: dict'')"
| "trigger_is_autonomous _ = Inr False"

definition is_autonomous_recurring_data :: "dict \<Rightarrow> bool res" where
  "is_autonomous_recurring_data d = trigger_is_autonomous (dict_get d ''trigger'')"

definition should_pause_autonomous_recurring_maintenance ::
  "time \<Rightarrow> task \<Rightarrow> journal \<Rightarrow> time option \<Rightarrow> idle_state option res" where
  "should_pause_autonomous_recurring_maintenance clk t j now =
     (if t_name t \<notin> set AUTONOMOUS_RECURRING_MAINTENANCE_TASK_NAMES then Inr None
      else bind_res (is_autonomous_recurring_data (t_data t)) (\<lambda>autonomous.
        if \<not> autonomous then Inr None
        else let st = build_global_idle_state clk j now in
          case last_thought_at st of
            None \<Rightarrow> Inr (Some st)
          | Some _ \<Rightarrow>
              (case idle_seconds st of
                 Some s \<Rightarrow> if s \<ge> AUTONOMOUS_MAINTENANCE_IDLE_THRESHOLD_SECONDS then Inr (Some st) else Inr None
               | None \<Rightarrow> Inr None)))"

definition opt_json_float :: "real option \<Rightarrow> json" where
  "opt_json_float r = (case r of None \<Rightarrow> JNull | Some x \<Rightarrow> JFloat x)"

definition build_idle_pause_result :: "task \<Rightarrow> idle_state \<Rightarrow> dict" where
  "build_idle_pause_result t st =
     [(''paused_for_idle'', JBool True),
      (''idle_seconds'', opt_json_float (idle_seconds st)),
      (''last_thought_at'', opt_json_float (last_thought_at st)),
      (''idle_threshold_seconds'', JFloat AUTONOMOUS_MAINTENANCE_IDLE_THRESHOLD_SECONDS),
      (''task_priority'', JInt (t_priority t)),
      (''interval_seconds'', opt_json_float (number_field (dict_get (t_data t) ''interval_seconds'')))]"

text \<open>A comparison of a time stamp with a stored value; a Boolean counts as a number here.\<close>

definition timestamps_match :: "time option \<Rightarrow> json option \<Rightarrow> bool" where
  "timestamps_match left right =
     (let missing = (right = None \<or> right = Some JNull) in
      case left of
        None \<Rightarrow> missing
      | Some l \<Rightarrow>
          if missing then False
          else (case py_num (the right) of None \<Rightarrow> False | Some r \<Rightarrow> \<bar>l - r\<bar> \<le> 1 / 10 ^ 6))"

definition should_preserve_idle_pause ::
  "time \<Rightarrow> task_run_summary \<Rightarrow> journal \<Rightarrow> time option \<Rightarrow> bool" where
  "should_preserve_idle_pause clk s j now =
     (if s_last_status s \<noteq> Some ''completed'' then False
      else if \<not> py_bool (dict_get (s_last_result s) ''paused_for_idle'') then False
      else let st = build_global_idle_state clk j now in
        if \<not> timestamps_match (last_thought_at st) (dict_get (s_last_result s) ''last_thought_at'') then False
        else case last_thought_at st of
               None \<Rightarrow> True
             | Some _ \<Rightarrow> (case idle_seconds st of
                 None \<Rightarrow> False
               | Some x \<Rightarrow> x \<ge> AUTONOMOUS_MAINTENANCE_IDLE_THRESHOLD_SECONDS))"

section \<open>Resuming\<close>

definition task_priority_from_result :: "dict \<Rightarrow> int \<Rightarrow> int" where
  "task_priority_from_result result dflt = (case dict_get result ''task_priority'' of
       Some (JInt i) \<Rightarrow> i
     | Some (JFloat r) \<Rightarrow> py_int_of_float r
     | _ \<Rightarrow> dflt)"

definition interval_seconds_from_result :: "string \<Rightarrow> dict \<Rightarrow> real res" where
  "interval_seconds_from_result name result =
     (case number_field (dict_get result ''interval_seconds'') of
        Some r \<Rightarrow> Inr r
      | None \<Rightarrow> (case AUTONOMOUS_RECURRING_TASK_INTERVAL_SECONDS name of
          Some r \<Rightarrow> Inr r
        | None \<Rightarrow> (case RECURRING_TASK_INTERVAL_SECONDS name of
            Some r \<Rightarrow> Inr r
          | None \<Rightarrow> Inl (KeyError name))))"

definition build_resumed_task_data :: "string \<Rightarrow> dict \<Rightarrow> real \<Rightarrow> dict res" where
  "build_resumed_task_data name result jitter =
     (let base = [(''workspace_id'', JNull), (''trigger'', JStr ''recurring_resume''),
                  (''jitter_seconds'', JFloat jitter)]
      in case number_field (dict_get result ''interval_seconds'') of
           Some r \<Rightarrow> Inr (base @ [(''interval_seconds'', JFloat r)])
         | None \<Rightarrow>
             if name \<in> set AUTONOMOUS_RECURRING_MAINTENANCE_TASK_NAMES
             then bind_res (interval_seconds_from_result name result)
                    (\<lambda>r. Inr (base @ [(''interval_seconds'', JFloat r)]))
             else Inr base)"

text \<open>The rest of the queue port that maintenance calls.\<close>

record 's maintenance_port = "'s queue_port" +
  q_find_open :: "string \<Rightarrow> string option \<Rightarrow> 's \<Rightarrow> task option"
  q_list_open_any :: "(string \<Rightarrow> 's \<Rightarrow> task list) option"
  q_summarize :: "string list \<Rightarrow> string option \<Rightarrow> 's \<Rightarrow> task_run_summary list"
  q_request_cancel :: "string \<Rightarrow> string \<Rightarrow> string \<Rightarrow> time option \<Rightarrow> 's \<Rightarrow> task res \<times> 's"
  q_finalize_cancellation :: "string \<Rightarrow> time option \<Rightarrow> 's \<Rightarrow> task res \<times> 's"
  q_extend_objects :: "string \<Rightarrow> string \<Rightarrow> json list \<Rightarrow> 's \<Rightarrow> task res \<times> 's"

text \<open>The data and the jitter of a resumed task.\<close>

definition resumed_arguments :: "(string \<Rightarrow> real) \<Rightarrow> string \<Rightarrow> dict \<Rightarrow> (dict \<times> real) res" where
  "resumed_arguments u name prev =
     bind_res (interval_seconds_from_result name prev) (\<lambda>interval.
       let jitter = compute_recurring_jitter_seconds (u name) interval
       in bind_res (build_resumed_task_data name prev jitter) (\<lambda>data. Inr (data, jitter)))"

text \<open>One turn of the loop: the resumed task, if any, or the exception.\<close>

definition resume_one ::
  "'s maintenance_port \<Rightarrow> (string \<Rightarrow> real) \<Rightarrow> time \<Rightarrow> string \<Rightarrow> 's \<Rightarrow> task option res \<times> 's" where
  "resume_one q u current name s =
     (let prev = s_last_result (hd (q_summarize q [name] None s)) in
      if \<not> py_bool (dict_get prev ''paused_for_idle'') then (Inr None, s)
      else (case q_find_open q name None s of
              Some t \<Rightarrow>
                if t_status t \<noteq> Pending then (Inr None, s)
                else (case is_autonomous_recurring_data (t_data t) of
                        Inl e \<Rightarrow> (Inl e, s)
                      | Inr False \<Rightarrow> (Inr None, s)
                      | Inr True \<Rightarrow>
                          (case resumed_arguments u name prev of
                             Inl e \<Rightarrow> (Inl e, s)
                           | Inr (data, jitter) \<Rightarrow>
                               (case q_update_pending q (t_id t) (Some data) (Some (current + jitter))
                                       (Some (task_priority_from_result prev (t_priority t))) s of
                                  (Inl e, s') \<Rightarrow> (Inl e, s')
                                | (Inr t', s') \<Rightarrow> (Inr (Some t'), s'))))
            | None \<Rightarrow>
                (case resumed_arguments u name prev of
                   Inl e \<Rightarrow> (Inl e, s)
                 | Inr (data, jitter) \<Rightarrow>
                     (case q_enqueue_unique q name None data (task_priority_from_result prev 100)
                             (Some (current + jitter)) s of
                        (Inl e, s') \<Rightarrow> (Inl e, s')
                      | (Inr (t', created), s') \<Rightarrow> (Inr (Some t'), s')))))"

fun resume_loop ::
  "'s maintenance_port \<Rightarrow> (string \<Rightarrow> real) \<Rightarrow> time \<Rightarrow> string list \<Rightarrow> task list \<Rightarrow> 's \<Rightarrow> task list res \<times> 's" where
  "resume_loop q u current [] resumed s = (Inr resumed, s)"
| "resume_loop q u current (name # names) resumed s =
     (case resume_one q u current name s of
        (Inl e, s') \<Rightarrow> (Inl e, s')
      | (Inr None, s') \<Rightarrow> resume_loop q u current names resumed s'
      | (Inr (Some t), s') \<Rightarrow> resume_loop q u current names (resumed @ [t]) s')"

definition resume_paused_recurring_maintenance ::
  "'s maintenance_port \<Rightarrow> (string \<Rightarrow> real) \<Rightarrow> time \<Rightarrow> time option \<Rightarrow> 's \<Rightarrow> task list res \<times> 's" where
  "resume_paused_recurring_maintenance q u clk now s =
     resume_loop q u (now_or now clk) AUTONOMOUS_RECURRING_MAINTENANCE_TASK_NAMES [] s"

section \<open>Draining retired families\<close>

definition LEGACY_CLEANUP_TASK_NAMES :: "string list" where
  "LEGACY_CLEANUP_TASK_NAMES = [PROJECT_MANAGER_TASK_NAME, FACT_CHECKER_TASK_NAME, GRAPH_LINKER_TASK_NAME,
     CONFLICT_DETECTOR_TASK_NAME, DEFRAGMENTER_TASK_NAME, DEDUPLICATOR_TASK_NAME, TAXONOMIST_TASK_NAME]"

abbreviation "LEGACY_CLEANUP_MIGRATION_TRIGGER \<equiv> ''legacy_cleanup_migration''"
abbreviation "LEGACY_CLEANUP_MIGRATION_REASON \<equiv> ''legacy_cleanup_task_migrated_to_memory_curator''"

definition list_open_legacy_cleanup_tasks :: "'s maintenance_port \<Rightarrow> string \<Rightarrow> 's \<Rightarrow> task list" where
  "list_open_legacy_cleanup_tasks q name s = (case q_list_open_any q of
       Some helper \<Rightarrow> helper name s
     | None \<Rightarrow> (case q_find_open_any q name s of None \<Rightarrow> [] | Some t \<Rightarrow> [t]))"

definition cancel_legacy_cleanup_task :: "'s maintenance_port \<Rightarrow> time \<Rightarrow> task \<Rightarrow> 's \<Rightarrow> task res \<times> 's" where
  "cancel_legacy_cleanup_task q drained_at t s =
     (case q_request_cancel q (t_id t) ''system'' LEGACY_CLEANUP_MIGRATION_REASON (Some drained_at) s of
        (Inl e, s') \<Rightarrow> (Inl e, s')
      | (Inr t', s') \<Rightarrow>
          if t_status t' = Running then q_finalize_cancellation q (t_id t') (Some drained_at) s'
          else (Inr t', s'))"

definition legacy_cleanup_migration_source :: "time \<Rightarrow> task \<Rightarrow> json" where
  "legacy_cleanup_migration_source drained_at t = JObj
     [(''task_id'', JStr (t_id t)), (''task_name'', JStr (t_name t)),
      (''status'', JStr (status_name (t_status t))), (''drained_at'', JFloat drained_at),
      (''migration_reason'', JStr LEGACY_CLEANUP_MIGRATION_REASON)]"

definition dict_setdefault :: "string \<Rightarrow> json \<Rightarrow> dict \<Rightarrow> dict" where
  "dict_setdefault k v d = (case dict_get d k of None \<Rightarrow> dict_set k v d | Some _ \<Rightarrow> d)"

text \<open>\<open>list(v)\<close> on a stored value: a string gives its characters and a dictionary its keys.\<close>

fun py_list :: "json \<Rightarrow> json list res" where
  "py_list (JList vs) = Inr vs"
| "py_list (JStr s) = Inr (map (\<lambda>c. JStr [c]) s)"
| "py_list (JObj kvs) = Inr (map (\<lambda>kv. JStr (fst kv)) kvs)"
| "py_list _ = Inl (TypeError ''object is not iterable'')"

definition merge_memory_curator_migration_sources ::
  "'s maintenance_port \<Rightarrow> task \<Rightarrow> json list \<Rightarrow> 's \<Rightarrow> task res \<times> 's" where
  "merge_memory_curator_migration_sources q t sources s =
     (case t_status t of
        Pending \<Rightarrow>
          (case py_list (case dict_get (t_data t) ''migration_sources'' of None \<Rightarrow> JList [] | Some v \<Rightarrow> v) of
             Inl e \<Rightarrow> (Inl e, s)
           | Inr existing \<Rightarrow>
               let d1 = dict_set ''migration_sources'' (JList (existing @ sources)) (t_data t);
                   d2 = dict_setdefault ''workspace_id'' JNull d1;
                   d3 = dict_setdefault ''migration_reason'' (JStr LEGACY_CLEANUP_MIGRATION_REASON) d2;
                   d4 = dict_setdefault ''trigger'' (JStr LEGACY_CLEANUP_MIGRATION_TRIGGER) d3
               in q_update_pending q (t_id t) (Some d4) None None s)
      | Running \<Rightarrow> q_extend_objects q (t_id t) ''migration_sources'' sources s
      | _ \<Rightarrow> (Inr t, s))"

definition ensure_memory_curator_migration_task ::
  "'s maintenance_port \<Rightarrow> json list \<Rightarrow> time \<Rightarrow> 's \<Rightarrow> task res \<times> 's" where
  "ensure_memory_curator_migration_task q sources drained_at s =
     (case q_find_open q CURATOR_TASK_NAME None s of
        Some t \<Rightarrow> merge_memory_curator_migration_sources q t sources s
      | None \<Rightarrow>
          (case q_enqueue_unique q CURATOR_TASK_NAME None
                  [(''workspace_id'', JNull), (''trigger'', JStr LEGACY_CLEANUP_MIGRATION_TRIGGER),
                   (''migration_reason'', JStr LEGACY_CLEANUP_MIGRATION_REASON),
                   (''migration_sources'', JList sources)]
                  (task_priority CURATOR_TASK_NAME) (Some drained_at) s of
             (Inl e, s') \<Rightarrow> (Inl e, s')
           | (Inr (t, created), s') \<Rightarrow>
               if created then (Inr t, s') else merge_memory_curator_migration_sources q t sources s'))"

fun drain_tasks ::
  "'s maintenance_port \<Rightarrow> time \<Rightarrow> task list \<Rightarrow> task list \<Rightarrow> 's \<Rightarrow> task list res \<times> 's" where
  "drain_tasks q at_time [] drained s = (Inr drained, s)"
| "drain_tasks q at_time (t # ts) drained s =
     (case cancel_legacy_cleanup_task q at_time t s of
        (Inl e, s') \<Rightarrow> (Inl e, s')
      | (Inr t', s') \<Rightarrow> drain_tasks q at_time ts (drained @ [t']) s')"

fun drain_names ::
  "'s maintenance_port \<Rightarrow> time \<Rightarrow> string list \<Rightarrow> task list \<Rightarrow> 's \<Rightarrow> task list res \<times> 's" where
  "drain_names q at_time [] drained s = (Inr drained, s)"
| "drain_names q at_time (name # names) drained s =
     (case drain_tasks q at_time (list_open_legacy_cleanup_tasks q name s) drained s of
        (Inl e, s') \<Rightarrow> (Inl e, s')
      | (Inr drained', s') \<Rightarrow> drain_names q at_time names drained' s')"

definition drain_legacy_cleanup_tasks ::
  "'s maintenance_port \<Rightarrow> time \<Rightarrow> time option \<Rightarrow> 's \<Rightarrow> task list res \<times> 's" where
  "drain_legacy_cleanup_tasks q clk now s =
     (let drained_at = now_or now clk in
      case drain_names q drained_at LEGACY_CLEANUP_TASK_NAMES [] s of
        (Inl e, s') \<Rightarrow> (Inl e, s')
      | (Inr drained, s') \<Rightarrow>
          if drained = [] then (Inr drained, s')
          else (case ensure_memory_curator_migration_task q
                       (map (legacy_cleanup_migration_source drained_at) drained) drained_at s' of
                  (Inl e, s'') \<Rightarrow> (Inl e, s'')
                | (Inr _, s'') \<Rightarrow> (Inr drained, s'')))"

text \<open>The SQLite queue behind the port; \<open>rid\<close> gives the run identifiers.\<close>

definition sqlite_maintenance_port ::
  "(string \<Rightarrow> string) \<Rightarrow> (string \<Rightarrow> string) \<Rightarrow> time \<Rightarrow> taskdb maintenance_port" where
  "sqlite_maintenance_port uuid rid clk = queue_port.extend (sqlite_queue_port uuid clk)
     \<lparr>q_find_open = find_open_task,
      q_list_open_any = Some list_open_tasks_any_workspace,
      q_summarize = summarize_task_runs,
      q_request_cancel = (\<lambda>tid by reason at_time. request_cancel (rid tid) clk tid by reason at_time),
      q_finalize_cancellation = (\<lambda>tid at_time. finalize_cancellation (rid tid) clk tid at_time None),
      q_extend_objects = extend_running_task_data_object_list clk\<rparr>"

end
