(* ===== verification/MaintenanceIdleProps.thy ===== *)
theory MaintenanceIdleProps
  imports MaintenanceIdle SchedulingProps TaskQueueRecovery
begin

text \<open>The properties of idle-aware maintenance: jitter, pauses, and the drain of retired families.\<close>

section \<open>Jitter\<close>

lemma round_half_even_bounds:
  "real_of_int (round_half_even x) \<le> x + 1 / 2" "x - 1 / 2 \<le> real_of_int (round_half_even x)"
proof -
  define f where "f = \<lfloor>x\<rfloor>"
  have "of_int f \<le> x" "x < of_int f + 1" by (simp_all add: f_def)
  then show "real_of_int (round_half_even x) \<le> x + 1 / 2" "x - 1 / 2 \<le> real_of_int (round_half_even x)"
    unfolding round_half_even_def f_def [symmetric] Let_def by (auto simp: field_simps)
qed

lemma round_half_even_le: "x \<le> of_int n \<Longrightarrow> round_half_even x \<le> n"
proof -
  assume le: "x \<le> of_int n"
  then have floor: "\<lfloor>x\<rfloor> \<le> n" by (simp add: floor_le_iff)
  show ?thesis
  proof (cases "\<lfloor>x\<rfloor> = n")
    case True
    with le have "x - of_int \<lfloor>x\<rfloor> \<le> 0" by simp
    with True show ?thesis by (simp add: round_half_even_def Let_def)
  next
    case False
    with floor show ?thesis by (auto simp: round_half_even_def Let_def)
  qed
qed

text \<open>The jitter of a recurring task is not negative, at most two minutes, and at most five
  percent of its interval (up to half a microsecond of rounding); without an interval there is
  none.\<close>

lemma jitter_bounds:
  assumes "0 \<le> u" and "u < 1"
  shows "0 \<le> compute_recurring_jitter_seconds u interval
    \<and> compute_recurring_jitter_seconds u interval \<le> 120
    \<and> compute_recurring_jitter_seconds u interval \<le> max 0 (interval / 20) + 1 / (2 * 10 ^ 6)
    \<and> (interval \<le> 0 \<longrightarrow> compute_recurring_jitter_seconds u interval = 0)"
proof (cases "interval \<le> 0")
  case True
  then show ?thesis by (simp add: compute_recurring_jitter_seconds_def)
next
  case False
  define m where "m = min (interval * (5 / 100)) 120"
  have m: "0 < m" "m \<le> interval / 20" "m \<le> 120" using False by (simp_all add: m_def)
  have jitter: "compute_recurring_jitter_seconds u interval = of_int (round_half_even (u * m * 10 ^ 6)) / 10 ^ 6"
    using m(1) unfolding compute_recurring_jitter_seconds_def round6_def Let_def m_def [symmetric]
    by (simp only: False if_False not_le [symmetric])
  have um: "0 \<le> u * m" "u * m \<le> m" using assms m(1) by (simp_all add: mult_left_le_one_le)
  have "u * m \<le> 120" using um(2) m(3) by linarith
  then have "u * m * 10 ^ 6 \<le> of_int 120000000" by (simp add: mult.commute)
  then have "round_half_even (u * m * 10 ^ 6) \<le> 120000000" by (rule round_half_even_le)
  then have "real_of_int (round_half_even (u * m * 10 ^ 6)) \<le> of_int 120000000" by (simp only: of_int_le_iff)
  moreover have "0 \<le> round_half_even (u * m * 10 ^ 6)" using um(1) by (intro round_half_even_nonneg) simp
  moreover have "real_of_int (round_half_even (u * m * 10 ^ 6)) \<le> interval / 20 * 10 ^ 6 + 1 / 2"
    using round_half_even_bounds(1) [of "u * m * 10 ^ 6"] um(2) m(2) by simp
  ultimately show ?thesis unfolding jitter using False by (simp add: field_simps)
qed

theorem jitter_bounds_witness:
  "0 \<le> compute_recurring_jitter_seconds (1 / 2) 1800 \<and> compute_recurring_jitter_seconds (1 / 2) 1800 \<le> 120"
  using jitter_bounds [of "1 / 2" 1800] by simp

section \<open>Pauses\<close>

lemma pause_result_keys: "distinct (map fst (build_idle_pause_result t st))"
  by (simp add: build_idle_pause_result_def)

lemma pause_result_get:
  "dict_get (dict_sort (build_idle_pause_result t st)) ''paused_for_idle'' = Some (JBool True)"
  "dict_get (dict_sort (build_idle_pause_result t st)) ''last_thought_at'' = Some (opt_json_float (last_thought_at st))"
  unfolding dict_get_sort [OF pause_result_keys]
  by (simp_all add: build_idle_pause_result_def dict_get_def opt_json_float_def split: option.split)

text \<open>An idle pause is sound and stable: a task is paused only if it is an autonomous recurring
  one and no thought came for an hour (or ever); and the pause recorded for it, read back as the
  last run, is kept at every later time as long as the latest thought is the same, and given up
  once the latest thought is another, a microsecond or more apart.\<close>

lemma idle_pause_kept_until_a_thought:
  assumes pause: "should_pause_autonomous_recurring_maintenance clk t j (Some now) = Inr (Some st)"
    and later: "now \<le> now'"
    and last: "s_last_status s = Some ''completed''" "s_last_result s = dict_sort (build_idle_pause_result t st)"
  shows "t_name t \<in> {''sweeper'', ''memory-curator''}
    \<and> (case get_latest_thought_timestamp AnyWs j of None \<Rightarrow> True | Some x \<Rightarrow> now - x \<ge> 3600)
    \<and> should_preserve_idle_pause clk' s j (Some now')
    \<and> (case (get_latest_thought_timestamp AnyWs j, get_latest_thought_timestamp AnyWs j') of
         (None, Some y) \<Rightarrow> \<not> should_preserve_idle_pause clk' s j' (Some now')
       | (Some x, Some y) \<Rightarrow> \<bar>y - x\<bar> > 1 / 10 ^ 6 \<longrightarrow> \<not> should_preserve_idle_pause clk' s j' (Some now')
       | _ \<Rightarrow> True)"
proof -
  have name: "t_name t \<in> set AUTONOMOUS_RECURRING_MAINTENANCE_TASK_NAMES"
    using pause by (auto simp: should_pause_autonomous_recurring_maintenance_def split: if_splits)
  from pause name obtain auto where "is_autonomous_recurring_data (t_data t) = Inr auto" "auto"
    by (cases "is_autonomous_recurring_data (t_data t)")
      (auto simp: should_pause_autonomous_recurring_maintenance_def split: if_splits)
  with pause name have st: "st = build_global_idle_state clk j (Some now)"
    and idle: "case get_latest_thought_timestamp AnyWs j of None \<Rightarrow> True | Some x \<Rightarrow> now - x \<ge> 3600"
    by (auto simp: should_pause_autonomous_recurring_maintenance_def build_global_idle_state_def now_or_def
        Let_def split: option.splits if_splits)
  have thought: "last_thought_at st = get_latest_thought_timestamp AnyWs j"
    by (simp add: st build_global_idle_state_def Let_def)
  have keep: "should_preserve_idle_pause clk' s j (Some now')"
    using idle later last pause_result_get [of t st]
    by (auto simp: should_preserve_idle_pause_def build_global_idle_state_def timestamps_match_def thought
        opt_json_float_def now_or_def Let_def split: option.splits)
  have drop: "\<not> should_preserve_idle_pause clk' s j' (Some now')"
    if "get_latest_thought_timestamp AnyWs j' = Some y"
      "case get_latest_thought_timestamp AnyWs j of None \<Rightarrow> True | Some x \<Rightarrow> \<bar>y - x\<bar> > 1 / 10 ^ 6" for y
    using that last pause_result_get [of t st]
    by (auto simp: should_preserve_idle_pause_def build_global_idle_state_def timestamps_match_def thought
        opt_json_float_def now_or_def Let_def split: option.splits)
  show ?thesis
    using name idle keep drop
    by (auto simp: AUTONOMOUS_RECURRING_MAINTENANCE_TASK_NAMES_def split: option.split)
qed

theorem idle_pause_kept_until_a_thought_witness:
  "\<exists>st. should_preserve_idle_pause 9 ((empty_summary ''sweeper'')\<lparr>s_last_status := Some ''completed'',
      s_last_result := dict_sort (build_idle_pause_result (demo_task\<lparr>t_data := [(''trigger'', JStr ''recurring_schedule'')]\<rparr>) st)\<rparr>)
      one_thought (Some 5000)"
proof -
  let ?t = "demo_task\<lparr>t_data := [(''trigger'', JStr ''recurring_schedule'')]\<rparr>"
  have latest: "get_latest_thought_timestamp AnyWs one_thought = Some 10"
    by (simp add: one_thought_def record_with_timestamp_def empty_journal_def blank_def py_strip_def
        py_isspace_def now_or_def Let_def get_latest_thought_timestamp_def)
  have pause: "should_pause_autonomous_recurring_maintenance 9 ?t one_thought (Some 4000) =
      Inr (Some (build_global_idle_state 9 one_thought (Some 4000)))"
    by (simp add: should_pause_autonomous_recurring_maintenance_def demo_task_def
        AUTONOMOUS_RECURRING_MAINTENANCE_TASK_NAMES_def is_autonomous_recurring_data_def dict_get_def
        AUTONOMOUS_MAINTENANCE_TRIGGERS_def build_global_idle_state_def latest now_or_def Let_def)
  let ?s = "(empty_summary ''sweeper'')\<lparr>s_last_status := Some ''completed'', s_last_result :=
    dict_sort (build_idle_pause_result ?t (build_global_idle_state 9 one_thought (Some 4000)))\<rparr>"
  have "should_preserve_idle_pause 9 ?s one_thought (Some 5000)"
    using idle_pause_kept_until_a_thought [OF pause, of 5000 ?s] by simp
  then show ?thesis by blast
qed

end
