(* ===== verification/LegacyDrain.thy ===== *)
theory LegacyDrain
  imports MaintenanceIdleProps
begin

text \<open>
  Draining the retired cleanup families (\<open>drain_legacy_cleanup_tasks\<close>) over the SQLite queue: every
  open task of these families is cancelled, and the curator task that takes over carries a record
  of each.
\<close>

section \<open>One task\<close>

definition pending_cancelled :: "time \<Rightarrow> task \<Rightarrow> task" where
  "pending_cancelled at_time t = t\<lparr>t_status := Cancelled, t_updated_at := at_time,
     t_completed_at := Some at_time, t_cancelled_at := Some at_time,
     t_cancel_reason := Some LEGACY_CLEANUP_MIGRATION_REASON, t_cancelled_by := Some ''system'',
     t_last_error := Some LEGACY_CLEANUP_MIGRATION_REASON, t_pid := None, t_request_id := None\<rparr>"

definition cancel_marked :: "time \<Rightarrow> task \<Rightarrow> task" where
  "cancel_marked at_time t = t\<lparr>t_updated_at := at_time,
     t_cancel_requested_at := (case t_cancel_requested_at t of None \<Rightarrow> Some at_time | Some c \<Rightarrow> Some c),
     t_cancel_reason := Some LEGACY_CLEANUP_MIGRATION_REASON, t_cancelled_by := Some ''system''\<rparr>"

definition drained_row :: "time \<Rightarrow> task \<Rightarrow> task" where
  "drained_row at_time t = (if t_status t = Pending then pending_cancelled at_time t
     else finalize_update at_time LEGACY_CLEANUP_MIGRATION_REASON (cancel_marked at_time t))"

lemma drained_row_simps [simp]:
  "t_id (drained_row a t) = t_id t" "t_name (drained_row a t) = t_name t"
  "t_status (drained_row a t) = Cancelled" "t_workspace (drained_row a t) = t_workspace t"
  "t_cancel_reason (drained_row a t) = Some LEGACY_CLEANUP_MIGRATION_REASON"
  by (simp_all add: drained_row_def pending_cancelled_def cancel_marked_def finalize_update_def)

lemma keyed_status_update:
  assumes ok: "db_ok db" and row: "t \<in> set (tasks db)" and ids: "\<And>s. t_id (f s) = t_id s"
  shows "rowcount (\<lambda>s. t_id s = t_id t \<and> t_status s = t_status t) (tasks db) = 1"
    and "update_where (\<lambda>s. t_id s = t_id t \<and> t_status s = t_status t) f (tasks db) =
      map (\<lambda>s. if s = t then f t else s) (tasks db)"
    and "get_task (t_id t) (db\<lparr>tasks := map (\<lambda>s. if s = t then f t else s) (tasks db), task_runs := rs\<rparr>) = Inr (f t)"
proof -
  let ?p = "\<lambda>s. t_id s = t_id t \<and> t_status s = t_status t"
  note dist = db_okD(1) [OF ok]
  show "rowcount ?p (tasks db) = 1" using dist row by (intro rowcount_key [where k = t_id]) auto
  show upd: "update_where ?p f (tasks db) = map (\<lambda>s. if s = t then f t else s) (tasks db)"
    using row by (intro update_where_key_map [OF ok row]) simp_all
  show "get_task (t_id t) (db\<lparr>tasks := map (\<lambda>s. if s = t then f t else s) (tasks db), task_runs := rs\<rparr>) = Inr (f t)"
    using keyed_update(3) [OF dist row, of ?p f] ids unfolding upd by (simp add: get_task_def)
qed

lemma request_cancel_pending:
  assumes ok: "db_ok db" and row: "t \<in> set (tasks db)" "t_status t = Pending"
  shows "\<exists>db'. request_cancel rid clk (t_id t) ''system'' LEGACY_CLEANUP_MIGRATION_REASON (Some a) db =
      (Inr (pending_cancelled a t), db')
    \<and> tasks db' = map (\<lambda>s. if s = t then pending_cancelled a t else s) (tasks db)"
proof -
  note upd = keyed_status_update [where f = "pending_cancelled a", OF ok row(1), unfolded row(2)]
  have ids: "t_id (pending_cancelled a s) = t_id s" for s by (simp add: pending_cancelled_def)
  have found: "List.find (\<lambda>s. t_id s = t_id t) (tasks db) = Some t"
    using db_okD(1) [OF ok] row(1) by (intro find_key [where k = t_id]) auto
  show ?thesis
    using upd(1,2) [OF ids] upd(3) [OF ids]
    by (simp add: request_cancel_def found row(2) now_or_def Let_def pending_cancelled_def [symmetric])
qed

lemma request_cancel_running:
  assumes ok: "db_ok db" and row: "t \<in> set (tasks db)" "t_status t = Running"
  shows "request_cancel rid clk (t_id t) ''system'' LEGACY_CLEANUP_MIGRATION_REASON (Some a) db =
    (Inr (cancel_marked a t), db\<lparr>tasks := map (\<lambda>s. if s = t then cancel_marked a t else s) (tasks db)\<rparr>)"
proof -
  note upd = keyed_status_update [where f = "cancel_marked a", OF ok row(1), unfolded row(2)]
  have ids: "t_id (cancel_marked a s) = t_id s" for s by (simp add: cancel_marked_def)
  have found: "List.find (\<lambda>s. t_id s = t_id t) (tasks db) = Some t"
    using db_okD(1) [OF ok] row(1) by (intro find_key [where k = t_id]) auto
  show ?thesis
    using upd(1,2) [OF ids] upd(3) [OF ids, of "task_runs db"]
    by (simp add: request_cancel_def found row(2) now_or_def Let_def cancel_marked_def [symmetric])
qed

lemma cancel_legacy_row:
  assumes ok: "db_ok db" and row: "t \<in> set (tasks db)" "is_open t"
  shows "\<exists>db'. cancel_legacy_cleanup_task (sqlite_maintenance_port uuid rid clk) a t db = (Inr (drained_row a t), db')
    \<and> tasks db' = map (\<lambda>s. if s = t then drained_row a t else s) (tasks db) \<and> db_ok db'"
proof -
  let ?q = "sqlite_maintenance_port uuid rid clk"
  note port = sqlite_maintenance_port_def queue_port.extend_def
  note dist = db_okD(1) [OF ok]
  show ?thesis
  proof (cases "t_status t = Pending")
    case True
    obtain db' where req: "request_cancel (rid (t_id t)) clk (t_id t) ''system'' LEGACY_CLEANUP_MIGRATION_REASON (Some a) db =
        (Inr (pending_cancelled a t), db')" "tasks db' = map (\<lambda>s. if s = t then pending_cancelled a t else s) (tasks db)"
      using request_cancel_pending [OF ok row(1) True] by blast
    have "db_ok db'"
      using db_move_ok [OF request_cancel_move [OF dist, of "rid (t_id t)" clk "t_id t" "''system''"
          LEGACY_CLEANUP_MIGRATION_REASON "Some a"] ok]
      unfolding req(1) snd_conv .
    with req True show ?thesis
      by (simp add: cancel_legacy_cleanup_task_def port drained_row_def pending_cancelled_def)
  next
    case False
    with row(2) have run: "t_status t = Running" by (auto simp: is_open_def)
    let ?t = "cancel_marked a t"
    let ?db = "db\<lparr>tasks := map (\<lambda>s. if s = t then ?t else s) (tasks db)\<rparr>"
    note req = request_cancel_running [OF ok row(1) run, of "rid (t_id t)" clk a]
    have ok1: "db_ok ?db"
      using db_move_ok [OF request_cancel_move [OF dist, of "rid (t_id t)" clk "t_id t" "''system''"
          LEGACY_CLEANUP_MIGRATION_REASON "Some a"] ok]
      unfolding req snd_conv .
    have t1: "?t \<in> set (tasks ?db)" "t_status ?t = Running" "t_id ?t = t_id t"
      using row(1) run by (auto simp: cancel_marked_def)
    have get: "get_running_task_row (t_id t) None ?db = Some ?t"
      using get_running_task_rowI [OF db_okD(1) [OF ok1] t1(1), of "t_id t" None] t1
      by (simp add: running_guard_def)
    have reason: "str_or (t_cancel_reason ?t) ''cancelled'' = LEGACY_CLEANUP_MIGRATION_REASON"
      by (simp add: cancel_marked_def str_or_def)
    have "\<exists>db'. finalize_cancellation (rid (t_id t)) clk (t_id ?t) (Some a) None ?db =
        (Inr (finalize_update a LEGACY_CLEANUP_MIGRATION_REASON ?t), db')
      \<and> tasks db' = map (\<lambda>s. if s = ?t then finalize_update a LEGACY_CLEANUP_MIGRATION_REASON ?t else s) (tasks ?db)"
      unfolding finalize_cancellation_def get [folded t1(3)] now_or_def option.case Let_def reason
      by (rule recovery_write [OF ok1 t1(1,2)]) (simp add: finalize_update_def)
    then obtain db' where fin: "finalize_cancellation (rid (t_id t)) clk (t_id t) (Some a) None ?db =
        (Inr (finalize_update a LEGACY_CLEANUP_MIGRATION_REASON ?t), db')"
        "tasks db' = map (\<lambda>s. if s = ?t then finalize_update a LEGACY_CLEANUP_MIGRATION_REASON ?t else s) (tasks ?db)"
      unfolding t1(3) by blast
    have "tasks db' = map (\<lambda>s. if s = t then drained_row a t else s) (tasks db)"
      unfolding fin(2) using False same_id_same_row [OF ok _ row(1)] t1(3) by (auto simp: drained_row_def)
    moreover have "db_ok db'"
      using db_move_ok [OF finalize_cancellation_move [OF db_okD(1) [OF ok1], of "rid (t_id t)" clk "t_id t"
          "Some a" None] ok1]
      unfolding fin(1) snd_conv .
    ultimately show ?thesis
      using req fin(1) t1(2,3) False by (simp add: cancel_legacy_cleanup_task_def port drained_row_def)
  qed
qed

section \<open>All tasks\<close>

lemma drain_tasks_rows:
  assumes "db_ok db" and "distinct (map t_id ts)" and "\<forall>t \<in> set ts. t \<in> set (tasks db) \<and> is_open t"
  shows "\<exists>db'. drain_tasks (sqlite_maintenance_port uuid rid clk) a ts acc db = (Inr (acc @ map (drained_row a) ts), db')
    \<and> tasks db' = map (\<lambda>s. if s \<in> set ts then drained_row a s else s) (tasks db) \<and> db_ok db'"
  using assms
proof (induction ts arbitrary: acc db)
  case Nil
  then show ?case by simp
next
  case (Cons t ts)
  have t: "t \<in> set (tasks db)" "is_open t" using Cons.prems(3) by auto
  obtain db1 where step: "cancel_legacy_cleanup_task (sqlite_maintenance_port uuid rid clk) a t db = (Inr (drained_row a t), db1)"
      and tasks1: "tasks db1 = map (\<lambda>s. if s = t then drained_row a t else s) (tasks db)" and ok1: "db_ok db1"
    using cancel_legacy_row [OF Cons.prems(1) t] by blast
  have sep: "s \<noteq> drained_row a t" "s \<noteq> t" if "s \<in> set ts" for s
  proof -
    have "t_id s \<noteq> t_id t" using that Cons.prems(2) by (metis distinct.simps(2) imageI list.set_map list.simps(9))
    then show "s \<noteq> drained_row a t" "s \<noteq> t" by auto
  qed
  have mem: "\<forall>s \<in> set ts. s \<in> set (tasks db1) \<and> is_open s"
    using sep(2) Cons.prems(3) unfolding tasks1 by force
  obtain db' where loop: "drain_tasks (sqlite_maintenance_port uuid rid clk) a ts (acc @ [drained_row a t]) db1 =
        (Inr ((acc @ [drained_row a t]) @ map (drained_row a) ts), db')"
      and tasks': "tasks db' = map (\<lambda>s. if s \<in> set ts then drained_row a s else s) (tasks db1)" and "db_ok db'"
    using Cons.IH [OF ok1 _ mem, of "acc @ [drained_row a t]"] Cons.prems(2) by auto
  have "tasks db' = map (\<lambda>s. if s \<in> set (t # ts) then drained_row a s else s) (tasks db)"
    unfolding tasks' tasks1 using sep by auto
  with loop \<open>db_ok db'\<close> show ?case by (simp add: step)
qed

lemma drain_names_rows:
  assumes "db_ok db" and "distinct names"
  shows "\<exists>ds db'. drain_names (sqlite_maintenance_port uuid rid clk) a names acc db = (Inr (acc @ ds), db')
    \<and> set ds = drained_row a ` {t \<in> set (tasks db). is_open t \<and> t_name t \<in> set names}
    \<and> tasks db' = map (\<lambda>s. if is_open s \<and> t_name s \<in> set names then drained_row a s else s) (tasks db)
    \<and> db_ok db'"
  using assms
proof (induction names arbitrary: acc db)
  case Nil
  then show ?case by simp
next
  case (Cons n names)
  let ?q = "sqlite_maintenance_port uuid rid clk"
  define ts where "ts = list_open_legacy_cleanup_tasks ?q n db"
  have ts: "set ts = {t \<in> set (tasks db). open_named n t}" "distinct (map t_id ts)"
    using set_list_open_any [of n db] db_okD(1) [OF Cons.prems(1)]
    by (simp_all add: ts_def list_open_legacy_cleanup_tasks_def sqlite_maintenance_port_def queue_port.extend_def
        open_tasks_of_def list_open_tasks_any_workspace_def distinct_map order_by_def inj_on_def)
  obtain db1 where step: "drain_tasks ?q a ts acc db = (Inr (acc @ map (drained_row a) ts), db1)"
      and tasks1: "tasks db1 = map (\<lambda>s. if s \<in> set ts then drained_row a s else s) (tasks db)" and ok1: "db_ok db1"
    using drain_tasks_rows [OF Cons.prems(1) ts(2), of uuid rid clk a acc] ts(1) by (auto simp: open_named_def)
  obtain ds db' where loop: "drain_names ?q a names (acc @ map (drained_row a) ts) db1 =
        (Inr ((acc @ map (drained_row a) ts) @ ds), db')"
      and ds: "set ds = drained_row a ` {t \<in> set (tasks db1). is_open t \<and> t_name t \<in> set names}"
      and tasks': "tasks db' = map (\<lambda>s. if is_open s \<and> t_name s \<in> set names then drained_row a s else s) (tasks db1)"
      and "db_ok db'"
    using Cons.IH [OF ok1, of "acc @ map (drained_row a) ts"] Cons.prems(2) by auto
  have closed: "\<not> is_open (drained_row a s)" for s by (simp add: is_open_def)
  have rest: "{t \<in> set (tasks db1). is_open t \<and> t_name t \<in> set names} =
      {t \<in> set (tasks db). is_open t \<and> t_name t \<in> set names}"
    unfolding tasks1 using Cons.prems(2) closed ts(1) by (auto simp: open_named_def)
  have "tasks db' = map (\<lambda>s. if is_open s \<and> t_name s \<in> set (n # names) then drained_row a s else s) (tasks db)"
    unfolding tasks' tasks1 using closed ts(1) by (auto simp: open_named_def)
  moreover have "set (map (drained_row a) ts @ ds) =
      drained_row a ` {t \<in> set (tasks db). is_open t \<and> t_name t \<in> set (n # names)}"
    unfolding set_append set_map ds rest ts(1) by (auto simp: open_named_def)
  ultimately show ?case
    using loop \<open>db_ok db'\<close> by (intro exI [of _ "map (drained_row a) ts @ ds"] exI [of _ db']) (simp add: ts_def [symmetric] step)
qed

section \<open>The curator\<close>

lemma update_pending_data:
  assumes ok: "db_ok db" and row: "t \<in> set (tasks db)" "t_status t = Pending"
  shows "update_pending_task clk (t_id t) (Some d) None None db =
    (Inr (t\<lparr>t_data := dict_sort d, t_updated_at := clk\<rparr>),
     db\<lparr>tasks := map (\<lambda>s. if s = t then t\<lparr>t_data := dict_sort d, t_updated_at := clk\<rparr> else s) (tasks db)\<rparr>)"
proof -
  let ?f = "\<lambda>s. s\<lparr>t_data := dict_sort d, t_available_at := t_available_at t, t_priority := t_priority t, t_updated_at := clk\<rparr>"
  note upd = keyed_status_update [where f = ?f, OF ok row(1), unfolded row(2)]
  have found: "List.find (\<lambda>s. t_id s = t_id t \<and> t_status s = Pending) (tasks db) = Some t"
    using db_okD(1) [OF ok] row by (intro find_key [where k = t_id]) auto
  have "t\<lparr>t_data := x, t_available_at := t_available_at t, t_priority := t_priority t, t_updated_at := clk\<rparr> =
      t\<lparr>t_data := x, t_updated_at := clk\<rparr>" for x by simp
  then show ?thesis
    using upd(1,2) upd(3) [of "task_runs db"] by (simp add: update_pending_task_def found Let_def)
qed

text \<open>What a curator task must be for the sources to be merged: its data is an object, and a list of
  sources it may have is a list.\<close>

definition curator_ok :: "taskdb \<Rightarrow> bool" where
  "curator_ok db = (\<forall>t \<in> open_tasks_of db CURATOR_TASK_NAME. distinct (map fst (t_data t))
     \<and> (case dict_get (t_data t) ''migration_sources'' of None \<Rightarrow> True | Some v \<Rightarrow> (\<exists>vs. v = JList vs)))"

definition carries :: "json list \<Rightarrow> task \<Rightarrow> bool" where
  "carries sources t = (json_sort ` set sources \<subseteq> set (list_field (t_data t) ''migration_sources''))"

lemma json_sort_list_map: "json_sort_list vs = map json_sort vs"
  by (induction vs) simp_all

lemma carries_sorted:
  assumes "distinct (map fst d)" and "dict_get d ''migration_sources'' = Some (JList vs)" and "set sources \<subseteq> set vs"
  shows "carries sources (t\<lparr>t_data := dict_sort d, t_updated_at := clk\<rparr>)"
  using assms(3) by (auto simp: carries_def list_field_def dict_get_sort [OF assms(1)] assms(2) json_sort_list_map)

lemma merge_effect:
  assumes ok: "db_ok db" and row: "t \<in> open_tasks_of db CURATOR_TASK_NAME" and cur: "curator_ok db"
    and objs: "list_all is_object sources" "sources \<noteq> []"
  shows "\<exists>t' db'. merge_memory_curator_migration_sources (sqlite_maintenance_port uuid rid clk) t sources db = (Inr t', db')
    \<and> tasks db' = map (\<lambda>s. if s = t then t' else s) (tasks db)
    \<and> carries sources t' \<and> open_named CURATOR_TASK_NAME t' \<and> t_workspace t' = t_workspace t"
proof -
  have t: "t \<in> set (tasks db)" "is_open t" "t_name t = CURATOR_TASK_NAME" "distinct (map fst (t_data t))"
    and sources: "case dict_get (t_data t) ''migration_sources'' of None \<Rightarrow> True | Some v \<Rightarrow> (\<exists>vs. v = JList vs)"
    using row cur by (auto simp: open_tasks_of_def open_named_def curator_ok_def)
  note port = sqlite_maintenance_port_def sqlite_queue_port_def queue_port.extend_def
  let ?old = "list_field (t_data t) ''migration_sources''"
  show ?thesis
  proof (cases "t_status t = Pending")
    case True
    define d where "d = dict_setdefault ''trigger'' (JStr LEGACY_CLEANUP_MIGRATION_TRIGGER)
      (dict_setdefault ''migration_reason'' (JStr LEGACY_CLEANUP_MIGRATION_REASON)
        (dict_setdefault ''workspace_id'' JNull (dict_set ''migration_sources'' (JList (?old @ sources)) (t_data t))))"
    have keys: "distinct (map fst d)"
      unfolding d_def dict_setdefault_def dict_set_def
      by (auto intro!: distinct_update t(4) split: option.split)
    have get: "dict_get d ''migration_sources'' = Some (JList (?old @ sources))"
      by (simp add: d_def dict_setdefault_def split: option.split)
    have run: "merge_memory_curator_migration_sources (sqlite_maintenance_port uuid rid clk) t sources db =
        update_pending_task clk (t_id t) (Some d) None None db"
      using True sources by (auto simp: merge_memory_curator_migration_sources_def port list_field_def d_def
          split: option.splits)
    show ?thesis
      unfolding run update_pending_data [OF ok t(1) True]
      using carries_sorted [where sources = sources and t = t and clk = clk, OF keys get] t by (auto simp: open_named_def is_open_def)
  next
    case False
    with t(2) have running: "t_status t = Running" by (auto simp: is_open_def)
    let ?d = "dict_set ''migration_sources'' (JList (?old @ sources)) (t_data t)"
    have "py_strip ''migration_sources'' \<noteq> []" by (simp add: py_strip_def py_isspace_def)
    moreover have "filter is_object sources = sources" using objs(1) by (simp add: list_all_iff)
    ultimately have run: "merge_memory_curator_migration_sources (sqlite_maintenance_port uuid rid clk) t sources db =
        mutate_running_task_data clk (t_id t) (append_object_list ''migration_sources'' sources) db"
      using running objs(2) by (simp add: merge_memory_curator_migration_sources_def port
          extend_running_task_data_object_list_def)
    have keys: "distinct (map fst ?d)" unfolding dict_set_def by (intro distinct_update t(4))
    have "carries sources (t\<lparr>t_data := dict_sort ?d, t_updated_at := clk\<rparr>)"
      by (rule carries_sorted [OF keys]) (simp, auto)
    then show ?thesis
      unfolding run mutate_running_task_data_eq [OF ok t(1,2)]
      using t by (auto simp: append_object_list_def open_named_def is_open_def)
  qed
qed

lemma ensure_effect:
  assumes fresh: "fresh_uuid uuid db" and cur: "curator_ok db" and objs: "list_all is_object sources" "sources \<noteq> []"
  shows "\<exists>t' db'. ensure_memory_curator_migration_task (sqlite_maintenance_port uuid rid clk) sources a db = (Inr t', db')
    \<and> t' \<in> set (tasks db') \<and> carries sources t' \<and> open_named CURATOR_TASK_NAME t' \<and> t_workspace t' = None
    \<and> (\<forall>s \<in> set (tasks db). s \<in> set (tasks db') \<or> open_named CURATOR_TASK_NAME s)
    \<and> (\<forall>s \<in> set (tasks db'). s \<in> set (tasks db) \<or> s = t')"
proof -
  note port = sqlite_maintenance_port_def sqlite_queue_port_def queue_port.extend_def
  have ok: "db_ok db" using fresh by (simp add: fresh_uuid_def)
  show ?thesis
  proof (cases "find_open_task CURATOR_TASK_NAME None db")
    case (Some t)
    note found = find_open_task_SomeD [OF Some]
    then have row: "t \<in> open_tasks_of db CURATOR_TASK_NAME" by (simp add: open_tasks_of_def)
    obtain t' db' where merge: "merge_memory_curator_migration_sources (sqlite_maintenance_port uuid rid clk) t sources db = (Inr t', db')"
        "tasks db' = map (\<lambda>s. if s = t then t' else s) (tasks db)" "carries sources t'"
        "open_named CURATOR_TASK_NAME t'" "t_workspace t' = t_workspace t"
      using merge_effect [OF ok row cur objs, of uuid rid clk] by blast
    have "ensure_memory_curator_migration_task (sqlite_maintenance_port uuid rid clk) sources a db = (Inr t', db')"
      using Some merge(1) by (simp add: ensure_memory_curator_migration_task_def) (simp add: port)
    then show ?thesis using merge(2-5) found by (intro exI [of _ t'] exI [of _ db']) auto
  next
    case None
    let ?d = "[(''workspace_id'', JNull), (''trigger'', JStr LEGACY_CLEANUP_MIGRATION_TRIGGER),
      (''migration_reason'', JStr LEGACY_CLEANUP_MIGRATION_REASON), (''migration_sources'', JList sources)]"
    have name: "\<not> blank CURATOR_TASK_NAME" "py_strip CURATOR_TASK_NAME = CURATOR_TASK_NAME"
      by (simp_all add: blank_def py_strip_def py_isspace_def)
    have "\<exists>t db'. enqueue (uuid CURATOR_TASK_NAME) clk CURATOR_TASK_NAME ?d None (task_priority CURATOR_TASK_NAME) 3 (Some a) None db = (Inr t, db')"
      using fresh name by (auto simp: enqueue_def fresh_uuid_def str_or_def get_task_append Let_def)
    then obtain t db' where enq: "enqueue (uuid CURATOR_TASK_NAME) clk CURATOR_TASK_NAME ?d None (task_priority CURATOR_TASK_NAME) 3 (Some a) None db = (Inr t, db')"
      by blast
    note new = enqueue_Inr [OF enq]
    have run: "ensure_memory_curator_migration_task (sqlite_maintenance_port uuid rid clk) sources a db = (Inr t, db')"
      using None enq by (simp add: ensure_memory_curator_migration_task_def port enqueue_unique_new)
    have data: "list_field (t_data t) ''migration_sources'' = map json_sort sources"
      using new by (simp add: list_field_def dict_get_sort) (simp add: dict_get_def json_sort_list_map)
    have "t_name t = CURATOR_TASK_NAME" using new name(2) by (simp only:)
    then have "open_named CURATOR_TASK_NAME t" using new by (auto simp: open_named_def is_open_def fresh_pending_def)
    with run new data show ?thesis by (intro exI [of _ t] exI [of _ db']) (auto simp: carries_def)
  qed
qed

text \<open>C27. Retired families are drained into the curator: over the SQLite queue the drain runs to the
  end; it cancels exactly the open tasks of these families, for the migration, and returns them; no
  other task changes, the curator's own excepted; and if there was any, an open curator task carries
  the record of each.\<close>

theorem drain_legacy_spec:
  assumes "fresh_uuid uuid db" and "curator_ok db"
    and "legacy = {t \<in> set (tasks db). is_open t \<and> t_name t \<in> set LEGACY_CLEANUP_TASK_NAMES}"
  shows "\<exists>drained db'. drain_legacy_cleanup_tasks (sqlite_maintenance_port uuid rid clk) clk (Some a) db = (Inr drained, db')
    \<and> set drained = drained_row a ` legacy
    \<and> set drained \<subseteq> set (tasks db')
    \<and> (\<forall>t \<in> set (tasks db'). is_open t \<longrightarrow> t_name t \<notin> set LEGACY_CLEANUP_TASK_NAMES)
    \<and> (\<forall>t \<in> set (tasks db) - legacy. t \<in> set (tasks db') \<or> legacy \<noteq> {} \<and> open_named CURATOR_TASK_NAME t)
    \<and> (legacy \<noteq> {} \<longrightarrow> (\<exists>t \<in> set (tasks db'). open_named CURATOR_TASK_NAME t \<and> t_workspace t = None
         \<and> carries (map (legacy_cleanup_migration_source a) drained) t))"
proof -
  let ?q = "sqlite_maintenance_port uuid rid clk"
  have ok: "db_ok db" using assms(1) by (simp add: fresh_uuid_def)
  have names: "distinct LEGACY_CLEANUP_TASK_NAMES" "CURATOR_TASK_NAME \<notin> set LEGACY_CLEANUP_TASK_NAMES"
    by (simp_all add: LEGACY_CLEANUP_TASK_NAMES_def)
  obtain ds db1 where drain: "drain_names ?q a LEGACY_CLEANUP_TASK_NAMES [] db = (Inr ds, db1)"
      and ds: "set ds = drained_row a ` legacy"
      and tasks1: "tasks db1 = map (\<lambda>s. if is_open s \<and> t_name s \<in> set LEGACY_CLEANUP_TASK_NAMES then drained_row a s else s) (tasks db)"
      and ok1: "db_ok db1"
    using drain_names_rows [OF ok names(1), of uuid rid clk a "[]"] assms(3) by auto
  have closed: "\<not> is_open (drained_row a s)" for s by (simp add: is_open_def)
  have kept: "set ds \<subseteq> set (tasks db1)" "set (tasks db) - legacy \<subseteq> set (tasks db1)"
    "\<forall>t \<in> set (tasks db1). is_open t \<longrightarrow> t_name t \<notin> set LEGACY_CLEANUP_TASK_NAMES"
    unfolding ds assms(3) tasks1 using closed by auto
  show ?thesis
  proof (cases "ds = []")
    case True
    then have "drain_legacy_cleanup_tasks ?q clk (Some a) db = (Inr ds, db1)"
      by (simp add: drain_legacy_cleanup_tasks_def drain now_or_def)
    moreover have "legacy = {}" using ds True by simp
    ultimately show ?thesis using kept ds by blast
  next
    case False
    let ?sources = "map (legacy_cleanup_migration_source a) ds"
    have "t_id ` set (tasks db1) = t_id ` set (tasks db)" unfolding tasks1 set_map image_image by (intro image_cong) simp_all
    then have fresh1: "fresh_uuid uuid db1" using assms(1) ok1 by (simp add: fresh_uuid_def)
    have "open_tasks_of db1 CURATOR_TASK_NAME \<subseteq> open_tasks_of db CURATOR_TASK_NAME"
      unfolding open_tasks_of_def tasks1 using closed by (auto simp: open_named_def)
    then have cur1: "curator_ok db1" using assms(2) unfolding curator_ok_def by blast
    have objs: "list_all is_object ?sources" "?sources \<noteq> []"
      using False by (simp_all add: list_all_iff legacy_cleanup_migration_source_def)
    obtain t' db' where ensure: "ensure_memory_curator_migration_task ?q ?sources a db1 = (Inr t', db')"
        "t' \<in> set (tasks db')" "carries ?sources t'" "open_named CURATOR_TASK_NAME t'" "t_workspace t' = None"
        "\<forall>s \<in> set (tasks db1). s \<in> set (tasks db') \<or> open_named CURATOR_TASK_NAME s"
        "\<forall>s \<in> set (tasks db'). s \<in> set (tasks db1) \<or> s = t'"
      using ensure_effect [OF fresh1 cur1 objs, of rid clk a] by blast
    have run: "drain_legacy_cleanup_tasks ?q clk (Some a) db = (Inr ds, db')"
      using False ensure(1) by (simp add: drain_legacy_cleanup_tasks_def drain now_or_def)
    have "set ds \<subseteq> set (tasks db')"
      using kept(1) ensure(6) closed unfolding ds by (auto simp: open_named_def)
    moreover have "\<forall>t \<in> set (tasks db'). is_open t \<longrightarrow> t_name t \<notin> set LEGACY_CLEANUP_TASK_NAMES"
      using kept(3) ensure(4,7) names(2) by (auto simp: open_named_def)
    moreover have "legacy \<noteq> {}" using False ds by auto
    ultimately show ?thesis
      using run ds kept(2) ensure(2-6) by (intro exI [of _ ds] exI [of _ db']) blast
  qed
qed

theorem drain_legacy_spec_witness:
  "\<exists>drained db'. drain_legacy_cleanup_tasks (sqlite_maintenance_port (\<lambda>_. ''u'') (\<lambda>i. i) 50) 50 (Some 50)
      \<lparr>tasks = [demo_task\<lparr>t_name := ''taxonomist''\<rparr>], task_runs = []\<rparr> = (Inr drained, db')
    \<and> (\<exists>t \<in> set (tasks db'). open_named ''memory-curator'' t
         \<and> carries (map (legacy_cleanup_migration_source 50) drained) t)"
proof -
  let ?t = "demo_task\<lparr>t_name := ''taxonomist''\<rparr>"
  let ?db = "\<lparr>tasks = [?t], task_runs = []\<rparr>"
  have ok: "db_ok ?db"
    using demo_ok(1) unfolding demo_pending_eq
    by (simp add: db_ok_def task_ok_def ledger_ok_def lane_ok_def runs_ok_def demo_task_def)
  then have fresh: "fresh_uuid (\<lambda>_. ''u'') ?db" by (simp add: fresh_uuid_def demo_task_def)
  have cur: "curator_ok ?db" by (simp add: curator_ok_def open_tasks_of_def open_named_def)
  have legacy: "{t \<in> set (tasks ?db). is_open t \<and> t_name t \<in> set LEGACY_CLEANUP_TASK_NAMES} = {?t}"
    by (auto simp: is_open_def demo_task_def LEGACY_CLEANUP_TASK_NAMES_def)
  show ?thesis
    using drain_legacy_spec [OF fresh cur refl, of "\<lambda>i. i" 50 50] unfolding legacy by blast
qed

end
