(* ===== verification/TaskAttempts.thy ===== *)
theory TaskAttempts
  imports Prelude
begin

text \<open>
  The log of execution attempts, \<open>task_execution_store.py\<close>: one row for each task and execution
  epoch. \<open>_db_manager\<close> is present; the repository's workspace is an argument.
\<close>

record attempt =
  at_id :: int
  at_task_id :: string
  at_epoch :: int
  at_workspace :: "string option"
  at_task_name :: "string option"
  at_request_id :: "string option"
  at_pid :: "int option"
  at_provider_key :: "string option"
  at_provider_name :: "string option"
  at_model_name :: "string option"
  at_status :: string
  at_started_at :: time
  at_heartbeat_at :: "time option"
  at_completed_at :: "time option"
  at_error :: "string option"
  at_reason :: "string option"

type_synonym 'a attempt_op = "attempt list \<Rightarrow> 'a res \<times> attempt list"

text \<open>SQL \<open>COALESCE\<close> of two columns.\<close>

definition coalesce :: "'a option \<Rightarrow> 'a option \<Rightarrow> 'a option" where
  "coalesce a b = (case a of None \<Rightarrow> b | Some x \<Rightarrow> Some x)"

definition attempt_key :: "string \<Rightarrow> int \<Rightarrow> attempt \<Rightarrow> bool" where
  "attempt_key task epoch a = (at_task_id a = task \<and> at_epoch a = epoch)"

definition attempt_not_found :: "string \<Rightarrow> int \<Rightarrow> py_error" where
  "attempt_not_found task epoch =
     ValueError (''Task execution attempt '' @ task @ ''@'' @ py_str_int epoch @ '' was not found'')"

definition get_attempt :: "string \<Rightarrow> int \<Rightarrow> attempt list \<Rightarrow> attempt res" where
  "get_attempt task epoch rows = (case List.find (attempt_key task epoch) rows of
       None \<Rightarrow> Inl (attempt_not_found task epoch)
     | Some a \<Rightarrow> Inr a)"

text \<open>\<open>reopen_terminal_attempt\<close>: a finished attempt is started anew, unless the new start has the
  request, or else the process, of the old one.\<close>

definition reopens :: "attempt \<Rightarrow> attempt \<Rightarrow> bool" where
  "reopens new old = (at_completed_at old \<noteq> None
     \<and> (case (at_request_id new, at_request_id old) of
          (Some r, Some s) \<Rightarrow> r \<noteq> s
        | _ \<Rightarrow> (case (at_pid new, at_pid old) of (Some p, Some q) \<Rightarrow> p \<noteq> q | _ \<Rightarrow> True)))"

text \<open>\<open>ON CONFLICT(task_id, execution_epoch) DO UPDATE\<close>: the row left for an old row and the row
  that was to be inserted.\<close>

definition merge_attempt :: "attempt \<Rightarrow> attempt \<Rightarrow> attempt" where
  "merge_attempt new old =
     (let running = (at_completed_at old = None); reopen = reopens new old in
      old\<lparr>at_workspace := coalesce (at_workspace new) (at_workspace old),
          at_task_name := coalesce (at_task_name new) (at_task_name old),
          at_request_id := (if running then coalesce (at_request_id new) (at_request_id old)
                            else if reopen then at_request_id new else at_request_id old),
          at_pid := (if running then coalesce (at_pid new) (at_pid old)
                     else if reopen then at_pid new else at_pid old),
          at_provider_key := coalesce (at_provider_key new) (at_provider_key old),
          at_provider_name := coalesce (at_provider_name new) (at_provider_name old),
          at_model_name := coalesce (at_model_name new) (at_model_name old),
          at_status := (if running \<or> reopen then at_status new else at_status old),
          at_started_at := (if running then min (at_started_at old) (at_started_at new)
                            else if reopen then at_started_at new else at_started_at old),
          at_heartbeat_at := (if running
                then (case (coalesce (at_heartbeat_at old) (at_heartbeat_at new), at_heartbeat_at new) of
                        (Some s, Some t) \<Rightarrow> Some (max s t) | _ \<Rightarrow> None)
              else if reopen then at_heartbeat_at new else at_heartbeat_at old),
          at_completed_at := (if running \<or> reopen then None else at_completed_at old),
          at_error := (if running \<or> reopen then None else at_error old),
          at_reason := (if running \<or> reopen then None else at_reason old)\<rparr>)"

text \<open>\<open>aid\<close> is the identifier of the row if it is inserted.\<close>

definition start_attempt ::
  "int \<Rightarrow> time \<Rightarrow> string option \<Rightarrow> string \<Rightarrow> int \<Rightarrow> string option \<Rightarrow> string option \<Rightarrow> int option
   \<Rightarrow> string option \<Rightarrow> string option \<Rightarrow> string option \<Rightarrow> time option \<Rightarrow> string \<Rightarrow> attempt attempt_op" where
  "start_attempt aid clk ws task epoch name request pid pkey pname model started_at status rows =
     (let now = now_or started_at clk;
          new = \<lparr>at_id = aid, at_task_id = task, at_epoch = epoch, at_workspace = ws, at_task_name = name,
            at_request_id = request, at_pid = pid, at_provider_key = pkey, at_provider_name = pname,
            at_model_name = model, at_status = status, at_started_at = now, at_heartbeat_at = Some now,
            at_completed_at = None, at_error = None, at_reason = None\<rparr>;
          rows' = (if list_ex (attempt_key task epoch) rows
                   then update_where (attempt_key task epoch) (merge_attempt new) rows
                   else rows @ [new])
      in (get_attempt task epoch rows', rows'))"

definition update_attempt :: "string \<Rightarrow> int \<Rightarrow> (attempt \<Rightarrow> attempt) \<Rightarrow> attempt attempt_op" where
  "update_attempt task epoch f rows =
     (if rowcount (attempt_key task epoch) rows \<noteq> 1 then (Inl (attempt_not_found task epoch), rows)
      else let rows' = update_where (attempt_key task epoch) f rows
           in (get_attempt task epoch rows', rows'))"

definition beat :: "time \<Rightarrow> attempt \<Rightarrow> time option" where
  "beat now a = (if at_completed_at a = None
     then Some (max (case at_heartbeat_at a of None \<Rightarrow> now | Some t \<Rightarrow> t) now) else at_heartbeat_at a)"

definition heartbeat_attempt ::
  "time \<Rightarrow> string \<Rightarrow> int \<Rightarrow> time option \<Rightarrow> string option \<Rightarrow> int option \<Rightarrow> attempt attempt_op" where
  "heartbeat_attempt clk task epoch heartbeat_at request pid =
     update_attempt task epoch (\<lambda>a. a\<lparr>at_heartbeat_at := beat (now_or heartbeat_at clk) a,
       at_request_id := (if at_completed_at a = None then coalesce request (at_request_id a) else at_request_id a),
       at_pid := (if at_completed_at a = None then coalesce pid (at_pid a) else at_pid a)\<rparr>)"

definition finish_attempt ::
  "time \<Rightarrow> string \<Rightarrow> int \<Rightarrow> string \<Rightarrow> time option \<Rightarrow> string option \<Rightarrow> int option \<Rightarrow> string option \<Rightarrow> string option
   \<Rightarrow> attempt attempt_op" where
  "finish_attempt clk task epoch status completed_at request pid err reason =
     (let now = now_or completed_at clk in
      update_attempt task epoch (\<lambda>a. a\<lparr>
        at_status := (if at_completed_at a = None then status else at_status a),
        at_completed_at := coalesce (at_completed_at a) (Some now),
        at_heartbeat_at := beat now a,
        at_request_id := coalesce request (at_request_id a),
        at_pid := coalesce pid (at_pid a),
        at_error := (if at_completed_at a = None then coalesce err (at_error a) else at_error a),
        at_reason := (if at_completed_at a = None then coalesce reason (at_reason a) else at_reason a)\<rparr>))"

definition list_attempts ::
  "string option \<Rightarrow> string option \<Rightarrow> string option \<Rightarrow> int \<Rightarrow> attempt list \<Rightarrow> attempt list" where
  "list_attempts ws task status limit rows =
     limit_rows limit (order_by (\<lambda>a. (- at_started_at a, - at_id a))
       (filter (\<lambda>a. (case ws of None \<Rightarrow> True | Some w \<Rightarrow> at_workspace a = Some w)
          \<and> (case task of None \<Rightarrow> True | Some t \<Rightarrow> at_task_id a = t)
          \<and> (case status of None \<Rightarrow> True | Some s \<Rightarrow> at_status a = s)) rows))"

section \<open>Laws\<close>

text \<open>One row for each task and epoch, and no heartbeat before the start.\<close>

definition attempt_ok :: "attempt \<Rightarrow> bool" where
  "attempt_ok a = (\<exists>t. at_heartbeat_at a = Some t \<and> at_started_at a \<le> t)"

abbreviation attempt_id :: "attempt \<Rightarrow> string \<times> int" where
  "attempt_id a \<equiv> (at_task_id a, at_epoch a)"

definition attempts_ok :: "attempt list \<Rightarrow> bool" where
  "attempts_ok rows = (distinct (map attempt_id rows) \<and> list_all attempt_ok rows)"

inductive attempt_step :: "attempt list \<Rightarrow> attempt list \<Rightarrow> bool" where
  start: "attempt_step rows (snd (start_attempt aid clk ws task epoch name req pid pkey pname model started status rows))"
| heartbeat: "attempt_step rows (snd (heartbeat_attempt clk task epoch t req pid rows))"
| finish: "attempt_step rows (snd (finish_attempt clk task epoch status t req pid err reason rows))"

text \<open>What is final about an attempt once it is over.\<close>

definition attempt_outcome :: "attempt \<Rightarrow> string \<times> time option \<times> string option \<times> string option \<times> time \<times> time option" where
  "attempt_outcome a = (at_status a, at_completed_at a, at_error a, at_reason a, at_started_at a, at_heartbeat_at a)"

definition attempt_kept :: "attempt \<Rightarrow> attempt \<Rightarrow> bool" where
  "attempt_kept a b = (attempt_id b = attempt_id a
     \<and> (at_completed_at a = None \<or> attempt_outcome b = attempt_outcome a
        \<or> (\<exists>new. reopens new a \<and> at_completed_at new = None \<and> b = merge_attempt new a)))"

lemma attempt_kept_refl [simp]: "attempt_kept a a"
  by (simp add: attempt_kept_def)

lemma merge_attempt_id [simp]: "attempt_id (merge_attempt new old) = attempt_id old"
  by (simp add: merge_attempt_def Let_def)

lemma merge_attempt_ok:
  assumes "attempt_ok old" and "at_heartbeat_at new = Some (at_started_at new)"
  shows "attempt_ok (merge_attempt new old)"
  using assms by (auto simp: attempt_ok_def merge_attempt_def coalesce_def Let_def)

lemma merge_attempt_kept: "at_completed_at new = None \<Longrightarrow> attempt_kept old (merge_attempt new old)"
proof (cases "at_completed_at old = None \<or> reopens new old")
  case True
  assume "at_completed_at new = None"
  with True show ?thesis unfolding attempt_kept_def by (auto simp del: prod.inject)
next
  case False
  then have "attempt_outcome (merge_attempt new old) = attempt_outcome old"
    by (auto simp: attempt_outcome_def merge_attempt_def Let_def)
  then show ?thesis by (simp add: attempt_kept_def del: prod.inject)
qed

lemma update_rows:
  assumes ok: "attempts_ok rows" and f: "\<And>a. attempt_id (f a) = attempt_id a" "\<And>a. attempt_ok a \<Longrightarrow> attempt_ok (f a)"
    "\<And>a. attempt_kept a (f a)"
  shows "attempts_ok (update_where p f rows) \<and> (\<forall>a \<in> set rows. \<exists>b \<in> set (update_where p f rows). attempt_kept a b)"
proof -
  have "map attempt_id (update_where p f rows) = map attempt_id rows" using f(1) by (rule map_update_where)
  moreover have "list_all attempt_ok (update_where p f rows)"
    using ok f(2) by (intro list_all_update_where) (simp_all add: attempts_ok_def)
  ultimately have "attempts_ok (update_where p f rows)"
    using ok by (simp only: attempts_ok_def)
  moreover have "\<exists>b \<in> set (update_where p f rows). attempt_kept a b" if "a \<in> set rows" for a
  proof (cases "p a")
    case True
    then have "f a \<in> set (update_where p f rows)" using that by (auto simp: in_update_where)
    then show ?thesis using f(3) by blast
  next
    case False
    then have "a \<in> set (update_where p f rows)" using that by (auto simp: in_update_where)
    then show ?thesis using attempt_kept_refl by blast
  qed
  ultimately show ?thesis by blast
qed

lemma update_attempt_rows:
  assumes "attempts_ok rows" and "\<And>a. attempt_id (f a) = attempt_id a" and "\<And>a. attempt_ok a \<Longrightarrow> attempt_ok (f a)"
    and "\<And>a. attempt_kept a (f a)"
  shows "attempts_ok (snd (update_attempt task epoch f rows))
    \<and> (\<forall>a \<in> set rows. \<exists>b \<in> set (snd (update_attempt task epoch f rows)). attempt_kept a b)"
  using update_rows [OF assms, of "attempt_key task epoch"] assms(1)
  by (auto simp: update_attempt_def Let_def intro: attempt_kept_refl)

lemma beat_ok: "attempt_ok a \<Longrightarrow> \<exists>t. beat now a = Some t \<and> at_started_at a \<le> t"
  by (auto simp: attempt_ok_def beat_def)

lemma attempt_step_rows:
  assumes "attempt_step rows rows'" and "attempts_ok rows"
  shows "attempts_ok rows' \<and> (\<forall>a \<in> set rows. \<exists>b \<in> set rows'. attempt_kept a b)"
  using assms
proof (induction rule: attempt_step.induct)
  case (start rows aid clk ws task epoch name req pid pkey pname model started status)
  let ?new = "\<lparr>at_id = aid, at_task_id = task, at_epoch = epoch, at_workspace = ws, at_task_name = name,
    at_request_id = req, at_pid = pid, at_provider_key = pkey, at_provider_name = pname,
    at_model_name = model, at_status = status, at_started_at = now_or started clk,
    at_heartbeat_at = Some (now_or started clk), at_completed_at = None, at_error = None, at_reason = None\<rparr>"
  show ?case
  proof (cases "list_ex (attempt_key task epoch) rows")
    case True
    then show ?thesis
      using update_rows [OF start, of "merge_attempt ?new" "attempt_key task epoch"]
        merge_attempt_ok [of _ ?new] merge_attempt_kept [of ?new]
      by (simp add: start_attempt_def Let_def)
  next
    case False
    then have "attempt_id ?new \<notin> attempt_id ` set rows"
      by (auto simp: list_ex_iff attempt_key_def)
    moreover have "\<exists>b \<in> set (rows @ [?new]). attempt_kept a b" if "a \<in> set rows" for a
      using that attempt_kept_refl [of a] by (intro bexI [of _ a]) auto
    ultimately show ?thesis
      using False start by (auto simp: start_attempt_def Let_def attempts_ok_def attempt_ok_def)
  qed
next
  case (heartbeat rows clk task epoch t req pid)
  then show ?case
    unfolding heartbeat_attempt_def
    by (intro update_attempt_rows) (auto simp: attempt_ok_def attempt_kept_def attempt_outcome_def beat_def)
next
  case (finish rows clk task epoch status t req pid err reason)
  then show ?case
    unfolding finish_attempt_def Let_def
    by (intro update_attempt_rows) (auto simp: attempt_ok_def attempt_kept_def attempt_outcome_def beat_def coalesce_def)
qed


definition one_finished :: "attempt list" where
  "one_finished = snd (finish_attempt 9 ''t'' 1 ''success'' None None None None None
     (snd (start_attempt 1 5 None ''t'' 1 None (Some ''r'') None None None None None ''running'' [])))"

lemma one_finished_eq: "one_finished = [\<lparr>at_id = 1, at_task_id = ''t'', at_epoch = 1, at_workspace = None,
    at_task_name = None, at_request_id = Some ''r'', at_pid = None, at_provider_key = None, at_provider_name = None,
    at_model_name = None, at_status = ''success'', at_started_at = 5, at_heartbeat_at = Some 9,
    at_completed_at = Some 9, at_error = None, at_reason = None\<rparr>]"
  by (simp add: one_finished_def finish_attempt_def start_attempt_def update_attempt_def attempt_key_def
      now_or_def coalesce_def beat_def Let_def)


end
