(* ===== verification/ProviderUsage.thy ===== *)
theory ProviderUsage
  imports TaskAttempts
begin

text \<open>
  The SQLite store of provider usage, \<open>provider_usage_store.py\<close>: the calls made, from which
  the limits are counted, and the admission states, one per provider and model, that keep a
  provider out until a time. The conversation log of that file is in \<open>Conversations\<close>.
  \<open>_db_manager\<close> is present.
\<close>

section \<open>Rows\<close>

record token_usage =
  tu_input :: "int option"
  tu_output :: "int option"
  tu_cached_input :: "int option"
  tu_cache_write :: "int option"
  tu_reasoning :: "int option"
  tu_total :: "int option"
  tu_source :: "string option"

record usage_row =
  u_workspace :: "string option"
  u_task_name :: "string option"
  u_task_id :: "string option"
  u_epoch :: "int option"
  u_packet :: "string option"
  u_request_id :: "string option"
  u_attempt :: "int option"
  u_attempt_identity :: "string option"
  u_pid :: "int option"
  u_provider_key :: string
  u_provider_name :: string
  u_model_name :: string
  u_status :: string
  u_duration :: real
  u_created_at :: time
  u_error_text :: "string option"
  u_reason_category :: "string option"
  u_reason_code :: "string option"
  u_retry_delay :: "real option"
  u_tokens :: "token_usage option"

record admission_state =
  st_provider_key :: string
  st_model_name :: string
  st_reason_category :: string
  st_reason_code :: string
  st_error_text :: "string option"
  st_retry_delay :: "real option"
  st_active_until :: time
  st_updated_at :: time

text \<open>The database: the usage rows, the admission states, whose primary key is provider and
  model, and the log of execution attempts (\<open>TaskAttempts\<close>).\<close>

record usage_db =
  usage :: "usage_row list"
  states :: "admission_state list"
  attempts :: "attempt list"

definition empty_usage_db :: usage_db where
  "empty_usage_db = \<lparr>usage = [], states = [], attempts = []\<rparr>"

section \<open>Recording calls\<close>

text \<open>\<open>_resolve_attempt_identity\<close>: the latest epoch of the task's request, and the identity of
  the attempt, unless one is given.\<close>

definition latest_epoch :: "string \<Rightarrow> string \<Rightarrow> usage_db \<Rightarrow> int option" where
  "latest_epoch task request db =
     (case order_by (\<lambda>a. - at_epoch a)
             (filter (\<lambda>a. at_task_id a = task \<and> at_request_id a = Some request) (attempts db)) of
        [] \<Rightarrow> None
      | a # _ \<Rightarrow> Some (at_epoch a))"

definition resolve_attempt_identity ::
  "string option \<Rightarrow> int option \<Rightarrow> string option \<Rightarrow> int option \<Rightarrow> string option \<Rightarrow> usage_db
   \<Rightarrow> int option \<times> int option \<times> string option" where
  "resolve_attempt_identity task epoch request attempt ident db =
     (if str_or ident [] \<noteq> [] then (epoch, attempt, ident)
      else case (task, request) of
        (Some t, Some q) \<Rightarrow>
          let epoch' = (case epoch of Some e \<Rightarrow> Some e | None \<Rightarrow> latest_epoch t q db)
          in (case (epoch', attempt) of
                (Some e, Some a) \<Rightarrow>
                  (epoch', attempt, Some (t @ '':'' @ py_str_int e @ '':'' @ q @ '':'' @ py_str_int a))
              | _ \<Rightarrow> (epoch', attempt, None))
      | _ \<Rightarrow> (epoch, attempt, ident))"

text \<open>\<open>record_call\<close>: the row as given, in the repository's workspace, with the resolved
  identity.\<close>

definition record_call :: "string option \<Rightarrow> usage_row \<Rightarrow> usage_db \<Rightarrow> usage_db" where
  "record_call ws row db =
     (let (epoch, attempt, ident) = resolve_attempt_identity (u_task_id row) (u_epoch row)
            (u_request_id row) (u_attempt row) (u_attempt_identity row) db
      in db\<lparr>usage := usage db @ [row\<lparr>u_workspace := ws, u_epoch := epoch, u_attempt := attempt,
           u_attempt_identity := ident\<rparr>]\<rparr>)"

section \<open>Admission states\<close>

definition state_key :: "admission_state \<Rightarrow> string \<times> string" where
  "state_key st = (st_provider_key st, st_model_name st)"

text \<open>\<open>INSERT OR REPLACE\<close>: the row of the same primary key goes, the new one is appended.\<close>

definition upsert_admission_state :: "admission_state \<Rightarrow> usage_db \<Rightarrow> usage_db" where
  "upsert_admission_state st db =
     db\<lparr>states := filter (\<lambda>s. state_key s \<noteq> state_key st) (states db) @ [st]\<rparr>"

definition clear_admission_state :: "string \<Rightarrow> string \<Rightarrow> usage_db \<Rightarrow> usage_db" where
  "clear_admission_state provider model db =
     db\<lparr>states := filter (\<lambda>s. \<not> (st_provider_key s = provider \<and> st_model_name s = model)) (states db)\<rparr>"

definition list_active_admission_states ::
  "time \<Rightarrow> time option \<Rightarrow> string option \<Rightarrow> string option \<Rightarrow> usage_db \<Rightarrow> admission_state list" where
  "list_active_admission_states clk now provider model db =
     order_by (\<lambda>s. (- st_active_until s, - st_updated_at s))
       (filter (\<lambda>s. st_active_until s > now_or now clk
          \<and> (case provider of None \<Rightarrow> True | Some p \<Rightarrow> st_provider_key s = p)
          \<and> (case model of None \<Rightarrow> True | Some m \<Rightarrow> st_model_name s = m)) (states db))"

definition get_active_admission_state ::
  "time \<Rightarrow> string \<Rightarrow> string \<Rightarrow> time option \<Rightarrow> usage_db \<Rightarrow> admission_state option" where
  "get_active_admission_state clk provider model now db =
     (case list_active_admission_states clk now (Some provider) (Some model) db of
        [] \<Rightarrow> None
      | st # _ \<Rightarrow> Some st)"

section \<open>Counting calls\<close>

text \<open>The calls since \<open>now - window\<close> that were not skipped, in the repository's workspace or,
  without one, in all.\<close>

definition counted :: "string option \<Rightarrow> time \<Rightarrow> usage_row \<Rightarrow> bool" where
  "counted ws cutoff r = (u_created_at r \<ge> cutoff \<and> u_status r \<noteq> ''skipped''
     \<and> (case ws of None \<Rightarrow> True | Some w \<Rightarrow> u_workspace r = Some w))"

definition count_recent_calls ::
  "string option \<Rightarrow> time \<Rightarrow> string list \<Rightarrow> time option \<Rightarrow> real \<Rightarrow> usage_db \<Rightarrow> int" where
  "count_recent_calls ws clk keys now window db =
     (if keys = [] then 0
      else int (rowcount (\<lambda>r. u_provider_key r \<in> set keys \<and> counted ws (now_or now clk - window) r) (usage db)))"

definition count_recent_model_calls ::
  "string option \<Rightarrow> time \<Rightarrow> string list \<Rightarrow> time option \<Rightarrow> real \<Rightarrow> usage_db \<Rightarrow> int" where
  "count_recent_model_calls ws clk models now window db =
     (if models = [] then 0
      else int (rowcount (\<lambda>r. u_model_name r \<in> set models \<and> counted ws (now_or now clk - window) r) (usage db)))"

end
