(* ===== verification/ProviderAdmission.thy ===== *)
theory ProviderAdmission
  imports ProviderUsage
begin

text \<open>
  Admission of provider calls, \<open>core/provider_admission.py\<close>: the decision whether a call may
  go out, the exception a denied call raises, the classification of a failed call, and the
  back-off that a failure leaves behind (\<open>core/providers/instrumented.py\<close>). The exceptions are
  those of \<open>core/providers/interfaces.py\<close> and \<open>core/providers/_json_cli.py\<close>.
\<close>

section \<open>The usage port\<close>

text \<open>The reading part of \<open>ProviderUsagePort\<close>; the daily window of \<open>count_recent_calls\<close> is its
  default of 86400 seconds.\<close>

record 's usage_port =
  p_active_state :: "string \<Rightarrow> string \<Rightarrow> time option \<Rightarrow> 's \<Rightarrow> admission_state option"
  p_recent_calls :: "string list \<Rightarrow> time option \<Rightarrow> 's \<Rightarrow> int"
  p_recent_model_calls :: "string list \<Rightarrow> time option \<Rightarrow> real \<Rightarrow> 's \<Rightarrow> int"

definition sqlite_usage_port :: "string option \<Rightarrow> time \<Rightarrow> usage_db usage_port" where
  "sqlite_usage_port ws clk = \<lparr>p_active_state = get_active_admission_state clk,
     p_recent_calls = (\<lambda>keys now. count_recent_calls ws clk keys now 86400),
     p_recent_model_calls = count_recent_model_calls ws clk\<rparr>"

section \<open>The decision\<close>

record decision =
  allowed :: bool
  d_reason :: "string option"
  d_category :: "string option"
  d_retry_delay :: "real option"
  d_error_text :: "string option"
  d_calls_last_day :: "int option"
  d_daily_limit :: "int option"
  d_calls_in_window :: "int option"
  d_burst_limit :: "int option"
  d_burst_window :: "real option"

definition decide :: "bool \<Rightarrow> decision" where
  "decide ok = \<lparr>allowed = ok, d_reason = None, d_category = None, d_retry_delay = None, d_error_text = None,
     d_calls_last_day = None, d_daily_limit = None, d_calls_in_window = None, d_burst_limit = None,
     d_burst_window = None\<rparr>"

definition budget_keys :: "string \<Rightarrow> string list" where
  "budget_keys b = [b, b @ '':agentic'']"

definition deny_active :: "time option \<Rightarrow> admission_state \<Rightarrow> decision" where
  "deny_active now st = (decide False)\<lparr>d_reason := Some (st_reason_code st), d_category := Some (st_reason_category st),
     d_retry_delay := (case now of None \<Rightarrow> st_retry_delay st | Some t \<Rightarrow> Some (max (st_active_until st - t) 0)),
     d_error_text := st_error_text st\<rparr>"

definition deny_budget :: "int \<Rightarrow> int \<Rightarrow> decision" where
  "deny_budget calls limit = (decide False)\<lparr>d_reason := Some ''profile_daily_budget_exceeded'',
     d_category := Some ''admission'', d_calls_last_day := Some calls, d_daily_limit := Some limit\<rparr>"

definition deny_burst :: "int \<Rightarrow> int \<Rightarrow> real \<Rightarrow> decision" where
  "deny_burst calls limit window = (decide False)\<lparr>d_reason := Some ''model_burst_limit_exceeded'',
     d_category := Some ''admission'', d_retry_delay := Some window, d_calls_in_window := Some calls,
     d_burst_limit := Some limit, d_burst_window := Some window\<rparr>"

definition burst_decision ::
  "'s usage_port \<Rightarrow> string \<Rightarrow> int option \<Rightarrow> real option \<Rightarrow> time option \<Rightarrow> 's \<Rightarrow> decision" where
  "burst_decision p model limit window now s =
     (case (limit, window) of
        (Some l, Some w) \<Rightarrow>
          let calls = p_recent_model_calls p [model] now w s
          in if calls \<ge> l then deny_burst calls l w else decide True
      | _ \<Rightarrow> decide True)"

definition evaluate_provider_admission ::
  "'s usage_port \<Rightarrow> string \<Rightarrow> string \<Rightarrow> string \<Rightarrow> int option \<Rightarrow> int option \<Rightarrow> real option \<Rightarrow> time option \<Rightarrow> 's \<Rightarrow> decision" where
  "evaluate_provider_admission p provider budget model daily blimit bwindow now s =
     (case p_active_state p provider model now s of
        Some st \<Rightarrow> deny_active now st
      | None \<Rightarrow>
          (case daily of
             None \<Rightarrow> burst_decision p model blimit bwindow now s
           | Some limit \<Rightarrow>
               let calls = p_recent_calls p (budget_keys budget) now s
               in if calls \<ge> limit then deny_budget calls limit
                  else burst_decision p model blimit bwindow now s))"

section \<open>Exceptions\<close>

text \<open>The exceptions a provider call ends with. \<open>OtherError\<close> is any other exception, with its
  \<open>str\<close> and its numeric \<open>retry_delay_seconds\<close>, if it has one.\<close>

datatype provider_exc =
    BudgetExceeded string int int
  | RateLimitExceeded string int int real "real option"
  | AdmissionDeferred string string string string "real option" "string option"
  | AuthenticationRequired string "string option"
  | BackoffError string "real option"
  | OtherError string "real option"

definition detail_suffix :: "string option \<Rightarrow> string" where
  "detail_suffix e = (if str_or e [] = [] then [] else '' detail='' @ str_or e [])"

text \<open>\<open>str(exc)\<close>; \<open>fl\<close> prints a float.\<close>

fun exc_str :: "(real \<Rightarrow> string) \<Rightarrow> provider_exc \<Rightarrow> string" where
  "exc_str fl (BudgetExceeded provider calls limit) =
     ''provider_budget_exceeded: provider_key='' @ provider @ '' calls_last_day='' @ py_str_int calls
       @ '' daily_call_limit='' @ py_str_int limit"
| "exc_str fl (RateLimitExceeded model calls limit window delay) =
     ''provider_rate_limit_exceeded: '' @ ''model_name='' @ model @ '' calls_in_window='' @ py_str_int calls
       @ '' '' @ ''burst_call_limit='' @ py_str_int limit @ '' burst_window_seconds='' @ fl window"
| "exc_str fl (AdmissionDeferred provider model code category delay err) =
     ''provider_admission_deferred: '' @ ''provider_key='' @ provider @ '' model_name='' @ model @ '' ''
       @ ''reason_code='' @ code @ '' reason_category='' @ category @ detail_suffix err"
| "exc_str fl (AuthenticationRequired provider err) =
     ''provider_authentication_required: provider_name='' @ provider @ detail_suffix err"
| "exc_str fl (BackoffError message delay) = message"
| "exc_str fl (OtherError message delay) = message"

text \<open>\<open>build_provider_admission_exception\<close>; a failed \<open>assert\<close> is an error.\<close>

definition build_provider_admission_exception :: "decision \<Rightarrow> string \<Rightarrow> string \<Rightarrow> provider_exc res" where
  "build_provider_admission_exception d provider model =
     (if d_reason d = Some ''profile_daily_budget_exceeded'' then
        (case (d_calls_last_day d, d_daily_limit d) of
           (Some calls, Some limit) \<Rightarrow> Inr (BudgetExceeded provider calls limit)
         | _ \<Rightarrow> Inl AssertionError)
      else if d_reason d = Some ''model_burst_limit_exceeded'' then
        (case (d_calls_in_window d, d_burst_limit d, d_burst_window d) of
           (Some calls, Some limit, Some window) \<Rightarrow> Inr (RateLimitExceeded model calls limit window (d_retry_delay d))
         | _ \<Rightarrow> Inl AssertionError)
      else (case (d_reason d, d_category d) of
           (Some code, Some category) \<Rightarrow>
             Inr (AdmissionDeferred provider model code category (d_retry_delay d) (d_error_text d))
         | _ \<Rightarrow> Inr (OtherError (''provider_admission_denied: provider_key='' @ provider @ '' model_name='' @ model) None)))"

section \<open>Classification\<close>

record outcome_reason =
  reason_code :: string
  reason_category :: string
  reason_retry_delay :: "real option"
  reason_error_text :: "string option"

definition outcome :: "string \<Rightarrow> string \<Rightarrow> real option \<Rightarrow> string \<Rightarrow> outcome_reason" where
  "outcome code category delay err = \<lparr>reason_code = code, reason_category = category,
     reason_retry_delay = delay, reason_error_text = Some err\<rparr>"

text \<open>\<open>looks_like_interactive_auth_prompt\<close> on a text.\<close>

definition looks_like_interactive_auth_prompt :: "string \<Rightarrow> bool" where
  "looks_like_interactive_auth_prompt text =
     (let lowered = py_lower text
      in str_contains ''opening authentication page in your browser'' lowered
         \<or> str_contains ''do you want to continue? [y/n]'' lowered
         \<or> str_contains ''interactive authentication required'' lowered)"

text \<open>The back-off branch: a \<open>ProviderBackoffError\<close>, or any exception with a numeric delay.\<close>

definition classify_backoff :: "string \<Rightarrow> real option \<Rightarrow> outcome_reason" where
  "classify_backoff text delay =
     (let lowered = py_lower text
      in if str_contains ''quota'' lowered \<or> str_contains ''quota_exhausted'' lowered
         then outcome ''provider_quota_exhausted'' ''upstream'' delay text
         else outcome ''provider_backoff_requested'' ''upstream'' delay text)"

definition classify_text :: "string \<Rightarrow> string option \<Rightarrow> string option \<Rightarrow> outcome_reason" where
  "classify_text text event_status raw =
     (let status = py_lower (py_strip (str_or event_status []));
          combined = py_lower (py_strip (text @ ''\<newline>'' @ str_or raw []))
      in if status = ''timeout'' then outcome ''provider_timeout'' ''transport'' None text
         else if status = ''parse_error'' then
           (if looks_like_interactive_auth_prompt combined
            then outcome ''interactive_auth_required'' ''auth'' None text
            else outcome ''invalid_json_response'' ''response'' None text)
         else if str_contains ''command not found'' combined
         then outcome ''provider_command_not_found'' ''environment'' None text
         else if str_contains ''command cancelled'' combined
         then outcome ''provider_cancelled'' ''cancellation'' None text
         else if str_prefix ''Exit code '' text \<or> str_prefix ''Terminated by signal'' text
         then outcome ''provider_subprocess_exit'' ''subprocess'' None text
         else outcome ''provider_execution_error'' ''execution'' None text)"

fun classify_provider_failure ::
  "(real \<Rightarrow> string) \<Rightarrow> provider_exc \<Rightarrow> string option \<Rightarrow> string option \<Rightarrow> outcome_reason" where
  "classify_provider_failure fl (AdmissionDeferred p m code category delay err) status raw =
     outcome code category delay (str_or err (exc_str fl (AdmissionDeferred p m code category delay err)))"
| "classify_provider_failure fl (BudgetExceeded p calls limit) status raw =
     outcome ''profile_daily_budget_exceeded'' ''admission'' None (exc_str fl (BudgetExceeded p calls limit))"
| "classify_provider_failure fl (RateLimitExceeded m calls limit window delay) status raw =
     outcome ''model_burst_limit_exceeded'' ''admission'' delay
       (exc_str fl (RateLimitExceeded m calls limit window delay))"
| "classify_provider_failure fl (AuthenticationRequired p err) status raw =
     outcome ''interactive_auth_required'' ''auth'' None (str_or err (exc_str fl (AuthenticationRequired p err)))"
| "classify_provider_failure fl (BackoffError message delay) status raw = classify_backoff message delay"
| "classify_provider_failure fl (OtherError message (Some delay)) status raw = classify_backoff message (Some delay)"
| "classify_provider_failure fl (OtherError message None) status raw = classify_text message status raw"

section \<open>Back-off\<close>

definition should_persist_admission_backoff :: "outcome_reason \<Rightarrow> bool" where
  "should_persist_admission_backoff r =
     (reason_category r = ''upstream'' \<and> (case reason_retry_delay r of None \<Rightarrow> False | Some d \<Rightarrow> d > 0))"

text \<open>What a failed call does to the admission states (\<open>ask_json\<close>, at its \<open>completed_at\<close>).\<close>

definition persist_backoff :: "string \<Rightarrow> string \<Rightarrow> time \<Rightarrow> outcome_reason \<Rightarrow> usage_db \<Rightarrow> usage_db" where
  "persist_backoff provider model completed_at r db =
     (if should_persist_admission_backoff r
      then upsert_admission_state \<lparr>st_provider_key = provider, st_model_name = model,
          st_reason_category = reason_category r, st_reason_code = reason_code r,
          st_error_text = reason_error_text r, st_retry_delay = reason_retry_delay r,
          st_active_until = completed_at + (case reason_retry_delay r of None \<Rightarrow> 0 | Some d \<Rightarrow> d),
          st_updated_at = completed_at\<rparr> db
      else db)"

end
