(* ===== verification/ProviderAdmissionProps.thy ===== *)
theory ProviderAdmissionProps
  imports ProviderAdmission
begin

text \<open>
  The properties of provider admission over the usage store: a denied call is reported the way it
  was decided, a back-off keeps a provider out exactly until its end, and the limits hold in every
  window of time.
\<close>

section \<open>The states of the store\<close>

definition backoff_codes :: "string set" where
  "backoff_codes = {''provider_quota_exhausted'', ''provider_backoff_requested''}"

definition state_ok :: "admission_state \<Rightarrow> bool" where
  "state_ok st = (st_reason_code st \<in> backoff_codes \<and> st_reason_category st = ''upstream'')"

definition usage_ok :: "usage_db \<Rightarrow> bool" where
  "usage_ok db = (distinct (map state_key (states db)) \<and> list_all state_ok (states db))"

text \<open>An exception of the provider itself: the admission errors are raised before its call.\<close>

fun raised_by_provider :: "provider_exc \<Rightarrow> bool" where
  "raised_by_provider (AdmissionDeferred _ _ _ _ _ _) = False"
| "raised_by_provider _ = True"

inductive usage_step :: "usage_db \<Rightarrow> usage_db \<Rightarrow> bool" where
  call: "usage_step db (record_call ws row db)"
| attempt: "usage_step db (db\<lparr>attempts := xs\<rparr>)"
| failure: "raised_by_provider e \<Longrightarrow>
    usage_step db (persist_backoff provider model t (classify_provider_failure fl e status raw) db)"
| clear: "usage_step db (clear_admission_state provider model db)"

definition usage_reach :: "usage_db \<Rightarrow> bool" where
  "usage_reach db = usage_step\<^sup>*\<^sup>* empty_usage_db db"

lemma record_call_fields [simp]:
  "states (record_call ws row db) = states db"
  "attempts (record_call ws row db) = attempts db"
  by (simp_all add: record_call_def split_def Let_def)

lemma record_call_usage:
  "\<exists>e a i. usage (record_call ws row db) = usage db @ [row\<lparr>u_workspace := ws, u_epoch := e, u_attempt := a,
     u_attempt_identity := i\<rparr>]"
  by (auto simp: record_call_def split_def Let_def)

lemma upsert_keys:
  "distinct (map state_key (states db)) \<Longrightarrow>
   distinct (map state_key (states (upsert_admission_state st db)))"
  by (auto simp: upsert_admission_state_def distinct_map inj_on_def)

lemma provider_backoff_code:
  assumes "raised_by_provider e" and "should_persist_admission_backoff (classify_provider_failure fl e status raw)"
  shows "reason_code (classify_provider_failure fl e status raw) \<in> backoff_codes
    \<and> reason_category (classify_provider_failure fl e status raw) = ''upstream''"
  using assms
  by (cases "(fl, e, status, raw)" rule: classify_provider_failure.cases)
    (simp_all add: should_persist_admission_backoff_def outcome_def classify_backoff_def classify_text_def
      backoff_codes_def Let_def split: if_splits)

lemma usage_step_ok: "usage_step db db' \<Longrightarrow> usage_ok db \<Longrightarrow> usage_ok db'"
proof (induction rule: usage_step.induct)
  case (failure e db provider model t fl status raw)
  then show ?case
    using provider_backoff_code [OF failure.hyps, of fl status raw] upsert_keys
    by (auto simp: usage_ok_def persist_backoff_def upsert_admission_state_def state_ok_def list_all_iff
        distinct_map inj_on_def)
next
  case (clear db provider model)
  then show ?case
    by (auto simp: usage_ok_def clear_admission_state_def list_all_iff distinct_map inj_on_def)
qed (simp_all add: usage_ok_def)

lemma usage_reach_ok: "usage_reach db \<Longrightarrow> usage_ok db"
  unfolding usage_reach_def
  by (induction rule: rtranclp_induct) (auto simp: usage_step_ok, simp add: usage_ok_def empty_usage_db_def)

lemma active_state_in:
  "get_active_admission_state clk provider model now db = Some st \<Longrightarrow>
     st \<in> set (states db) \<and> st_provider_key st = provider \<and> st_model_name st = model \<and> st_active_until st > now_or now clk"
proof -
  assume get: "get_active_admission_state clk provider model now db = Some st"
  then have "st \<in> set (list_active_admission_states clk now (Some provider) (Some model) db)"
    by (simp add: get_active_admission_state_def split: list.splits)
  then show ?thesis by (simp add: list_active_admission_states_def)
qed

section \<open>The contract of the port\<close>

text \<open>The three ways to be denied.\<close>

inductive denial :: "time \<Rightarrow> decision \<Rightarrow> bool" where
  active: "state_ok st \<Longrightarrow> st_active_until st > now \<Longrightarrow> denial now (deny_active (Some now) st)"
| budget: "calls \<ge> limit \<Longrightarrow> denial now (deny_budget calls limit)"
| burst: "calls \<ge> limit \<Longrightarrow> denial now (deny_burst calls limit w)"

locale usage_store =
  fixes port :: "'s usage_port" and good :: "'s \<Rightarrow> bool"
  assumes active: "good s \<Longrightarrow> p_active_state port provider model (Some now) s = Some st \<Longrightarrow>
    state_ok st \<and> st_active_until st > now"
begin

lemma denied_cases:
  assumes "good s" and "\<not> allowed (evaluate_provider_admission port provider budget model daily bl bw (Some now) s)"
  shows "denial now (evaluate_provider_admission port provider budget model daily bl bw (Some now) s)"
  using assms(2) active [OF assms(1)]
  by (auto simp: evaluate_provider_admission_def burst_decision_def decide_def Let_def not_less
      intro: denial.intros split: option.splits if_splits)

lemma denied_reported:
  assumes "good s" and "\<not> allowed (evaluate_provider_admission port provider budget model daily bl bw (Some now) s)"
    (is "\<not> allowed ?d")
  shows "\<exists>e. build_provider_admission_exception ?d budget model = Inr e
    \<and> d_reason ?d = Some (reason_code (classify_provider_failure fl e status raw))
    \<and> d_category ?d = Some (reason_category (classify_provider_failure fl e status raw))
    \<and> d_retry_delay ?d = reason_retry_delay (classify_provider_failure fl e status raw)
    \<and> (str_or (d_error_text ?d) [] \<noteq> [] \<longrightarrow> reason_error_text (classify_provider_failure fl e status raw) = d_error_text ?d)"
  using denied_cases [OF assms]
  by cases (auto simp: deny_active_def deny_budget_def deny_burst_def decide_def state_ok_def backoff_codes_def
      build_provider_admission_exception_def outcome_def str_or_def split: option.splits)

end

interpretation su: usage_store "sqlite_usage_port ws clk" usage_ok for ws clk
  by unfold_locales
    (auto simp: sqlite_usage_port_def usage_ok_def list_all_iff now_or_def dest!: active_state_in)


text \<open>A failure of the provider that asks to wait, as in the witnesses.\<close>

definition quota_failure :: outcome_reason where
  "quota_failure = classify_provider_failure (\<lambda>_. []) (BackoffError ''quota'' (Some 30)) None None"

lemma quota_failure_eq: "quota_failure = outcome ''provider_quota_exhausted'' ''upstream'' (Some 30) ''quota''"
  by (simp add: quota_failure_def classify_backoff_def py_lower_def char_lower_def str_prefix_def)

lemma quota_failure_persists: "should_persist_admission_backoff quota_failure"
  by (simp add: quota_failure_eq outcome_def should_persist_admission_backoff_def)


section \<open>Back-off\<close>

lemma active_after_upsert:
  assumes "distinct (map state_key (states db))"
  shows "get_active_admission_state clk provider model now (upsert_admission_state st db) =
    (if provider = st_provider_key st \<and> model = st_model_name st
     then if st_active_until st > now_or now clk then Some st else None
     else get_active_admission_state clk provider model now db)"
proof (cases "provider = st_provider_key st \<and> model = st_model_name st")
  case True
  then have "filter (\<lambda>s. st_active_until s > now_or now clk \<and> st_provider_key s = provider \<and> st_model_name s = model)
      (filter (\<lambda>s. state_key s \<noteq> state_key st) (states db)) = []"
    by (auto simp: filter_empty_conv state_key_def)
  with True show ?thesis
    by (simp add: get_active_admission_state_def list_active_admission_states_def upsert_admission_state_def
        order_by_def conj_commute del: filter_filter)
next
  case False
  then have "filter (\<lambda>s. st_active_until s > now_or now clk \<and> st_provider_key s = provider \<and> st_model_name s = model)
      (filter (\<lambda>s. state_key s \<noteq> state_key st) (states db)) =
      filter (\<lambda>s. st_active_until s > now_or now clk \<and> st_provider_key s = provider \<and> st_model_name s = model) (states db)"
    by (auto simp: filter_filter state_key_def intro!: filter_cong)
  with False show ?thesis
    by (simp add: get_active_admission_state_def list_active_admission_states_def upsert_admission_state_def
        del: filter_filter) auto
qed

lemma evaluate_cong:
  assumes "usage db' = usage db"
    and "get_active_admission_state clk provider model now db' = get_active_admission_state clk provider model now db"
  shows "evaluate_provider_admission (sqlite_usage_port ws clk) provider budget model daily bl bw now db' =
    evaluate_provider_admission (sqlite_usage_port ws clk) provider budget model daily bl bw now db"
  using assms by (simp add: evaluate_provider_admission_def sqlite_usage_port_def burst_decision_def
      count_recent_calls_def count_recent_model_calls_def Let_def split: option.split)

text \<open>A back-off holds exactly until its end: after a failure that asks to wait \<open>delay\<close> seconds,
  every call to that provider and model before that is denied, for the reason of the failure and
  with the time that is left; from then on no state keeps it out; and the admission of every other
  provider or model is what it was.\<close>

lemma backoff_holds_until_its_end:
  assumes "usage_reach db" and "should_persist_admission_backoff r" and "reason_retry_delay r = Some delay"
    and "db' = persist_backoff provider model failed_at r db"
  shows "(\<forall>now. now < failed_at + delay \<longrightarrow>
      (let d = evaluate_provider_admission (sqlite_usage_port ws clk) provider budget model daily bl bw (Some now) db'
       in \<not> allowed d \<and> d_reason d = Some (reason_code r) \<and> d_retry_delay d = Some (failed_at + delay - now)))
    \<and> (\<forall>now. failed_at + delay \<le> now \<longrightarrow> get_active_admission_state clk provider model (Some now) db' = None)
    \<and> (\<forall>provider' model'. (provider', model') \<noteq> (provider, model) \<longrightarrow>
         evaluate_provider_admission (sqlite_usage_port ws clk) provider' budget model' daily bl bw now db' =
         evaluate_provider_admission (sqlite_usage_port ws clk) provider' budget model' daily bl bw now db)"
proof -
  have keys: "distinct (map state_key (states db))" using usage_reach_ok [OF assms(1)] by (simp add: usage_ok_def)
  have usage: "usage db' = usage db"
    by (simp add: assms(4) persist_backoff_def upsert_admission_state_def)
  note get = active_after_upsert [OF keys]
  note db' = assms(4) [unfolded persist_backoff_def if_P [OF assms(2)]]
  have other: "evaluate_provider_admission (sqlite_usage_port ws clk) provider' budget model' daily bl bw now db' =
      evaluate_provider_admission (sqlite_usage_port ws clk) provider' budget model' daily bl bw now db"
    if "(provider', model') \<noteq> (provider, model)" for provider' model'
    using that by (intro evaluate_cong usage) (auto simp: db' get)
  show ?thesis
    using other by (auto simp: evaluate_provider_admission_def sqlite_usage_port_def get db' now_or_def assms(3)
        deny_active_def decide_def Let_def)
qed

theorem backoff_holds_until_its_end_witness:
  "d_retry_delay (evaluate_provider_admission (sqlite_usage_port None 0) ''p'' ''p'' ''m'' None None None (Some 10)
     (persist_backoff ''p'' ''m'' 0 quota_failure empty_usage_db)) = Some 20"
proof -
  have "usage_reach empty_usage_db" by (simp add: usage_reach_def)
  moreover have "reason_retry_delay quota_failure = Some 30" by (simp add: quota_failure_eq outcome_def)
  ultimately show ?thesis
    using backoff_holds_until_its_end [where failed_at = 0 and provider = "''p''" and model = "''m''" and ws = None
        and clk = 0 and budget = "''p''" and daily = None and bl = None and bw = None, OF _ quota_failure_persists _ refl]
    by (auto simp: Let_def)
qed

section \<open>Limits\<close>

text \<open>The calls selected by \<open>p\<close> that went out between \<open>t - w\<close> and \<open>t\<close>.\<close>

definition calls_between :: "string option \<Rightarrow> (usage_row \<Rightarrow> bool) \<Rightarrow> real \<Rightarrow> time \<Rightarrow> usage_db \<Rightarrow> nat" where
  "calls_between ws p w t db = rowcount (\<lambda>r. p r \<and> counted ws (t - w) r \<and> u_created_at r \<le> t) (usage db)"

text \<open>
  Calls one after the other, for a budget \<open>b\<close> with its daily limit and a model \<open>m\<close> with its burst
  limit: a call is recorded when it ends, after it was admitted, and nothing else is recorded in
  between; skipped calls are recorded without an admission.
\<close>

inductive guarded_step :: "string option \<Rightarrow> string \<Rightarrow> int \<Rightarrow> string \<Rightarrow> int \<Rightarrow> real \<Rightarrow> usage_db \<Rightarrow> usage_db \<Rightarrow> bool"
  for ws b L m B W where
  admitted: "allowed (evaluate_provider_admission (sqlite_usage_port ws clk) provider budget model daily bl bw (Some t) db)
    \<Longrightarrow> u_provider_key row \<in> set (budget_keys b) \<longrightarrow> budget = b \<and> daily = Some L
    \<Longrightarrow> u_model_name row = m \<longrightarrow> model = m \<and> bl = Some B \<and> bw = Some W
    \<Longrightarrow> t \<le> u_created_at row \<Longrightarrow> guarded_step ws b L m B W db (record_call ws row db)"
| skipped: "u_status row = ''skipped'' \<Longrightarrow> guarded_step ws b L m B W db (record_call ws row db)"
| other: "usage db' = usage db \<Longrightarrow> guarded_step ws b L m B W db db'"

lemma rowcount_append [simp]: "rowcount p (xs @ ys) = rowcount p xs + rowcount p ys"
  by (simp add: rowcount_def)

lemma rowcount_mono: "(\<And>r. p r \<Longrightarrow> q r) \<Longrightarrow> rowcount p rows \<le> rowcount q rows"
  by (induction rows) auto

lemma allowed_below:
  assumes "allowed (evaluate_provider_admission (sqlite_usage_port ws clk) provider budget model daily bl bw (Some t) db)"
  shows "daily = Some L \<Longrightarrow> count_recent_calls ws clk (budget_keys budget) (Some t) 86400 db < L"
    and "bl = Some B \<Longrightarrow> bw = Some W \<Longrightarrow> count_recent_model_calls ws clk [model] (Some t) W db < B"
  using assms by (auto simp: evaluate_provider_admission_def sqlite_usage_port_def burst_decision_def deny_active_def
      deny_budget_def deny_burst_def decide_def Let_def split: option.splits if_splits)

text \<open>One more call keeps a limit, if fewer calls than the limit were counted when it was admitted.\<close>

lemma call_keeps_limit:
  assumes "p row \<Longrightarrow> int (rowcount (\<lambda>r. p r \<and> counted ws (t0 - w) r) (usage db)) < limit"
    and "\<And>r e a i. p (r\<lparr>u_workspace := ws, u_epoch := e, u_attempt := a, u_attempt_identity := i\<rparr>) = p r"
    and "t0 \<le> u_created_at row" and "int (calls_between ws p w t db) \<le> limit"
  shows "int (calls_between ws p w t (record_call ws row db)) \<le> limit"
proof -
  obtain e a i where new: "usage (record_call ws row db) = usage db @ [row\<lparr>u_workspace := ws, u_epoch := e,
      u_attempt := a, u_attempt_identity := i\<rparr>]"
    using record_call_usage by blast
  show ?thesis
  proof (cases "p row \<and> u_created_at row \<le> t")
    case True
    with assms(3) have "t0 \<le> t" by simp
    then have "calls_between ws p w t db \<le> rowcount (\<lambda>r. p r \<and> counted ws (t0 - w) r) (usage db)"
      unfolding calls_between_def by (intro rowcount_mono) (auto simp: counted_def split: option.splits)
    then have "int (calls_between ws p w t db) < limit" using assms(1) True by linarith
    then show ?thesis by (simp add: calls_between_def new)
  next
    case False
    then show ?thesis using assms(2,4) by (auto simp: calls_between_def new)
  qed
qed

text \<open>C10. The limits hold in every window of time: with calls one after the other, whatever is
  skipped and whatever states come and go in between, no 24 hours ever see more than the daily
  limit of calls on the budget, and no burst window more than the burst limit of calls of the
  model.\<close>

theorem admission_limits_hold:
  assumes "(guarded_step ws b L m B W)\<^sup>*\<^sup>* empty_usage_db db" and "0 \<le> L" and "0 \<le> B"
  shows "int (calls_between ws (\<lambda>r. u_provider_key r \<in> set (budget_keys b)) 86400 t db) \<le> L
    \<and> int (calls_between ws (\<lambda>r. u_model_name r = m) W t db) \<le> B"
  using assms(1)
proof (induction rule: rtranclp_induct)
  case base
  show ?case using assms(2,3) by (simp add: calls_between_def empty_usage_db_def)
next
  case (step db db')
  from step.hyps(2) show ?case
  proof cases
    case (admitted clk provider budget model daily bl bw t0 row)
    note below = allowed_below [OF admitted(2)]
    have "int (calls_between ws (\<lambda>r. u_provider_key r \<in> set (budget_keys b)) 86400 t db') \<le> L"
      unfolding admitted(1) using below(1) admitted(3,5) step.IH
      by (intro call_keeps_limit [where ?t0.0 = t0]) (auto simp: count_recent_calls_def budget_keys_def now_or_def)
    moreover have "int (calls_between ws (\<lambda>r. u_model_name r = m) W t db') \<le> B"
      unfolding admitted(1) using below(2) admitted(4,5) step.IH
      by (intro call_keeps_limit [where ?t0.0 = t0]) (auto simp: count_recent_model_calls_def now_or_def)
    ultimately show ?thesis ..
  next
    case (skipped row)
    obtain e a i where new: "usage db' = usage db @ [row\<lparr>u_workspace := ws, u_epoch := e, u_attempt := a,
        u_attempt_identity := i\<rparr>]"
      using record_call_usage skipped(1) by blast
    show ?thesis using step.IH skipped(2) by (simp add: calls_between_def new counted_def)
  next
    case other
    with step.IH show ?thesis by (simp add: calls_between_def)
  qed
qed

definition demo_call :: usage_row where
  "demo_call = \<lparr>u_workspace = None, u_task_name = None, u_task_id = None, u_epoch = None, u_packet = None,
     u_request_id = None, u_attempt = None, u_attempt_identity = None, u_pid = None, u_provider_key = ''p'',
     u_provider_name = ''P'', u_model_name = ''m'', u_status = ''ok'', u_duration = 1, u_created_at = 5,
     u_error_text = None, u_reason_category = None, u_reason_code = None, u_retry_delay = None, u_tokens = None\<rparr>"

theorem admission_limits_hold_witness:
  "calls_between None (\<lambda>r. u_model_name r = ''m'') 60 5 (record_call None demo_call empty_usage_db) \<le> 1"
proof -
  have "guarded_step None ''p'' 1 ''m'' 1 60 empty_usage_db (record_call None demo_call empty_usage_db)"
    by (rule guarded_step.admitted [where t = 4 and budget = "''p''" and model = "''m''" and daily = "Some 1"
        and bl = "Some 1" and bw = "Some 60" and clk = 0 and provider = "''p''"])
      (simp_all add: demo_call_def evaluate_provider_admission_def sqlite_usage_port_def burst_decision_def decide_def
        get_active_admission_state_def list_active_admission_states_def order_by_def empty_usage_db_def
        count_recent_calls_def count_recent_model_calls_def rowcount_def)
  then have "(guarded_step None ''p'' 1 ''m'' 1 60)\<^sup>*\<^sup>* empty_usage_db (record_call None demo_call empty_usage_db)"
    by (rule r_into_rtranclp)
  then show ?thesis
    using admission_limits_hold [of None "''p''" 1 "''m''" 1 60 "record_call None demo_call empty_usage_db" 5] by simp
qed

end
