(* ===== verification/BufferedWriter.thy ===== *)
theory BufferedWriter
  imports Prelude
begin

text \<open>
  The buffered writer, \<open>storage/buffered_writer.py\<close>: clients append items to a bounded buffer
  and a worker thread hands them over in batches. The state is what the condition variable
  protects, plus where the worker stands; each definition is what one thread does while it holds
  the lock, so the interleavings of the threads are the sequences of these steps. A
  \<open>Condition\<close> wakes a thread in \<open>wait()\<close> only when it is notified.
\<close>

section \<open>Configuration and state\<close>

record writer_config =
  writer_name :: string
  low_watermark :: int
  high_watermark :: int
  flush_interval :: real
  max_queue_size :: "int option"

definition make_config :: "string \<Rightarrow> int \<Rightarrow> int \<Rightarrow> real \<Rightarrow> int option \<Rightarrow> writer_config" where
  "make_config name low high interval maxq =
     (let l = max low 1; h = max high l
      in \<lparr>writer_name = name, low_watermark = l, high_watermark = h, flush_interval = max interval 0,
          max_queue_size = map_option (\<lambda>m. max m h) maxq\<rparr>)"

text \<open>
  Where the worker is: at the top of the loop of \<open>_take_batch\<close>; in its timed or its untimed
  \<open>wait\<close>; inside \<open>_write_batch\<close>, without the lock; at the \<open>finally\<close>, with the exception that is
  under way, if any; past it, before \<open>_worker_error\<close> is set; or gone.
\<close>

datatype 'a worker =
    AtCheck
  | TimedWait
  | Idle
  | Writing "'a list"
  | AtFinally "string option"
  | AtExcept string
  | Exited

text \<open>\<open>bw_accepted\<close>, \<open>bw_written\<close> and \<open>bw_lost\<close> are history: the items ever accepted, those in
  batches that \<open>_write_batch\<close> took without an exception, and those in the batch it raised on.\<close>

record 'a writer =
  bw_pending :: "'a list"
  bw_inflight :: int
  bw_flush_requested :: bool
  bw_closed :: bool
  bw_error :: "string option"
  bw_worker :: "'a worker"
  bw_accepted :: "'a list"
  bw_written :: "'a list"
  bw_lost :: "'a list"

definition new_writer :: "'a writer" where
  "new_writer = \<lparr>bw_pending = [], bw_inflight = 0, bw_flush_requested = False, bw_closed = False,
     bw_error = None, bw_worker = AtCheck, bw_accepted = [], bw_written = [], bw_lost = []\<rparr>"

text \<open>\<open>notify_all\<close>, as far as the worker goes: clients and the timed wait may wake at any time.\<close>

definition notify_all :: "'a writer \<Rightarrow> 'a writer" where
  "notify_all s = (if bw_worker s = Idle then s\<lparr>bw_worker := AtCheck\<rparr> else s)"

definition failed_text :: "writer_config \<Rightarrow> string" where
  "failed_text c = ''Buffered writer '' @ writer_name c @ '' failed''"

definition worker_failed :: "writer_config \<Rightarrow> 'a writer \<Rightarrow> unit res" where
  "worker_failed c s = (case bw_error s of None \<Rightarrow> Inr () | Some _ \<Rightarrow> Inl (RuntimeError (failed_text c)))"

section \<open>Clients\<close>

text \<open>A client call under the lock returns \<open>None\<close> where the thread has to wait and will check
  again when it wakes.\<close>

definition write_many :: "writer_config \<Rightarrow> 'a list \<Rightarrow> 'a writer \<Rightarrow> unit res option \<times> 'a writer" where
  "write_many c items s =
     (if items = [] then (Some (Inr ()), s)
      else if bw_closed s then (Some (Inl (RuntimeError (''Buffered writer '' @ writer_name c @ '' is closed''))), s)
      else if bw_error s \<noteq> None then (Some (worker_failed c s), s)
      else if (case max_queue_size c of None \<Rightarrow> False
               | Some m \<Rightarrow> int (length (bw_pending s)) + int (length items) > m) then (None, s)
      else let s' = s\<lparr>bw_pending := bw_pending s @ items, bw_accepted := bw_accepted s @ items\<rparr>
           in (Some (Inr ()), if int (length (bw_pending s')) \<ge> low_watermark c then notify_all s' else s'))"

definition write_one :: "writer_config \<Rightarrow> 'a \<Rightarrow> 'a writer \<Rightarrow> unit res option \<times> 'a writer" where
  "write_one c item s = write_many c [item] s"

definition drained :: "'a writer \<Rightarrow> bool" where
  "drained s = (bw_pending s = [] \<and> bw_inflight s = 0)"

text \<open>\<open>flush\<close>: its first part, and the check of its waiting loop; \<open>timed_out\<close> says that the
  deadline has passed.\<close>

definition flush_check :: "writer_config \<Rightarrow> bool \<Rightarrow> 'a writer \<Rightarrow> unit res option" where
  "flush_check c timed_out s =
     (if \<not> drained s \<and> bw_error s = None
      then (if timed_out then Some (Inl (TimeoutError (''Timed out flushing buffered writer '' @ writer_name c))) else None)
      else Some (worker_failed c s))"

definition flush_begin :: "writer_config \<Rightarrow> bool \<Rightarrow> 'a writer \<Rightarrow> unit res option \<times> 'a writer" where
  "flush_begin c timed_out s =
     (if bw_error s \<noteq> None then (Some (worker_failed c s), s)
      else if drained s then (Some (Inr ()), s)
      else let s' = notify_all (s\<lparr>bw_flush_requested := True\<rparr>) in (flush_check c timed_out s', s'))"

text \<open>\<open>close\<close>: before \<open>join\<close>, which returns once the worker is gone, and after it.\<close>

definition close_begin :: "'a writer \<Rightarrow> unit res option \<times> 'a writer" where
  "close_begin s =
     (if bw_closed s then (Some (Inr ()), s)
      else (None, notify_all (s\<lparr>bw_flush_requested := True, bw_closed := True\<rparr>)))"

definition close_end :: "writer_config \<Rightarrow> 'a writer \<Rightarrow> unit res option" where
  "close_end c s = (if bw_worker s = Exited then Some (worker_failed c s) else None)"

section \<open>The worker\<close>

definition take_now :: "writer_config \<Rightarrow> 'a writer \<Rightarrow> 'a writer" where
  "take_now c s =
     (let n = nat (min (int (length (bw_pending s))) (high_watermark c));
          rest = drop n (bw_pending s)
      in s\<lparr>bw_pending := rest, bw_inflight := bw_inflight s + 1,
           bw_flush_requested := (bw_flush_requested s \<and> rest \<noteq> []),
           bw_worker := Writing (take n (bw_pending s))\<rparr>)"

definition take_batch_check :: "writer_config \<Rightarrow> 'a writer \<Rightarrow> 'a writer" where
  "take_batch_check c s =
     (if bw_error s \<noteq> None then s\<lparr>bw_worker := AtExcept (failed_text c)\<rparr>
      else if bw_closed s \<and> bw_pending s = [] \<and> bw_inflight s = 0 then s\<lparr>bw_worker := Exited\<rparr>
      else if bw_pending s \<noteq> [] \<and> (bw_flush_requested s \<or> int (length (bw_pending s)) \<ge> low_watermark c
                                \<or> flush_interval c = 0) then take_now c s
      else if bw_pending s \<noteq> [] \<and> flush_interval c > 0 then s\<lparr>bw_worker := TimedWait\<rparr>
      else s\<lparr>bw_worker := Idle\<rparr>)"

text \<open>
  One step of the worker; \<open>raised\<close> is the exception of \<open>_write_batch\<close>, if it is in there and
  raises one. \<open>None\<close>: the worker cannot move, since it waits for a notification or is gone.
\<close>

definition worker_step :: "writer_config \<Rightarrow> string option \<Rightarrow> 'a writer \<Rightarrow> 'a writer option" where
  "worker_step c raised s =
     (case bw_worker s of
        AtCheck \<Rightarrow> Some (take_batch_check c s)
      | TimedWait \<Rightarrow> Some (if bw_pending s \<noteq> [] then take_now c s else s\<lparr>bw_worker := AtCheck\<rparr>)
      | Idle \<Rightarrow> None
      | Writing batch \<Rightarrow>
          Some (case raised of
                  None \<Rightarrow> s\<lparr>bw_worker := AtFinally None, bw_written := bw_written s @ batch\<rparr>
                | Some e \<Rightarrow> s\<lparr>bw_worker := AtFinally (Some e), bw_lost := bw_lost s @ batch\<rparr>)
      | AtFinally exc \<Rightarrow>
          Some (s\<lparr>bw_inflight := bw_inflight s - 1,
                  bw_worker := (case exc of None \<Rightarrow> AtCheck | Some e \<Rightarrow> AtExcept e)\<rparr>)
      | AtExcept e \<Rightarrow> Some (s\<lparr>bw_error := Some e, bw_worker := Exited\<rparr>)
      | Exited \<Rightarrow> None)"

section \<open>Interleavings\<close>

inductive writer_step :: "writer_config \<Rightarrow> 'a writer \<Rightarrow> 'a writer \<Rightarrow> bool" for c where
  client_write: "writer_step c s (snd (write_many c items s))"
| client_flush: "writer_step c s (snd (flush_begin c timed_out s))"
| client_close: "writer_step c s (snd (close_begin s))"
| worker_moves: "worker_step c raised s = Some s' \<Longrightarrow> writer_step c s s'"

definition writer_reach :: "writer_config \<Rightarrow> 'a writer \<Rightarrow> bool" where
  "writer_reach c s = (writer_step c)\<^sup>*\<^sup>* new_writer s"

end
