(* ===== verification/BufferedWriterProps.thy ===== *)
theory BufferedWriterProps
  imports BufferedWriter
begin

text \<open>
  The properties of the buffered writer: nothing is lost, doubled or reordered, closing drains the
  buffer, and what a \<open>flush\<close> that returns promises, and what it does not.
\<close>

section \<open>Invariant\<close>

fun current_batch :: "'a worker \<Rightarrow> 'a list" where
  "current_batch (Writing batch) = batch"
| "current_batch _ = []"

fun holds_batch :: "'a worker \<Rightarrow> bool" where
  "holds_batch (Writing batch) = True"
| "holds_batch (AtFinally e) = True"
| "holds_batch _ = False"

text \<open>The failed batch is the last one: the worker is on its way out, or gone with the error set.\<close>

definition failing :: "'a writer \<Rightarrow> bool" where
  "failing s = (case bw_worker s of
       AtFinally (Some e) \<Rightarrow> True
     | AtExcept e \<Rightarrow> True
     | Exited \<Rightarrow> bw_error s \<noteq> None
     | _ \<Rightarrow> False)"

definition config_ok :: "writer_config \<Rightarrow> bool" where
  "config_ok c = (1 \<le> low_watermark c \<and> low_watermark c \<le> high_watermark c \<and> 0 \<le> flush_interval c
     \<and> (\<forall>m. max_queue_size c = Some m \<longrightarrow> high_watermark c \<le> m))"

definition writer_inv :: "writer_config \<Rightarrow> 'a writer \<Rightarrow> bool" where
  "writer_inv c s =
     (bw_accepted s = bw_written s @ bw_lost s @ current_batch (bw_worker s) @ bw_pending s
      \<and> bw_inflight s = (if holds_batch (bw_worker s) then 1 else 0)
      \<and> (bw_lost s \<noteq> [] \<longleftrightarrow> failing s)
      \<and> (bw_error s \<noteq> None \<longrightarrow> bw_worker s = Exited)
      \<and> (bw_worker s = Exited \<and> bw_error s = None \<longrightarrow> bw_closed s \<and> bw_pending s = [])
      \<and> (bw_worker s = Idle \<longrightarrow> \<not> bw_closed s)
      \<and> (bw_closed s \<and> bw_pending s \<noteq> [] \<longrightarrow> bw_flush_requested s)
      \<and> (\<forall>batch. bw_worker s = Writing batch \<longrightarrow> batch \<noteq> [] \<and> int (length batch) \<le> high_watermark c)
      \<and> (\<forall>m. max_queue_size c = Some m \<longrightarrow> int (length (bw_pending s)) \<le> m))"

lemma make_config_ok [simp]: "config_ok (make_config name low high interval maxq)"
  by (auto simp: config_ok_def make_config_def Let_def split: option.split)

lemma writer_inv_new: "config_ok c \<Longrightarrow> writer_inv c new_writer"
  by (auto simp: writer_inv_def new_writer_def failing_def config_ok_def split: option.split)

lemma writer_inv_notify:
  "writer_inv c s \<Longrightarrow> writer_inv c (notify_all s)"
  by (auto simp: writer_inv_def notify_all_def failing_def split: worker.splits option.splits)

lemma writer_inv_write: "config_ok c \<Longrightarrow> writer_inv c s \<Longrightarrow> writer_inv c (snd (write_many c items s))"
  by (auto simp: write_many_def Let_def intro!: writer_inv_notify)
    (auto simp: writer_inv_def failing_def split: worker.splits option.splits)

lemma writer_inv_flush: "writer_inv c s \<Longrightarrow> writer_inv c (snd (flush_begin c timed_out s))"
  by (auto simp: flush_begin_def Let_def intro!: writer_inv_notify)
    (auto simp: writer_inv_def failing_def split: worker.splits option.splits)

lemma writer_inv_close: "writer_inv c s \<Longrightarrow> writer_inv c (snd (close_begin s))"
  by (auto simp: close_begin_def notify_all_def writer_inv_def failing_def split: worker.splits option.splits)

lemma take_now_batch:
  assumes "config_ok c" and "bw_pending s \<noteq> []"
  shows "\<exists>batch rest. bw_pending s = batch @ rest \<and> batch \<noteq> [] \<and> int (length batch) \<le> high_watermark c
    \<and> take_now c s = s\<lparr>bw_pending := rest, bw_inflight := bw_inflight s + 1,
         bw_flush_requested := (bw_flush_requested s \<and> rest \<noteq> []), bw_worker := Writing batch\<rparr>"
proof -
  define n where "n = nat (min (int (length (bw_pending s))) (high_watermark c))"
  have high: "1 \<le> high_watermark c" using assms(1) by (simp add: config_ok_def)
  have n: "0 < n" "int n \<le> high_watermark c" using high assms(2) by (simp_all add: n_def)
  have now: "take_now c s = s\<lparr>bw_pending := drop n (bw_pending s), bw_inflight := bw_inflight s + 1,
      bw_flush_requested := (bw_flush_requested s \<and> drop n (bw_pending s) \<noteq> []),
      bw_worker := Writing (take n (bw_pending s))\<rparr>"
    by (simp only: take_now_def Let_def n_def)
  have "take n (bw_pending s) \<noteq> []" using n(1) assms(2) by simp
  moreover have "int (length (take n (bw_pending s))) \<le> high_watermark c" using n(2) by simp
  ultimately show ?thesis
    unfolding now by (metis append_take_drop_id)
qed

lemma writer_inv_take:
  assumes "config_ok c" and "writer_inv c s" and "bw_pending s \<noteq> []" and "bw_worker s = AtCheck \<or> bw_worker s = TimedWait"
  shows "writer_inv c (take_now c s)"
proof -
  obtain batch rest where split: "bw_pending s = batch @ rest" "batch \<noteq> []" "int (length batch) \<le> high_watermark c"
    and now: "take_now c s = s\<lparr>bw_pending := rest, bw_inflight := bw_inflight s + 1,
      bw_flush_requested := (bw_flush_requested s \<and> rest \<noteq> []), bw_worker := Writing batch\<rparr>"
    using take_now_batch [OF assms(1,3)] by blast
  note inv = assms(2) [unfolded writer_inv_def]
  have idle: "current_batch (bw_worker s) = []" "\<not> holds_batch (bw_worker s)" "\<not> failing s" "bw_worker s \<noteq> Exited"
    using assms(4) by (auto simp: failing_def)
  have "bw_lost s = []" "bw_error s = None" "bw_inflight s = 0" using inv idle by auto
  moreover have "bw_accepted s = bw_written s @ batch @ rest" using inv idle split(1) by auto
  moreover have "bw_closed s \<longrightarrow> bw_flush_requested s" using inv assms(3) by auto
  moreover have "int (length rest) \<le> m" if "max_queue_size c = Some m" for m
    using inv split(1) that by auto
  ultimately show ?thesis
    unfolding now writer_inv_def using split(2,3) by (simp add: failing_def)
qed

lemma writer_inv_check:
  assumes "config_ok c" and "writer_inv c s" and "bw_worker s = AtCheck"
  shows "writer_inv c (take_batch_check c s)"
proof -
  note inv = assms(2) [unfolded writer_inv_def]
  have idle: "bw_lost s = []" "bw_error s = None" "bw_inflight s = 0" "bw_accepted s = bw_written s @ bw_pending s"
    using inv assms(3) by (auto simp: failing_def)
  have keep: "writer_inv c (s\<lparr>bw_worker := w\<rparr>)" if "w = Exited \<and> bw_closed s \<and> bw_pending s = []
      \<or> w = Idle \<and> \<not> bw_closed s \<or> w = TimedWait" for w
    using that inv idle assms(3) unfolding writer_inv_def by (elim disjE; simp add: failing_def)
  consider "bw_closed s \<and> bw_pending s = []" | "bw_pending s \<noteq> []" | "\<not> bw_closed s \<and> bw_pending s = []" by blast
  then show ?thesis
  proof cases
    case 1
    then show ?thesis using keep [of Exited] idle by (simp add: take_batch_check_def)
  next
    case 2
    moreover have "flush_interval c = 0 \<or> flush_interval c > 0" using assms(1) by (auto simp: config_ok_def)
    ultimately show ?thesis
      using keep [of TimedWait] writer_inv_take [OF assms(1,2) 2] assms(3) idle by (auto simp: take_batch_check_def)
  next
    case 3
    then show ?thesis using keep [of Idle] idle by (simp add: take_batch_check_def)
  qed
qed

lemma writer_inv_worker:
  assumes c: "config_ok c" and inv: "writer_inv c s" and step: "worker_step c raised s = Some s'"
  shows "writer_inv c s'"
proof (cases "bw_worker s")
  case AtCheck
  with step show ?thesis using writer_inv_check [OF c inv] by (simp add: worker_step_def)
next
  case TimedWait
  show ?thesis
  proof (cases "bw_pending s = []")
    case True
    then show ?thesis using step inv TimedWait by (simp add: worker_step_def writer_inv_def failing_def) auto
  next
    case False
    then show ?thesis using step TimedWait writer_inv_take [OF c inv] by (simp add: worker_step_def)
  qed
next
  case (Writing batch)
  then show ?thesis
    using step inv by (cases raised) (auto simp: worker_step_def writer_inv_def failing_def)
next
  case (AtFinally e)
  then show ?thesis
    using step inv by (cases e) (auto simp: worker_step_def writer_inv_def failing_def)
next
  case (AtExcept e)
  then show ?thesis using step inv by (auto simp: worker_step_def writer_inv_def failing_def)
qed (use step in \<open>simp_all add: worker_step_def\<close>)

lemma writer_step_inv: "writer_step c s s' \<Longrightarrow> config_ok c \<Longrightarrow> writer_inv c s \<Longrightarrow> writer_inv c s'"
  by (induction rule: writer_step.induct)
    (simp_all add: writer_inv_write writer_inv_flush writer_inv_close writer_inv_worker)

lemma writer_reach_inv:
  assumes "config_ok c" and "writer_reach c s"
  shows "writer_inv c s"
  using assms(2) unfolding writer_reach_def
  by (induction rule: rtranclp_induct) (auto intro: writer_step_inv assms(1) writer_inv_new)

text \<open>C8. Nothing is lost, doubled or reordered: under every interleaving of clients and worker,
  the items accepted are, in their order, those written, those of a batch whose write failed,
  those being written and those pending. At most one batch is under way, none is empty or above
  the high watermark, the buffer keeps to its maximum size, and after a failure no batch is
  taken any more.\<close>

theorem writer_accounting:
  assumes "writer_reach (make_config name low high interval maxq) s"
  shows "bw_accepted s = bw_written s @ bw_lost s @ current_batch (bw_worker s) @ bw_pending s
    \<and> bw_inflight s \<in> {0, 1}
    \<and> (\<forall>batch. bw_worker s = Writing batch \<longrightarrow>
         batch \<noteq> [] \<and> int (length batch) \<le> max high (max low 1) \<and> bw_lost s = [])
    \<and> (\<forall>m. maxq = Some m \<longrightarrow> int (length (bw_pending s)) \<le> max m (max high (max low 1)))
    \<and> (bw_error s \<noteq> None \<longrightarrow> bw_worker s = Exited)"
  using writer_reach_inv [OF make_config_ok assms]
  by (auto simp: writer_inv_def failing_def make_config_def Let_def)

definition one_written :: "nat writer" where
  "one_written = \<lparr>bw_pending = [], bw_inflight = 1, bw_flush_requested = False, bw_closed = False,
     bw_error = None, bw_worker = AtFinally None, bw_accepted = [7], bw_written = [7], bw_lost = []\<rparr>"

definition one_taken :: "nat writer" where
  "one_taken = \<lparr>bw_pending = [], bw_inflight = 1, bw_flush_requested = False, bw_closed = False,
     bw_error = None, bw_worker = Writing [7], bw_accepted = [7], bw_written = [], bw_lost = []\<rparr>"

definition plain_config :: writer_config where
  "plain_config = make_config [] 1 64 (1 / 20) None"

lemma one_taken_reached: "writer_reach plain_config one_taken"
proof -
  let ?s1 = "snd (write_many plain_config [7::nat] new_writer)"
  have s1: "?s1 = new_writer\<lparr>bw_pending := [7], bw_accepted := [7]\<rparr>"
    by (simp add: write_many_def plain_config_def make_config_def new_writer_def notify_all_def)
  have "writer_step plain_config new_writer ?s1" by (rule writer_step.client_write)
  moreover have "writer_step plain_config ?s1 one_taken"
    unfolding s1 by (rule writer_step.worker_moves [where raised = None])
      (simp add:  worker_step_def take_batch_check_def take_now_def plain_config_def make_config_def
        new_writer_def one_taken_def)
  ultimately show ?thesis unfolding writer_reach_def by (rule converse_rtranclp_into_rtranclp [OF _ r_into_rtranclp])
qed

theorem writer_accounting_witness: "bw_accepted one_taken = bw_written one_taken @ [7] @ bw_pending one_taken"
  using writer_accounting [OF one_taken_reached [unfolded plain_config_def]] by (simp add: one_taken_def)

section \<open>Closing\<close>

text \<open>The worker on its own, with every write a success.\<close>

fun worker_run :: "writer_config \<Rightarrow> nat \<Rightarrow> 'a writer \<Rightarrow> 'a writer" where
  "worker_run c 0 s = s"
| "worker_run c (Suc n) s = (case worker_step c None s of None \<Rightarrow> s | Some s' \<Rightarrow> worker_run c n s')"

fun steps_left :: "'a worker \<Rightarrow> nat" where
  "steps_left AtCheck = 1"
| "steps_left TimedWait = 2"
| "steps_left Idle = 2"
| "steps_left (Writing batch) = 3"
| "steps_left (AtFinally e) = 2"
| "steps_left (AtExcept e) = 1"
| "steps_left Exited = 0"

definition work_left :: "'a writer \<Rightarrow> nat" where
  "work_left s = 3 * length (bw_pending s) + steps_left (bw_worker s)"

lemma closing_step:
  assumes c: "config_ok c" and inv: "writer_inv c s" and closed: "bw_closed s" and good: "bw_lost s = []"
    and alive: "bw_worker s \<noteq> Exited"
  shows "\<exists>s'. worker_step c None s = Some s' \<and> work_left s' < work_left s \<and> bw_closed s' \<and> bw_lost s' = []
    \<and> bw_accepted s' = bw_accepted s"
proof -
  note facts = inv [unfolded writer_inv_def]
  have take: "work_left (take_now c s) < work_left s \<and> bw_closed (take_now c s) \<and> bw_lost (take_now c s) = []
      \<and> bw_accepted (take_now c s) = bw_accepted s" if pending: "bw_pending s \<noteq> []" and "1 \<le> steps_left (bw_worker s)"
  proof -
    obtain batch rest where "bw_pending s = batch @ rest" "batch \<noteq> []"
      and "take_now c s = s\<lparr>bw_pending := rest, bw_inflight := bw_inflight s + 1,
        bw_flush_requested := (bw_flush_requested s \<and> rest \<noteq> []), bw_worker := Writing batch\<rparr>"
      using take_now_batch [OF c pending] by blast
    then show ?thesis using that closed good by (cases batch) (simp_all add: work_left_def)
  qed
  show ?thesis
  proof (cases "bw_worker s")
    case AtCheck
    then have idle: "bw_error s = None" "bw_inflight s = 0" using facts by (auto simp: failing_def)
    show ?thesis
      using AtCheck idle take closed good facts
      by (cases "bw_pending s = []") (simp_all add: worker_step_def take_batch_check_def work_left_def)
  next
    case TimedWait
    then show ?thesis
      using take closed good by (cases "bw_pending s = []") (simp_all add: worker_step_def work_left_def)
  next
    case Idle
    then show ?thesis using facts closed by simp
  next
    case (AtFinally e)
    then show ?thesis
      using facts closed good by (cases e) (auto simp: worker_step_def work_left_def failing_def)
  next
    case (AtExcept e)
    then show ?thesis using facts good by (simp add: failing_def)
  qed (use closed good alive in \<open>simp_all add: worker_step_def work_left_def\<close>)
qed

lemma closing_run:
  assumes "config_ok c" and "writer_inv c s" and "bw_closed s" and "bw_lost s = []" and "work_left s \<le> n"
  shows "writer_inv c (worker_run c n s) \<and> bw_worker (worker_run c n s) = Exited \<and> bw_closed (worker_run c n s)
    \<and> bw_lost (worker_run c n s) = [] \<and> bw_accepted (worker_run c n s) = bw_accepted s"
  using assms(2-5)
proof (induction n arbitrary: s)
  case 0
  then have "bw_worker s = Exited" by (cases "bw_worker s") (simp_all add: work_left_def)
  with 0 show ?case by simp
next
  case (Suc n)
  show ?case
  proof (cases "bw_worker s = Exited")
    case True
    with Suc.prems show ?thesis by (simp add: worker_step_def)
  next
    case False
    obtain s' where step: "worker_step c None s = Some s'" and left: "work_left s' < work_left s"
      and keep: "bw_closed s'" "bw_lost s' = []" "bw_accepted s' = bw_accepted s"
      using closing_step [OF assms(1) Suc.prems(1-3) False] by blast
    have "writer_inv c s'" by (rule writer_inv_worker [OF assms(1) Suc.prems(1) step])
    then show ?thesis
      using Suc.IH [of s'] keep left Suc.prems(4) step by simp
  qed
qed

text \<open>C31. Closing drains: once the writer is closed, and if no write fails, the worker ends by
  itself within three steps for each pending item and three more; the \<open>close\<close> that waits for it
  returns without an error, and every item ever accepted has been written, in order.\<close>

theorem close_drains:
  assumes "writer_reach (make_config name low high interval maxq) s" and "bw_closed s" and "bw_lost s = []"
    and "3 * length (bw_pending s) + 3 \<le> n"
  shows "close_end (make_config name low high interval maxq) (worker_run (make_config name low high interval maxq) n s) = Some (Inr ())
    \<and> bw_written (worker_run (make_config name low high interval maxq) n s) = bw_accepted s"
proof -
  let ?c = "make_config name low high interval maxq"
  have inv: "writer_inv ?c s" by (rule writer_reach_inv [OF make_config_ok assms(1)])
  have "steps_left (bw_worker s) \<le> 3" by (cases "bw_worker s") simp_all
  then have "work_left s \<le> n" using assms(4) by (simp add: work_left_def)
  from closing_run [OF make_config_ok inv assms(2,3) this]
  show ?thesis
    by (auto simp: writer_inv_def failing_def close_end_def worker_failed_def split: option.splits)
qed

theorem close_drains_witness:
  "bw_written (worker_run (make_config [] 1 64 (1 / 20) None) 6 (snd (close_begin one_taken))) = [7]"
proof -
  have "writer_step plain_config one_taken (snd (close_begin one_taken))" by (rule writer_step.client_close)
  then have "writer_reach plain_config (snd (close_begin one_taken))"
    using one_taken_reached unfolding writer_reach_def by (rule rtranclp.rtrancl_into_rtrancl [rotated])
  then show ?thesis
    using close_drains [of "[]" 1 64 "1 / 20" None "snd (close_begin one_taken)" 6]
    by (simp add: plain_config_def close_begin_def one_taken_def notify_all_def)
qed

section \<open>Flushing\<close>

text \<open>What a returning \<open>flush\<close> promises: at that moment no item is pending and no batch under
  way, so every item accepted before is written, or was in the one batch that failed; and none was
  lost unless the worker is just about to report the failure.\<close>

lemma flush_returns_drained:
  assumes "writer_reach (make_config name low high interval maxq) s" and "flush_check (make_config name low high interval maxq) timed_out s = Some (Inr ())"
  shows "bw_accepted s = bw_written s @ bw_lost s \<and> bw_pending s = [] \<and> bw_inflight s = 0
    \<and> (bw_lost s \<noteq> [] \<longrightarrow> (\<exists>e. bw_worker s = AtExcept e))"
proof -
  note inv = writer_reach_inv [OF make_config_ok assms(1), unfolded writer_inv_def]
  have err: "bw_error s = None" and "bw_pending s = []" "bw_inflight s = 0"
    using assms(2) by (auto simp: flush_check_def worker_failed_def drained_def split: if_splits option.splits)
  moreover from this have "\<not> holds_batch (bw_worker s)" using inv by auto
  ultimately show ?thesis using inv by (cases "bw_worker s") (auto simp: failing_def)
qed

lemma one_written_reached: "writer_reach plain_config one_written"
proof -
  have "writer_step plain_config one_taken one_written"
    by (rule writer_step.worker_moves [where raised = None])
      (simp add: worker_step_def one_taken_def one_written_def)
  then show ?thesis
    using one_taken_reached unfolding writer_reach_def by (rule rtranclp.rtrancl_into_rtrancl [rotated])
qed

theorem flush_returns_drained_witness:
  "bw_accepted (one_written\<lparr>bw_inflight := 0, bw_worker := AtCheck\<rparr>) = [7]"
proof -
  let ?s = "one_written\<lparr>bw_inflight := 0, bw_worker := AtCheck\<rparr>"
  have "writer_step plain_config one_written ?s"
    by (rule writer_step.worker_moves [where raised = None]) (simp add: worker_step_def one_written_def)
  then have "writer_reach plain_config ?s"
    using one_written_reached unfolding writer_reach_def by (rule rtranclp.rtrancl_into_rtrancl [rotated])
  moreover have "flush_check plain_config False ?s = Some (Inr ())"
    by (simp add: flush_check_def drained_def worker_failed_def one_written_def)
  ultimately show ?thesis
    using flush_returns_drained [of "[]" 1 64 "1 / 20" None ?s False] by (simp add: plain_config_def one_written_def)
qed

text \<open>Between the \<open>finally\<close> and the \<open>except\<close> of the worker a \<open>flush\<close> returns without an error
  although a batch failed.\<close>

lemma flush_misses_a_failure:
  "\<exists>s :: nat writer. writer_reach plain_config s \<and> bw_lost s = [7] \<and> flush_check plain_config False s = Some (Inr ())"
proof -
  let ?s1 = "one_taken\<lparr>bw_worker := AtFinally (Some ''disk full''), bw_lost := [7]\<rparr>"
  let ?s2 = "?s1\<lparr>bw_inflight := 0, bw_worker := AtExcept ''disk full''\<rparr>"
  have "writer_step plain_config one_taken ?s1"
    by (rule writer_step.worker_moves [where raised = "Some ''disk full''"]) (simp add: worker_step_def one_taken_def)
  moreover have "writer_step plain_config ?s1 ?s2"
    by (rule writer_step.worker_moves [where raised = None]) (simp add: worker_step_def one_taken_def)
  ultimately have "writer_reach plain_config ?s2"
    using one_taken_reached unfolding writer_reach_def by (meson rtranclp.rtrancl_into_rtrancl)
  moreover have "flush_check plain_config False ?s2 = Some (Inr ())"
    by (simp add: flush_check_def drained_def worker_failed_def one_taken_def)
  ultimately show ?thesis by (intro exI [of _ ?s2]) simp
qed

text \<open>A write of more items than the buffer ever holds waits for ever.\<close>

lemma oversized_write_waits:
  assumes "max_queue_size c = Some m" and "int (length items) > m" and "items \<noteq> []"
    and "\<not> bw_closed s" and "bw_error s = None"
  shows "write_many c items s = (None, s)"
  using assms by (simp add: write_many_def)

text \<open>Below the low watermark a write does not wake an idle worker: however long it waits, the
  item stays pending until somebody else acts.\<close>

lemma small_write_not_noticed:
  assumes "bw_worker s = Idle" and "\<not> bw_closed s" and "bw_error s = None" and "bw_pending s = []"
    and "1 < low_watermark c" and "max_queue_size c = None"
  shows "worker_step c raised (snd (write_one c x s)) = None \<and> bw_pending (snd (write_one c x s)) = [x]"
  using assms by (simp add: write_one_def write_many_def worker_step_def)

end
