(* ===== verification/Digits.thy ===== *)
theory Digits
  imports TaskResults
begin

text \<open>
  Numbers as text: what \<open>str\<close> writes for an integer, \<open>int\<close> reads back; and the splitting of a text.
\<close>

text \<open>The digits of a number read back.\<close>

lemma digit_value_char: "d < 10 \<Longrightarrow> digit_value (char_of (48 + d)) = Some d"
  by (simp add: digit_value_def)

definition all_digits :: "string \<Rightarrow> bool" where
  "all_digits s = (\<forall>c \<in> set s. digit_value c \<noteq> None)"

lemma all_digits_simps [simp]:
  "all_digits []"
  "all_digits (c # s) = (digit_value c \<noteq> None \<and> all_digits s)"
  "all_digits (s @ s') = (all_digits s \<and> all_digits s')"
  by (auto simp: all_digits_def)

lemma nat_digits_not_Nil [simp]: "nat_digits n \<noteq> []"
  by (subst nat_digits.simps) simp

lemma all_digits_nat_digits [simp]: "all_digits (nat_digits n)"
proof (induction n rule: nat_digits.induct)
  case (1 n)
  then show ?case by (subst nat_digits.simps) (simp add: digit_value_char)
qed

lemma all_digits_zeros [simp]: "all_digits (replicate k (CHR ''0''))"
  by (simp add: all_digits_def digit_value_def)

lemma parse_digits_append:
  "all_digits s \<Longrightarrow> parse_digits acc (s @ s') = parse_digits (the (parse_digits acc s)) s'
     \<and> parse_digits acc s \<noteq> None"
  by (induction s arbitrary: acc) auto

lemma parse_digits_nat_digits: "parse_digits acc (nat_digits n) = Some (acc * 10 ^ length (nat_digits n) + n)"
proof (induction n arbitrary: acc rule: nat_digits.induct)
  case (1 n)
  show ?case
  proof (cases "n < 10")
    case True
    then have "nat_digits n = [char_of (48 + n)]" by (subst nat_digits.simps) simp
    then show ?thesis using True by (simp add: digit_value_char)
  next
    case False
    then have eq: "nat_digits n = nat_digits (n div 10) @ [char_of (48 + n mod 10)]"
      by (subst nat_digits.simps) simp
    have "parse_digits acc (nat_digits n)
        = parse_digits (acc * 10 ^ length (nat_digits (n div 10)) + n div 10) [char_of (48 + n mod 10)]"
      unfolding eq using parse_digits_append [OF all_digits_nat_digits, of acc "n div 10"] 1 [OF False, of acc] by simp
    then show ?thesis by (simp add: eq digit_value_char algebra_simps)
  qed
qed

lemma parse_nat_nat_digits [simp]: "parse_nat (nat_digits n) = Some n"
proof -
  obtain c cs where eq: "nat_digits n = c # cs" by (cases "nat_digits n") auto
  then have "digit_value c \<noteq> None" using all_digits_nat_digits [of n] by simp
  then have "parse_nat (nat_digits n) = parse_digits 0 (nat_digits n)" by (auto simp: parse_nat_def eq)
  then show ?thesis by (simp add: parse_digits_nat_digits)
qed

text \<open>None of the characters written is a separator of the marker or white space.\<close>

lemma digit_plain:
  assumes "digit_value c \<noteq> None"
  shows "\<not> py_isspace c" "c \<noteq> CHR '':''" "c \<noteq> CHR ''.''" "c \<noteq> CHR ''e''" "c \<noteq> CHR ''E''" "c \<noteq> CHR ''-''" "c \<noteq> CHR ''+''"
  using assms by (auto simp: digit_value_def py_isspace_def Let_def split: if_splits)

lemma py_strip_plain: "\<forall>c \<in> set s. \<not> py_isspace c \<Longrightarrow> py_strip s = s"
proof -
  assume s: "\<forall>c \<in> set s. \<not> py_isspace c"
  have "dropWhile py_isspace u = u" if "set u \<subseteq> set s" for u using that s by (cases u) auto
  then show ?thesis by (simp add: py_strip_def)
qed

lemma all_digits_plain: "all_digits s \<Longrightarrow> c \<in> set s \<Longrightarrow> \<not> py_isspace c"
  unfolding all_digits_def using digit_plain(1) by blast

lemma parse_nat_digits_Cons:
  assumes "all_digits s" and "s \<noteq> []"
  obtains c cs where "s = c # cs" "c \<noteq> CHR ''-''" "c \<noteq> CHR ''+''"
  using assms digit_plain(6,7) by (cases s) auto

lemma py_int_of_digits: "py_int_of_str (nat_digits n) = Some (int n)"
proof -
  obtain c cs where eq: "nat_digits n = c # cs" and plain: "c \<noteq> CHR ''-''" "c \<noteq> CHR ''+''"
    by (rule parse_nat_digits_Cons [OF all_digits_nat_digits nat_digits_not_Nil])
  have "py_strip (nat_digits n) = nat_digits n"
    by (rule py_strip_plain) (use all_digits_plain [OF all_digits_nat_digits] in blast)
  then show ?thesis using parse_nat_nat_digits [of n] unfolding py_int_of_str_def eq by (simp add: plain)
qed

lemma py_int_of_str_int [simp]: "py_int_of_str (py_str_int i) = Some i"
proof (cases "i < 0")
  case False
  then show ?thesis by (simp add: py_str_int_def py_int_of_digits)
next
  case True
  have "\<not> py_isspace (CHR ''-'')" by (simp add: py_isspace_def)
  then have "py_strip (CHR ''-'' # nat_digits (nat (- i))) = CHR ''-'' # nat_digits (nat (- i))"
    using all_digits_plain [OF all_digits_nat_digits [of "nat (- i)"]] by (intro py_strip_plain) auto
  then show ?thesis using True by (simp add: py_str_int_def py_int_of_str_def)
qed

text \<open>\<open>s.split(c)\<close>.\<close>

fun split_on :: "char \<Rightarrow> string \<Rightarrow> string list" where
  "split_on c [] = [[]]"
| "split_on c (x # xs) = (if x = c then [] # split_on c xs
     else case split_on c xs of [] \<Rightarrow> [[x]] | p # ps \<Rightarrow> (x # p) # ps)"

lemma split_on_none: "c \<notin> set s \<Longrightarrow> split_on c s = [s]"
  by (induction s) auto

lemma split_on_append: "c \<notin> set s \<Longrightarrow> split_on c (s @ c # t) = s # split_on c t"
  by (induction s) auto

end
