(* ===== verification/CuratorStartup.thy ===== *)
theory CuratorStartup
  imports MaintenanceIdle TaskAttempts Digits
begin

text \<open>
  The start-up marker of the curator, \<open>core/task_worker.py\<close>: before a curator task calls a
  provider, the worker writes the time into the task's request identifier, so that recovery leaves
  the task alone while the provider starts. The number is written with \<open>:.6f\<close> and read back with
  \<open>float\<close>; the texts \<open>inf\<close> and \<open>nan\<close>, which are never written, are outside the model's reals.
\<close>

section \<open>Python texts\<close>

text \<open>\<open>float(s)\<close> on a decimal text, \<open>None\<close> where it raises \<open>ValueError\<close>: digits with an optional
  point, at least one digit, and an optional exponent.\<close>

definition count_digits :: "string \<Rightarrow> nat" where
  "count_digits s = length (filter (\<lambda>c. digit_value c \<noteq> None) s)"

definition parse_mantissa :: "string \<Rightarrow> real option" where
  "parse_mantissa s =
     (let ip = takeWhile (\<lambda>c. c \<noteq> CHR ''.'') s in
      case dropWhile (\<lambda>c. c \<noteq> CHR ''.'') s of
        [] \<Rightarrow> map_option real (parse_nat ip)
      | _ # fp \<Rightarrow>
          if ip = [] \<and> fp = [] then None
          else (case (if ip = [] then Some 0 else parse_nat ip, if fp = [] then Some 0 else parse_nat fp) of
                  (Some i, Some f) \<Rightarrow> Some (real i + real f / 10 ^ count_digits fp)
                | _ \<Rightarrow> None))"

definition parse_exponent :: "string \<Rightarrow> int option" where
  "parse_exponent s = (case s of [] \<Rightarrow> None
     | c # cs \<Rightarrow> if c = CHR ''-'' then map_option (\<lambda>n. - int n) (parse_nat cs)
                else if c = CHR ''+'' then map_option int (parse_nat cs)
                else map_option int (parse_nat (c # cs)))"

definition parse_unsigned :: "string \<Rightarrow> real option" where
  "parse_unsigned s =
     (let mant = takeWhile (\<lambda>c. c \<notin> {CHR ''e'', CHR ''E''}) s in
      case dropWhile (\<lambda>c. c \<notin> {CHR ''e'', CHR ''E''}) s of
        [] \<Rightarrow> parse_mantissa mant
      | _ # ex \<Rightarrow> (case (parse_mantissa mant, parse_exponent ex) of
            (Some m, Some e) \<Rightarrow> Some (m * (10 powi e))
          | _ \<Rightarrow> None))"

definition py_float_of_str :: "string \<Rightarrow> real option" where
  "py_float_of_str s = (case py_strip s of
       [] \<Rightarrow> None
     | c # cs \<Rightarrow> if c = CHR ''-'' then map_option uminus (parse_unsigned cs)
                else if c = CHR ''+'' then parse_unsigned cs
                else parse_unsigned (c # cs))"

text \<open>\<open>f"{x:.6f}"\<close>.\<close>

definition pad6 :: "nat \<Rightarrow> string" where
  "pad6 n = (let ds = nat_digits n in replicate (6 - length ds) (CHR ''0'') @ ds)"

definition format6 :: "real \<Rightarrow> string" where
  "format6 x = (let n = nat (round_half_even (\<bar>x\<bar> * 10 ^ 6)) in
     (if x < 0 then ''-'' else []) @ nat_digits (n div 10 ^ 6) @ ''.'' @ pad6 (n mod 10 ^ 6))"

section \<open>The marker\<close>

abbreviation "CURATOR_PROVIDER_PREFLIGHT_PREFIX \<equiv> ''curator-provider-preflight:''"

definition preflight_marker :: "int \<Rightarrow> time \<Rightarrow> string" where
  "preflight_marker epoch started =
     CURATOR_PROVIDER_PREFLIGHT_PREFIX @ py_str_int epoch @ '':'' @ format6 started"

text \<open>\<open>_preflight_curator_provider_startup\<close>: nothing unless the task still runs in its epoch and has
  no provider's request.\<close>

definition preflight_curator_provider_startup :: "time \<Rightarrow> task \<Rightarrow> unit task_op" where
  "preflight_curator_provider_startup clk t db =
     (case get_task (t_id t) db of
        Inl e \<Rightarrow> (Inl e, db)
      | Inr current \<Rightarrow>
          if t_status current \<noteq> Running \<or> t_epoch current \<noteq> t_epoch t then (Inr (), db)
          else if (case t_request_id current of None \<Rightarrow> False
                   | Some r \<Rightarrow> \<not> str_prefix CURATOR_PROVIDER_PREFLIGHT_PREFIX r) then (Inr (), db)
          else (case set_running_process clk (t_id t) None (Some (preflight_marker (t_epoch t) clk))
                       (Some clk) (Some (t_epoch t)) db of
                  (Inl e, db') \<Rightarrow> (Inl e, db')
                | (Inr _, db') \<Rightarrow> (Inr (), db')))"

definition marker_started_at :: "task \<Rightarrow> time option" where
  "marker_started_at t = (case t_request_id t of
       None \<Rightarrow> None
     | Some marker \<Rightarrow>
         if str_prefix CURATOR_PROVIDER_PREFLIGHT_PREFIX marker
         then (case split_on (CHR '':'') marker of
                 [_, epoch, started] \<Rightarrow>
                   (case py_int_of_str epoch of
                      None \<Rightarrow> None
                    | Some e \<Rightarrow> if e = t_epoch t then py_float_of_str started else None)
               | _ \<Rightarrow> None)
         else None)"

definition curator_provider_startup_started_at :: "task \<Rightarrow> attempt option \<Rightarrow> time option" where
  "curator_provider_startup_started_at t att =
     (if t_name t \<noteq> CURATOR_TASK_NAME then None
      else let marker = marker_started_at t in
        case att of
          None \<Rightarrow> marker
        | Some a \<Rightarrow>
            if at_status a \<noteq> ''running'' \<or> at_pid a \<noteq> None then marker
            else if (case at_heartbeat_at a of None \<Rightarrow> False | Some h \<Rightarrow> h > at_started_at a) then None
            else Some (max (time_or marker (at_started_at a)) (at_started_at a)))"

definition curator_provider_startup_is_active :: "real \<Rightarrow> task \<Rightarrow> attempt option \<Rightarrow> time \<Rightarrow> bool" where
  "curator_provider_startup_is_active grace t att current =
     (case curator_provider_startup_started_at t att of
        None \<Rightarrow> False
      | Some s \<Rightarrow> max (current - s) 0 < grace)"

section \<open>Laws\<close>

lemma length_nat_digits: "n < 10 ^ Suc k \<Longrightarrow> length (nat_digits n) \<le> Suc k"
proof (induction k arbitrary: n)
  case 0
  then show ?case by (subst nat_digits.simps) simp
next
  case (Suc k)
  show ?case
  proof (cases "n < 10")
    case True
    then show ?thesis by (subst nat_digits.simps) simp
  next
    case False
    have "n div 10 < 10 ^ Suc k" using Suc.prems by (simp add: div_less_iff_less_mult mult.commute)
    then have "length (nat_digits (n div 10)) \<le> Suc k" by (rule Suc.IH)
    with False show ?thesis by (subst nat_digits.simps) simp
  qed
qed

lemma parse_digits_zeros: "parse_digits 0 (replicate k (CHR ''0'') @ s) = parse_digits 0 s"
  by (induction k) (simp_all add: digit_value_def)

lemma pad6_digits:
  assumes "n < 10 ^ 6"
  shows "all_digits (pad6 n)" "length (pad6 n) = 6" "parse_nat (pad6 n) = Some n"
proof -
  have len: "length (nat_digits n) \<le> 6" using length_nat_digits [of n 5] assms by simp
  show all: "all_digits (pad6 n)" by (simp add: pad6_def Let_def)
  show "length (pad6 n) = 6" using len by (simp add: pad6_def Let_def)
  then obtain c cs where eq: "pad6 n = c # cs" by (cases "pad6 n") auto
  with all have "digit_value c \<noteq> None" by simp
  then have "parse_nat (pad6 n) = parse_digits 0 (pad6 n)" by (auto simp: parse_nat_def eq)
  also have "\<dots> = Some n" by (simp add: pad6_def Let_def parse_digits_zeros parse_digits_nat_digits)
  finally show "parse_nat (pad6 n) = Some n" .
qed

lemma count_digits_all: "all_digits s \<Longrightarrow> count_digits s = length s"
  unfolding count_digits_def all_digits_def by (simp add: filter_id_conv)

lemma takeWhile_plain: "all_digits s \<Longrightarrow> takeWhile (\<lambda>c. c \<noteq> CHR ''.'') (s @ CHR ''.'' # t) = s"
  "all_digits s \<Longrightarrow> dropWhile (\<lambda>c. c \<noteq> CHR ''.'') (s @ CHR ''.'' # t) = CHR ''.'' # t"
  using digit_plain(3) by (induction s) auto

lemma parse_mantissa_decimal:
  assumes "all_digits s" "s \<noteq> []" "all_digits t" "t \<noteq> []" "parse_nat s = Some a" "parse_nat t = Some b"
  shows "parse_mantissa (s @ CHR ''.'' # t) = Some (real a + real b / 10 ^ length t)"
  using assms by (simp add: parse_mantissa_def Let_def takeWhile_plain count_digits_all)

lemma parse_unsigned_plain:
  assumes "\<forall>c \<in> set s. c \<noteq> CHR ''e'' \<and> c \<noteq> CHR ''E''"
  shows "parse_unsigned s = parse_mantissa s"
proof -
  have "takeWhile (\<lambda>c. c \<notin> {CHR ''e'', CHR ''E''}) s = s" "dropWhile (\<lambda>c. c \<notin> {CHR ''e'', CHR ''E''}) s = []"
    using assms by (auto simp: takeWhile_eq_all_conv dropWhile_eq_Nil_conv)
  then show ?thesis unfolding parse_unsigned_def Let_def by (simp only: list.case)
qed

lemma div_mod_micros: "real (n div 10 ^ 6) + real (n mod 10 ^ 6) / 10 ^ 6 = real n / 10 ^ 6"
proof -
  have "real n = real (n div 10 ^ 6 * 10 ^ 6 + n mod 10 ^ 6)" by (simp only: div_mult_mod_eq)
  also have "\<dots> = real (n div 10 ^ 6) * 10 ^ 6 + real (n mod 10 ^ 6)"
    by (simp only: of_nat_add of_nat_mult of_nat_power of_nat_numeral)
  finally have "real n / 10 ^ 6 = (real (n div 10 ^ 6) * 10 ^ 6 + real (n mod 10 ^ 6)) / 10 ^ 6" by (rule arg_cong)
  also have "\<dots> = real (n div 10 ^ 6) + real (n mod 10 ^ 6) / 10 ^ 6" by (simp add: add_divide_distrib)
  finally show ?thesis by (rule sym)
qed

lemma py_float_of_format6:
  assumes "0 \<le> x"
  shows "py_float_of_str (format6 x) = Some (round6 x)" and "CHR '':'' \<notin> set (format6 x)"
proof -
  define n where "n = nat (round_half_even (x * 10 ^ 6))"
  let ?s = "nat_digits (n div 10 ^ 6)" and ?t = "pad6 (n mod 10 ^ 6)"
  have fmt: "format6 x = ?s @ CHR ''.'' # ?t" using assms by (simp add: format6_def n_def Let_def)
  have t: "all_digits ?t" "length ?t = 6" "parse_nat ?t = Some (n mod 10 ^ 6)"
    using pad6_digits [of "n mod 10 ^ 6"] by simp_all
  have dot: "\<not> py_isspace (CHR ''.'')" by (simp add: py_isspace_def)
  have s: "all_digits ?s" by simp
  have plain: "\<not> py_isspace c \<and> c \<noteq> CHR '':'' \<and> c \<noteq> CHR ''e'' \<and> c \<noteq> CHR ''E''" if "c \<in> set (format6 x)" for c
    using that dot digit_plain(1,2,4,5) [of c] s t(1) unfolding fmt all_digits_def by auto
  then show "CHR '':'' \<notin> set (format6 x)" by blast
  obtain c cs where c: "?s = c # cs" "c \<noteq> CHR ''-''" "c \<noteq> CHR ''+''"
    by (rule parse_nat_digits_Cons [OF s nat_digits_not_Nil])
  have strip: "py_strip (format6 x) = format6 x" using plain by (intro py_strip_plain) blast
  have form: "format6 x = c # (cs @ CHR ''.'' # ?t)" unfolding fmt c by (rule append_Cons)
  have "py_float_of_str (format6 x) = parse_unsigned (format6 x)"
    unfolding py_float_of_str_def strip unfolding form using c(2,3) by simp
  also have "\<dots> = parse_mantissa (format6 x)" using plain by (intro parse_unsigned_plain) blast
  also have "\<dots> = Some (real (n div 10 ^ 6) + real (n mod 10 ^ 6) / 10 ^ 6)"
    unfolding fmt using parse_mantissa_decimal [OF s nat_digits_not_Nil t(1) _ _ t(3)] t(2) by (cases "?t = []") auto
  also have "real (n div 10 ^ 6) + real (n mod 10 ^ 6) / 10 ^ 6 = real n / 10 ^ 6" by (rule div_mod_micros)
  also have "\<dots> = round6 x"
    using round_half_even_nonneg [of "x * 10 ^ 6"] assms by (simp add: round6_def n_def)
  finally show "py_float_of_str (format6 x) = Some (round6 x)" .
qed

text \<open>The marker of a task's own epoch reads back as its time, rounded to microseconds.\<close>

lemma colon_not_in_int: "CHR '':'' \<notin> set (py_str_int i)"
proof -
  have "CHR '':'' \<notin> set (nat_digits n)" for n
    using all_digits_nat_digits [of n] digit_plain(2) unfolding all_digits_def by blast
  then show ?thesis by (simp add: py_str_int_def)
qed

lemma marker_roundtrip:
  assumes "t_request_id t = Some (preflight_marker (t_epoch t) x)" and "0 \<le> x"
  shows "marker_started_at t = Some (round6 x)"
proof -
  let ?p = "''curator-provider-preflight''"
  have "preflight_marker (t_epoch t) x = ?p @ CHR '':'' # py_str_int (t_epoch t) @ CHR '':'' # format6 x"
    by (simp add: preflight_marker_def)
  moreover have "CHR '':'' \<notin> set ?p" by simp
  ultimately have "split_on (CHR '':'') (preflight_marker (t_epoch t) x) = [?p, py_str_int (t_epoch t), format6 x]"
    using colon_not_in_int py_float_of_format6(2) [OF assms(2)]
    by (simp only: split_on_append split_on_none not_False_eq_True)
  moreover have "str_prefix CURATOR_PROVIDER_PREFLIGHT_PREFIX (preflight_marker (t_epoch t) x)"
    by (simp add: str_prefix_def preflight_marker_def)
  ultimately show ?thesis
    using assms py_float_of_format6(1) [OF assms(2)] by (simp add: marker_started_at_def)
qed

end
