(* ===== verification/Conversations.thy ===== *)
theory Conversations
  imports ProviderUsage
begin

text \<open>
  The log of conversations with providers, the table \<open>ai_conversations\<close> of
  \<open>provider_usage_store.py\<close>: at most one row for each request and attempt; a row is written when
  the conversation starts, touched while it runs, and finalized once. \<open>_db_manager\<close> is present.
\<close>

record conversation =
  c_id :: int
  c_request_id :: string
  c_attempt :: int
  c_workspace :: "string option"
  c_task_name :: "string option"
  c_task_id :: "string option"
  c_packet :: "string option"
  c_provider_key :: string
  c_provider_name :: string
  c_model_name :: string
  c_pid :: "int option"
  c_prompt :: string
  c_response :: string
  c_parsed :: "dict option"
  c_status :: string
  c_error_text :: "string option"
  c_reason_category :: "string option"
  c_reason_code :: "string option"
  c_retry_delay :: "real option"
  c_started_at :: time
  c_completed_at :: time
  c_duration :: real
  c_tokens :: "token_usage option"

definition conversation_key :: "conversation \<Rightarrow> string \<times> int" where
  "conversation_key c = (c_request_id c, c_attempt c)"

text \<open>\<open>INSERT OR REPLACE\<close>: the row of the same request and attempt goes, and the new one gets a
  fresh identifier. The duration never goes below zero.\<close>

definition record_conversation ::
  "int \<Rightarrow> string option \<Rightarrow> usage_db \<Rightarrow> conversation \<Rightarrow> int option \<Rightarrow> string option
   \<Rightarrow> conversation list \<Rightarrow> conversation list" where
  "record_conversation cid ws db c epoch identity rows =
     (let (_, resolved, _) = resolve_attempt_identity (c_task_id c) epoch (Some (c_request_id c))
            (Some (c_attempt c)) identity db;
          attempt = (case resolved of None \<Rightarrow> c_attempt c | Some n \<Rightarrow> if n = 0 then c_attempt c else n);
          new = c\<lparr>c_id := cid, c_attempt := attempt, c_workspace := ws,
                  c_parsed := map_option dict_sort (c_parsed c),
                  c_duration := max (c_completed_at c - c_started_at c) 0\<rparr>
      in filter (\<lambda>r. conversation_key r \<noteq> conversation_key new) rows @ [new])"

text \<open>The workspace filter of \<open>list_conversations\<close>: \<open>None\<close> and the sentinel are every workspace.\<close>

definition list_conversations ::
  "string option \<Rightarrow> string option \<Rightarrow> string option \<Rightarrow> string option \<Rightarrow> string option \<Rightarrow> int
   \<Rightarrow> conversation list \<Rightarrow> conversation list" where
  "list_conversations ws request task name status limit rows =
     (let given = (\<lambda>arg x. case arg of None \<Rightarrow> True | Some a \<Rightarrow> x = Some a) in
      limit_rows limit (order_by (\<lambda>c. (- c_completed_at c, - c_id c))
        (filter (\<lambda>c. given ws (c_workspace c) \<and> given request (Some (c_request_id c))
           \<and> given task (c_task_id c) \<and> given name (c_task_name c) \<and> given status (Some (c_status c))) rows)))"

definition get_conversation :: "string \<Rightarrow> conversation list \<Rightarrow> conversation list" where
  "get_conversation request = list_conversations None (Some request) None None None 200"

definition count_conversation_statuses_since ::
  "time \<Rightarrow> string option \<Rightarrow> conversation list \<Rightarrow> (string \<times> int) list" where
  "count_conversation_statuses_since after ws rows =
     (let rows' = filter (\<lambda>c. after \<le> c_completed_at c
            \<and> (case ws of None \<Rightarrow> True | Some w \<Rightarrow> c_workspace c = Some w)) rows
      in map (\<lambda>s. (s, int (rowcount (\<lambda>c. c_status c = s) rows'))) (sort (remdups (map c_status rows'))))"

definition conversation_running :: "conversation \<Rightarrow> bool" where
  "conversation_running c = (c_status c = ''running'')"

text \<open>\<open>_finalize_running_conversations\<close> under the condition \<open>p\<close>; \<open>None\<close> for the response or the
  parsed answer is \<open>_UNCHANGED\<close>. The result is the number of rows updated.\<close>

definition finalize_running_conversations ::
  "(conversation \<Rightarrow> bool) \<Rightarrow> time \<Rightarrow> string \<Rightarrow> string option \<Rightarrow> string option \<Rightarrow> string option \<Rightarrow> real option
   \<Rightarrow> time option \<Rightarrow> string option \<Rightarrow> dict option option \<Rightarrow> conversation list \<Rightarrow> int \<times> conversation list" where
  "finalize_running_conversations p clk status err cat code delay completed response parsed rows =
     (let finalized = now_or completed clk;
          q = (\<lambda>c. p c \<and> conversation_running c)
      in (int (rowcount q rows),
          update_where q (\<lambda>c. c\<lparr>c_status := status,
            c_error_text := coalesce err (c_error_text c),
            c_reason_category := coalesce cat (c_reason_category c),
            c_reason_code := coalesce code (c_reason_code c),
            c_retry_delay := coalesce delay (c_retry_delay c),
            c_completed_at := finalized,
            c_duration := max (finalized - c_started_at c) 0,
            c_response := (case response of None \<Rightarrow> c_response c | Some s \<Rightarrow> s),
            c_parsed := (case parsed of None \<Rightarrow> c_parsed c | Some d \<Rightarrow> map_option dict_sort d)\<rparr>) rows))"

definition finalize_running_conversation ::
  "time \<Rightarrow> string \<Rightarrow> string \<Rightarrow> string option \<Rightarrow> string option \<Rightarrow> string option \<Rightarrow> real option \<Rightarrow> time option
   \<Rightarrow> string option \<Rightarrow> dict option option \<Rightarrow> conversation list \<Rightarrow> int \<times> conversation list" where
  "finalize_running_conversation clk request status err cat code delay completed response parsed =
     finalize_running_conversations (\<lambda>c. c_request_id c = request) clk status err cat code delay completed
       response parsed"

definition reconcile_running_task_conversations ::
  "time \<Rightarrow> string \<Rightarrow> string \<Rightarrow> string option \<Rightarrow> string option \<Rightarrow> string option \<Rightarrow> real option \<Rightarrow> time option
   \<Rightarrow> conversation list \<Rightarrow> int \<times> conversation list" where
  "reconcile_running_task_conversations clk task status err cat code delay completed =
     finalize_running_conversations (\<lambda>c. c_task_id c = Some task) clk status err cat code delay completed None None"

definition touch_running_conversation ::
  "time \<Rightarrow> string \<Rightarrow> time option \<Rightarrow> int option option \<Rightarrow> conversation list \<Rightarrow> int \<times> conversation list" where
  "touch_running_conversation clk request completed pid rows =
     (let beat_at = now_or completed clk;
          q = (\<lambda>c. c_request_id c = request \<and> conversation_running c)
      in (int (rowcount q rows),
          update_where q (\<lambda>c. c\<lparr>c_completed_at := beat_at, c_duration := max (beat_at - c_started_at c) 0,
            c_pid := (case pid of None \<Rightarrow> c_pid c | Some p \<Rightarrow> p)\<rparr>) rows))"

section \<open>Laws\<close>

definition conversations_ok :: "conversation list \<Rightarrow> bool" where
  "conversations_ok rows = (distinct (map conversation_key rows) \<and> (\<forall>c \<in> set rows. 0 \<le> c_duration c))"

lemma record_conversation_ok:
  "conversations_ok rows \<Longrightarrow> conversations_ok (record_conversation cid ws db c epoch identity rows)"
  by (auto simp: conversations_ok_def record_conversation_def Let_def distinct_map inj_on_def
      conversation_key_def split: prod.splits)

lemma conversations_edit_ok:
  assumes "conversations_ok rows" and "\<And>c. conversation_key (f c) = conversation_key c" and "\<And>c. 0 \<le> c_duration (f c)"
  shows "conversations_ok (update_where p f rows)"
proof -
  have "map conversation_key (update_where p f rows) = map conversation_key rows"
    using assms(2) by (rule map_update_where)
  moreover have "\<forall>c \<in> set (update_where p f rows). 0 \<le> c_duration c"
    using assms(1,3) by (auto simp: in_update_where conversations_ok_def)
  ultimately show ?thesis using assms(1) unfolding conversations_ok_def by (simp only:)
qed

lemma finalize_conversations_ok:
  "conversations_ok rows \<Longrightarrow> conversations_ok (snd (finalize_running_conversations p clk status err cat code
     delay completed response parsed rows))"
  unfolding finalize_running_conversations_def Let_def snd_conv
  by (rule conversations_edit_ok) (simp_all add: conversation_key_def)

text \<open>Finalizing under \<open>p\<close> with a final status leaves no running row under \<open>p\<close>, and the other rows
  as they were.\<close>

lemma finalize_conversations_rows:
  assumes "status \<noteq> ''running''"
    and "c \<in> set (snd (finalize_running_conversations p clk status err cat code delay completed response parsed rows))"
    and "conversation_running c"
  shows "c \<in> set rows \<and> \<not> p c"
proof -
  obtain r f where r: "r \<in> set rows" "c = (if p r \<and> conversation_running r then f r else r)" "c_status (f r) = status"
    using assms(2) by (auto simp: finalize_running_conversations_def Let_def in_update_where)
  then have "\<not> (p r \<and> conversation_running r)"
    using assms(1,3) by (auto simp: conversation_running_def)
  then show ?thesis using r assms(3) by auto
qed

end
