(* ===== verification/EmbeddingRepairs.thy ===== *)
theory EmbeddingRepairs
  imports WorkItemLaws
begin

text \<open>
  The queue of embedding repairs, \<open>embedding_repair_store.py\<close>, over the table
  \<open>embedding_repair_queue\<close> with its UNIQUE constraint on the memory version; its laws; and the
  second interpretation of the lease contract of \<open>WorkItemLaws\<close>.
\<close>

datatype repair_status = RepairPending | RepairRunning | RepairCompleted

fun repair_status_name :: "repair_status \<Rightarrow> string" where
  "repair_status_name RepairPending = ''pending''"
| "repair_status_name RepairRunning = ''running''"
| "repair_status_name RepairCompleted = ''completed''"

record repair_item =
  e_id :: string
  e_memory_id :: string
  e_workspace :: "string option"
  e_model_name :: string
  e_memory_updated_at :: string
  e_status :: repair_status
  e_attempts :: int
  e_available_at :: time
  e_created_at :: time
  e_updated_at :: time
  e_claimed_at :: "time option"
  e_completed_at :: "time option"
  e_lease_owner :: "string option"
  e_lease_expires_at :: "time option"
  e_last_error :: "string option"

type_synonym 'a repair_op = "repair_item list \<Rightarrow> 'a res \<times> repair_item list"

definition repair_version :: "repair_item \<Rightarrow> string \<times> string \<times> string" where
  "repair_version e = (e_memory_id e, e_model_name e, e_memory_updated_at e)"

definition get_repair :: "string \<Rightarrow> repair_item list \<Rightarrow> repair_item res" where
  "get_repair iid rows = (case List.find (\<lambda>e. e_id e = iid) rows of
       None \<Rightarrow> Inl (ValueError (''Embedding repair item '' @ iid @ '' was not found''))
     | Some e \<Rightarrow> Inr e)"

definition find_by_version :: "string \<Rightarrow> string \<Rightarrow> string \<Rightarrow> repair_item list \<Rightarrow> repair_item option" where
  "find_by_version memory model updated rows =
     List.find (\<lambda>e. e_memory_id e = memory \<and> e_model_name e = model \<and> e_memory_updated_at e = updated) rows"

definition enqueue_repair ::
  "string \<Rightarrow> time \<Rightarrow> string \<Rightarrow> string \<Rightarrow> string \<Rightarrow> string option \<Rightarrow> time option
   \<Rightarrow> (repair_item \<times> bool) repair_op" where
  "enqueue_repair uuid clk memory model updated ws avail rows =
     (if uuid \<in> e_id ` set rows \<or> (memory, model, updated) \<in> repair_version ` set rows
      then (case find_by_version memory model updated rows of
              None \<Rightarrow> (Inl IntegrityError, rows)
            | Some e \<Rightarrow> (Inr (e, False), rows))
      else let rows' = rows @ [\<lparr>e_id = uuid, e_memory_id = memory, e_workspace = ws, e_model_name = model,
                 e_memory_updated_at = updated, e_status = RepairPending, e_attempts = 0,
                 e_available_at = now_or avail clk, e_created_at = clk, e_updated_at = clk,
                 e_claimed_at = None, e_completed_at = None, e_lease_owner = None,
                 e_lease_expires_at = None, e_last_error = None\<rparr>]
           in (case get_repair uuid rows' of
                 Inl err \<Rightarrow> (Inl err, rows')
               | Inr e \<Rightarrow> (Inr (e, True), rows')))"

definition repair_due :: "time \<Rightarrow> repair_item \<Rightarrow> bool" where
  "repair_due now e = ((e_status e = RepairPending \<and> e_available_at e \<le> now)
      \<or> (e_status e = RepairRunning \<and> (case e_lease_expires_at e of None \<Rightarrow> False | Some t \<Rightarrow> t \<le> now)))"

definition repair_claim_update :: "string \<Rightarrow> time \<Rightarrow> time \<Rightarrow> repair_item \<Rightarrow> repair_item" where
  "repair_claim_update owner now expires e = e\<lparr>e_status := RepairRunning, e_attempts := e_attempts e + 1,
     e_updated_at := now, e_claimed_at := Some now, e_lease_owner := Some owner,
     e_lease_expires_at := Some expires, e_last_error := None\<rparr>"

definition claim_repairs ::
  "time \<Rightarrow> string \<Rightarrow> int \<Rightarrow> string option \<Rightarrow> time option \<Rightarrow> time \<Rightarrow> repair_item list repair_op" where
  "claim_repairs clk owner limit ws now ttl rows =
     (if limit < 1 then (Inl (ValueError ''limit must be at least 1''), rows)
      else let current = now_or now clk;
               expires = current + ttl;
               selected = limit_rows limit (order_by e_created_at
                 (filter (\<lambda>e. repair_due current e \<and> ws_match (item_ws ws) (e_workspace e)) rows))
        in if selected = [] then (Inr [], rows)
           else let ids = e_id ` set selected;
                    rows' = update_where (\<lambda>e. e_id e \<in> ids) (repair_claim_update owner current expires) rows
                in (Inr (order_by e_created_at (filter (\<lambda>e. e_id e \<in> ids) rows')), rows'))"

definition update_running_repair :: "(repair_item \<Rightarrow> repair_item) \<Rightarrow> string \<Rightarrow> repair_item repair_op" where
  "update_running_repair f iid rows =
     (let p = (\<lambda>e. e_id e = iid \<and> e_status e = RepairRunning) in
      if rowcount p rows \<noteq> 1
      then (Inl (ValueError (''Embedding repair item '' @ iid @ '' is not running'')), rows)
      else let rows' = update_where p f rows in (get_repair iid rows', rows'))"

definition complete_repair :: "time \<Rightarrow> string \<Rightarrow> time option \<Rightarrow> repair_item repair_op" where
  "complete_repair clk iid completed_at =
     (let now = now_or completed_at clk in
      update_running_repair (\<lambda>e. e\<lparr>e_status := RepairCompleted, e_updated_at := now, e_completed_at := Some now,
        e_lease_owner := None, e_lease_expires_at := None, e_last_error := None\<rparr>) iid)"

definition release_repair :: "time \<Rightarrow> string \<Rightarrow> time option \<Rightarrow> string option \<Rightarrow> repair_item repair_op" where
  "release_repair clk iid released_at err =
     (let now = now_or released_at clk in
      update_running_repair (\<lambda>e. e\<lparr>e_status := RepairPending, e_updated_at := now,
        e_lease_owner := None, e_lease_expires_at := None, e_last_error := err\<rparr>) iid)"

definition list_repairs ::
  "string option \<Rightarrow> string option \<Rightarrow> string option \<Rightarrow> int \<Rightarrow> repair_item list \<Rightarrow> repair_item list" where
  "list_repairs status ws owner limit rows =
     (let given = (\<lambda>arg x. case arg of None \<Rightarrow> True | Some a \<Rightarrow> x = Some a) in
      limit_rows limit (order_by (\<lambda>e. (- e_updated_at e, - e_created_at e))
        (filter (\<lambda>e. given status (Some (repair_status_name (e_status e))) \<and> given ws (e_workspace e)
           \<and> given owner (e_lease_owner e)) rows)))"

text \<open>The aggregate query: counts of the pending and running rows and the age of the oldest pending
  one, \<open>MIN\<close> over no row being NULL.\<close>

record backlog_snapshot =
  queued_count :: int
  running_count :: int
  oldest_queued_age :: "time option"

definition repair_backlog :: "time \<Rightarrow> time option \<Rightarrow> repair_item list \<Rightarrow> backlog_snapshot" where
  "repair_backlog clk now rows =
     (let pending = filter (\<lambda>e. e_status e = RepairPending) rows in
      \<lparr>queued_count = int (length pending),
       running_count = int (rowcount (\<lambda>e. e_status e = RepairRunning) rows),
       oldest_queued_age = (if pending = [] then None
         else Some (max (now_or now clk - Min (set (map e_created_at pending))) 0))\<rparr>)"

definition prune_repairs :: "time \<Rightarrow> time \<Rightarrow> int \<Rightarrow> time option \<Rightarrow> repair_item list \<Rightarrow> int \<times> repair_item list" where
  "prune_repairs clk older_than limit now rows =
     (if limit < 1 then (0, rows)
      else let before = now_or now clk - max older_than 0;
               selected = limit_rows limit (order_by (\<lambda>e. case e_completed_at e of Some t \<Rightarrow> t | None \<Rightarrow> 0)
                 (filter (\<lambda>e. e_status e = RepairCompleted
                    \<and> (case e_completed_at e of None \<Rightarrow> False | Some t \<Rightarrow> t \<le> before)) rows));
               ids = e_id ` set selected
           in if selected = [] then (0, rows)
              else (int (rowcount (\<lambda>e. e_id e \<in> ids) rows), filter (\<lambda>e. e_id e \<notin> ids) rows))"

section \<open>The invariant\<close>

definition repair_ok :: "repair_item \<Rightarrow> bool" where
  "repair_ok e = (0 \<le> e_attempts e
     \<and> (e_status e = RepairRunning \<longrightarrow> e_lease_owner e \<noteq> None \<and> e_lease_expires_at e \<noteq> None \<and> 1 \<le> e_attempts e)
     \<and> (e_status e \<noteq> RepairRunning \<longrightarrow> e_lease_owner e = None \<and> e_lease_expires_at e = None)
     \<and> (e_status e = RepairCompleted \<longrightarrow> e_completed_at e \<noteq> None))"

definition repairs_ok :: "repair_item list \<Rightarrow> bool" where
  "repairs_ok rows = (distinct (map e_id rows) \<and> distinct (map repair_version rows) \<and> (\<forall>e \<in> set rows. repair_ok e))"

lemma repairs_edit_ok:
  assumes "repairs_ok rows" and "\<And>e. e_id (f e) = e_id e" and "\<And>e. repair_version (f e) = repair_version e"
    and "\<And>e. p e \<Longrightarrow> repair_ok e \<Longrightarrow> repair_ok (f e)"
  shows "repairs_ok (update_where p f rows)"
proof -
  have "map e_id (update_where p f rows) = map e_id rows" using assms(2) by (rule map_update_where)
  moreover have "map repair_version (update_where p f rows) = map repair_version rows"
    using assms(3) by (rule map_update_where)
  moreover have "\<forall>e \<in> set (update_where p f rows). repair_ok e"
    using assms(1,4) by (auto simp: in_update_where repairs_ok_def)
  ultimately show ?thesis using assms(1) unfolding repairs_ok_def by (simp only:)
qed

lemma enqueue_repair_cases:
  obtains (new) e where "enqueue_repair uuid clk memory model updated ws avail rows = (Inr (e, True), rows @ [e])"
      "e_id e = uuid" "repair_version e = (memory, model, updated)" "uuid \<notin> e_id ` set rows"
      "(memory, model, updated) \<notin> repair_version ` set rows" "repair_ok e"
    | (old) e where "enqueue_repair uuid clk memory model updated ws avail rows = (Inr (e, False), rows)"
      "e \<in> set rows" "repair_version e = (memory, model, updated)"
    | (clash) "enqueue_repair uuid clk memory model updated ws avail rows = (Inl IntegrityError, rows)"
      "uuid \<in> e_id ` set rows" "(memory, model, updated) \<notin> repair_version ` set rows"
proof (cases "uuid \<in> e_id ` set rows \<or> (memory, model, updated) \<in> repair_version ` set rows")
  case True
  show thesis
  proof (cases "find_by_version memory model updated rows")
    case None
    then have "(memory, model, updated) \<notin> repair_version ` set rows"
      by (auto simp: find_by_version_def find_None_iff repair_version_def)
    with True None show thesis by (intro clash) (auto simp: enqueue_repair_def)
  next
    case (Some e)
    with True old show thesis
      by (auto simp: enqueue_repair_def find_by_version_def repair_version_def dest!: find_SomeD)
  qed
next
  case False
  let ?e = "\<lparr>e_id = uuid, e_memory_id = memory, e_workspace = ws, e_model_name = model,
                 e_memory_updated_at = updated, e_status = RepairPending, e_attempts = 0,
                 e_available_at = now_or avail clk, e_created_at = clk, e_updated_at = clk,
                 e_claimed_at = None, e_completed_at = None, e_lease_owner = None,
                 e_lease_expires_at = None, e_last_error = None\<rparr>"
  have "List.find (\<lambda>e. e_id e = uuid) (rows @ [?e]) = Some ?e" using False by (induction rows) auto
  then have get: "get_repair uuid (rows @ [?e]) = Inr ?e" by (simp add: get_repair_def)
  show thesis
    using False by (intro new [of ?e]) (auto simp: enqueue_repair_def Let_def get repair_ok_def repair_version_def)
qed

lemma enqueue_repair_ok: "repairs_ok rows \<Longrightarrow> repairs_ok (snd (enqueue_repair uuid clk memory model updated ws avail rows))"
  by (cases rule: enqueue_repair_cases [where uuid = uuid and clk = clk and memory = memory and model = model
        and updated = updated and ws = ws and avail = avail and rows = rows])
     (auto simp: repairs_ok_def)

lemma update_running_repair_ok:
  assumes "repairs_ok rows" and "\<And>e. e_id (f e) = e_id e" and "\<And>e. repair_version (f e) = repair_version e"
    and "\<And>e. e_status e = RepairRunning \<Longrightarrow> repair_ok e \<Longrightarrow> repair_ok (f e)"
  shows "repairs_ok (snd (update_running_repair f iid rows))"
  using assms by (auto simp: update_running_repair_def Let_def intro!: repairs_edit_ok)

lemma complete_repair_ok: "repairs_ok rows \<Longrightarrow> repairs_ok (snd (complete_repair clk iid tm rows))"
  unfolding complete_repair_def Let_def
  by (rule update_running_repair_ok) (auto simp: repair_ok_def repair_version_def)

lemma release_repair_ok: "repairs_ok rows \<Longrightarrow> repairs_ok (snd (release_repair clk iid tm err rows))"
  unfolding release_repair_def Let_def
  by (rule update_running_repair_ok) (auto simp: repair_ok_def repair_version_def)

lemma claim_repairs_ok: "repairs_ok rows \<Longrightarrow> repairs_ok (snd (claim_repairs clk owner limit ws now ttl rows))"
proof -
  assume ok: "repairs_ok rows"
  have "repairs_ok (update_where p (repair_claim_update owner now' until) rows)" for p now' until
    using ok by (rule repairs_edit_ok) (auto simp: repair_ok_def repair_claim_update_def repair_version_def)
  with ok show ?thesis by (simp add: claim_repairs_def Let_def)
qed

lemma prune_repairs_ok: "repairs_ok rows \<Longrightarrow> repairs_ok (snd (prune_repairs clk older limit now rows))"
  by (auto simp: prune_repairs_def Let_def repairs_ok_def distinct_map inj_on_def)

section \<open>Leases\<close>

definition repair_held :: "repair_item list \<Rightarrow> string \<Rightarrow> string \<Rightarrow> time \<Rightarrow> bool" where
  "repair_held rows i a t = (\<exists>e \<in> set rows. e_id e = i \<and> e_status e = RepairRunning
     \<and> e_lease_owner e = Some a \<and> e_lease_expires_at e = Some t)"

definition repair_claims :: "string \<Rightarrow> time \<Rightarrow> time \<Rightarrow> repair_item list \<Rightarrow> string set \<Rightarrow> repair_item list \<Rightarrow> bool" where
  "repair_claims a now until rows ids rows' = (\<exists>clk limit ws ttl es. until = now + ttl \<and> ids = e_id ` set es
     \<and> claim_repairs clk a limit ws (Some now) ttl rows = (Inr es, rows'))"

inductive repair_other :: "string set \<Rightarrow> repair_item list \<Rightarrow> repair_item list \<Rightarrow> bool" where
  rother_enqueue: "repair_other {} rows (snd (enqueue_repair uuid clk memory model updated ws avail rows))"
| rother_complete: "repair_other {iid} rows (snd (complete_repair clk iid tm rows))"
| rother_release: "repair_other {iid} rows (snd (release_repair clk iid tm err rows))"
| rother_prune: "repair_other {} rows (snd (prune_repairs clk older limit now rows))"

lemma update_running_repair_held:
  assumes "repair_held rows i a t" and "i \<noteq> iid"
  shows "repair_held (snd (update_running_repair f iid rows)) i a t"
proof -
  obtain e where e: "e \<in> set rows" "e_id e = i" "e_status e = RepairRunning" "e_lease_owner e = Some a"
      "e_lease_expires_at e = Some t"
    using assms(1) by (auto simp: repair_held_def)
  then have "e \<in> set (update_where (\<lambda>e. e_id e = iid \<and> e_status e = RepairRunning) f rows)"
    using assms(2) unfolding in_update_where by (intro bexI [of _ e]) auto
  with e assms(1) show ?thesis by (auto simp: update_running_repair_def Let_def repair_held_def)
qed

lemma prune_repairs_held:
  assumes ok: "repairs_ok rows" and held: "repair_held rows i a t"
  shows "repair_held (snd (prune_repairs clk older limit now rows)) i a t"
proof -
  obtain e where e: "e \<in> set rows" "e_id e = i" "e_status e = RepairRunning" "e_lease_owner e = Some a"
      "e_lease_expires_at e = Some t"
    using held by (auto simp: repair_held_def)
  have inj: "e' = e" if "e' \<in> set rows" "e_id e' = e_id e" for e'
    using ok e(1) that by (auto simp: repairs_ok_def distinct_map dest: inj_onD)
  have "e_id e \<notin> e_id ` set (limit_rows limit (order_by k (filter (\<lambda>e. e_status e = RepairCompleted \<and> P e) rows)))"
    for k :: "repair_item \<Rightarrow> real" and P
  proof
    assume "e_id e \<in> e_id ` set (limit_rows limit (order_by k (filter (\<lambda>e. e_status e = RepairCompleted \<and> P e) rows)))"
    then obtain e' where "e_id e' = e_id e" "e' \<in> set rows" "e_status e' = RepairCompleted"
      using set_limit_rows [of limit "order_by k (filter (\<lambda>e. e_status e = RepairCompleted \<and> P e) rows)"] by force
    with inj [of e'] e(3) show False by (metis repair_status.distinct(5))
  qed
  then have "e \<in> set (snd (prune_repairs clk older limit now rows))"
    using e(1) by (simp add: prune_repairs_def Let_def)
  with e show ?thesis by (auto simp: repair_held_def)
qed

lemma repair_other_ok: "repair_other touched rows rows' \<Longrightarrow> repairs_ok rows \<Longrightarrow> repairs_ok rows'"
  by (erule repair_other.cases) (auto intro: enqueue_repair_ok complete_repair_ok release_repair_ok prune_repairs_ok)

lemma repair_other_keeps:
  "repair_other touched rows rows' \<Longrightarrow> repairs_ok rows \<Longrightarrow> repair_held rows i a t \<Longrightarrow> i \<notin> touched \<Longrightarrow> repair_held rows' i a t"
proof (induction rule: repair_other.induct)
  case (rother_enqueue rows uuid clk memory model updated ws avail)
  then show ?case
    by (cases rule: enqueue_repair_cases [where uuid = uuid and clk = clk and memory = memory and model = model
        and updated = updated and ws = ws and avail = avail and rows = rows]) (auto simp: repair_held_def)
qed (simp_all add: complete_repair_def release_repair_def Let_def update_running_repair_held prune_repairs_held)

lemma repair_claim_update_simps [simp]:
  "e_id (repair_claim_update owner now until e) = e_id e"
  "e_created_at (repair_claim_update owner now until e) = e_created_at e"
  by (simp_all add: repair_claim_update_def)

lemma claim_repairs_eq:
  assumes dist: "distinct (map e_id rows)" and lim: "1 \<le> limit"
    and sel: "sel = take (nat limit) (order_by e_created_at (filter (\<lambda>e. repair_due (now_or now clk) e
        \<and> ws_match (item_ws ws) (e_workspace e)) rows))"
  shows "claim_repairs clk owner limit ws now ttl rows =
    (Inr (map (repair_claim_update owner (now_or now clk) (now_or now clk + ttl)) sel),
     map (\<lambda>e. if e \<in> set sel then repair_claim_update owner (now_or now clk) (now_or now clk + ttl) e else e) rows)"
proof -
  have limit: "limit_rows limit xs = take (nat limit) xs" for xs :: "repair_item list"
    using lim by (simp add: limit_rows_def)
  note batch = batch_select [where key = e_id and k = e_created_at
      and f = "repair_claim_update owner (now_or now clk) (now_or now clk + ttl)", OF dist sel]
  show ?thesis
  proof (cases "sel = []")
    case True
    then show ?thesis using lim unfolding claim_repairs_def Let_def limit sel [symmetric] by simp
  next
    case False
    then show ?thesis using lim batch unfolding claim_repairs_def Let_def limit sel [symmetric] by simp
  qed
qed

lemma repair_claims_effect:
  assumes "repairs_ok rows" and "repair_claims a now until rows ids rows'"
  obtains sel where "set sel \<subseteq> set rows" "\<And>e. e \<in> set sel \<Longrightarrow> repair_due now e" "ids = e_id ` set sel"
    "rows' = map (\<lambda>e. if e \<in> set sel then repair_claim_update a now until e else e) rows"
proof -
  obtain clk limit ws ttl es where claim: "until = now + ttl" "ids = e_id ` set es"
      "claim_repairs clk a limit ws (Some now) ttl rows = (Inr es, rows')"
    using assms(2) by (auto simp: repair_claims_def)
  have lim: "1 \<le> limit" using claim(3) by (auto simp: claim_repairs_def split: if_splits)
  define sel where "sel = take (nat limit) (order_by e_created_at (filter (\<lambda>e. repair_due (now_or (Some now) clk) e
        \<and> ws_match (item_ws ws) (e_workspace e)) rows))"
  have "distinct (map e_id rows)" using assms(1) by (simp add: repairs_ok_def)
  from claim_repairs_eq [OF this lim sel_def, of a ttl] claim(1,3)
  have eff: "es = map (repair_claim_update a now until) sel"
    "rows' = map (\<lambda>e. if e \<in> set sel then repair_claim_update a now until e else e) rows"
    by (simp_all add: now_or_def)
  have "set sel \<subseteq> {e \<in> set rows. repair_due now e}"
    unfolding sel_def now_or_def by (auto dest!: in_set_takeD)
  with that [of sel] eff claim(2) show thesis by (simp add: image_image subset_iff)
qed

interpretation er: lease_store repair_held repair_claims repair_other repairs_ok
proof (unfold_locales, goal_cases)
  case (1 s a now until ids s')
  then show ?case using claim_repairs_ok by (auto simp: repair_claims_def dest!: arg_cong [where f = snd])
next
  case (2 s touched s')
  then show ?case by (blast intro: repair_other_ok)
next
  case (3 s a now until ids s' i)
  obtain sel e where sel: "set sel \<subseteq> set s" "e \<in> set sel" "i = e_id e"
      "s' = map (\<lambda>e. if e \<in> set sel then repair_claim_update a now until e else e) s"
    using 3 by (auto elim!: repair_claims_effect)
  then have "repair_claim_update a now until e \<in> set s'" by force
  then show ?case
    unfolding repair_held_def sel(3) by (rule bexI [rotated]) (simp add: repair_claim_update_def)
next
  case (4 s a now until ids s' i b t)
  obtain sel where sel: "set sel \<subseteq> set s" "\<And>e. e \<in> set sel \<Longrightarrow> repair_due now e" "ids = e_id ` set sel"
    using repair_claims_effect [OF 4(1,2)] by metis
  obtain e where e: "e \<in> set s" "i = e_id e" "e_status e = RepairRunning" "e_lease_expires_at e = Some t"
    using 4(3) by (auto simp: repair_held_def)
  have "\<not> repair_due now e" using e 4(4) by (simp add: repair_due_def)
  moreover have "inj_on e_id (set s)" using 4(1) by (simp add: repairs_ok_def distinct_map)
  ultimately show ?case using sel e(1,2) by (auto dest: inj_onD)
next
  case (5 s a now until ids s' i b t)
  obtain sel where sel: "ids = e_id ` set sel"
      "s' = map (\<lambda>e. if e \<in> set sel then repair_claim_update a now until e else e) s"
    using repair_claims_effect [OF 5(1,2)] by metis
  with 5(3,4) show ?case by (force simp: repair_held_def)
next
  case (6 s touched s' i b t)
  then show ?case by (blast intro: repair_other_keeps)
next
  case (7 s i a t b u)
  then show ?case by (auto simp: repair_held_def repairs_ok_def distinct_map dest: inj_onD)
qed

end
