(* ===== verification/TaskWorker.thy ===== *)
theory TaskWorker
  imports CuratorStartup Conversations EmbeddingRepairs Scheduling
begin

text \<open>
  The task worker, \<open>core/task_worker.py\<close>: it claims tasks and runs their handlers, and in between
  reconciles what crashed or killed workers left behind. The stores it works on are present; an
  absent store reads as an empty one, except the journal in \<open>process_task\<close>. One pass or one task
  is a run without interleaving; the curation reconciler and the task handlers are parameters.
\<close>

section \<open>State\<close>

text \<open>The stores of the runtime context, and the state of the curation reconciler.\<close>

record 'c world =
  g_queue :: taskdb
  g_attempts :: "attempt list"
  g_items :: "work_item list"
  g_repairs :: "repair_item list"
  g_conversations :: "conversation list"
  g_journal :: journal
  g_curation :: 'c

type_synonym ('c, 'a) world_op = "'c world \<Rightarrow> 'a res \<times> 'c world"

record worker_config =
  cf_retry_delay :: real
  cf_recovery_interval :: real
  cf_stale_after :: real
  cf_startup_grace :: real

text \<open>What the worker gets from outside during a pass: the clock, also at the release of a given
  lease, identifiers of runs and tasks, the processes alive, the locks met, the number drawn, the time zone,
  and the texts of exceptions.\<close>

record worker_env =
  ev_clk :: time
  ev_lease_clk :: "string \<Rightarrow> time"
  ev_rid :: "string \<Rightarrow> string"
  ev_uuid :: "string \<Rightarrow> string"
  ev_kill :: "int \<Rightarrow> kill_outcome"
  ev_locked :: "string \<Rightarrow> nat \<Rightarrow> bool"
  ev_random :: real
  ev_tz :: real
  ev_error_text :: "py_error \<Rightarrow> string"

definition bind_world :: "('c, 'a) world_op \<Rightarrow> ('a \<Rightarrow> ('c, 'b) world_op) \<Rightarrow> ('c, 'b) world_op" where
  "bind_world m k w = (case m w of (Inl e, w') \<Rightarrow> (Inl e, w') | (Inr x, w') \<Rightarrow> k x w')"

definition on_queue :: "'a task_op \<Rightarrow> ('c, 'a) world_op" where
  "on_queue f w = (case f (g_queue w) of (r, db) \<Rightarrow> (r, w\<lparr>g_queue := db\<rparr>))"

section \<open>Leases\<close>

text \<open>Both lease stores are walked alike: \<open>lp_running owner limit\<close> lists the running items, with
  their owners, \<open>lp_release\<close> releases one; an exception of the release is logged and swallowed.\<close>

record 's lease_port =
  lp_running :: "string option \<Rightarrow> int \<Rightarrow> 's \<Rightarrow> (string \<times> string option) list"
  lp_release :: "string \<Rightarrow> time option \<Rightarrow> 's \<Rightarrow> 's"

definition item_lease_port :: "(string \<Rightarrow> time) \<Rightarrow> work_item list lease_port" where
  "item_lease_port clk =
     \<lparr>lp_running = (\<lambda>owner limit rows. map (\<lambda>x. (w_id x, w_lease_owner x))
        (list_items None None (Some ''running'') None owner limit rows)),
      lp_release = (\<lambda>iid tm rows. snd (release_item (clk iid) iid tm rows))\<rparr>"

definition repair_lease_port :: "(string \<Rightarrow> time) \<Rightarrow> repair_item list lease_port" where
  "repair_lease_port clk =
     \<lparr>lp_running = (\<lambda>owner limit rows. map (\<lambda>e. (e_id e, e_lease_owner e))
        (list_repairs (Some ''running'') None owner limit rows)),
      lp_release = (\<lambda>iid tm rows. snd (release_repair (clk iid) iid tm None rows))\<rparr>"

fun release_each :: "'s lease_port \<Rightarrow> time option \<Rightarrow> string list \<Rightarrow> 's \<Rightarrow> 's" where
  "release_each p tm [] s = s"
| "release_each p tm (i # is) s = release_each p tm is (lp_release p i tm s)"

definition ended_at :: "task \<Rightarrow> time" where
  "ended_at t = time_or (t_completed_at t) (t_updated_at t)"

definition release_task_leases :: "'s lease_port \<Rightarrow> task \<Rightarrow> 's \<Rightarrow> 's" where
  "release_task_leases p t s =
     release_each p (Some (ended_at t)) (map fst (lp_running p (Some (t_id t)) 100 s)) s"

text \<open>A running item is leaked when its owner is missing, unknown or not running.\<close>

definition lease_leaked :: "taskdb \<Rightarrow> string option \<Rightarrow> bool" where
  "lease_leaked db owner = (case owner of
       None \<Rightarrow> True
     | Some o' \<Rightarrow> o' = [] \<or> (case get_task o' db of Inl _ \<Rightarrow> True | Inr t \<Rightarrow> t_status t \<noteq> Running))"

definition recover_leaked_leases :: "'s lease_port \<Rightarrow> taskdb \<Rightarrow> 's \<Rightarrow> 's" where
  "recover_leaked_leases p db s =
     release_each p None (map fst (filter (\<lambda>x. lease_leaked db (snd x)) (lp_running p None 200 s))) s"

definition release_task_work_items :: "worker_env \<Rightarrow> task \<Rightarrow> 'c world \<Rightarrow> 'c world" where
  "release_task_work_items env t w =
     w\<lparr>g_items := release_task_leases (item_lease_port (ev_lease_clk env)) t (g_items w)\<rparr>"

definition release_task_embedding_repairs :: "worker_env \<Rightarrow> task \<Rightarrow> 'c world \<Rightarrow> 'c world" where
  "release_task_embedding_repairs env t w =
     w\<lparr>g_repairs := release_task_leases (repair_lease_port (ev_lease_clk env)) t (g_repairs w)\<rparr>"

definition recover_leaked_embedding_repairs :: "worker_env \<Rightarrow> 'c world \<Rightarrow> 'c world" where
  "recover_leaked_embedding_repairs env w =
     w\<lparr>g_repairs := recover_leaked_leases (repair_lease_port (ev_lease_clk env)) (g_queue w) (g_repairs w)\<rparr>"

definition recover_leaked_work_items :: "worker_env \<Rightarrow> 'c world \<Rightarrow> 'c world" where
  "recover_leaked_work_items env w =
     recover_leaked_embedding_repairs env
       (w\<lparr>g_items := recover_leaked_leases (item_lease_port (ev_lease_clk env)) (g_queue w) (g_items w)\<rparr>)"

section \<open>Recovery of running tasks\<close>

text \<open>\<open>_get_running_task_attempt\<close>.\<close>

definition running_task_attempt :: "attempt list \<Rightarrow> task \<Rightarrow> attempt option" where
  "running_task_attempt rows t = (case get_attempt (t_id t) (t_epoch t) rows of Inl _ \<Rightarrow> None | Inr a \<Rightarrow> Some a)"

text \<open>\<open>_reconcile_curator_provider_startup\<close>: running curators in their start-up are touched.\<close>

fun touch_startups :: "worker_config \<Rightarrow> time \<Rightarrow> attempt list \<Rightarrow> task list \<Rightarrow> taskdb \<Rightarrow> string list \<times> taskdb" where
  "touch_startups cf current rows [] db = ([], db)"
| "touch_startups cf current rows (t # ts) db =
     (if \<not> curator_provider_startup_is_active (cf_startup_grace cf) t (running_task_attempt rows t) current
      then touch_startups cf current rows ts db
      else case touch_running_task current (t_id t) (Some current) (Some (t_epoch t)) db of
          (Inl _, db') \<Rightarrow> touch_startups cf current rows ts db'
        | (Inr _, db') \<Rightarrow> (case touch_startups cf current rows ts db' of (ids, db'') \<Rightarrow> (t_id t # ids, db'')))"

definition reconcile_curator_provider_startup :: "worker_config \<Rightarrow> time \<Rightarrow> attempt list \<Rightarrow> taskdb \<Rightarrow> string list \<times> taskdb" where
  "reconcile_curator_provider_startup cf current rows db =
     touch_startups cf current rows (list_tasks (Some ''running'') None 200 db) db"

text \<open>What to do with a running task: its error text, and the reason its attempt ended.\<close>

datatype recovery_plan = PlanFinalize | PlanRetry string string | PlanFailAbandoned string

definition recent_activity :: "task \<Rightarrow> attempt option \<Rightarrow> time" where
  "recent_activity t att =
     (let own = max (max (t_updated_at t) (time_or (t_started_at t) (t_updated_at t)))
                    (time_or (t_claimed_at t) (t_updated_at t))
      in case att of
           None \<Rightarrow> own
         | Some a \<Rightarrow> max own (max (at_started_at a) (time_or (at_heartbeat_at a) (at_started_at a))))"

definition observed_pid :: "task \<Rightarrow> attempt option \<Rightarrow> int option" where
  "observed_pid t att = (case att of None \<Rightarrow> t_pid t | Some a \<Rightarrow> coalesce (at_pid a) (t_pid t))"

definition classify_running_task_recovery ::
  "worker_config \<Rightarrow> (int \<Rightarrow> kill_outcome) \<Rightarrow> time \<Rightarrow> task \<Rightarrow> attempt option \<Rightarrow> recovery_plan option" where
  "classify_running_task_recovery cf kill current t att =
     (if curator_provider_startup_is_active (cf_startup_grace cf) t att current then None
      else let stale = (max (current - recent_activity t att) 0 \<ge> cf_stale_after cf) in
        case observed_pid t att of
          Some pid \<Rightarrow>
            if is_process_alive kill pid then None
            else if \<not> stale then None
            else if t_cancel_requested_at t \<noteq> None then Some PlanFinalize
            else Some (PlanRetry (''Provider subprocess '' @ py_str_int pid @ '' exited unexpectedly'')
                        ''provider_subprocess_exited_retry'')
        | None \<Rightarrow>
            if t_cancel_requested_at t \<noteq> None then Some PlanFinalize
            else if \<not> stale then None
            else if curator_provider_startup_started_at t att \<noteq> None \<and> att \<noteq> None
            then Some (PlanRetry ''Curator provider startup became stale before an active provider subprocess was observed''
                        ''curator_provider_startup_timeout'')
            else Some (PlanRetry ''Task was abandoned without an active provider subprocess''
                        ''abandoned_no_subprocess_retry''))"

datatype reconcile_policy = TerminalPolicy | InterruptionPolicy string

text \<open>\<open>_apply_running_task_recovery_plan\<close>: one transition of the queue, guarded by the epoch and
  tried again while the database is locked.\<close>

definition plan_transition :: "worker_config \<Rightarrow> worker_env \<Rightarrow> time \<Rightarrow> task \<Rightarrow> recovery_plan \<Rightarrow> task task_op" where
  "plan_transition cf env current t plan =
     (case plan of
        PlanFinalize \<Rightarrow> finalize_cancellation (ev_rid env (t_id t)) current (t_id t) (Some current) (Some (t_epoch t))
      | PlanRetry err _ \<Rightarrow> fail (ev_rid env (t_id t)) current (t_id t) err (cf_retry_delay cf) (Some current) (Some (t_epoch t))
      | PlanFailAbandoned err \<Rightarrow>
          fail_permanently (ev_rid env (t_id t)) current (t_id t) err (Some current) (Some (t_epoch t)))"

definition plan_policy :: "recovery_plan \<Rightarrow> task \<Rightarrow> reconcile_policy" where
  "plan_policy plan recovered =
     (case plan of
        PlanRetry _ reason \<Rightarrow> if t_status recovered \<noteq> Pending then TerminalPolicy else InterruptionPolicy reason
      | _ \<Rightarrow> TerminalPolicy)"

definition apply_recovery_plan ::
  "worker_config \<Rightarrow> worker_env \<Rightarrow> time \<Rightarrow> task \<Rightarrow> recovery_plan \<Rightarrow> (task \<times> reconcile_policy) task_op" where
  "apply_recovery_plan cf env current t plan db =
     (case retry_recovery_transition (under_lock (ev_locked env (t_id t)) (plan_transition cf env current t plan)) db of
        (Inl e, db') \<Rightarrow> (Inl e, db')
      | (Inr r, db') \<Rightarrow> (Inr (r, plan_policy plan r), db'))"

text \<open>Tasks this worker runs itself are left out, or recovered only once their attempt has named a
  process.\<close>

definition recovery_excluded :: "(string \<times> int) list \<Rightarrow> bool \<Rightarrow> attempt list \<Rightarrow> task \<Rightarrow> bool" where
  "recovery_excluded owned include_owned rows t =
     ((t_id t, t_epoch t) \<in> set owned
      \<and> (\<not> include_owned
         \<or> (case running_task_attempt rows t of None \<Rightarrow> True | Some a \<Rightarrow> at_pid a = None)))"

definition recovery_plan_for ::
  "worker_config \<Rightarrow> worker_env \<Rightarrow> time \<Rightarrow> (string \<times> int) list \<Rightarrow> bool \<Rightarrow> attempt list \<Rightarrow> task \<Rightarrow> recovery_plan option" where
  "recovery_plan_for cf env current owned include_owned rows t =
     (if recovery_excluded owned include_owned rows t then None
      else classify_running_task_recovery cf (ev_kill env) current t (running_task_attempt rows t))"

fun recover_each ::
  "worker_config \<Rightarrow> worker_env \<Rightarrow> time \<Rightarrow> (string \<times> int) list \<Rightarrow> bool \<Rightarrow> attempt list
   \<Rightarrow> task list \<Rightarrow> (task \<times> reconcile_policy) list task_op" where
  "recover_each cf env current owned incl rows [] db = (Inr [], db)"
| "recover_each cf env current owned incl rows (t # ts) db =
     (case recovery_plan_for cf env current owned incl rows t of
        None \<Rightarrow> recover_each cf env current owned incl rows ts db
      | Some plan \<Rightarrow>
          (case apply_recovery_plan cf env current t plan db of
             (Inl e, db') \<Rightarrow> (Inl e, db')
           | (Inr r, db') \<Rightarrow>
               (case recover_each cf env current owned incl rows ts db' of
                  (Inl e, db'') \<Rightarrow> (Inl e, db'')
                | (Inr rs, db'') \<Rightarrow> (Inr (r # rs), db''))))"

definition recover_running_tasks ::
  "worker_config \<Rightarrow> worker_env \<Rightarrow> time \<Rightarrow> (string \<times> int) list \<Rightarrow> bool \<Rightarrow> attempt list
   \<Rightarrow> (task \<times> reconcile_policy) list task_op" where
  "recover_running_tasks cf env current owned include_owned rows db =
     recover_each cf env current owned include_owned rows (list_tasks (Some ''running'') None 200 db) db"

section \<open>Reconciliation of a task that ended\<close>

definition finish_task_attempt ::
  "worker_env \<Rightarrow> task \<Rightarrow> string \<Rightarrow> string option \<Rightarrow> string option \<Rightarrow> 'c world \<Rightarrow> 'c world" where
  "finish_task_attempt env t status err reason w =
     w\<lparr>g_attempts := snd (finish_attempt (ev_clk env) (t_id t) (t_epoch t) status (Some (ended_at t)) None None
        err reason (g_attempts w))\<rparr>"

definition reconcile_task_execution_attempt :: "worker_env \<Rightarrow> task \<Rightarrow> 'c world \<Rightarrow> 'c world" where
  "reconcile_task_execution_attempt env t w =
     (if t_status t \<notin> {Completed, Failed, Cancelled} then w
      else finish_task_attempt env t
        (if t_status t = Completed then ''success'' else if t_status t = Cancelled then ''cancelled'' else ''error'')
        (if t_status t = Completed then None else t_last_error t)
        (if t_status t = Completed then None else Some (''task_'' @ status_name (t_status t))) w)"

definition reconcile_task_conversations :: "worker_env \<Rightarrow> task \<Rightarrow> 'c world \<Rightarrow> 'c world" where
  "reconcile_task_conversations env t w =
     (if t_status t \<notin> {Failed, Cancelled} then w
      else w\<lparr>g_conversations := snd (reconcile_running_task_conversations (ev_clk env) (t_id t)
        (if t_status t = Cancelled then ''cancelled'' else ''error'') (t_last_error t) None None None
        (Some (ended_at t)) (g_conversations w))\<rparr>)"

definition reconcile_terminal_task_state :: "worker_env \<Rightarrow> task \<Rightarrow> 'c world \<Rightarrow> 'c world" where
  "reconcile_terminal_task_state env t w =
     release_task_embedding_repairs env t (release_task_work_items env t
       (reconcile_task_conversations env t (reconcile_task_execution_attempt env t w)))"

definition reconcile_retryable_interruption :: "worker_env \<Rightarrow> task \<Rightarrow> string \<Rightarrow> 'c world \<Rightarrow> 'c world" where
  "reconcile_retryable_interruption env t reason w =
     (let w1 = finish_task_attempt env t ''error'' (t_last_error t) (Some reason) w;
          w2 = w1\<lparr>g_conversations := snd (reconcile_running_task_conversations (ev_clk env) (t_id t) ''error''
                 (t_last_error t) (Some ''recovery'') (Some reason) None (Some (t_updated_at t)) (g_conversations w1))\<rparr>
      in release_task_embedding_repairs env t (release_task_work_items env t w2))"

definition reconcile_recovered_task_state :: "worker_env \<Rightarrow> task \<times> reconcile_policy \<Rightarrow> 'c world \<Rightarrow> 'c world" where
  "reconcile_recovered_task_state env r w = (case r of
       (t, TerminalPolicy) \<Rightarrow> reconcile_terminal_task_state env t w
     | (t, InterruptionPolicy reason) \<Rightarrow> reconcile_retryable_interruption env t reason w)"

section \<open>The reconciliation pass\<close>

text \<open>One running conversation whose task is missing or over; the conversation is finalized with
  the outcome of the task.\<close>

definition orphaned_conversation_update :: "worker_env \<Rightarrow> taskdb \<Rightarrow> conversation \<Rightarrow> (conversation list \<Rightarrow> conversation list) option" where
  "orphaned_conversation_update env db c = (case c_task_id c of
       None \<Rightarrow> None
     | Some tid \<Rightarrow>
         (case get_task tid db of
            Inl _ \<Rightarrow> Some (\<lambda>rows. snd (finalize_running_conversation (ev_clk env) (c_request_id c) ''error''
                (Some ''Conversation task was missing during reconciliation'') (Some ''recovery'')
                (Some ''task_missing'') None (Some (max (c_completed_at c) (ev_clk env))) None None rows))
          | Inr t \<Rightarrow>
              if t_status t = Running then None
              else let status = (if t_status t = Completed then ''success''
                                 else if t_status t = Cancelled then ''cancelled'' else ''error'');
                       success = (status = ''success'')
                in Some (\<lambda>rows. snd (finalize_running_conversation (ev_clk env) (c_request_id c) status
                     (if success then None
                      else Some (str_or (t_last_error t) (''Task finished with status '' @ status_name (t_status t))))
                     (if success then None else if status = ''cancelled'' then Some ''cancellation'' else Some ''recovery'')
                     (if success then None else if status = ''cancelled'' then Some ''task_cancelled''
                      else Some (''task_'' @ status_name (t_status t)))
                     None (Some (ended_at t)) None None rows))))"

fun reconcile_conversations_each ::
  "worker_env \<Rightarrow> taskdb \<Rightarrow> conversation list \<Rightarrow> conversation list \<Rightarrow> string list \<times> conversation list" where
  "reconcile_conversations_each env db [] rows = ([], rows)"
| "reconcile_conversations_each env db (c # cs) rows =
     (case orphaned_conversation_update env db c of
        None \<Rightarrow> reconcile_conversations_each env db cs rows
      | Some f \<Rightarrow> (case reconcile_conversations_each env db cs (f rows) of
            (ids, rows') \<Rightarrow> (c_request_id c # ids, rows')))"

definition reconcile_orphaned_running_conversations :: "worker_env \<Rightarrow> 'c world \<Rightarrow> string list \<times> 'c world" where
  "reconcile_orphaned_running_conversations env w =
     (case reconcile_conversations_each env (g_queue w)
             (list_conversations None None None None (Some ''running'') 200 (g_conversations w)) (g_conversations w) of
        (ids, rows) \<Rightarrow> (ids, w\<lparr>g_conversations := rows\<rparr>))"

text \<open>The pending tasks overdue by more than the stale time, the latest first.\<close>

definition overdue_pending :: "worker_config \<Rightarrow> time \<Rightarrow> taskdb \<Rightarrow> task list" where
  "overdue_pending cf current db =
     order_by t_available_at (filter (\<lambda>t. t_available_at t \<le> current \<and> current - t_available_at t \<ge> cf_stale_after cf)
       (list_tasks (Some ''pending'') None 200 db))"

record snapshot =
  sn_recovered :: "string list"
  sn_conversations :: "string list"
  sn_startups :: "string list"
  sn_released :: "int list"
  sn_overdue :: "string list"

text \<open>\<open>_run_reconciliation_pass\<close>; \<open>curation\<close> is the curation reconciler, which reads the queue. The
  log message is left out.\<close>

definition run_reconciliation_pass ::
  "worker_config \<Rightarrow> worker_env \<Rightarrow> (taskdb \<Rightarrow> 'c \<Rightarrow> unit res \<times> 'c) option \<Rightarrow> (string \<times> int) list \<Rightarrow> time option \<Rightarrow> bool
   \<Rightarrow> ('c, snapshot) world_op" where
  "run_reconciliation_pass cf env curation owned now include_owned w =
     (let current = now_or now (ev_clk env);
          w1 = recover_leaked_work_items env w;
          (startups, db2) = reconcile_curator_provider_startup cf current (g_attempts w1) (g_queue w1);
          w2 = w1\<lparr>g_queue := db2\<rparr>
      in bind_world (on_queue (recover_running_tasks cf env current owned include_owned (g_attempts w2)))
        (\<lambda>recovered w3.
           let w4 = fold (reconcile_recovered_task_state env) recovered w3;
               (conversations, w5) = reconcile_orphaned_running_conversations env w4
           in bind_world (\<lambda>w. case curation of
                   None \<Rightarrow> (Inr (), w)
                 | Some f \<Rightarrow> (case f (g_queue w) (g_curation w) of (r, c) \<Rightarrow> (r, w\<lparr>g_curation := c\<rparr>)))
                (\<lambda>_ w6.
                   let (released, j) = release_orphaned_claims (g_queue w6) (g_journal w6);
                       w7 = w6\<lparr>g_journal := j\<rparr>
                   in (Inr \<lparr>sn_recovered = map (t_id \<circ> fst) recovered, sn_conversations = conversations,
                            sn_startups = startups, sn_released = released,
                            sn_overdue = map t_id (take 5 (overdue_pending cf current (g_queue w7)))\<rparr>, w7)) w5) w2)"

end
