(* ===== verification/TaskProcess.thy ===== *)
theory TaskProcess
  imports TaskWorker
begin

text \<open>
  The other half of \<open>core/task_worker.py\<close>: one claimed task from its handler to its follow-up, the
  loop around it, and the shutdown. A handler is a parameter: it may do anything to the stores, and
  then returns a mapping or something else, raises, or is cancelled.
\<close>

section \<open>Follow-ups\<close>

definition positive_result_field :: "dict \<Rightarrow> string \<Rightarrow> bool" where
  "positive_result_field d k = (case dict_get d k of Some (JInt i) \<Rightarrow> i > 0 | _ \<Rightarrow> False)"

definition should_schedule_ingest_continuation :: "dict option \<Rightarrow> bool" where
  "should_schedule_ingest_continuation result = (case result of
       None \<Rightarrow> False
     | Some d \<Rightarrow> positive_result_field d ''pending_remaining'' \<and> positive_result_field d ''meaningful_actions'')"

definition schedule_follow_up :: "worker_env \<Rightarrow> task \<Rightarrow> task \<Rightarrow> dict option \<Rightarrow> ('c, unit) world_op" where
  "schedule_follow_up env t terminal result w =
     (let q = sqlite_queue_port (ev_uuid env) (ev_clk env) in
      if t_name t = SYSTEM1_INGEST_TASK_NAME \<and> t_status terminal = Completed
      then bind_world (on_queue
             ((if should_schedule_ingest_continuation result then schedule_system1_ingest_continuation
               else schedule_system1_ingest)
              q (ev_tz env) (ev_clk env) (g_journal w) (t_workspace t) (Some (ended_at terminal)) None))
             (\<lambda>_ w. (Inr (), w)) w
      else case AUTONOMOUS_RECURRING_TASK_INTERVAL_SECONDS (t_name t) of
          None \<Rightarrow> (Inr (), w)
        | Some interval \<Rightarrow>
            if t_status terminal \<notin> {Completed, Failed} then (Inr (), w)
            else let jitter = compute_recurring_jitter_seconds (ev_random env) interval in
              bind_world (on_queue (q_enqueue_unique q (t_name t) None
                   [(''workspace_id'', JNull), (''trigger'', JStr ''recurring_follow_up''),
                    (''interval_seconds'', JFloat interval), (''jitter_seconds'', JFloat jitter)]
                   (task_priority (t_name t)) (Some (ended_at terminal + interval + jitter))))
                (\<lambda>_ w. (Inr (), w)) w)"

section \<open>One task\<close>

datatype handler_outcome = Returned "dict option" | Raised string "real option" | HandlerCancelled

type_synonym 'c handler = "task \<Rightarrow> 'c world \<Rightarrow> handler_outcome \<times> 'c world"

text \<open>The registered handlers, and what the handler factory returns, if there is one. An unknown
  name makes the worker take the factory's handlers, if these are any.\<close>

definition refresh_handler ::
  "(string \<times> 'c handler) list option \<Rightarrow> string \<Rightarrow> (string \<times> 'c handler) list
   \<Rightarrow> 'c handler option \<times> (string \<times> 'c handler) list" where
  "refresh_handler factory name handlers = (case factory of
       None \<Rightarrow> (None, handlers)
     | Some refreshed \<Rightarrow> if refreshed = [] then (None, handlers) else (map_of refreshed name, refreshed))"

definition resolve_handler ::
  "(string \<times> 'c handler) list option \<Rightarrow> string \<Rightarrow> (string \<times> 'c handler) list
   \<Rightarrow> 'c handler option \<times> (string \<times> 'c handler) list" where
  "resolve_handler factory name handlers = (case map_of handlers name of
       Some h \<Rightarrow> (Some h, handlers)
     | None \<Rightarrow> refresh_handler factory name handlers)"

text \<open>How \<open>_process_task\<close> ends when it does not raise an exception: \<open>Interrupted\<close> is the
  \<open>CancelledError\<close> raised again.\<close>

datatype process_end = Finished | Interrupted

text \<open>A transition that ends the task, and the reconciliation of its state.\<close>

definition ending :: "worker_env \<Rightarrow> task task_op \<Rightarrow> ('c, task) world_op" where
  "ending env f = bind_world (on_queue f) (\<lambda>t w. (Inr t, reconcile_terminal_task_state env t w))"

definition finish_cancelled :: "worker_env \<Rightarrow> task \<Rightarrow> ('c, task) world_op" where
  "finish_cancelled env t =
     ending env (finalize_cancellation (ev_rid env (t_id t)) (ev_clk env) (t_id t) None (Some (t_epoch t)))"

definition after_handler ::
  "worker_config \<Rightarrow> worker_env \<Rightarrow> bool \<Rightarrow> task \<Rightarrow> handler_outcome \<Rightarrow> ('c, process_end) world_op" where
  "after_handler cf env stopping t outcome w =
     (let requested = is_cancellation_requested (t_id t) (g_queue w);
          rid = ev_rid env (t_id t); clk = ev_clk env; tid = t_id t; epoch = Some (t_epoch t) in
      case outcome of
        HandlerCancelled \<Rightarrow>
          bind_world (on_queue (get_task_op tid))
            (\<lambda>current. if t_status current \<noteq> Running then (\<lambda>w. (Inr Finished, w))
              else bind_world (if requested \<or> stopping then finish_cancelled env t
                   else ending env (fail_permanently rid clk tid ''Task interrupted during worker shutdown'' None epoch))
                 (\<lambda>_ w. (Inr Interrupted, w))) w
      | Raised err delay \<Rightarrow>
          if requested then bind_world (finish_cancelled env t) (\<lambda>_ w. (Inr Finished, w)) w
          else bind_world (ending env (fail rid clk tid err
                   (case delay of None \<Rightarrow> cf_retry_delay cf | Some d \<Rightarrow> max d 0) None epoch))
                 (\<lambda>failed. bind_world (schedule_follow_up env t failed None) (\<lambda>_ w. (Inr Finished, w))) w
      | Returned result \<Rightarrow>
          let normalized = (case result of None \<Rightarrow> [] | Some d \<Rightarrow> d) in
          bind_world (if requested then finish_cancelled env t
               else ending env (complete rid clk tid None (ResultMapping normalized) epoch))
            (\<lambda>ended. bind_world (schedule_follow_up env t ended (Some normalized)) (\<lambda>_ w. (Inr Finished, w))) w)"

definition process_task ::
  "worker_config \<Rightarrow> worker_env \<Rightarrow> 'c handler option \<Rightarrow> bool \<Rightarrow> task \<Rightarrow> ('c, process_end) world_op" where
  "process_task cf env handler stopping t w =
     (case handler of
        None \<Rightarrow>
          bind_world (on_queue (fail_permanently (ev_rid env (t_id t)) (ev_clk env) (t_id t)
              (''No task handler registered for '' @ t_name t) None (Some (t_epoch t))))
            (\<lambda>_ w. (Inr Finished, w)) w
      | Some h \<Rightarrow>
          (case should_pause_autonomous_recurring_maintenance (ev_clk env) t (g_journal w) None of
             Inl e \<Rightarrow> (Inl e, w)
           | Inr (Some st) \<Rightarrow>
               bind_world (ending env (complete (ev_rid env (t_id t)) (ev_clk env) (t_id t) None
                   (ResultMapping (build_idle_pause_result t st)) (Some (t_epoch t))))
                 (\<lambda>_ w. (Inr Finished, w)) w
           | Inr None \<Rightarrow>
               bind_world (if t_name t = CURATOR_TASK_NAME then on_queue (preflight_curator_provider_startup (ev_clk env) t)
                    else (\<lambda>w. (Inr (), w)))
                 (\<lambda>_ w1. case h t w1 of (outcome, w2) \<Rightarrow> after_handler cf env stopping t outcome w2) w))"

text \<open>\<open>_recover_unexpected_task_error\<close>: what happens when the above raises.\<close>

definition recover_unexpected_task_error :: "worker_config \<Rightarrow> worker_env \<Rightarrow> task \<Rightarrow> py_error \<Rightarrow> ('c, unit) world_op" where
  "recover_unexpected_task_error cf env t exc w =
     (case get_task (t_id t) (g_queue w) of
        Inl _ \<Rightarrow> (Inr (), w)
      | Inr current \<Rightarrow>
          if t_status current \<noteq> Running then (Inr (), w)
          else (case ending env (fail (ev_rid env (t_id t)) (ev_clk env) (t_id t)
                    (''Unhandled runtime task worker error: '' @ ev_error_text env exc)
                    (cf_retry_delay cf) None (Some (t_epoch current))) w of
                  (Inl _, w') \<Rightarrow> (Inr (), w')
                | (Inr failed, w') \<Rightarrow> schedule_follow_up env t failed None w'))"

section \<open>The loop\<close>

text \<open>The worker's own memory: when the next recovery is due, and its handlers. The attempts it
  owns are those of the task it processes.\<close>

record 'c worker_mem =
  m_next_recovery :: time
  m_handlers :: "(string \<times> 'c handler) list"

definition recover_abandoned_tasks ::
  "worker_config \<Rightarrow> worker_env \<Rightarrow> (taskdb \<Rightarrow> 'c \<Rightarrow> unit res \<times> 'c) option \<Rightarrow> (string \<times> int) list \<Rightarrow> bool
   \<Rightarrow> 'c worker_mem \<Rightarrow> 'c world \<Rightarrow> unit res \<times> 'c worker_mem \<times> 'c world" where
  "recover_abandoned_tasks cf env curation owned include_owned m w =
     (let current = ev_clk env in
      if current < m_next_recovery m then (Inr (), m, w)
      else let m' = m\<lparr>m_next_recovery := current + cf_recovery_interval cf\<rparr> in
        case run_reconciliation_pass cf env curation owned (Some current) include_owned w of
          (Inl e, w') \<Rightarrow> (Inl e, m', w')
        | (Inr _, w') \<Rightarrow> (Inr (), m', w'))"

text \<open>One iteration of \<open>_run_loop\<close>: recovery when it is due, a claim, and the task. The result says
  whether the loop was interrupted.\<close>

definition loop_iteration ::
  "worker_config \<Rightarrow> worker_env \<Rightarrow> (taskdb \<Rightarrow> 'c \<Rightarrow> unit res \<times> 'c) option \<Rightarrow> (string \<times> 'c handler) list option
   \<Rightarrow> bool \<Rightarrow> 'c worker_mem \<Rightarrow> 'c world \<Rightarrow> process_end res \<times> 'c worker_mem \<times> 'c world" where
  "loop_iteration cf env curation factory stopping m w =
     (case recover_abandoned_tasks cf env curation [] False m w of
        (Inl e, m1, w1) \<Rightarrow> (Inl e, m1, w1)
      | (Inr _, m1, w1) \<Rightarrow>
          (case claim_next (ev_clk env) None AnyWs (g_queue w1) of
             (None, db) \<Rightarrow> (Inr Finished, m1, w1\<lparr>g_queue := db\<rparr>)
           | (Some t, db) \<Rightarrow>
               (case resolve_handler factory (t_name t) (m_handlers m1) of
                  (h, handlers) \<Rightarrow>
                    (case process_task cf env h stopping t (w1\<lparr>g_queue := db\<rparr>) of
                       (Inr r, w2) \<Rightarrow> (Inr r, m1\<lparr>m_handlers := handlers\<rparr>, w2)
                     | (Inl exc, w2) \<Rightarrow>
                         (case recover_unexpected_task_error cf env t exc w2 of
                            (Inl e, w3) \<Rightarrow> (Inl e, m1\<lparr>m_handlers := handlers\<rparr>, w3)
                          | (Inr _, w3) \<Rightarrow> (Inr Finished, m1\<lparr>m_handlers := handlers\<rparr>, w3))))))"

text \<open>While a task is processed, every recovery interval: the worker lets go of its handler when the
  task does not run any more in the attempt it claimed; otherwise it touches the row and lets
  recovery look at its own task too. The result says whether to keep the handler.\<close>

definition attempt_runs :: "task \<Rightarrow> taskdb \<Rightarrow> bool res" where
  "attempt_runs t db = (case get_task (t_id t) db of
       Inl e \<Rightarrow> Inl e
     | Inr current \<Rightarrow> Inr (t_status current = Running \<and> t_epoch current = t_epoch t))"

definition watch_tick ::
  "worker_config \<Rightarrow> worker_env \<Rightarrow> (taskdb \<Rightarrow> 'c \<Rightarrow> unit res \<times> 'c) option \<Rightarrow> task
   \<Rightarrow> 'c worker_mem \<Rightarrow> 'c world \<Rightarrow> bool res \<times> 'c worker_mem \<times> 'c world" where
  "watch_tick cf env curation t m w =
     (case attempt_runs t (g_queue w) of
        Inl e \<Rightarrow> (Inl e, m, w)
      | Inr False \<Rightarrow> (Inr False, m, w)
      | Inr True \<Rightarrow>
          (case on_queue (touch_running_task (ev_clk env) (t_id t) None (Some (t_epoch t))) w of
             (Inl e, w1) \<Rightarrow> (Inl e, m, w1)
           | (Inr _, w1) \<Rightarrow>
               (case recover_abandoned_tasks cf env curation [(t_id t, t_epoch t)] True m w1 of
                  (Inl e, m2, w2) \<Rightarrow> (Inl e, m2, w2)
                | (Inr _, m2, w2) \<Rightarrow> (attempt_runs t (g_queue w2), m2, w2))))"

section \<open>Shutdown\<close>

text \<open>\<open>stop\<close>: cancellation is requested of every running task, 200 at a time, as long as 200 are
  listed. The loop has no bound of its own: a task stays listed until its handler gives up.\<close>

fun cancel_each :: "worker_env \<Rightarrow> task list \<Rightarrow> taskdb \<Rightarrow> taskdb" where
  "cancel_each env [] db = db"
| "cancel_each env (t # ts) db = cancel_each env ts
     (snd (request_cancel (ev_rid env (t_id t)) (ev_clk env) (t_id t) ''daemon'' ''daemon_shutdown'' None db))"

partial_function (option) cancel_running :: "worker_env \<Rightarrow> taskdb \<Rightarrow> taskdb option" where
  "cancel_running env db =
     (let running = list_tasks (Some ''running'') None 200 db in
      if running = [] then Some db
      else let db' = cancel_each env running db in
        if length running < 200 then Some db' else cancel_running env db')"

end
