(* ===== verification/TaskWorkerLaws.thy ===== *)
theory TaskWorkerLaws
  imports TaskProcess TaskQueueRecovery JournalProps WorkItemProps
begin

text \<open>
  The laws of the task worker: the exact effect of its recovery on the queue, row by row; a locale
  for the lease stores it walks, interpreted on work items and on embedding repairs; and what the
  reconciliation of conversations and claims leaves.
\<close>

section \<open>Recovery on the queue\<close>

text \<open>The row a plan leaves for a running row.\<close>

definition planned_row :: "worker_config \<Rightarrow> time \<Rightarrow> recovery_plan \<Rightarrow> task \<Rightarrow> task" where
  "planned_row cf current plan t = (case plan of
       PlanFinalize \<Rightarrow> finalize_update current (str_or (t_cancel_reason t) ''cancelled'') t
     | PlanRetry err _ \<Rightarrow> fail_update current (cf_retry_delay cf) err t t
     | PlanFailAbandoned err \<Rightarrow> fail_permanently_update current err t)"

lemma planned_row_simps [simp]:
  "t_id (planned_row cf current plan t) = t_id t"
  "t_status (planned_row cf current plan t) \<noteq> Running"
  by (cases plan; simp add: planned_row_def finalize_update_def fail_permanently_update_def fail_update_def Let_def)+

lemma plan_transition_move:
  assumes "distinct (map t_id (tasks db))"
  shows "db_move db (snd (plan_transition cf env current t plan db))"
  using assms
  by (cases plan) (simp_all add: plan_transition_def finalize_cancellation_move fail_move fail_permanently_move)

lemma epoch_write:
  assumes ok: "db_ok db" and row: "t \<in> set (tasks db)" "t_status t = Running"
    and ids: "\<And>s. t_id (f s) = t_id s"
  shows "write_transition (t_id t) (Some (t_epoch t)) f runs db =
    (Inr (f t), db\<lparr>tasks := map (\<lambda>s. if s = t then f t else s) (tasks db), task_runs := task_runs db @ runs\<rparr>)"
proof -
  let ?p = "running_guard (t_id t) (Some (t_epoch t))"
  have guard: "?p t" using row(2) by (simp add: running_guard_def)
  have "get_running_task_row (t_id t) (Some (t_epoch t)) db = Some t"
    by (rule get_running_task_rowI [OF db_okD(1) [OF ok] row(1) guard])
  moreover have "update_where ?p f (tasks db) = map (\<lambda>s. if s = t then f t else s) (tasks db)"
    using guard by (intro update_where_key_map [OF ok row(1)]) (simp_all add: running_guard_def)
  ultimately show ?thesis
    using write_transition_eq [where f = f, OF db_okD(1) [OF ok] _ ids] by simp
qed

lemma plan_transition_row:
  assumes ok: "db_ok db" and row: "t \<in> set (tasks db)" "t_status t = Running"
  shows "\<exists>rs. plan_transition cf env current t plan db =
    (Inr (planned_row cf current plan t),
     db\<lparr>tasks := map (\<lambda>s. if s = t then planned_row cf current plan t else s) (tasks db), task_runs := rs\<rparr>)"
proof -
  have "running_guard (t_id t) (Some (t_epoch t)) t" using row(2) by (simp add: running_guard_def)
  then have get: "get_running_task_row (t_id t) (Some (t_epoch t)) db = Some t"
    by (rule get_running_task_rowI [OF db_okD(1) [OF ok] row(1)])
  have ids: "t_id (finalize_update current r s) = t_id s" "t_id (fail_update current d e t s) = t_id s"
    "t_id (fail_permanently_update current e s) = t_id s" for r d e s
    by (simp_all add: finalize_update_def fail_update_def fail_permanently_update_def Let_def)
  note run = plan_transition_def planned_row_def recovery_plan.case
  note ops = finalize_cancellation_def fail_def fail_write_def fail_permanently_def
  show ?thesis
  proof (cases plan)
    case PlanFinalize
    show ?thesis unfolding run PlanFinalize by (auto simp: ops get now_or_def Let_def epoch_write [OF ok row] ids)
  next
    case (PlanRetry err reason)
    show ?thesis unfolding run PlanRetry by (auto simp: ops get now_or_def Let_def epoch_write [OF ok row] ids)
  next
    case (PlanFailAbandoned err)
    show ?thesis unfolding run PlanFailAbandoned by (auto simp: ops get now_or_def Let_def epoch_write [OF ok row] ids)
  qed
qed

lemma plan_transition_error: "only_value_error (fst (plan_transition cf env current t plan db))"
  by (cases plan) (simp_all add: plan_transition_def recovery_op_error)

text \<open>No row stays locked through the three attempts.\<close>

definition unlocked :: "worker_env \<Rightarrow> bool" where
  "unlocked env = (\<forall>tid. \<not> (ev_locked env tid 0 \<and> ev_locked env tid 1 \<and> ev_locked env tid 2))"

lemma apply_recovery_plan_row:
  assumes ok: "db_ok db" and row: "t \<in> set (tasks db)" "t_status t = Running" and free: "unlocked env"
  shows "\<exists>db'. apply_recovery_plan cf env current t plan db =
      (Inr (planned_row cf current plan t, plan_policy plan (planned_row cf current plan t)), db')
    \<and> tasks db' = map (\<lambda>s. if s = t then planned_row cf current plan t else s) (tasks db) \<and> db_ok db'"
proof -
  have pass: "retry_recovery_transition (under_lock (ev_locked env (t_id t)) (plan_transition cf env current t plan)) db
      = plan_transition cf env current t plan db"
    using retry_under_lock [where locked = "ev_locked env (t_id t)" and f = "plan_transition cf env current t plan",
        OF plan_transition_error]
      free unfolding unlocked_def by auto
  obtain rs where eff: "plan_transition cf env current t plan db = (Inr (planned_row cf current plan t),
     db\<lparr>tasks := map (\<lambda>s. if s = t then planned_row cf current plan t else s) (tasks db), task_runs := rs\<rparr>)"
    using plan_transition_row [OF ok row] by blast
  moreover have "db_ok (snd (plan_transition cf env current t plan db))"
    using plan_transition_move [OF db_okD(1) [OF ok]] ok by (rule db_move_ok)
  ultimately show ?thesis by (simp add: apply_recovery_plan_def pass)
qed

text \<open>Each listed row by itself.\<close>

definition recovered_outcome ::
  "worker_config \<Rightarrow> time \<Rightarrow> (task \<Rightarrow> recovery_plan option) \<Rightarrow> task \<Rightarrow> (task \<times> reconcile_policy) option" where
  "recovered_outcome cf current plans t = (case plans t of
       None \<Rightarrow> None
     | Some plan \<Rightarrow> Some (planned_row cf current plan t, plan_policy plan (planned_row cf current plan t)))"

definition row_after :: "worker_config \<Rightarrow> time \<Rightarrow> (task \<Rightarrow> recovery_plan option) \<Rightarrow> task \<Rightarrow> task" where
  "row_after cf current plans t = (case plans t of None \<Rightarrow> t | Some plan \<Rightarrow> planned_row cf current plan t)"

lemma row_after_id [simp]: "t_id (row_after cf current plans t) = t_id t"
  by (simp add: row_after_def split: option.split)

lemma recover_each_rows:
  assumes "db_ok db" and "distinct (map t_id ts)" and "unlocked env"
    and "\<forall>t \<in> set ts. t \<in> set (tasks db) \<and> t_status t = Running"
    and "plans = recovery_plan_for cf env current mine incl rows"
  shows "\<exists>db'. recover_each cf env current mine incl rows ts db =
      (Inr (List.map_filter (recovered_outcome cf current plans) ts), db')
    \<and> tasks db' = map (\<lambda>t. if t \<in> set ts then row_after cf current plans t else t) (tasks db) \<and> db_ok db'"
  using assms
proof (induction ts arbitrary: db)
  case Nil
  then show ?case by (simp add: map_filter_simps)
next
  case (Cons t ts)
  show ?case
  proof (cases "plans t")
    case None
    then have rec: "(if s \<in> set (t # ts) then row_after cf current plans s else s)
        = (if s \<in> set ts then row_after cf current plans s else s)" for s
      by (auto simp: row_after_def)
    show ?thesis
      using Cons.IH [of db] Cons.prems None unfolding rec
      by (simp add: map_filter_simps recovered_outcome_def)
  next
    case (Some plan)
    have t: "t \<in> set (tasks db)" "t_status t = Running" using Cons.prems(4) by auto
    let ?r = "planned_row cf current plan t"
    obtain db1 where step: "apply_recovery_plan cf env current t plan db = (Inr (?r, plan_policy plan ?r), db1)"
        and tasks1: "tasks db1 = map (\<lambda>s. if s = t then ?r else s) (tasks db)" and ok1: "db_ok db1"
      using apply_recovery_plan_row [OF Cons.prems(1) t Cons.prems(3)] by blast
    have sep: "s \<noteq> ?r" "s \<noteq> t" if "s \<in> set ts" for s
    proof -
      have "t_id s \<noteq> t_id t" using that Cons.prems(2) by (metis distinct.simps(2) imageI list.set_map list.simps(9))
      then show "s \<noteq> ?r" "s \<noteq> t" by auto
    qed
    have mem: "\<forall>s \<in> set ts. s \<in> set (tasks db1) \<and> t_status s = Running"
      using sep(2) Cons.prems(4) unfolding tasks1 by force
    obtain db' where loop: "recover_each cf env current mine incl rows ts db1 =
          (Inr (List.map_filter (recovered_outcome cf current plans) ts), db')"
        and tasks': "tasks db' = map (\<lambda>t. if t \<in> set ts then row_after cf current plans t else t) (tasks db1)"
        and ok': "db_ok db'"
      using Cons.IH [OF ok1 _ Cons.prems(3) mem Cons.prems(5)] Cons.prems(2) by auto
    have "row_after cf current plans t = ?r" using Some by (simp add: row_after_def)
    then have "tasks db' = map (\<lambda>s. if s \<in> set (t # ts) then row_after cf current plans s else s) (tasks db)"
      unfolding tasks' tasks1 using sep by auto
    moreover have "recovered_outcome cf current plans t = Some (?r, plan_policy plan ?r)"
      using Some by (simp add: recovered_outcome_def)
    ultimately show ?thesis
      using loop Some ok' by (simp add: step Cons.prems(5) [symmetric] map_filter_simps)
  qed
qed

lemma recover_running_tasks_rows:
  assumes "db_ok db" and "unlocked env"
    and "plans = recovery_plan_for cf env current mine incl rows"
    and "listed = list_tasks (Some ''running'') None 200 db"
  shows "\<exists>db'. recover_running_tasks cf env current mine incl rows db =
      (Inr (List.map_filter (recovered_outcome cf current plans) listed), db')
    \<and> tasks db' = map (\<lambda>t. if t \<in> set listed then row_after cf current plans t else t) (tasks db) \<and> db_ok db'"
  using recover_each_rows [OF assms(1) distinct_list_tasks [OF db_okD(1) [OF assms(1)]] assms(2) _ assms(3),
      of "Some ''running''" None 200] list_tasks_running assms(4)
  unfolding recover_running_tasks_def by blast

text \<open>With at most 200 running tasks, all of them are listed.\<close>

definition running_tasks :: "taskdb \<Rightarrow> task set" where
  "running_tasks db = {t \<in> set (tasks db). t_status t = Running}"

definition count_running :: "taskdb \<Rightarrow> nat" where
  "count_running db = rowcount (\<lambda>t. t_status t = Running) (tasks db)"

lemma status_running_iff: "status_name s = ''running'' \<longleftrightarrow> s = Running"
  by (cases s) simp_all

lemma list_tasks_all_running:
  assumes "count_running db \<le> 200"
  shows "set (list_tasks (Some ''running'') None 200 db) = running_tasks db"
proof -
  let ?ts = "filter (\<lambda>t. t_status t = Running) (tasks db)"
  have "length (order_by k ?ts) \<le> 200" for k :: "task \<Rightarrow> time \<times> time"
    using assms by (simp add: count_running_def rowcount_def order_by_def)
  then have "limit_rows 200 (order_by k ?ts) = order_by k ?ts" for k :: "task \<Rightarrow> time \<times> time"
    by (simp add: limit_rows_def)
  then show ?thesis by (simp add: list_tasks_def status_running_iff running_tasks_def)
qed

section \<open>Start-ups\<close>

text \<open>The touches of start-ups change nothing but \<open>updated_at\<close>, so the same tasks keep running.\<close>

lemma touch_startups_rows:
  assumes "db_ok db" and "touch_startups cf current rows ts db = (ids, db')"
  shows "db_ok db' \<and> (\<exists>f. tasks db' = map f (tasks db)
    \<and> (\<forall>t. f t = t \<or> t_status t = Running \<and> f t = t\<lparr>t_updated_at := current\<rparr>))"
  using assms
proof (induction ts arbitrary: db ids)
  case Nil
  then show ?case by (intro conjI exI [of _ id]) auto
next
  case (Cons t ts)
  show ?case
  proof (cases "curator_provider_startup_is_active (cf_startup_grace cf) t (running_task_attempt rows t) current")
    case False
    then show ?thesis using Cons.IH [of db] Cons.prems by simp
  next
    case True
    let ?touch = "touch_running_task current (t_id t) (Some current) (Some (t_epoch t)) db"
    let ?p = "running_guard (t_id t) (Some (t_epoch t))"
    have ok: "db_ok (snd ?touch)"
      using touch_running_task_move [OF db_okD(1) [OF Cons.prems(1)]] Cons.prems(1) by (rule db_move_ok)
    obtain ids' where rest: "touch_startups cf current rows ts (snd ?touch) = (ids', db')"
      using Cons.prems(2) True by (cases ?touch) (auto split: sum.splits prod.splits)
    obtain g where g: "db_ok db'" "tasks db' = map g (tasks (snd ?touch))"
        "\<forall>t. g t = t \<or> t_status t = Running \<and> g t = t\<lparr>t_updated_at := current\<rparr>"
      using Cons.IH [OF ok rest] by blast
    have "tasks (snd ?touch) = tasks db
        \<or> tasks (snd ?touch) = update_where ?p (\<lambda>t. t\<lparr>t_updated_at := current\<rparr>) (tasks db)"
      by (auto simp: touch_running_task_def write_transition_def now_or_def Let_def)
    then show ?thesis
    proof
      assume "tasks (snd ?touch) = tasks db"
      with g show ?thesis by auto
    next
      assume "tasks (snd ?touch) = update_where ?p (\<lambda>t. t\<lparr>t_updated_at := current\<rparr>) (tasks db)"
      then have "tasks db' = map (g \<circ> (\<lambda>t. if ?p t then t\<lparr>t_updated_at := current\<rparr> else t)) (tasks db)"
        using g(2) by (simp add: update_where_def)
      moreover have "(g \<circ> (\<lambda>t. if ?p t then t\<lparr>t_updated_at := current\<rparr> else t)) t = t
          \<or> t_status t = Running
            \<and> (g \<circ> (\<lambda>t. if ?p t then t\<lparr>t_updated_at := current\<rparr> else t)) t = t\<lparr>t_updated_at := current\<rparr>" for t
        using g(3) by (cases "?p t") (auto simp: running_guard_def dest: spec [of _ t] spec [of _ "t\<lparr>t_updated_at := current\<rparr>"])
      ultimately show ?thesis using g(1) by blast
    qed
  qed
qed

end
