(* ===== verification/WorkerLeases.thy ===== *)
theory WorkerLeases
  imports TaskWorker WorkItemProps
begin

text \<open>
  How the worker takes back leases (\<open>_release_task_work_items\<close>, \<open>_recover_leaked_work_items\<close> and
  their twins for embedding repairs), proved once over the contract of a store of running leases
  and interpreted on both stores.
\<close>

locale running_leases =
  fixes port :: "'s lease_port"
    and running :: "'s \<Rightarrow> (string \<times> string option) set"
    and count :: "'s \<Rightarrow> nat"
    and good :: "'s \<Rightarrow> bool"
  assumes listed: "good s \<Longrightarrow> 0 \<le> n \<Longrightarrow> count s \<le> nat n
      \<Longrightarrow> set (lp_running port own n s) = {x \<in> running s. own = None \<or> snd x = own}"
    and unique: "good s \<Longrightarrow> x \<in> running s \<Longrightarrow> y \<in> running s \<Longrightarrow> fst x = fst y \<Longrightarrow> x = y"
    and release_running: "good s \<Longrightarrow> running (lp_release port i tm s) = {x \<in> running s. fst x \<noteq> i}"
    and release_good: "good s \<Longrightarrow> good (lp_release port i tm s)"
    and release_count: "good s \<Longrightarrow> count (lp_release port i tm s) \<le> count s"
begin

lemma release_each_running:
  "good s \<Longrightarrow> good (release_each port tm is s) \<and> count (release_each port tm is s) \<le> count s
    \<and> running (release_each port tm is s) = {x \<in> running s. fst x \<notin> set is}"
proof (induction "is" arbitrary: s)
  case (Cons i "is")
  have "good (lp_release port i tm s)" using Cons.prems by (rule release_good)
  from Cons.IH [OF this] show ?case
    using release_running [OF Cons.prems, of i tm] release_count [OF Cons.prems, of i tm]
    by (auto intro: order_trans)
qed simp

text \<open>Releasing the listed leases that satisfy a condition leaves the others.\<close>

lemma release_selected:
  assumes "good s" and "ids = fst ` {x \<in> running s. P x}" and "set is = ids"
  shows "running (release_each port tm is s) = {x \<in> running s. \<not> P x}"
proof -
  have "fst x \<in> ids \<longleftrightarrow> P x" if "x \<in> running s" for x
    using that unique [OF assms(1)] unfolding assms(2) by blast
  then show ?thesis using release_each_running [OF assms(1), of tm "is"] assms(3) by blast
qed

lemma task_leases_released:
  assumes "good s" and "count s \<le> 100"
  shows "running (release_task_leases port t s) = {x \<in> running s. snd x \<noteq> Some (t_id t)}"
  using assms listed [of s 100 "Some (t_id t)"]
  unfolding release_task_leases_def by (intro release_selected) auto

lemma task_leases_good:
  "good s \<Longrightarrow> good (release_task_leases port t s) \<and> count (release_task_leases port t s) \<le> count s"
  using release_each_running unfolding release_task_leases_def by blast

lemma leaked_leases_recovered:
  assumes "good s" and "count s \<le> 200"
  shows "running (recover_leaked_leases port db s) = {x \<in> running s. \<not> lease_leaked db (snd x)}"
  using assms listed [of s 200 None]
  unfolding recover_leaked_leases_def by (intro release_selected) auto

lemma leaked_leases_good:
  "good s \<Longrightarrow> good (recover_leaked_leases port db s) \<and> count (recover_leaked_leases port db s) \<le> count s"
  using release_each_running unfolding recover_leaked_leases_def by blast

end

section \<open>A row with a key leaves the running rows\<close>

lemma running_rows_update:
  assumes dist: "distinct (map k rows)"
    and stop: "\<And>r. \<not> run (f r)"
    and p: "p = (\<lambda>r. k r = i \<and> run r)"
  shows "{r \<in> set (if rowcount p rows \<noteq> 1 then rows else update_where p f rows). run r}
      = {r \<in> set rows. run r \<and> k r \<noteq> i}"
    and "rowcount run (if rowcount p rows \<noteq> 1 then rows else update_where p f rows) \<le> rowcount run rows"
proof -
  have none: "\<not> p r" if "rowcount p rows \<noteq> 1" "r \<in> set rows" for r
    using rowcount_key [OF dist that(2), of p] that(1) unfolding p by auto
  show "{r \<in> set (if rowcount p rows \<noteq> 1 then rows else update_where p f rows). run r}
      = {r \<in> set rows. run r \<and> k r \<noteq> i}"
  proof (cases "rowcount p rows = 1")
    case True
    then show ?thesis using stop by (auto simp: in_update_where p)
  next
    case False
    then show ?thesis using none [OF False] by (auto simp: p)
  qed
  have "rowcount run (update_where p f rows) \<le> rowcount run rows"
    using stop by (induction rows) (auto simp: p)
  then show "rowcount run (if rowcount p rows \<noteq> 1 then rows else update_where p f rows) \<le> rowcount run rows"
    by simp
qed

lemma listed_running:
  fixes g :: "'r \<Rightarrow> 'k::linorder"
  assumes "rowcount run rows \<le> nat n" and "0 \<le> n"
  shows "set (limit_rows n (order_by g (filter (\<lambda>r. run r \<and> q r) rows))) = {r \<in> set rows. run r \<and> q r}"
proof -
  have "length (filter (\<lambda>r. run r \<and> q r) rows) \<le> length (filter run rows)"
    by (induction rows) auto
  then have "length (filter (\<lambda>r. run r \<and> q r) rows) \<le> nat n" using assms(1) by (simp add: rowcount_def)
  then show ?thesis using assms(2) by (simp add: limit_rows_def order_by_def)
qed

section \<open>The two stores\<close>

definition item_running :: "work_item \<Rightarrow> bool" where
  "item_running x = (w_status x = ItemRunning)"

definition running_items :: "work_item list \<Rightarrow> (string \<times> string option) set" where
  "running_items rows = (\<lambda>x. (w_id x, w_lease_owner x)) ` {x \<in> set rows. item_running x}"

lemma item_status_running: "item_status_name s = ''running'' \<longleftrightarrow> s = ItemRunning"
  by (cases s) simp_all

lemma item_release_rows:
  "lp_release (item_lease_port clk) i tm rows = (let p = (\<lambda>x. w_id x = i \<and> item_running x) in
     if rowcount p rows \<noteq> 1 then rows
     else update_where p (\<lambda>x. x\<lparr>w_status := ItemPending, w_updated_at := now_or tm (clk i), w_lease_owner := None,
        w_lease_expires_at := None\<rparr>) rows)"
  by (simp add: item_lease_port_def release_item_def update_running_item_def item_running_def Let_def)

interpretation il: running_leases "item_lease_port clk" running_items "rowcount item_running" items_ok for clk
proof (unfold_locales, goal_cases)
  case (1 s n own)
  have "filter (\<lambda>x. item_running x \<and> (own = None \<or> w_lease_owner x = own)) s
      = filter (\<lambda>x. item_status_name (w_status x) = ''running'' \<and> (case own of None \<Rightarrow> True | Some a \<Rightarrow> w_lease_owner x = Some a)) s"
    by (rule filter_cong) (auto simp: item_running_def item_status_running split: option.split)
  then have "lp_running (item_lease_port clk) own n s = map (\<lambda>x. (w_id x, w_lease_owner x))
      (limit_rows n (order_by (\<lambda>w. (- w_updated_at w, - w_created_at w))
        (filter (\<lambda>x. item_running x \<and> (own = None \<or> w_lease_owner x = own)) s)))"
    by (simp add: item_lease_port_def list_items_def Let_def)
  then show ?case
    using listed_running [OF 1(3,2), of _ "\<lambda>x. own = None \<or> w_lease_owner x = own"]
    by (auto simp: running_items_def)
next
  case (2 s x y)
  then show ?case by (auto simp: running_items_def items_ok_def distinct_map dest: inj_onD)
next
  case (3 s i tm)
  have "distinct (map w_id s)" using 3 by (simp add: items_ok_def)
  from running_rows_update(1) [OF this, of item_running, OF _ refl] show ?case
    unfolding item_release_rows Let_def running_items_def
    by (auto simp: item_running_def)
next
  case (4 s i tm)
  then show ?case using release_item_move item_move_ok by (fastforce simp: item_lease_port_def)
next
  case (5 s i tm)
  have "distinct (map w_id s)" using 5 by (simp add: items_ok_def)
  from running_rows_update(2) [OF this, of item_running, OF _ refl] show ?case
    unfolding item_release_rows Let_def by (simp add: item_running_def)
qed

definition repair_running :: "repair_item \<Rightarrow> bool" where
  "repair_running e = (e_status e = RepairRunning)"

definition running_repairs :: "repair_item list \<Rightarrow> (string \<times> string option) set" where
  "running_repairs rows = (\<lambda>e. (e_id e, e_lease_owner e)) ` {e \<in> set rows. repair_running e}"

lemma repair_status_running: "repair_status_name s = ''running'' \<longleftrightarrow> s = RepairRunning"
  by (cases s) simp_all

lemma repair_release_rows:
  "lp_release (repair_lease_port clk) i tm rows = (let p = (\<lambda>e. e_id e = i \<and> repair_running e) in
     if rowcount p rows \<noteq> 1 then rows
     else update_where p (\<lambda>e. e\<lparr>e_status := RepairPending, e_updated_at := now_or tm (clk i), e_lease_owner := None,
        e_lease_expires_at := None, e_last_error := None\<rparr>) rows)"
  by (simp add: repair_lease_port_def release_repair_def update_running_repair_def repair_running_def Let_def)

interpretation rl: running_leases "repair_lease_port clk" running_repairs "rowcount repair_running" repairs_ok for clk
proof (unfold_locales, goal_cases)
  case (1 s n own)
  have "filter (\<lambda>x. repair_running x \<and> (own = None \<or> e_lease_owner x = own)) s
      = filter (\<lambda>x. repair_status_name (e_status x) = ''running'' \<and> (case own of None \<Rightarrow> True | Some a \<Rightarrow> e_lease_owner x = Some a)) s"
    by (rule filter_cong) (auto simp: repair_running_def repair_status_running split: option.split)
  then have "lp_running (repair_lease_port clk) own n s = map (\<lambda>x. (e_id x, e_lease_owner x))
      (limit_rows n (order_by (\<lambda>e. (- e_updated_at e, - e_created_at e))
        (filter (\<lambda>x. repair_running x \<and> (own = None \<or> e_lease_owner x = own)) s)))"
    by (simp add: repair_lease_port_def list_repairs_def Let_def)
  then show ?case
    using listed_running [OF 1(3,2), of _ "\<lambda>x. own = None \<or> e_lease_owner x = own"]
    by (auto simp: running_repairs_def)
next
  case (2 s x y)
  then show ?case by (auto simp: running_repairs_def repairs_ok_def distinct_map dest: inj_onD)
next
  case (3 s i tm)
  have "distinct (map e_id s)" using 3 by (simp add: repairs_ok_def)
  from running_rows_update(1) [OF this, of repair_running, OF _ refl] show ?case
    unfolding repair_release_rows Let_def running_repairs_def
    by (auto simp: repair_running_def)
next
  case (4 s i tm)
  then show ?case using release_repair_ok by (simp add: repair_lease_port_def)
next
  case (5 s i tm)
  have "distinct (map e_id s)" using 5 by (simp add: repairs_ok_def)
  from running_rows_update(2) [OF this, of repair_running, OF _ refl] show ?case
    unfolding repair_release_rows Let_def by (simp add: repair_running_def)
qed

end
