(* ===== verification/WorkerReconcile.thy ===== *)
theory WorkerReconcile
  imports TaskWorkerLaws WorkerLeases
begin

text \<open>
  The reconciliation pass of the task worker as a whole: after it, everything that is held is held
  by a running task.
\<close>

section \<open>Conversations\<close>

lemma finalize_conversations_count:
  assumes "status \<noteq> ''running''"
  shows "rowcount conversation_running (snd (finalize_running_conversations p clk status err cat code delay completed
     response parsed rows)) \<le> rowcount conversation_running rows"
  using assms
  by (induction rows) (auto simp: finalize_running_conversations_def Let_def conversation_running_def)

definition conversation_release :: "(conversation list \<Rightarrow> conversation list) \<Rightarrow> string \<Rightarrow> bool" where
  "conversation_release f request = (\<forall>rows. \<forall>c \<in> set (f rows). conversation_running c
     \<longrightarrow> c \<in> set rows \<and> c_request_id c \<noteq> request)"

lemma orphaned_update_release:
  assumes "orphaned_conversation_update env db c = Some f"
  shows "conversation_release f (c_request_id c)"
proof -
  have fin: "conversation_release (\<lambda>rows. snd (finalize_running_conversation clk (c_request_id c) status err cat
      code delay completed response parsed rows)) (c_request_id c)"
    if "status \<noteq> ''running''" for clk status err cat code delay completed response parsed
    using finalize_conversations_rows [OF that] unfolding conversation_release_def finalize_running_conversation_def
    by blast
  show ?thesis
  proof (cases "c_task_id c")
    case None
    with assms show ?thesis by (simp add: orphaned_conversation_update_def)
  next
    case (Some tid)
    show ?thesis
    proof (cases "get_task tid db")
      case (Inl e)
      with Some assms fin show ?thesis by (auto simp: orphaned_conversation_update_def)
    next
      case (Inr t)
      with Some assms have "t_status t \<noteq> Running" by (auto simp: orphaned_conversation_update_def)
      then show ?thesis
        using Some Inr assms fin unfolding orphaned_conversation_update_def Let_def
        by (auto split: if_splits)
    qed
  qed
qed

lemma reconcile_conversations_rows:
  "snd (reconcile_conversations_each env db cs rows) = rows' \<Longrightarrow> c \<in> set rows' \<Longrightarrow> conversation_running c
    \<Longrightarrow> c \<in> set rows \<and> (c \<in> set cs \<longrightarrow> orphaned_conversation_update env db c = None)"
proof (induction cs arbitrary: rows)
  case (Cons d cs)
  show ?case
  proof (cases "orphaned_conversation_update env db d")
    case None
    then show ?thesis using Cons by auto
  next
    case (Some f)
    then have "snd (reconcile_conversations_each env db cs (f rows)) = rows'"
      using Cons.prems(1) by (simp split: prod.splits)
    then have "c \<in> set (f rows)" "c \<in> set cs \<longrightarrow> orphaned_conversation_update env db c = None"
      using Cons.IH Cons.prems(2,3) by blast+
    moreover have "c \<in> set rows" "c_request_id c \<noteq> c_request_id d"
      using orphaned_update_release [OF Some] Cons.prems(3) calculation(1) unfolding conversation_release_def by blast+
    ultimately show ?thesis by auto
  qed
qed simp

text \<open>An owner that is a running task.\<close>

definition owner_running :: "taskdb \<Rightarrow> string option \<Rightarrow> bool" where
  "owner_running db own = (\<exists>t \<in> running_tasks db. own = Some (t_id t))"

lemma not_leaked_owner: "\<not> lease_leaked db own \<Longrightarrow> owner_running db own"
  by (auto simp: lease_leaked_def owner_running_def running_tasks_def split: option.splits sum.splits
      dest!: get_task_InrD)

lemma conversation_kept_owner:
  "orphaned_conversation_update env db c = None \<Longrightarrow> c_task_id c = None \<or> owner_running db (c_task_id c)"
  by (auto simp: orphaned_conversation_update_def owner_running_def running_tasks_def Let_def
      split: option.splits sum.splits if_splits dest!: get_task_InrD)

lemma list_conversations_running:
  assumes "rowcount conversation_running rows \<le> 200"
  shows "set (list_conversations None None None None (Some ''running'') 200 rows) = {c \<in> set rows. conversation_running c}"
proof -
  have "filter (\<lambda>c. c_status c = ''running'') rows = filter (\<lambda>c. conversation_running c \<and> True) rows"
    by (simp add: conversation_running_def)
  then show ?thesis
    using listed_running [where run = conversation_running and rows = rows and n = 200 and q = "\<lambda>_. True"] assms
    by (simp add: list_conversations_def)
qed

lemma orphaned_conversations_reconciled:
  assumes "rowcount conversation_running (g_conversations w) \<le> 200"
    and "reconcile_orphaned_running_conversations env w = (ids, w')"
  shows "w' = w\<lparr>g_conversations := g_conversations w'\<rparr>
    \<and> (\<forall>c \<in> set (g_conversations w'). conversation_running c \<and> c_task_id c \<noteq> None
         \<longrightarrow> owner_running (g_queue w) (c_task_id c))"
proof -
  let ?cs = "list_conversations None None None None (Some ''running'') 200 (g_conversations w)"
  let ?r = "reconcile_conversations_each env (g_queue w) ?cs (g_conversations w)"
  have w': "w' = w\<lparr>g_conversations := snd ?r\<rparr>"
    using assms(2) unfolding reconcile_orphaned_running_conversations_def by (cases ?r) simp
  have "owner_running (g_queue w) (c_task_id c)"
    if c: "c \<in> set (snd ?r)" "conversation_running c" "c_task_id c \<noteq> None" for c
  proof -
    have "c \<in> set ?cs" "c \<in> set ?cs \<longrightarrow> orphaned_conversation_update env (g_queue w) c = None"
      using reconcile_conversations_rows [OF refl c(1,2)] list_conversations_running [OF assms(1)] c(2) by auto
    then show ?thesis using conversation_kept_owner [of env "g_queue w" c] c(3) by simp
  qed
  with w' show ?thesis by simp
qed

section \<open>Reconciling the recovered tasks\<close>

definition stores_ok :: "'c world \<Rightarrow> bool" where
  "stores_ok w = (items_ok (g_items w) \<and> rowcount item_running (g_items w) \<le> 100
     \<and> repairs_ok (g_repairs w) \<and> rowcount repair_running (g_repairs w) \<le> 100
     \<and> rowcount conversation_running (g_conversations w) \<le> 200)"

text \<open>The leases left by a step that takes the leases of the tasks in \<open>gone\<close>.\<close>

definition leases_without :: "string set \<Rightarrow> 'c world \<Rightarrow> 'c world \<Rightarrow> bool" where
  "leases_without gone w w' =
     (running_items (g_items w') = {x \<in> running_items (g_items w). snd x \<notin> Some ` gone}
      \<and> running_repairs (g_repairs w') = {x \<in> running_repairs (g_repairs w). snd x \<notin> Some ` gone}
      \<and> g_queue w' = g_queue w \<and> g_journal w' = g_journal w \<and> g_curation w' = g_curation w)"

lemma release_both:
  assumes "stores_ok w"
  shows "stores_ok (release_task_embedding_repairs env t (release_task_work_items env t w))
    \<and> leases_without {t_id t} w (release_task_embedding_repairs env t (release_task_work_items env t w))"
  using assms il.task_leases_released [of "g_items w" "ev_lease_clk env" t] il.task_leases_good [of "g_items w" "ev_lease_clk env" t]
    rl.task_leases_released [of "g_repairs w" "ev_lease_clk env" t] rl.task_leases_good [of "g_repairs w" "ev_lease_clk env" t]
  by (auto simp: stores_ok_def leases_without_def release_task_work_items_def release_task_embedding_repairs_def)

text \<open>The attempts and conversations of a task may change in between.\<close>

definition same_leases :: "'c world \<Rightarrow> 'c world \<Rightarrow> bool" where
  "same_leases w w1 = (g_items w1 = g_items w \<and> g_repairs w1 = g_repairs w \<and> g_queue w1 = g_queue w
     \<and> g_journal w1 = g_journal w \<and> g_curation w1 = g_curation w
     \<and> rowcount conversation_running (g_conversations w1) \<le> rowcount conversation_running (g_conversations w))"

lemma finish_task_attempt_leases [simp]:
  "g_items (finish_task_attempt env t status err reason w) = g_items w"
  "g_repairs (finish_task_attempt env t status err reason w) = g_repairs w"
  "g_queue (finish_task_attempt env t status err reason w) = g_queue w"
  "g_journal (finish_task_attempt env t status err reason w) = g_journal w"
  "g_curation (finish_task_attempt env t status err reason w) = g_curation w"
  "g_conversations (finish_task_attempt env t status err reason w) = g_conversations w"
  by (simp_all add: finish_task_attempt_def)

lemma reconcile_terminal_leases:
  "same_leases w (reconcile_task_conversations env t (reconcile_task_execution_attempt env t w))"
  using finalize_conversations_count
  by (simp add: same_leases_def reconcile_task_conversations_def reconcile_task_execution_attempt_def
      reconcile_running_task_conversations_def)

lemma reconcile_recovered:
  assumes "stores_ok w"
  shows "stores_ok (reconcile_recovered_task_state env (t, pol) w)
    \<and> leases_without {t_id t} w (reconcile_recovered_task_state env (t, pol) w)"
proof -
  have "\<exists>w1. reconcile_recovered_task_state env (t, pol) w
      = release_task_embedding_repairs env t (release_task_work_items env t w1) \<and> same_leases w w1"
  proof (cases pol)
    case TerminalPolicy
    then show ?thesis using reconcile_terminal_leases
      by (auto simp: reconcile_recovered_task_state_def reconcile_terminal_task_state_def)
  next
    case (InterruptionPolicy reason)
    then show ?thesis using finalize_conversations_count
      by (auto simp: reconcile_recovered_task_state_def reconcile_retryable_interruption_def Let_def
          same_leases_def reconcile_running_task_conversations_def)
  qed
  then obtain w1 where w1: "reconcile_recovered_task_state env (t, pol) w
      = release_task_embedding_repairs env t (release_task_work_items env t w1)" "same_leases w w1" by blast
  then have "stores_ok w1" using assms by (auto simp: stores_ok_def same_leases_def)
  from release_both [OF this, of env t] w1 show ?thesis by (auto simp: leases_without_def same_leases_def)
qed

lemma reconcile_all_recovered:
  "stores_ok w \<Longrightarrow> stores_ok (fold (reconcile_recovered_task_state env) rs w)
    \<and> leases_without (t_id ` fst ` set rs) w (fold (reconcile_recovered_task_state env) rs w)"
proof (induction rs arbitrary: w)
  case Nil
  then show ?case by (simp add: leases_without_def)
next
  case (Cons r rs)
  obtain t pol where r: "r = (t, pol)" by (cases r)
  let ?w1 = "reconcile_recovered_task_state env r w"
  have "stores_ok ?w1" "leases_without {t_id t} w ?w1" using reconcile_recovered [OF Cons.prems] unfolding r by blast+
  with Cons.IH [of ?w1] show ?case by (auto simp: leases_without_def r)
qed

section \<open>The queue through the pass\<close>

lemma running_after_recovery:
  assumes "set listed = running_tasks db"
    and "tasks db' = map (\<lambda>t. if t \<in> set listed then row_after cf current plans t else t) (tasks db)"
  shows "running_tasks db' = {t \<in> running_tasks db. plans t = None}"
proof -
  define g where "g = (\<lambda>t. if t \<in> set listed then row_after cf current plans t else t)"
  have stay: "g s = s" if "s \<in> running_tasks db" "plans s = None" for s
    using that by (simp add: g_def row_after_def)
  have run: "s \<in> running_tasks db \<and> plans s = None" if "s \<in> set (tasks db)" "t_status (g s) = Running" for s
  proof (cases "s \<in> running_tasks db")
    case True
    then show ?thesis using that(2) assms(1) by (cases "plans s") (simp_all add: g_def row_after_def)
  next
    case False
    then show ?thesis using that assms(1) by (simp add: g_def running_tasks_def)
  qed
  have set': "set (tasks db') = g ` set (tasks db)" by (simp add: assms(2) g_def)
  show ?thesis
  proof (intro set_eqI iffI)
    fix t assume "t \<in> running_tasks db'"
    then obtain s where s: "s \<in> set (tasks db)" "t = g s" "t_status (g s) = Running"
      unfolding running_tasks_def set' by blast
    from run [OF s(1,3)] have "s \<in> running_tasks db" "plans s = None" by simp_all
    with stay s(2) show "t \<in> {t \<in> running_tasks db. plans t = None}" by simp
  next
    fix t assume t: "t \<in> {t \<in> running_tasks db. plans t = None}"
    then have "g t = t" using stay by blast
    then have "t \<in> g ` set (tasks db)" using t unfolding running_tasks_def by force
    then show "t \<in> running_tasks db'" using t unfolding running_tasks_def set' by simp
  qed
qed

lemma recovered_ids:
  "t_id ` fst ` set (List.map_filter (recovered_outcome cf current plans) ts) = t_id ` {t \<in> set ts. plans t \<noteq> None}"
proof (induction ts)
  case (Cons t ts)
  have "{s \<in> set (t # ts). plans s \<noteq> None} = (if plans t = None then {} else {t}) \<union> {s \<in> set ts. plans s \<noteq> None}" by auto
  with Cons show ?case
    by (cases "plans t") (simp_all add: map_filter_simps recovered_outcome_def image_Un)
qed (simp add: map_filter_simps)

lemma startup_rows:
  assumes "db_ok db" and "reconcile_curator_provider_startup cf current rows db = (ids, db2)"
  obtains f where "db_ok db2" "tasks db2 = map f (tasks db)" "\<And>t. f t = t \<or> t_status t = Running \<and> f t = t\<lparr>t_updated_at := current\<rparr>"
    "\<And>t. t_id (f t) = t_id t" "\<And>t. t_status (f t) = t_status t"
proof -
  obtain f where f: "db_ok db2" "tasks db2 = map f (tasks db)" "\<forall>t. f t = t \<or> t_status t = Running \<and> f t = t\<lparr>t_updated_at := current\<rparr>"
    using touch_startups_rows [OF assms(1)] assms(2) unfolding reconcile_curator_provider_startup_def by blast
  have "t_id (f t) = t_id t \<and> t_status (f t) = t_status t" for t
    using f(3) [rule_format, of t] by auto
  with f that show thesis by blast
qed

lemma count_running_map:
  assumes "tasks db2 = map f (tasks db)" and "\<And>t. t_status (f t) = t_status t"
  shows "count_running db2 = count_running db" and "running_tasks db2 = f ` running_tasks db"
proof -
  have "rowcount (\<lambda>t. t_status t = Running) (map f ts) = rowcount (\<lambda>t. t_status t = Running) ts" for ts
    by (induction ts) (simp_all add: assms(2))
  then show "count_running db2 = count_running db" by (simp add: count_running_def assms(1))
  show "running_tasks db2 = f ` running_tasks db" by (auto simp: running_tasks_def assms)
qed

text \<open>The queue after the pass, against the queue before: the rows of tasks that did not run are as
  they were, and of those that did, exactly those without a plan still run.\<close>

definition queue_passed :: "(task \<Rightarrow> recovery_plan option) \<Rightarrow> taskdb \<Rightarrow> string set \<Rightarrow> taskdb \<Rightarrow> bool" where
  "queue_passed plans db gone db' = (db_ok db'
     \<and> (\<forall>t \<in> set (tasks db). t_status t \<noteq> Running \<longrightarrow> t \<in> set (tasks db'))
     \<and> (\<forall>t \<in> running_tasks db'. plans t = None)
     \<and> (\<forall>own. owner_running db own \<longrightarrow> own \<in> Some ` gone \<or> owner_running db' own))"

lemma recovery_passed:
  assumes ok: "db_ok db" and few: "count_running db \<le> 200" and free: "unlocked env"
    and start: "reconcile_curator_provider_startup cf current rows db = (ids, db2)"
    and plans: "plans = recovery_plan_for cf env current mine incl rows"
  shows "\<exists>rs db3. recover_running_tasks cf env current mine incl rows db2 = (Inr rs, db3)
    \<and> queue_passed plans db (t_id ` fst ` set rs) db3"
proof -
  obtain f where f: "db_ok db2" "tasks db2 = map f (tasks db)" "\<And>t. f t = t \<or> t_status t = Running \<and> f t = t\<lparr>t_updated_at := current\<rparr>"
    "\<And>t. t_id (f t) = t_id t" "\<And>t. t_status (f t) = t_status t"
    using startup_rows [OF ok start] by blast
  note run2 = count_running_map [OF f(2,5)]
  let ?listed = "list_tasks (Some ''running'') None 200 db2"
  have listed: "set ?listed = running_tasks db2" using few run2(1) by (intro list_tasks_all_running) simp
  let ?rs = "List.map_filter (recovered_outcome cf current plans) ?listed"
  obtain db3 where rec: "recover_running_tasks cf env current mine incl rows db2 = (Inr ?rs, db3)"
      and tasks3: "tasks db3 = map (\<lambda>t. if t \<in> set ?listed then row_after cf current plans t else t) (tasks db2)"
      and ok3: "db_ok db3"
    using recover_running_tasks_rows [OF f(1) free plans refl] by blast
  note run3 = running_after_recovery [OF listed tasks3]
  have ids: "t_id ` fst ` set ?rs = t_id ` {t \<in> running_tasks db2. plans t \<noteq> None}"
    unfolding recovered_ids listed ..
  have "own \<in> Some ` t_id ` fst ` set ?rs \<or> owner_running db3 own" if own: "owner_running db own" for own
  proof -
    obtain t where t: "t \<in> running_tasks db" "own = Some (t_id t)" using own by (auto simp: owner_running_def)
    then have mem: "f t \<in> running_tasks db2" "own = Some (t_id (f t))" using run2(2) f(4) by auto
    show ?thesis
    proof (cases "plans (f t) = None")
      case True
      then show ?thesis using mem unfolding owner_running_def run3 by blast
    next
      case False
      then show ?thesis using mem unfolding ids by blast
    qed
  qed
  moreover have "t \<in> set (tasks db3)"
    if t: "t \<in> set (tasks db)" "t_status t \<noteq> Running" for t
  proof -
    have "f t \<in> set (tasks db2)" "f t \<notin> set ?listed" using t f(2,5) unfolding listed by (auto simp: running_tasks_def)
    then have "f t \<in> set (tasks db3)" unfolding tasks3 by force
    then show ?thesis using f(3) [of t] t(2) by auto
  qed
  ultimately show ?thesis using rec ok3 run3 unfolding queue_passed_def by blast
qed

section \<open>The pass\<close>

lemma leaked_recovered:
  assumes "stores_ok w"
  shows "stores_ok (recover_leaked_work_items env w)
    \<and> (\<forall>x \<in> running_items (g_items (recover_leaked_work_items env w)). owner_running (g_queue w) (snd x))
    \<and> (\<forall>x \<in> running_repairs (g_repairs (recover_leaked_work_items env w)). owner_running (g_queue w) (snd x))"
proof -
  have counts: "rowcount item_running (g_items w) \<le> 200" "rowcount repair_running (g_repairs w) \<le> 200"
    using assms by (simp_all add: stores_ok_def)
  have ok: "items_ok (g_items w)" "repairs_ok (g_repairs w)" using assms by (simp_all add: stores_ok_def)
  show ?thesis
    using il.leaked_leases_recovered [OF ok(1) counts(1), of "ev_lease_clk env" "g_queue w"]
      il.leaked_leases_good [OF ok(1), of "ev_lease_clk env" "g_queue w"]
      rl.leaked_leases_recovered [OF ok(2) counts(2), of "ev_lease_clk env" "g_queue w"]
      rl.leaked_leases_good [OF ok(2), of "ev_lease_clk env" "g_queue w"] assms
    by (auto simp: stores_ok_def recover_leaked_work_items_def recover_leaked_embedding_repairs_def
        dest: not_leaked_owner)
qed

lemma recover_leaked_others [simp]:
  "g_queue (recover_leaked_work_items env w) = g_queue w"
  "g_attempts (recover_leaked_work_items env w) = g_attempts w"
  "g_journal (recover_leaked_work_items env w) = g_journal w"
  by (simp_all add: recover_leaked_work_items_def recover_leaked_embedding_repairs_def)

text \<open>The curation reconciler does not raise.\<close>

definition curation_safe :: "(taskdb \<Rightarrow> 'c \<Rightarrow> unit res \<times> 'c) option \<Rightarrow> bool" where
  "curation_safe curation = (case curation of None \<Rightarrow> True | Some f \<Rightarrow> (\<forall>db c. \<exists>c'. f db c = (Inr (), c')))"

text \<open>What a pass leaves.\<close>

definition held_by_running :: "'c world \<Rightarrow> bool" where
  "held_by_running w =
     ((\<forall>x \<in> set (g_items w). item_running x \<longrightarrow> owner_running (g_queue w) (w_lease_owner x))
      \<and> (\<forall>e \<in> set (g_repairs w). repair_running e \<longrightarrow> owner_running (g_queue w) (e_lease_owner e))
      \<and> (\<forall>r \<in> set (entries (g_journal w)). j_status r = EClaimed \<longrightarrow> owner_running (g_queue w) (j_claim_task r))
      \<and> (\<forall>c \<in> set (g_conversations w). conversation_running c \<and> c_task_id c \<noteq> None
           \<longrightarrow> owner_running (g_queue w) (c_task_id c)))"

lemma pass_result:
  assumes ok: "db_ok (g_queue w)" and few: "count_running (g_queue w) \<le> 200" and stores: "stores_ok w"
    and journal: "journal_inv (g_journal w)" and free: "unlocked env" and safe: "curation_safe curation"
    and plans: "plans = recovery_plan_for cf env (now_or now (ev_clk env)) mine incl (g_attempts w)"
  shows "\<exists>sn w'. run_reconciliation_pass cf env curation mine now incl w = (Inr sn, w')
    \<and> held_by_running w' \<and> (\<exists>gone. queue_passed plans (g_queue w) gone (g_queue w'))"
proof -
  let ?current = "now_or now (ev_clk env)"
  let ?w1 = "recover_leaked_work_items env w"
  note leaked = leaked_recovered [OF stores, of env]
  obtain startups db2 where start: "reconcile_curator_provider_startup cf ?current (g_attempts w) (g_queue w) = (startups, db2)"
    by fastforce
  obtain rs db3 where rec: "recover_running_tasks cf env ?current mine incl (g_attempts w) db2 = (Inr rs, db3)"
      and passed: "queue_passed plans (g_queue w) (t_id ` fst ` set rs) db3"
    using recovery_passed [OF ok few free start plans] by blast
  let ?w3 = "?w1\<lparr>g_queue := db3\<rparr>"
  let ?w4 = "fold (reconcile_recovered_task_state env) rs ?w3"
  have "stores_ok ?w3" using leaked by (simp add: stores_ok_def)
  note recon = reconcile_all_recovered [OF this, of env rs]
  obtain ids w5 where conv: "reconcile_orphaned_running_conversations env ?w4 = (ids, w5)" by fastforce
  have "rowcount conversation_running (g_conversations ?w4) \<le> 200" using recon by (simp add: stores_ok_def)
  note conv' = orphaned_conversations_reconciled [OF this conv]
  have "\<exists>c. (case curation of None \<Rightarrow> (Inr (), w5)
       | Some f \<Rightarrow> (case f (g_queue w5) (g_curation w5) of (r, c) \<Rightarrow> (r, w5\<lparr>g_curation := c\<rparr>))) = (Inr (), w5\<lparr>g_curation := c\<rparr>)"
  proof (cases curation)
    case None
    then show ?thesis by (intro exI [of _ "g_curation w5"]) simp
  next
    case (Some f)
    then obtain c where "f (g_queue w5) (g_curation w5) = (Inr (), c)" using safe unfolding curation_safe_def by fastforce
    with Some show ?thesis by (intro exI [of _ c]) simp
  qed
  then obtain c where curate: "(case curation of None \<Rightarrow> (Inr (), w5)
       | Some f \<Rightarrow> (case f (g_queue w5) (g_curation w5) of (r, c) \<Rightarrow> (r, w5\<lparr>g_curation := c\<rparr>))) = (Inr (), w5\<lparr>g_curation := c\<rparr>)"
    by blast
  have queue: "g_queue ?w4 = db3" "g_journal ?w4 = g_journal w" using recon by (simp_all add: leases_without_def)
  obtain convs where w5: "w5 = ?w4\<lparr>g_conversations := convs\<rparr>" using conv' by blast
  have queue5: "g_queue w5 = db3" "g_journal w5 = g_journal w" "g_items w5 = g_items ?w4" "g_repairs w5 = g_repairs ?w4"
    using queue by (simp_all add: w5)
  obtain released j where rel: "release_orphaned_claims db3 (g_journal w) = (released, j)" by fastforce
  let ?w7 = "w5\<lparr>g_curation := c, g_journal := j\<rparr>"
  have run: "\<exists>sn. run_reconciliation_pass cf env curation mine now incl w = (Inr sn, ?w7)"
    by (simp add: run_reconciliation_pass_def Let_def start on_queue_def bind_world_def rec conv curate queue5 rel)
  have kept: "owner_running db3 own" if "owner_running (g_queue w) own" "own \<notin> Some ` t_id ` fst ` set rs" for own
    using passed that unfolding queue_passed_def by blast
  have "owner_running db3 (w_lease_owner x)" if x: "x \<in> set (g_items w5)" "item_running x" for x
  proof -
    have "(w_id x, w_lease_owner x) \<in> running_items (g_items ?w4)" using x queue5(3) by (auto simp: running_items_def)
    then have "(w_id x, w_lease_owner x) \<in> running_items (g_items ?w1)" "w_lease_owner x \<notin> Some ` t_id ` fst ` set rs"
      using recon by (auto simp: leases_without_def)
    then show ?thesis using leaked kept by fastforce
  qed
  moreover have "owner_running db3 (e_lease_owner e)" if e: "e \<in> set (g_repairs w5)" "repair_running e" for e
  proof -
    have "(e_id e, e_lease_owner e) \<in> running_repairs (g_repairs ?w4)" using e queue5(4) by (auto simp: running_repairs_def)
    then have "(e_id e, e_lease_owner e) \<in> running_repairs (g_repairs ?w1)" "e_lease_owner e \<notin> Some ` t_id ` fst ` set rs"
      using recon by (auto simp: leases_without_def)
    then show ?thesis using leaked kept by fastforce
  qed
  moreover have "owner_running db3 (j_claim_task r)" if "r \<in> set (entries j)" "j_status r = EClaimed" for r
  proof -
    have "j = snd (release_orphaned_claims db3 (g_journal w))" using rel by simp
    then have "\<exists>t \<in> set (tasks db3). t_status t = Running \<and> j_claim_task r = Some (t_id t)"
      using release_orphaned_rows [OF journal, of db3] that by blast
    then show ?thesis by (auto simp: owner_running_def running_tasks_def)
  qed
  ultimately have "held_by_running ?w7"
    using conv' queue by (simp add: held_by_running_def queue5)
  with run passed queue5 show ?thesis by auto
qed

end
