(* ===== verification/WorkerProps.thy ===== *)
theory WorkerProps
  imports WorkerReconcile SchedulingProps
begin

text \<open>The properties of the task worker.\<close>

section \<open>A concrete worker\<close>

definition demo_env :: worker_env where
  "demo_env = \<lparr>ev_clk = 1000, ev_lease_clk = (\<lambda>_. 1000), ev_rid = (\<lambda>i. i), ev_uuid = (\<lambda>_. ''u''),
     ev_kill = (\<lambda>_. ProcessLookupError), ev_locked = (\<lambda>_ k. k = 0), ev_random = 0, ev_tz = 0,
     ev_error_text = (\<lambda>_. [])\<rparr>"

definition demo_config :: worker_config where
  "demo_config = \<lparr>cf_retry_delay = 0, cf_recovery_interval = 30, cf_stale_after = 60, cf_startup_grace = 120\<rparr>"

definition demo_world :: "unit world" where
  "demo_world = \<lparr>g_queue = demo_running, g_attempts = [], g_items = demo_leased, g_repairs = [],
     g_conversations = [], g_journal = empty_journal, g_curation = ()\<rparr>"

lemma demo_unlocked: "unlocked demo_env"
  by (simp add: unlocked_def demo_env_def)

lemma demo_few: "count_running demo_running \<le> 200"
  by (simp add: count_running_def demo_running_eq)

section \<open>Recovery\<close>

text \<open>The tasks recovery leaves alone: those the worker runs itself, unless asked and the attempt has
  a process; a curator whose provider is starting; a task whose process is alive; and, unless it is
  to be cancelled and has no process, a task with activity of its own or of its attempt within the
  stale time.\<close>

definition recovery_spares ::
  "worker_config \<Rightarrow> (int \<Rightarrow> kill_outcome) \<Rightarrow> time \<Rightarrow> (string \<times> int) list \<Rightarrow> bool \<Rightarrow> attempt list \<Rightarrow> task \<Rightarrow> bool" where
  "recovery_spares cf kill current mine incl rows t =
     (let att = running_task_attempt rows t;
          active = max (current - recent_activity t att) 0 < cf_stale_after cf
      in recovery_excluded mine incl rows t
         \<or> curator_provider_startup_is_active (cf_startup_grace cf) t att current
         \<or> (case observed_pid t att of
              Some pid \<Rightarrow> is_process_alive kill pid \<or> active
            | None \<Rightarrow> t_cancel_requested_at t = None \<and> active))"

lemma recovery_plan_cases:
  assumes "plan = recovery_plan_for cf env current mine incl rows t"
  shows "if recovery_spares cf (ev_kill env) current mine incl rows t then plan = None
    else if t_cancel_requested_at t \<noteq> None then plan = Some PlanFinalize
    else \<exists>err reason. plan = Some (PlanRetry err reason)"
  unfolding assms recovery_plan_for_def classify_running_task_recovery_def recovery_spares_def Let_def
  by (simp add: not_less del: max_less_iff_conj le_max_iff_disj split: option.split)

text \<open>C25. Recovery by the worker, when no row stays locked, runs to the end and decides each listed
  row on its own: a spared task keeps its row, to the last field; a task to be cancelled is
  cancelled; any other spends a retry and is pending again after the delay, or failed at its limit.
  Every other row stays.\<close>

theorem worker_recovery_row_by_row:
  assumes "db_ok db" and "unlocked env" and "listed = list_tasks (Some ''running'') None 200 db"
  shows "\<exists>rs db'. recover_running_tasks cf env current mine incl rows db = (Inr rs, db')
    \<and> length (tasks db') = length (tasks db)
    \<and> (\<forall>i < length (tasks db). let t = tasks db ! i; t' = tasks db' ! i in
         if t \<notin> set listed \<or> recovery_spares cf (ev_kill env) current mine incl rows t then t' = t
         else t' \<in> fst ` set rs \<and> t_id t' = t_id t
           \<and> (if t_cancel_requested_at t \<noteq> None then t_status t' = Cancelled
              else t_retries t' = t_retries t + 1
                \<and> (if t_retries t' < t_max_retries t
                   then t_status t' = Pending \<and> t_available_at t' = current + cf_retry_delay cf
                   else t_status t' = Failed)))"
proof -
  define plans where "plans = recovery_plan_for cf env current mine incl rows"
  obtain db' where rec: "recover_running_tasks cf env current mine incl rows db =
        (Inr (List.map_filter (recovered_outcome cf current plans) listed), db')"
      and tasks': "tasks db' = map (\<lambda>t. if t \<in> set listed then row_after cf current plans t else t) (tasks db)"
    using recover_running_tasks_rows [OF assms(1,2) plans_def assms(3)] by blast
  have row: "if recovery_spares cf (ev_kill env) current mine incl rows t then row_after cf current plans t = t
      else row_after cf current plans t \<in> fst ` set (List.map_filter (recovered_outcome cf current plans) listed)
        \<and> (if t_cancel_requested_at t \<noteq> None then t_status (row_after cf current plans t) = Cancelled
           else t_retries (row_after cf current plans t) = t_retries t + 1
             \<and> (if t_retries (row_after cf current plans t) < t_max_retries t
                then t_status (row_after cf current plans t) = Pending
                  \<and> t_available_at (row_after cf current plans t) = current + cf_retry_delay cf
                else t_status (row_after cf current plans t) = Failed))" if t: "t \<in> set listed" for t
  proof (cases "recovery_spares cf (ev_kill env) current mine incl rows t")
    case True
    then show ?thesis using recovery_plan_cases [OF refl, of cf env current mine incl rows t]
      by (simp add: row_after_def plans_def)
  next
    case False
    then obtain plan where plan: "plans t = Some plan"
      "if t_cancel_requested_at t \<noteq> None then plan = PlanFinalize else \<exists>err reason. plan = PlanRetry err reason"
      using recovery_plan_cases [of "plans t" cf env current mine incl rows t]
      by (auto simp: plans_def split: if_splits)
    then have after: "row_after cf current plans t = planned_row cf current plan t" by (simp add: row_after_def)
    have "recovered_outcome cf current plans t = Some (planned_row cf current plan t, plan_policy plan (planned_row cf current plan t))"
      using plan(1) by (simp add: recovered_outcome_def)
    then have "planned_row cf current plan t \<in> fst ` set (List.map_filter (recovered_outcome cf current plans) listed)"
      using t by (force simp: map_filter_def)
    then show ?thesis
      using False plan(2) unfolding after
      by (auto simp: planned_row_def finalize_update_def fail_update_def Let_def split: if_splits)
  qed
  have rows: "let t = tasks db ! i; t' = tasks db' ! i in
         if t \<notin> set listed \<or> recovery_spares cf (ev_kill env) current mine incl rows t then t' = t
         else t' \<in> fst ` set (List.map_filter (recovered_outcome cf current plans) listed) \<and> t_id t' = t_id t
           \<and> (if t_cancel_requested_at t \<noteq> None then t_status t' = Cancelled
              else t_retries t' = t_retries t + 1
                \<and> (if t_retries t' < t_max_retries t
                   then t_status t' = Pending \<and> t_available_at t' = current + cf_retry_delay cf
                   else t_status t' = Failed))" if i: "i < length (tasks db)" for i
    using row [of "tasks db ! i"] i unfolding tasks' by (cases "tasks db ! i \<in> set listed") (simp_all add: Let_def split: if_splits)
  have len: "length (tasks db') = length (tasks db)" by (simp add: tasks')
  show ?thesis
    by (rule exI, rule exI, intro conjI allI impI) (rule rec, rule len, erule rows)
qed

theorem worker_recovery_row_by_row_witness:
  "\<exists>rs db'. recover_running_tasks demo_config demo_env 1000 [] False [] demo_running = (Inr rs, db')
    \<and> length (tasks db') = 1 \<and> t_status (tasks db' ! 0) = Pending \<and> t_available_at (tasks db' ! 0) = 1000"
proof -
  let ?t = "claim_update 20 demo_task"
  have listed: "list_tasks (Some ''running'') None 200 demo_running = [?t]"
    by (simp add: list_tasks_def demo_running_eq claim_update_def demo_task_def order_by_def limit_rows_def)
  have spare: "\<not> recovery_spares demo_config (ev_kill demo_env) 1000 [] False [] ?t"
    by (simp add: recovery_spares_def recovery_excluded_def curator_provider_startup_is_active_def
        curator_provider_startup_started_at_def running_task_attempt_def get_attempt_def observed_pid_def
        recent_activity_def time_or_def claim_update_def demo_task_def demo_config_def Let_def)
  have t: "t_cancel_requested_at ?t = None" "t_retries ?t = 0" "t_max_retries ?t = 3" "cf_retry_delay demo_config = 0"
    by (simp_all add: claim_update_def demo_task_def demo_config_def)
  show ?thesis
    using worker_recovery_row_by_row [OF demo_ok(2) demo_unlocked listed [symmetric], of demo_config 1000 "[]" False "[]"]
    by (auto simp: spare t demo_running_eq Let_def)
qed

section \<open>The pass\<close>


lemma demo_world_ok: "stores_ok demo_world" "journal_inv (g_journal demo_world)"
proof -
  have "items_ok demo_leased"
    unfolding demo_leased_def by (rule item_move_ok [OF claim_batch_move demo_items_ok])
  then show "stores_ok demo_world" by (simp add: stores_ok_def demo_world_def repairs_ok_def demo_leased_eq)
  show "journal_inv (g_journal demo_world)" by (simp add: demo_world_def empty_journal_def journal_inv_def journal_ok_def)
qed


end
