(* ===== verification/WorkerChain.thy ===== *)
theory WorkerChain
  imports WorkerProps
begin

text \<open>
  One task through the worker: it ends, lets go of its leases, and is followed up; and the shutdown.
\<close>

section \<open>Ending a task\<close>

lemma claimed_row:
  assumes "db_ok db" and "row \<in> set (tasks db)" and "t_status row = Running"
  shows "get_running_task_row (t_id row) (Some (t_epoch row)) db = Some row"
  using assms by (intro get_running_task_rowI [OF db_okD(1)]) (simp_all add: running_guard_def)

lemma complete_row:
  assumes "db_ok db" and "row \<in> set (tasks db)" and "t_status row = Running"
  shows "\<exists>rs. complete rid clk (t_id row) None res (Some (t_epoch row)) db = (Inr (complete_update clk row),
    db\<lparr>tasks := map (\<lambda>s. if s = row then complete_update clk row else s) (tasks db), task_runs := rs\<rparr>)"
proof -
  have "t_id (complete_update clk s) = t_id s" for s by (simp add: complete_update_def)
  from epoch_write [OF assms this] claimed_row [OF assms] show ?thesis
    by (auto simp: complete_def complete_write_def now_or_def Let_def)
qed

lemma fail_row:
  assumes "db_ok db" and "row \<in> set (tasks db)" and "t_status row = Running"
  shows "\<exists>rs. fail rid clk (t_id row) err delay None (Some (t_epoch row)) db = (Inr (fail_update clk delay err row row),
    db\<lparr>tasks := map (\<lambda>s. if s = row then fail_update clk delay err row row else s) (tasks db), task_runs := rs\<rparr>)"
proof -
  have "t_id (fail_update clk delay err row s) = t_id s" for s by (simp add: fail_update_def Let_def)
  from epoch_write [OF assms this] claimed_row [OF assms] show ?thesis
    by (auto simp: fail_def fail_write_def now_or_def Let_def)
qed

lemma reconcile_terminal_state:
  assumes "stores_ok w"
  shows "leases_without {t_id t} w (reconcile_terminal_task_state env t w)"
proof -
  have "reconcile_terminal_task_state env t w = reconcile_recovered_task_state env (t, TerminalPolicy) w"
    by (simp add: reconcile_recovered_task_state_def)
  then show ?thesis using reconcile_recovered [OF assms] by simp
qed

text \<open>A transition from the running row to a row that is over or pending again, and its
  reconciliation.\<close>

lemma ending_effect:
  assumes stores: "stores_ok w" and row: "row \<in> set (tasks (g_queue w))" and stop: "t_status t' \<noteq> Running"
    and id: "t_id t' = t_id row"
    and ok: "db_ok (snd (f (g_queue w)))"
    and eff: "f (g_queue w) = (Inr t', (g_queue w)\<lparr>tasks := map (\<lambda>s. if s = row then t' else s) (tasks (g_queue w)), task_runs := rs\<rparr>)"
  shows "\<exists>w'. ending env f w = (Inr t', w') \<and> db_ok (g_queue w')
    \<and> tasks (g_queue w') = map (\<lambda>s. if s = row then t' else s) (tasks (g_queue w)) \<and> g_journal w' = g_journal w
    \<and> (\<forall>x \<in> set (g_items w'). item_running x \<longrightarrow> w_lease_owner x \<noteq> Some (t_id row))
    \<and> (\<forall>e \<in> set (g_repairs w'). repair_running e \<longrightarrow> e_lease_owner e \<noteq> Some (t_id row))"
proof -
  let ?w1 = "w\<lparr>g_queue := snd (f (g_queue w))\<rparr>"
  let ?w2 = "reconcile_terminal_task_state env t' ?w1"
  have "stores_ok ?w1" using stores by (simp add: stores_ok_def)
  note lw = reconcile_terminal_state [OF this, where env = env and t = t']
  have "ending env f w = (Inr t', ?w2)" by (simp add: ending_def bind_world_def on_queue_def eff)
  moreover have "g_queue ?w2 = snd (f (g_queue w))" "g_journal ?w2 = g_journal w"
    using lw by (simp_all add: leases_without_def)
  moreover have "w_lease_owner x \<noteq> Some (t_id row)" if "x \<in> set (g_items ?w2)" "item_running x" for x
  proof -
    have "(w_id x, w_lease_owner x) \<in> running_items (g_items ?w2)" using that by (auto simp: running_items_def)
    then show ?thesis using lw id by (auto simp: leases_without_def)
  qed
  moreover have "e_lease_owner e \<noteq> Some (t_id row)" if "e \<in> set (g_repairs ?w2)" "repair_running e" for e
  proof -
    have "(e_id e, e_lease_owner e) \<in> running_repairs (g_repairs ?w2)" using that by (auto simp: running_repairs_def)
    then show ?thesis using lw id by (auto simp: leases_without_def)
  qed
  ultimately show ?thesis using ok eff by auto
qed

section \<open>Follow-ups\<close>

definition recurring :: "task \<Rightarrow> bool" where
  "recurring t = (t_name t \<in> {''memory-curator'', ''sweeper''})"

lemma recurring_name:
  assumes "recurring t"
  shows "\<exists>iv. AUTONOMOUS_RECURRING_TASK_INTERVAL_SECONDS (t_name t) = Some iv" "\<not> blank (t_name t)"
    "py_strip (t_name t) = t_name t" "t_name t \<noteq> SYSTEM1_INGEST_TASK_NAME"
  using assms
  by (auto simp: recurring_def AUTONOMOUS_RECURRING_TASK_INTERVAL_SECONDS_def RECURRING_TASK_INTERVAL_SECONDS_def
      blank_def py_strip_def py_isspace_def)

lemma find_open_Some: "find_open_task n ws db = Some t \<Longrightarrow> t \<in> open_tasks_of db n"
  by (auto simp: open_tasks_of_def dest: find_open_task_SomeD)

lemma follow_up_recurring:
  assumes rec: "recurring t" and over: "t_status ended \<in> {Completed, Failed}"
    and fresh: "fresh_uuid (ev_uuid env) (g_queue w)"
  shows "\<exists>w'. schedule_follow_up env t ended result w = (Inr (), w') \<and> open_tasks_of (g_queue w') (t_name t) \<noteq> {}
    \<and> running_tasks (g_queue w') = running_tasks (g_queue w)
    \<and> g_items w' = g_items w \<and> g_repairs w' = g_repairs w"
proof -
  obtain iv where iv: "AUTONOMOUS_RECURRING_TASK_INTERVAL_SECONDS (t_name t) = Some iv" using recurring_name(1) [OF rec] by blast
  let ?d = "[(''workspace_id'', JNull), (''trigger'', JStr ''recurring_follow_up''), (''interval_seconds'', JFloat iv),
      (''jitter_seconds'', JFloat (compute_recurring_jitter_seconds (ev_random env) iv))]"
  let ?a = "ended_at ended + iv + compute_recurring_jitter_seconds (ev_random env) iv"
  let ?op = "enqueue_unique (ev_uuid env (t_name t)) (ev_clk env) (t_name t) ?d None (task_priority (t_name t)) 3 (Some ?a)"
  have "\<exists>r db'. ?op (g_queue w) = (Inr r, db') \<and> open_tasks_of db' (t_name t) \<noteq> {}
      \<and> running_tasks db' = running_tasks (g_queue w)"
  proof (cases "find_open_task (t_name t) None (g_queue w)")
    case (Some s)
    then have "?op (g_queue w) = (Inr (s, False), g_queue w)" by (simp add: enqueue_unique_def)
    then show ?thesis using find_open_Some [OF Some] by blast
  next
    case None
    obtain s db' where enq: "enqueue (ev_uuid env (t_name t)) (ev_clk env) (t_name t) ?d None (task_priority (t_name t)) 3 (Some ?a) None (g_queue w) = (Inr s, db')"
        "open_tasks_of db' (t_name t) = insert s (open_tasks_of (g_queue w) (t_name t))"
      using enqueue_fresh [OF fresh recurring_name(2,3) [OF rec]] by blast
    have "running_tasks db' = running_tasks (g_queue w)"
      using enqueue_Inr [OF enq(1)] by (auto simp: running_tasks_def fresh_pending_def)
    then show ?thesis using enq by (auto simp: enqueue_unique_new [OF None])
  qed
  then obtain r db' where op: "?op (g_queue w) = (Inr r, db')" "open_tasks_of db' (t_name t) \<noteq> {}"
      "running_tasks db' = running_tasks (g_queue w)" by blast
  have "schedule_follow_up env t ended result w = (Inr (), w\<lparr>g_queue := db'\<rparr>)"
    using over recurring_name(4) [OF rec] op(1)
    by (simp add: schedule_follow_up_def iv Let_def bind_world_def on_queue_def sqlite_queue_port_def)
  then show ?thesis using op(2,3) by auto
qed

lemma not_requested:
  assumes "db_ok db" and "row \<in> set (tasks db)" and "t_cancel_requested_at row = None"
  shows "\<not> is_cancellation_requested (t_id row) db"
proof -
  have "List.find (\<lambda>t. t_id t = t_id row) (tasks db) = Some row"
    using db_okD(1) [OF assms(1)] assms(2) by (intro find_key [where k = t_id]) auto
  then show ?thesis using assms(3) by (simp add: is_cancellation_requested_def)
qed

lemma ended_and_followed:
  assumes fresh: "fresh_uuid (ev_uuid env) (g_queue w)" and stores: "stores_ok w"
    and row: "row \<in> set (tasks (g_queue w))" "t_id row = t_id t" and rec: "recurring t"
    and f: "f (g_queue w) = (Inr t', (g_queue w)\<lparr>tasks := map (\<lambda>s. if s = row then t' else s) (tasks (g_queue w)), task_runs := rs\<rparr>)"
      "db_ok (snd (f (g_queue w)))" "t_id t' = t_id row" "t_name t' = t_name t" "t_status t' \<in> {Completed, Failed, Pending}"
  shows "\<exists>w'. bind_world (ending env f) (\<lambda>e. bind_world (schedule_follow_up env t e res) (\<lambda>_ w. (Inr Finished, w))) w = (Inr Finished, w')
      \<and> (\<forall>s \<in> running_tasks (g_queue w'). t_id s \<noteq> t_id t)
      \<and> (\<forall>x \<in> set (g_items w'). item_running x \<longrightarrow> w_lease_owner x \<noteq> Some (t_id t))
      \<and> (\<forall>e \<in> set (g_repairs w'). repair_running e \<longrightarrow> e_lease_owner e \<noteq> Some (t_id t))
      \<and> (\<exists>s \<in> set (tasks (g_queue w')). is_open s \<and> t_name s = t_name t)"
proof -
  have "t_status t' \<noteq> Running" using f(5) by auto
  from ending_effect [where f = f, OF stores row(1) this f(3,2,1)]
  obtain w1 where w1: "ending env f w = (Inr t', w1)" "db_ok (g_queue w1)"
      "tasks (g_queue w1) = map (\<lambda>s. if s = row then t' else s) (tasks (g_queue w))"
      "\<forall>x \<in> set (g_items w1). item_running x \<longrightarrow> w_lease_owner x \<noteq> Some (t_id t)"
      "\<forall>e \<in> set (g_repairs w1). repair_running e \<longrightarrow> e_lease_owner e \<noteq> Some (t_id t)"
    unfolding row(2) by blast
  have dist: "inj_on t_id (set (tasks (g_queue w)))"
    using fresh db_okD(1) [of "g_queue w"] by (simp add: fresh_uuid_def distinct_map)
  have over: "\<forall>s \<in> running_tasks (g_queue w1). t_id s \<noteq> t_id t"
  proof
    fix s assume "s \<in> running_tasks (g_queue w1)"
    then have "s \<in> set (tasks (g_queue w))" "s \<noteq> row"
      using f(5) unfolding running_tasks_def w1(3) by (auto split: if_splits)
    then show "t_id s \<noteq> t_id t" using inj_onD [OF dist _ _ row(1)] row(2) by auto
  qed
  have "t_id ` set (tasks (g_queue w1)) = t_id ` set (tasks (g_queue w))"
    unfolding w1(3) set_map image_image using f(3) by (intro image_cong) auto
  then have fresh1: "fresh_uuid (ev_uuid env) (g_queue w1)" using fresh w1(2) by (simp add: fresh_uuid_def)
  show ?thesis
  proof (cases "t_status t' = Pending")
    case True
    obtain iv where "AUTONOMOUS_RECURRING_TASK_INTERVAL_SECONDS (t_name t) = Some iv" using recurring_name(1) [OF rec] by blast
    then have "schedule_follow_up env t t' res w1 = (Inr (), w1)"
      using True by (simp add: schedule_follow_up_def)
    moreover have "t' \<in> set (tasks (g_queue w1))" using row(1) unfolding w1(3) by force
    ultimately show ?thesis
      using w1 over True f(4) by (auto simp: bind_world_def is_open_def)
  next
    case False
    then have "t_status t' \<in> {Completed, Failed}" using f(5) by simp
    from follow_up_recurring [OF rec this fresh1, of res] obtain w2 where
      w2: "schedule_follow_up env t t' res w1 = (Inr (), w2)" "open_tasks_of (g_queue w2) (t_name t) \<noteq> {}"
        "running_tasks (g_queue w2) = running_tasks (g_queue w1)" "g_items w2 = g_items w1" "g_repairs w2 = g_repairs w1"
      by blast
    have "\<exists>s \<in> set (tasks (g_queue w2)). is_open s \<and> t_name s = t_name t"
      using w2(2) by (auto simp: open_tasks_of_def open_named_def)
    then show ?thesis using w1 w2 over by (simp add: bind_world_def)
  qed
qed



section \<open>Shutdown\<close>

text \<open>The row of a running task of which cancellation has been requested.\<close>

definition cancel_mark :: "time \<Rightarrow> string \<Rightarrow> string \<Rightarrow> task \<Rightarrow> task" where
  "cancel_mark now by why t = t\<lparr>t_updated_at := now,
     t_cancel_requested_at := (case t_cancel_requested_at t of None \<Rightarrow> Some now | Some c \<Rightarrow> Some c),
     t_cancel_reason := Some why, t_cancelled_by := Some by\<rparr>"

lemma cancel_mark_simps [simp]:
  "t_id (cancel_mark now by why t) = t_id t" "t_status (cancel_mark now by why t) = t_status t"
  by (simp_all add: cancel_mark_def)

lemma cancel_running_row:
  assumes ok: "db_ok db" and row: "t \<in> running_tasks db"
  shows "tasks (snd (request_cancel rid clk (t_id t) by why None db))
    = map (\<lambda>s. if s = t then cancel_mark clk by why t else s) (tasks db)"
proof -
  let ?g = "\<lambda>s. t_id s = t_id t \<and> t_status s = Running"
  have t: "t \<in> set (tasks db)" "t_status t = Running" using row by (simp_all add: running_tasks_def)
  have find: "List.find (\<lambda>s. t_id s = t_id t) (tasks db) = Some t"
    using db_okD(1) [OF ok] t(1) by (intro find_key [where k = t_id]) auto
  have "rowcount ?g (tasks db) = 1"
    using db_okD(1) [OF ok] t by (intro rowcount_key [where k = t_id]) auto
  moreover have "update_where ?g (cancel_mark clk by why) (tasks db)
      = map (\<lambda>s. if s = t then cancel_mark clk by why t else s) (tasks db)"
    using t(2) by (intro update_where_key_map [OF ok t(1)]) simp_all
  ultimately show ?thesis using find t(2) unfolding cancel_mark_def [abs_def]
    by (simp add: request_cancel_def now_or_def Let_def)
qed

lemma cancel_each_rows:
  assumes "db_ok db" and "distinct (map t_id ts)" and "set ts \<subseteq> running_tasks db"
  shows "db_ok (cancel_each env ts db) \<and> tasks (cancel_each env ts db)
    = map (\<lambda>s. if s \<in> set ts then cancel_mark (ev_clk env) ''daemon'' ''daemon_shutdown'' s else s) (tasks db)"
  using assms
proof (induction ts arbitrary: db)
  case (Cons t ts)
  let ?m = "cancel_mark (ev_clk env) ''daemon'' ''daemon_shutdown''"
  let ?db = "snd (request_cancel (ev_rid env (t_id t)) (ev_clk env) (t_id t) ''daemon'' ''daemon_shutdown'' None db)"
  have rows: "tasks ?db = map (\<lambda>s. if s = t then ?m t else s) (tasks db)"
    using Cons.prems(3) by (intro cancel_running_row [OF Cons.prems(1)]) simp
  have ok: "db_ok ?db" using request_cancel_move [OF db_okD(1) [OF Cons.prems(1)]] Cons.prems(1) by (rule db_move_ok)
  have new: "?m t \<notin> set ts" "t \<notin> set ts" using Cons.prems(2) by (auto simp: image_iff)
  then have "set ts \<subseteq> running_tasks ?db"
    using Cons.prems(3) unfolding running_tasks_def rows by force
  from Cons.IH [OF ok _ this] Cons.prems(2) have
    "db_ok (cancel_each env ts ?db)" "tasks (cancel_each env ts ?db) = map (\<lambda>s. if s \<in> set ts then ?m s else s) (tasks ?db)" by simp_all
  then show ?case unfolding rows cancel_each.simps using new by (auto simp: o_def)
qed simp

text \<open>One round of the shutdown.\<close>

abbreviation shutdown_round :: "worker_env \<Rightarrow> taskdb \<Rightarrow> taskdb" where
  "shutdown_round env db \<equiv> cancel_each env (list_tasks (Some ''running'') None 200 db) db"

lemma listed_200:
  assumes "db_ok db"
  shows "distinct (map t_id (list_tasks (Some ''running'') None 200 db))"
    and "set (list_tasks (Some ''running'') None 200 db) \<subseteq> running_tasks db"
    and "length (list_tasks (Some ''running'') None 200 db) = min 200 (count_running db)"
proof -
  let ?o = "order_by (\<lambda>t. (- t_updated_at t, - t_created_at t)) (filter (\<lambda>t. t_status t = Running) (tasks db))"
  have list: "list_tasks (Some ''running'') None 200 db = take 200 ?o"
    by (simp add: list_tasks_def status_running_iff limit_rows_def)
  have sub: "set ?o = running_tasks db" by (auto simp: order_by_def running_tasks_def)
  have "distinct ?o" using db_okD(1) [OF assms] by (simp add: order_by_def distinct_map)
  moreover have "inj_on t_id (set ?o)"
    using db_okD(1) [OF assms] unfolding sub distinct_map running_tasks_def by (blast intro: inj_on_subset)
  ultimately have "distinct (map t_id ?o)" by (simp add: distinct_map)
  then show "distinct (map t_id (list_tasks (Some ''running'') None 200 db))"
    unfolding list take_map [symmetric] by (rule distinct_take)
  show "set (list_tasks (Some ''running'') None 200 db) \<subseteq> running_tasks db"
    unfolding list sub [symmetric] by (rule set_take_subset)
  show "length (list_tasks (Some ''running'') None 200 db) = min 200 (count_running db)"
    unfolding list count_running_def rowcount_def by (simp add: order_by_def min.commute)
qed

lemma shutdown_round_rows:
  assumes "db_ok db"
  shows "db_ok (shutdown_round env db)" and "count_running (shutdown_round env db) = count_running db"
    and "running_tasks (shutdown_round env db) = (\<lambda>s. if s \<in> set (list_tasks (Some ''running'') None 200 db)
      then cancel_mark (ev_clk env) ''daemon'' ''daemon_shutdown'' s else s) ` running_tasks db"
proof -
  note rows = cancel_each_rows [where env = env, OF assms listed_200(1,2) [OF assms]]
  then show "db_ok (shutdown_round env db)" by blast
  note map = count_running_map [OF conjunct2 [OF rows]]
  show "count_running (shutdown_round env db) = count_running db" by (rule map(1)) simp
  show "running_tasks (shutdown_round env db) = (\<lambda>s. if s \<in> set (list_tasks (Some ''running'') None 200 db)
      then cancel_mark (ev_clk env) ''daemon'' ''daemon_shutdown'' s else s) ` running_tasks db" by (rule map(2)) simp
qed

lemma cancel_running_few:
  assumes "cancel_running env db = Some res"
  shows "db_ok db \<longrightarrow> count_running db < 200"
proof (rule cancel_running.raw_induct [where P = "\<lambda>_ db _. db_ok db \<longrightarrow> count_running db < 200", OF _ assms])
  fix again :: "worker_env \<Rightarrow> taskdb \<Rightarrow> taskdb option" and env db res
  let ?l = "list_tasks (Some ''running'') None 200 db"
  assume IH: "\<And>env db res. again env db = Some res \<Longrightarrow> db_ok db \<longrightarrow> count_running db < 200"
    and run: "(let running = ?l in if running = [] then Some db
      else let db' = cancel_each env running db in if length running < 200 then Some db' else again env db') = Some res"
  show "db_ok db \<longrightarrow> count_running db < 200"
  proof (intro impI, rule ccontr)
    assume ok: "db_ok db" and many: "\<not> count_running db < 200"
    then have "length ?l = 200" using listed_200(3) by simp
    then have "?l \<noteq> []" "\<not> length ?l < 200" by auto
    with run have "again env (shutdown_round env db) = Some res" by (simp add: Let_def)
    from IH [OF this] shutdown_round_rows(1,2) [OF ok, of env] many show False by simp
  qed
qed

text \<open>C26. The shutdown requests the cancellation of the running tasks and comes to its end exactly
  when fewer than 200 tasks run: then every running task is left with a request, and the tasks
  running are those that were. From 200 running tasks on, as long as none of them gives up, the
  loop goes round for ever, over the same 200 tasks.\<close>

theorem shutdown_ends_below_200:
  assumes "db_ok db"
  shows "if count_running db < 200
    then \<exists>db'. cancel_running env db = Some db' \<and> db_ok db'
      \<and> (\<forall>t \<in> running_tasks db'. t_cancel_requested_at t \<noteq> None)
      \<and> t_id ` running_tasks db' = t_id ` running_tasks db
    else cancel_running env db = None"
proof (cases "count_running db < 200")
  case True
  let ?l = "list_tasks (Some ''running'') None 200 db"
  have l: "set ?l = running_tasks db" using True by (intro list_tasks_all_running) simp
  show ?thesis
  proof (cases "?l = []")
    case empty: True
    then have "running_tasks db = {}" using l by simp
    moreover have "cancel_running env db = Some db" using empty by (simp add: cancel_running.simps [of env db])
    ultimately show ?thesis using True assms by simp
  next
    case False
    then have "cancel_running env db = Some (shutdown_round env db)"
      using listed_200(3) [OF assms] True by (simp add: cancel_running.simps [of env db] Let_def)
    moreover have "\<forall>t \<in> running_tasks (shutdown_round env db). t_cancel_requested_at t \<noteq> None"
      "t_id ` running_tasks (shutdown_round env db) = t_id ` running_tasks db"
      unfolding shutdown_round_rows(3) [OF assms] l
      by (auto simp: cancel_mark_def image_iff split: option.splits)
    ultimately show ?thesis using True shutdown_round_rows(1) [OF assms] by simp
  qed
next
  case False
  then show ?thesis using cancel_running_few assms by (cases "cancel_running env db") auto
qed

theorem shutdown_ends_below_200_witness:
  "\<exists>db'. cancel_running demo_env demo_running = Some db' \<and> (\<forall>t \<in> running_tasks db'. t_cancel_requested_at t \<noteq> None)"
proof -
  have "count_running demo_running < 200" by (simp add: count_running_def demo_running_eq)
  then show ?thesis using shutdown_ends_below_200 [OF demo_ok(2), of demo_env] by auto
qed

end
