(* ===== verification/Texts.thy ===== *)
theory Texts
  imports Prelude
begin

text \<open>
  Texts: words, lines and joined texts, as \<open>str.split\<close>, \<open>str.splitlines\<close> and \<open>str.join\<close> have them.
\<close>

section \<open>Definitions\<close>

text \<open>The maximal runs of characters with a property.\<close>

fun char_runs :: "(char \<Rightarrow> bool) \<Rightarrow> string \<Rightarrow> string \<Rightarrow> string list" where
  "char_runs p acc [] = (if acc = [] then [] else [rev acc])"
| "char_runs p acc (c # cs) = (if p c then char_runs p (c # acc) cs else (if acc = [] then [] else [rev acc]) @ char_runs p [] cs)"

definition py_split :: "string \<Rightarrow> string list" where
  "py_split s = char_runs (\<lambda>c. \<not> py_isspace c) [] s"

fun py_join :: "string \<Rightarrow> string list \<Rightarrow> string" where
  "py_join sep [] = []"
| "py_join sep [w] = w"
| "py_join sep (w # v # ws) = w @ sep @ py_join sep (v # ws)"

text \<open>\<open>" ".join(s.strip().split())\<close>.\<close>

definition inline_text :: "string \<Rightarrow> string" where
  "inline_text s = py_join '' '' (py_split (py_strip s))"

text \<open>The line boundaries of \<open>splitlines\<close> below code point 256; a return and a line feed are one.\<close>

definition line_break :: "char \<Rightarrow> bool" where
  "line_break c = ((of_char c :: nat) \<in> {10, 11, 12, 13, 28, 29, 30, 133})"

fun lines_aux :: "string \<Rightarrow> string \<Rightarrow> string list" where
  "lines_aux acc [] = (if acc = [] then [] else [rev acc])"
| "lines_aux acc [c] = (if line_break c then [rev acc] else [rev (c # acc)])"
| "lines_aux acc (c # d # cs) =
     (if (of_char c :: nat) = 13 \<and> (of_char d :: nat) = 10 then rev acc # lines_aux [] cs
      else if line_break c then rev acc # lines_aux [] (d # cs) else lines_aux (c # acc) (d # cs))"

definition split_lines :: "string \<Rightarrow> string list" where
  "split_lines s = lines_aux [] s"

definition rstrip_chars :: "char list \<Rightarrow> string \<Rightarrow> string" where
  "rstrip_chars cs s = rev (dropWhile (\<lambda>c. c \<in> set cs) (rev s))"

section \<open>Lemmas\<close>

text \<open>A text on one line, with no white space other than blanks.\<close>

definition one_line :: "string \<Rightarrow> bool" where
  "one_line s = (\<forall>c \<in> set s. py_isspace c \<longrightarrow> c = CHR '' '')"

lemma one_line_simps [simp]: "one_line []" "one_line (s @ t) \<longleftrightarrow> one_line s \<and> one_line t"
    "one_line (c # s) \<longleftrightarrow> (py_isspace c \<longrightarrow> c = CHR '' '') \<and> one_line s"
  by (auto simp: one_line_def)

lemma one_line_subset: "one_line s \<Longrightarrow> set t \<subseteq> set s \<Longrightarrow> one_line t"
  by (auto simp: one_line_def)

lemma set_py_strip: "set (py_strip s) \<subseteq> set s"
  unfolding py_strip_def by (auto dest!: set_dropWhileD)

lemma set_rstrip: "set (rstrip_chars cs s) \<subseteq> set s"
  unfolding rstrip_chars_def by (auto dest!: set_dropWhileD)

lemma length_dropWhile_le': "length (dropWhile p s) \<le> length s"
  by (induction s) auto

lemma length_py_strip: "length (py_strip s) \<le> length s"
  unfolding py_strip_def length_rev
  by (rule le_trans [OF length_dropWhile_le'], unfold length_rev, rule length_dropWhile_le')

lemma length_rstrip: "length (rstrip_chars cs s) \<le> length s"
  unfolding rstrip_chars_def length_rev
  by (rule le_trans [OF length_dropWhile_le'], unfold length_rev, rule le_refl)

lemma set_char_runs:
  assumes "w \<in> set (char_runs p acc s)" and "set acc \<subseteq> Collect p"
  shows "w \<noteq> [] \<and> set w \<subseteq> Collect p"
  using assms
proof (induction p acc s rule: char_runs.induct)
  case (2 p acc c cs)
  show ?case
  proof (cases "p c")
    case True
    then show ?thesis using "2.IH"(1) "2.prems" by simp
  next
    case False
    then show ?thesis using "2.IH"(2) "2.prems" by (auto split: if_splits)
  qed
qed (auto split: if_splits)

lemma char_runs_empty: "char_runs p acc s = [] \<longleftrightarrow> acc = [] \<and> (\<forall>c \<in> set s. \<not> p c)"
  by (induction p acc s rule: char_runs.induct) auto

lemma one_line_join: "(\<And>w. w \<in> set ws \<Longrightarrow> one_line w) \<Longrightarrow> one_line sep \<Longrightarrow> one_line (py_join sep ws)"
  by (induction sep ws rule: py_join.induct) auto

lemma py_join_empty: "(\<And>w. w \<in> set ws \<Longrightarrow> w \<noteq> []) \<Longrightarrow> py_join sep ws = [] \<longleftrightarrow> ws = []"
  by (induction sep ws rule: py_join.induct) auto

lemma in_dropWhile: "c \<in> set s \<Longrightarrow> \<not> p c \<Longrightarrow> c \<in> set (dropWhile p s)"
  by (induction s) auto

lemma in_py_strip: "c \<in> set s \<Longrightarrow> \<not> py_isspace c \<Longrightarrow> c \<in> set (py_strip s)"
  unfolding py_strip_def by (simp add: in_dropWhile)

lemma py_strip_empty: "py_strip s = [] \<longleftrightarrow> (\<forall>c \<in> set s. py_isspace c)"
proof
  assume "py_strip s = []"
  then show "\<forall>c \<in> set s. py_isspace c" using in_py_strip [of _ s] by auto
next
  assume "\<forall>c \<in> set s. py_isspace c"
  then have "dropWhile py_isspace s = []" by (induction s) simp_all
  then show "py_strip s = []" unfolding py_strip_def by (simp only: rev.simps dropWhile.simps)
qed

lemma inline_one_line [simp]: "one_line (inline_text s)"
proof -
  have "\<forall>w \<in> set (py_split (py_strip s)). one_line w"
    using set_char_runs [of _ "\<lambda>c. \<not> py_isspace c" "[]" "py_strip s"] by (auto simp: py_split_def one_line_def)
  then show ?thesis unfolding inline_text_def by (intro one_line_join) (auto simp: py_isspace_def)
qed

lemma inline_empty: "inline_text s = [] \<longleftrightarrow> (\<forall>c \<in> set s. py_isspace c)"
proof -
  have "inline_text s = [] \<longleftrightarrow> py_split (py_strip s) = []"
    unfolding inline_text_def py_split_def
    using set_char_runs [of _ "\<lambda>c. \<not> py_isspace c" "[]" "py_strip s"] by (intro py_join_empty) auto
  also have "\<dots> \<longleftrightarrow> (\<forall>c \<in> set (py_strip s). py_isspace c)" by (simp add: py_split_def char_runs_empty)
  also have "\<dots> \<longleftrightarrow> (\<forall>c \<in> set s. py_isspace c)"
    using in_py_strip [of _ s] set_py_strip [of s] by auto
  finally show ?thesis .
qed

lemma set_py_join: "w \<in> set ws \<Longrightarrow> set w \<subseteq> set (py_join sep ws)"
  by (induction sep ws rule: py_join.induct) auto

lemma inline_visible:
  assumes "inline_text s \<noteq> []"
  shows "\<exists>c \<in> set (inline_text s). \<not> py_isspace c"
proof -
  obtain w where w: "w \<in> set (py_split (py_strip s))"
    using assms by (cases "py_split (py_strip s)") (auto simp: inline_text_def)
  then have "w \<noteq> []" "set w \<subseteq> {c. \<not> py_isspace c}"
    using set_char_runs [of w "\<lambda>c. \<not> py_isspace c" "[]" "py_strip s"] by (simp_all add: py_split_def)
  then show ?thesis using set_py_join [OF w, of "'' ''"] unfolding inline_text_def by (cases w) auto
qed

end
