(* ===== verification/CurationModels.thy ===== *)
theory CurationModels
  imports Texts
begin

text \<open>
  The data of curation, \<open>core/curation_models.py\<close>: what an agent may ask to be done to the memories,
  and what is written down so that it can be verified after a crash. Pydantic checks a value when it
  is made; the checks are the predicates \<open>action_valid\<close> and \<open>descriptor_valid\<close>.
\<close>

section \<open>Identifiers and operations\<close>

text \<open>A \<open>UUID\<close> object is not equal to its text.\<close>

datatype uuid = UUID (uuid_text: string)

datatype curation_operation =
    NormalizeMemoryOp | RewriteMemoryOp | CreateLinkOp | RemoveLinkOp | MergeMemoriesOp | SplitMemoryOp
  | ArchiveMemoryOp

fun operation_text :: "curation_operation \<Rightarrow> string" where
  "operation_text NormalizeMemoryOp = ''normalize_memory''"
| "operation_text RewriteMemoryOp = ''rewrite_memory''"
| "operation_text CreateLinkOp = ''create_link''"
| "operation_text RemoveLinkOp = ''remove_link''"
| "operation_text MergeMemoriesOp = ''merge_memories''"
| "operation_text SplitMemoryOp = ''split_memory''"
| "operation_text ArchiveMemoryOp = ''archive_memory''"

text \<open>\<open>CanonicalLinkType\<close>: the pattern of an upper-case letter, then upper-case letters, digits and
  underscores.\<close>

definition upper_ascii :: "char \<Rightarrow> bool" where
  "upper_ascii c = (let n = (of_char c :: nat) in 65 \<le> n \<and> n \<le> 90)"

definition link_type_char :: "char \<Rightarrow> bool" where
  "link_type_char c = (upper_ascii c \<or> (let n = (of_char c :: nat) in 48 \<le> n \<and> n \<le> 57) \<or> c = CHR ''_'')"

definition canonical_link_type :: "string \<Rightarrow> bool" where
  "canonical_link_type s = (case s of [] \<Rightarrow> False | c # cs \<Rightarrow> upper_ascii c \<and> list_all link_type_char cs)"

section \<open>Actions\<close>

datatype memory_status = StActive | StArchived

record link_assertion =
  la_source :: uuid
  la_target :: uuid
  la_type :: string
  la_context :: "string option"

record absent_link =
  al_source :: uuid
  al_target :: uuid
  al_type :: string

record evidence_ref =
  er_memory :: "uuid option"
  er_link :: "link_assertion option"
  er_token :: "string option"
  er_excerpt :: "string option"

definition has_reference :: "evidence_ref \<Rightarrow> bool" where
  "has_reference e = (\<not> (er_memory e = None \<and> er_link e = None))"

record action_preconditions =
  ap_tokens :: "(uuid \<times> string) list"
  ap_statuses :: "(uuid \<times> memory_status) list"
  ap_links :: "link_assertion list"
  ap_absent :: "absent_link list"

datatype omission_reason =
    DuplicateWording | RoutineExecutionTrace | FormattingOrBoilerplate | MovedToSplitChild | ExplicitlySuperseded

record omitted_material =
  om_material :: string
  om_reason :: omission_reason

record claim_mapping =
  cm_output :: string
  cm_sources :: "uuid list"

record claim_manifest =
  preserved_claims :: "string list"
  transformed_claims :: "string list"
  omitted :: "omitted_material list"
  source_mapping :: "claim_mapping list"
  unresolved_tensions :: "string list"

record envelope =
  en_action_id :: uuid
  en_confidence :: real
  en_rationale :: string
  en_evidence :: "evidence_ref list"
  en_preconditions :: action_preconditions

datatype curation_action =
    NormalizeMemory envelope uuid "string option" "string option" "string list option"
  | RewriteMemory envelope uuid "string option" string "string option" claim_manifest
  | CreateLink envelope uuid uuid string "string option"
  | RemoveLink envelope uuid uuid string "string option"
  | MergeMemories envelope uuid "uuid list" "string option" string "string option" claim_manifest
  | SplitMemory envelope uuid "claim_mapping list" claim_manifest
  | ArchiveMemory envelope uuid claim_manifest

fun action_envelope :: "curation_action \<Rightarrow> envelope" where
  "action_envelope (NormalizeMemory e _ _ _ _) = e"
| "action_envelope (RewriteMemory e _ _ _ _ _) = e"
| "action_envelope (CreateLink e _ _ _ _) = e"
| "action_envelope (RemoveLink e _ _ _ _) = e"
| "action_envelope (MergeMemories e _ _ _ _ _ _) = e"
| "action_envelope (SplitMemory e _ _ _) = e"
| "action_envelope (ArchiveMemory e _ _) = e"

fun action_operation :: "curation_action \<Rightarrow> curation_operation" where
  "action_operation (NormalizeMemory _ _ _ _ _) = NormalizeMemoryOp"
| "action_operation (RewriteMemory _ _ _ _ _ _) = RewriteMemoryOp"
| "action_operation (CreateLink _ _ _ _ _) = CreateLinkOp"
| "action_operation (RemoveLink _ _ _ _ _) = RemoveLinkOp"
| "action_operation (MergeMemories _ _ _ _ _ _ _) = MergeMemoriesOp"
| "action_operation (SplitMemory _ _ _ _) = SplitMemoryOp"
| "action_operation (ArchiveMemory _ _ _) = ArchiveMemoryOp"

text \<open>What each class checks beyond the envelope.\<close>

fun action_shape :: "curation_action \<Rightarrow> bool" where
  "action_shape (NormalizeMemory _ _ title summary tags) = (\<not> (title = None \<and> summary = None \<and> tags = None))"
| "action_shape (CreateLink _ _ _ link_type ctx) =
     (canonical_link_type link_type \<and> length (py_split (py_strip (str_or ctx []))) \<ge> 2)"
| "action_shape (RemoveLink _ _ _ link_type _) = canonical_link_type link_type"
| "action_shape (MergeMemories _ _ sources _ _ _ _) = (length sources \<ge> 1)"
| "action_shape (SplitMemory _ _ children _) = (length children \<ge> 1)"
| "action_shape _ = True"

definition envelope_valid :: "envelope \<Rightarrow> bool" where
  "envelope_valid e = (0 \<le> en_confidence e \<and> en_confidence e \<le> 1 \<and> list_all has_reference (en_evidence e))"

definition action_valid :: "curation_action \<Rightarrow> bool" where
  "action_valid a = (envelope_valid (action_envelope a) \<and> action_shape a)"

section \<open>Verification descriptors\<close>

datatype verification_status = VActive | VStale | VDegraded | VArchived

fun verification_status_text :: "verification_status \<Rightarrow> string" where
  "verification_status_text VActive = ''active''"
| "verification_status_text VStale = ''stale''"
| "verification_status_text VDegraded = ''degraded''"
| "verification_status_text VArchived = ''archived''"

record descriptor =
  vd_schema :: int
  vd_operation :: curation_operation
  vd_target_ids :: "uuid list"
  vd_target_status :: "verification_status option"
  vd_source :: "uuid option"
  vd_target :: "uuid option"
  vd_link_type :: "string option"
  vd_context :: "string option"
  vd_exists :: "bool option"
  vd_canonical :: "uuid option"
  vd_source_ids :: "uuid list"
  vd_child_ids :: "uuid list"
  vd_split_group :: "string option"
  vd_child_count :: "int option"

definition descriptor_fields :: "descriptor \<Rightarrow> (string \<times> bool) list" where
  "descriptor_fields d =
     [(''target_ids'', vd_target_ids d \<noteq> []), (''target_status'', vd_target_status d \<noteq> None),
      (''source_id'', vd_source d \<noteq> None), (''target_id'', vd_target d \<noteq> None),
      (''link_type'', vd_link_type d \<noteq> None), (''context'', vd_context d \<noteq> None),
      (''exists'', vd_exists d \<noteq> None), (''canonical_id'', vd_canonical d \<noteq> None),
      (''source_ids'', vd_source_ids d \<noteq> []), (''child_ids'', vd_child_ids d \<noteq> []),
      (''split_group_id'', vd_split_group d \<noteq> None), (''child_count'', vd_child_count d \<noteq> None)]"

fun allowed_fields :: "curation_operation \<Rightarrow> string list" where
  "allowed_fields NormalizeMemoryOp = [''target_ids'', ''target_status'']"
| "allowed_fields RewriteMemoryOp = [''target_ids'', ''target_status'']"
| "allowed_fields CreateLinkOp = [''target_ids'', ''source_id'', ''target_id'', ''link_type'', ''context'', ''exists'']"
| "allowed_fields RemoveLinkOp = [''target_ids'', ''source_id'', ''target_id'', ''link_type'', ''context'', ''exists'']"
| "allowed_fields MergeMemoriesOp = [''target_ids'', ''canonical_id'', ''source_ids'']"
| "allowed_fields SplitMemoryOp = [''target_ids'', ''target_id'', ''child_ids'', ''split_group_id'', ''child_count'']"
| "allowed_fields ArchiveMemoryOp = [''target_ids'', ''target_status'']"

text \<open>\<open>validate_shape\<close>: the error raised, if any.\<close>

definition shape_error :: "descriptor \<Rightarrow> string option" where
  "shape_error d =
     (let oper = vd_operation d in
      if \<exists>f \<in> set (descriptor_fields d). snd f \<and> fst f \<notin> set (allowed_fields oper)
      then Some (''verification fields do not match operation '' @ [CHR 0x27] @ operation_text oper @ [CHR 0x27])
      else if \<not> distinct (vd_target_ids d) then Some ''target_ids must not contain duplicate IDs''
      else if \<not> distinct (vd_source_ids d) then Some ''source_ids must not contain duplicate IDs''
      else if \<not> distinct (vd_child_ids d) then Some ''child_ids must not contain duplicate IDs''
      else if oper \<in> {NormalizeMemoryOp, RewriteMemoryOp, ArchiveMemoryOp} then
        if length (vd_target_ids d) \<noteq> 1 \<or> vd_target_status d = None
        then Some ''record verification requires one target ID and status''
        else if oper = ArchiveMemoryOp \<and> vd_target_status d \<noteq> Some VArchived
        then Some ''archive verification requires archived target status''
        else None
      else if oper \<in> {CreateLinkOp, RemoveLinkOp} then
        (case (vd_source d, vd_target d) of
           (Some s, Some t) \<Rightarrow>
             if length (vd_target_ids d) \<noteq> 2 \<or> vd_link_type d = None \<or> vd_context d = None \<or> vd_exists d = None
                \<or> set (vd_target_ids d) \<noteq> {s, t}
             then Some ''link verification requires an exact endpoint assertion'' else None
         | _ \<Rightarrow> Some ''link verification requires an exact endpoint assertion'')
      else if oper = MergeMemoriesOp then
        (case vd_canonical d of
           None \<Rightarrow> Some ''merge verification requires canonical and source IDs''
         | Some c \<Rightarrow>
             if vd_source_ids d = [] \<or> c \<in> set (vd_source_ids d)
                \<or> set (vd_target_ids d) \<noteq> insert c (set (vd_source_ids d))
             then Some ''merge verification requires canonical and source IDs'' else None)
      else if length (vd_target_ids d) \<noteq> 1 \<or> vd_target d \<noteq> Some (hd (vd_target_ids d)) \<or> vd_child_ids d = []
           \<or> vd_split_group d = None \<or> vd_child_count d \<noteq> Some (int (length (vd_child_ids d)))
        then Some ''split verification requires child/group IDs and count'' else None)"

text \<open>The bounds pydantic puts on the fields.\<close>

definition descriptor_bounds :: "descriptor \<Rightarrow> bool" where
  "descriptor_bounds d =
     (vd_schema d = 1
      \<and> length (vd_target_ids d) \<le> 64 \<and> length (vd_source_ids d) \<le> 64 \<and> length (vd_child_ids d) \<le> 64
      \<and> (case vd_link_type d of None \<Rightarrow> True | Some l \<Rightarrow> canonical_link_type l)
      \<and> (case vd_context d of None \<Rightarrow> True | Some c \<Rightarrow> length c \<le> 512)
      \<and> (case vd_split_group d of None \<Rightarrow> True | Some g \<Rightarrow> length g \<le> 128)
      \<and> (case vd_child_count d of None \<Rightarrow> True | Some n \<Rightarrow> n \<ge> 1))"

definition descriptor_valid :: "descriptor \<Rightarrow> bool" where
  "descriptor_valid d = (descriptor_bounds d \<and> shape_error d = None)"

section \<open>Outcomes\<close>

datatype run_outcome =
    OutApplied | OutPartiallyApplied | OutQualityRejected | OutNoOp | OutInvalidPlan | OutStalePlan
  | OutVerificationFailed | OutBudgetExhausted | OutDeferred | OutProviderFailed | OutCancelled
  | OutNoCandidates | OutQualityOverride

section \<open>Laws\<close>

lemma operation_text_inj [simp]: "operation_text a = operation_text b \<longleftrightarrow> a = b"
  by (cases a; cases b) simp_all

text \<open>What a valid descriptor says, operation by operation.\<close>

lemma valid_record_descriptor:
  assumes "descriptor_valid d" and "vd_operation d \<in> {NormalizeMemoryOp, RewriteMemoryOp, ArchiveMemoryOp}"
  shows "\<exists>t s. vd_target_ids d = [t] \<and> vd_target_status d = Some s"
  using assms by (auto simp: descriptor_valid_def shape_error_def Let_def length_Suc_conv split: if_splits)

lemma valid_link_descriptor:
  assumes "descriptor_valid d" and "vd_operation d \<in> {CreateLinkOp, RemoveLinkOp}"
  shows "\<exists>s t l c b. vd_source d = Some s \<and> vd_target d = Some t \<and> vd_link_type d = Some l
    \<and> vd_context d = Some c \<and> vd_exists d = Some b \<and> set (vd_target_ids d) = {s, t} \<and> s \<noteq> t"
proof -
  have dist: "distinct (vd_target_ids d)"
    using assms by (auto simp: descriptor_valid_def shape_error_def Let_def split: if_splits)
  obtain s t l c b where d: "vd_source d = Some s" "vd_target d = Some t" "vd_link_type d = Some l"
    "vd_context d = Some c" "vd_exists d = Some b" "set (vd_target_ids d) = {s, t}" "length (vd_target_ids d) = 2"
    using assms by (auto simp: descriptor_valid_def shape_error_def Let_def split: if_splits option.splits)
  have "s \<noteq> t" using distinct_card [OF dist] d(6,7) by auto
  with d show ?thesis by blast
qed

lemma valid_split_descriptor:
  assumes "descriptor_valid d" and "vd_operation d = SplitMemoryOp"
  shows "\<exists>t. vd_target d = Some t \<and> vd_target_ids d = [t] \<and> vd_child_ids d \<noteq> []"
  using assms by (auto simp: descriptor_valid_def shape_error_def Let_def length_Suc_conv split: if_splits)

end
