(* ===== verification/CurationPolicy.thy ===== *)
theory CurationPolicy
  imports CurationModels
begin

text \<open>
  Which curation actions may run without a human, \<open>core/curation_policy.py\<close>: a pure decision from
  the action, the protections of the memories it affects and their types.
\<close>

section \<open>Risks and modes\<close>

datatype operation_risk = RiskLow | RiskModerate | RiskHigh | RiskDisabled

datatype policy_setting = ModeEnabled | ModeDisabled

datatype rejection_code =
    DeleteNotSupported | OperationNotSupported | EvidenceRequired | ClaimManifestIncomplete
  | ContradictoryFacts | UnknownMemoryType | LinkTypeNotCanonical | EmptyContent | NoAutonomousMutation
  | DestructiveChangeRequiresReview | ManualReviewRequired | PinnedActive | GenericSummary
  | StatusShapedContent | EmptyNormalize

datatype protection_mode =
    ProtNoAutonomousMutation | ProtNoAutonomousDestructiveChange | ProtManualReviewRequired
  | ProtLocalProviderOnly | ProtNoExternalProviderDisclosure | ProtPinnedActive

record policy_decision =
  pd_operation :: string
  pd_risk :: operation_risk
  pd_mode :: policy_setting
  pd_codes :: "rejection_code list"

definition authorized :: "policy_decision \<Rightarrow> bool" where
  "authorized d = (pd_mode d = ModeEnabled \<and> pd_codes d = [])"

definition SUPPORTED_OPERATIONS :: "string list" where
  "SUPPORTED_OPERATIONS = [''normalize_memory'', ''create_link'', ''rewrite_memory'', ''remove_link'',
     ''merge_memories'', ''split_memory'', ''archive_memory'']"

definition DESTRUCTIVE_OPERATIONS :: "string list" where
  "DESTRUCTIVE_OPERATIONS = [''rewrite_memory'', ''remove_link'', ''merge_memories'', ''split_memory'',
     ''archive_memory'', ''delete_memory'']"

definition classify_operation_risk :: "string \<Rightarrow> operation_risk" where
  "classify_operation_risk operation =
     (if operation = ''normalize_memory'' then RiskLow
      else if operation = ''create_link'' then RiskModerate
      else if operation \<in> set SUPPORTED_OPERATIONS then RiskHigh
      else RiskDisabled)"

definition policy_mode :: "string \<Rightarrow> policy_setting" where
  "policy_mode operation = (if operation \<in> set SUPPORTED_OPERATIONS then ModeEnabled else ModeDisabled)"

section \<open>Texts\<close>

definition unwords :: "string list \<Rightarrow> string" where
  "unwords ws = concat (map (\<lambda>w. '' '' @ w) ws)"

definition normalized_text :: "string \<Rightarrow> string" where
  "normalized_text s = drop 1 (unwords (py_split (py_lower (py_strip s))))"

definition is_generic_summary :: "string \<Rightarrow> bool" where
  "is_generic_summary summary =
     (str_prefix ''covers '' (normalized_text summary) \<or> str_prefix ''added '' (normalized_text summary))"

text \<open>A character of a word, \<open>\w\<close> of the regular expressions: letters, digits, numeric characters and
  the underscore, below code point 256.\<close>

definition word_char :: "char \<Rightarrow> bool" where
  "word_char c = (let n = (of_char c :: nat) in
     (48 \<le> n \<and> n \<le> 57) \<or> (65 \<le> n \<and> n \<le> 90) \<or> n = 95 \<or> (97 \<le> n \<and> n \<le> 122)
     \<or> n \<in> {170, 178, 179, 181, 185, 186, 188, 189, 190} \<or> (192 \<le> n \<and> n \<le> 255 \<and> n \<noteq> 215 \<and> n \<noteq> 247))"

text \<open>The maximal runs of word characters, in order.\<close>

fun word_runs :: "string \<Rightarrow> string \<Rightarrow> string list" where
  "word_runs acc [] = (if acc = [] then [] else [rev acc])"
| "word_runs acc (c # cs) = (if word_char c then word_runs (c # acc) cs
     else (if acc = [] then [] else [rev acc]) @ word_runs [] cs)"

definition STATUS_VERBS :: "string list" where
  "STATUS_VERBS = [''merged'', ''added'', ''updated'', ''rewrote'', ''rewritten'', ''normalized'', ''linked'',
     ''archived'', ''split'']"

text \<open>The pattern: a verb at the very start, later \<open>into\<close> or \<open>onto\<close>, later a noun, each a whole word.\<close>

definition is_status_shaped_content :: "string \<Rightarrow> bool" where
  "is_status_shaped_content content =
     (let s = normalized_text content in
      case word_runs [] s of
        [] \<Rightarrow> False
      | verb # rest \<Rightarrow>
          str_prefix verb s \<and> verb \<in> set STATUS_VERBS
          \<and> (case dropWhile (\<lambda>w. w \<notin> {''into'', ''onto''}) rest of
               [] \<Rightarrow> False
             | _ # later \<Rightarrow> \<exists>w \<in> set later. w \<in> {''canonical'', ''memory'', ''record'', ''entry''}))"

section \<open>The manifest\<close>

definition validate_claim_manifest :: "bool \<Rightarrow> claim_manifest \<Rightarrow> rejection_code list" where
  "validate_claim_manifest requires_mapping m =
     (if preserved_claims m = [] \<and> transformed_claims m = [] \<and> omitted m = [] \<and> unresolved_tensions m = []
      then [ClaimManifestIncomplete]
      else if requires_mapping \<and> (source_mapping m = []
          \<or> (\<exists>x \<in> set (source_mapping m). py_strip (cm_output x) = [] \<or> cm_sources x = []))
      then [ClaimManifestIncomplete]
      else if \<exists>c \<in> set (preserved_claims m @ transformed_claims m @ unresolved_tensions m). py_strip c = []
      then [ClaimManifestIncomplete]
      else if \<exists>x \<in> set (omitted m). py_strip (om_material x) = [] then [ClaimManifestIncomplete]
      else [])"

section \<open>The decision\<close>

text \<open>What the caller passes: a typed action, or anything else with an operation and, if it has one, a
  target.\<close>

datatype policy_input = Typed curation_action | Untyped string "uuid option"

fun input_operation :: "policy_input \<Rightarrow> string" where
  "input_operation (Typed a) = operation_text (action_operation a)"
| "input_operation (Untyped operation _) = operation"

fun affected_ids :: "policy_input \<Rightarrow> uuid set" where
  "affected_ids (Typed (MergeMemories _ canonical sources _ _ _ _)) = set sources \<union> {canonical}"
| "affected_ids (Typed (CreateLink _ s t _ _)) = {s, t}"
| "affected_ids (Typed (RemoveLink _ s t _ _)) = {s, t}"
| "affected_ids (Typed (NormalizeMemory _ t _ _ _)) = {t}"
| "affected_ids (Typed (RewriteMemory _ t _ _ _ _)) = {t}"
| "affected_ids (Typed (SplitMemory _ t _ _)) = {t}"
| "affected_ids (Typed (ArchiveMemory _ t _)) = {t}"
| "affected_ids (Untyped _ t) = (case t of None \<Rightarrow> {} | Some i \<Rightarrow> {i})"

definition py_upper_unchanged :: "string \<Rightarrow> bool" where
  "py_upper_unchanged s = list_all (\<lambda>c. let n = (of_char c :: nat) in
     \<not> (97 \<le> n \<and> n \<le> 122) \<and> \<not> (223 \<le> n \<and> n \<le> 255 \<and> n \<noteq> 247) \<and> n \<noteq> 181) s"

definition evidence_code :: "envelope \<Rightarrow> rejection_code list" where
  "evidence_code e = (if en_evidence e = [] then [EvidenceRequired] else [])"

definition content_codes :: "string \<Rightarrow> rejection_code list" where
  "content_codes content = (if py_strip content = [] then [EmptyContent] else [])
     @ (if is_status_shaped_content content then [StatusShapedContent] else [])"

definition link_codes :: "envelope \<Rightarrow> string \<Rightarrow> rejection_code list" where
  "link_codes e link_type = evidence_code e
     @ (if link_type = [] \<or> \<not> py_upper_unchanged link_type then [LinkTypeNotCanonical] else [])"

text \<open>The codes that the kind of the action gives.\<close>

fun kind_codes :: "policy_input \<Rightarrow> rejection_code list" where
  "kind_codes (Untyped operation _) = (if operation = ''delete_memory'' then [DeleteNotSupported] else [OperationNotSupported])"
| "kind_codes (Typed (RewriteMemory e _ _ content _ m)) =
     evidence_code e @ validate_claim_manifest True m @ content_codes content"
| "kind_codes (Typed (MergeMemories e _ _ _ content _ m)) =
     evidence_code e @ validate_claim_manifest True m @ content_codes content"
| "kind_codes (Typed (SplitMemory e _ _ m)) = evidence_code e @ validate_claim_manifest True m"
| "kind_codes (Typed (ArchiveMemory e _ m)) = evidence_code e @ validate_claim_manifest False m"
| "kind_codes (Typed (RemoveLink e _ _ link_type _)) = link_codes e link_type"
| "kind_codes (Typed (CreateLink e _ _ link_type _)) = link_codes e link_type"
| "kind_codes (Typed (NormalizeMemory _ _ title summary tags)) =
     (case summary of None \<Rightarrow> [] | Some s \<Rightarrow> if is_generic_summary s then [GenericSummary] else [])
     @ (if title = None \<and> summary = None \<and> tags = None then [EmptyNormalize] else [])"

text \<open>The codes that the protections of the affected memories give.\<close>

definition protection_codes :: "string \<Rightarrow> protection_mode set \<Rightarrow> rejection_code list" where
  "protection_codes operation ps =
     (if ProtNoAutonomousMutation \<in> ps then [NoAutonomousMutation] else [])
     @ (if ProtNoAutonomousDestructiveChange \<in> ps \<and> operation \<in> set DESTRUCTIVE_OPERATIONS
        then [DestructiveChangeRequiresReview] else [])
     @ (if ProtManualReviewRequired \<in> ps then [ManualReviewRequired] else [])
     @ (if operation \<in> set DESTRUCTIVE_OPERATIONS \<and> ProtPinnedActive \<in> ps then [PinnedActive] else [])"

definition KNOWN_MEMORY_TYPES :: "string list" where
  "KNOWN_MEMORY_TYPES = [''journal'', ''observation'', ''fact'', ''reflection'', ''plan'']"

text \<open>\<open>memory_types\<close> is \<open>None\<close> when the caller passes none; an empty mapping is one.\<close>

definition type_codes :: "(uuid \<rightharpoonup> string) option \<Rightarrow> uuid set \<Rightarrow> rejection_code list" where
  "type_codes types ids = (case types of
       None \<Rightarrow> []
     | Some tys \<Rightarrow> if \<exists>i \<in> ids. (case tys i of None \<Rightarrow> True | Some ty \<Rightarrow> ty \<notin> set KNOWN_MEMORY_TYPES)
         then [UnknownMemoryType] else [])"

fun merge_codes :: "(uuid \<rightharpoonup> string) option \<Rightarrow> uuid set \<Rightarrow> policy_input \<Rightarrow> rejection_code list" where
  "merge_codes types contradictory (Typed (MergeMemories e canonical sources title content summary m)) =
     (let tys = (case types of None \<Rightarrow> Map.empty | Some ts \<Rightarrow> ts);
          facts = {i \<in> affected_ids (Typed (MergeMemories e canonical sources title content summary m)).
                     tys i = Some ''fact''}
      in if card facts > 1 \<and> (facts \<inter> contradictory \<noteq> {} \<or> unresolved_tensions m = [])
         then [ContradictoryFacts] else [])"
| "merge_codes _ _ _ = []"

definition evaluate_curation_action ::
  "(uuid \<rightharpoonup> string) option \<Rightarrow> uuid set \<Rightarrow> (uuid \<Rightarrow> protection_mode set) \<Rightarrow> policy_input \<Rightarrow> policy_decision" where
  "evaluate_curation_action types contradictory protections a =
     (let operation = input_operation a;
          ids = affected_ids a;
          codes = kind_codes a @ protection_codes operation (\<Union> (protections ` ids)) @ type_codes types ids
                  @ merge_codes types contradictory a
      in \<lparr>pd_operation = operation, pd_risk = classify_operation_risk operation,
          pd_mode = policy_mode operation, pd_codes = ordered_unique codes\<rparr>)"

section \<open>Laws\<close>

lemma upper_ascii_kept: "upper_ascii c \<Longrightarrow> py_upper_unchanged [c]"
  by (simp add: upper_ascii_def py_upper_unchanged_def Let_def)

lemma link_type_char_kept: "link_type_char c \<Longrightarrow> py_upper_unchanged [c]"
  by (auto simp: link_type_char_def py_upper_unchanged_def upper_ascii_def Let_def)

lemma canonical_upper: "canonical_link_type s \<Longrightarrow> s \<noteq> [] \<and> py_upper_unchanged s"
  using upper_ascii_kept link_type_char_kept
  by (auto simp: canonical_link_type_def py_upper_unchanged_def list_all_iff split: list.splits)

lemma policy_codes_set:
  "set (pd_codes (evaluate_curation_action types contradictory protections a)) =
     set (kind_codes a) \<union> set (protection_codes (input_operation a) (\<Union> (protections ` affected_ids a)))
     \<union> set (type_codes types (affected_ids a)) \<union> set (merge_codes types contradictory a)"
  by (auto simp: evaluate_curation_action_def Let_def set_ordered_unique)

lemma not_authorized: "c \<in> set (pd_codes d) \<Longrightarrow> \<not> authorized d"
  by (auto simp: authorized_def)

end
