(* ===== verification/CurationPolicyProps.thy ===== *)
theory CurationPolicyProps
  imports CurationPolicy
begin

text \<open>
  The properties of the curation policy: what it authorizes, stated from the point of view of the
  memories, and what a typed action can still be rejected for.
\<close>

section \<open>What is permitted\<close>

text \<open>A manifest accounts for something, leaves no entry blank, and, where a mapping is required, names
  the sources of every output.\<close>

definition complete_manifest :: "bool \<Rightarrow> claim_manifest \<Rightarrow> bool" where
  "complete_manifest mapped m =
     ((preserved_claims m \<noteq> [] \<or> transformed_claims m \<noteq> [] \<or> omitted m \<noteq> [] \<or> unresolved_tensions m \<noteq> [])
      \<and> (\<forall>c \<in> set (preserved_claims m) \<union> set (transformed_claims m) \<union> set (unresolved_tensions m). \<not> blank c)
      \<and> (\<forall>x \<in> set (omitted m). \<not> blank (om_material x))
      \<and> (mapped \<longrightarrow> source_mapping m \<noteq> [] \<and> (\<forall>x \<in> set (source_mapping m). \<not> blank (cm_output x) \<and> cm_sources x \<noteq> [])))"

definition substantive :: "string \<Rightarrow> bool" where
  "substantive content = (\<not> blank content \<and> \<not> is_status_shaped_content content)"

text \<open>What the action itself must bring.\<close>

fun well_supported :: "curation_action \<Rightarrow> bool" where
  "well_supported (NormalizeMemory e t title summary tags) =
     ((title \<noteq> None \<or> summary \<noteq> None \<or> tags \<noteq> None) \<and> (\<forall>s. summary = Some s \<longrightarrow> \<not> is_generic_summary s))"
| "well_supported (RewriteMemory e t title content summary m) =
     (en_evidence e \<noteq> [] \<and> complete_manifest True m \<and> substantive content)"
| "well_supported (MergeMemories e c sources title content summary m) =
     (en_evidence e \<noteq> [] \<and> complete_manifest True m \<and> substantive content)"
| "well_supported (SplitMemory e t children m) = (en_evidence e \<noteq> [] \<and> complete_manifest True m)"
| "well_supported (ArchiveMemory e t m) = (en_evidence e \<noteq> [] \<and> complete_manifest False m)"
| "well_supported (CreateLink e s t link_type ctx) =
     (en_evidence e \<noteq> [] \<and> link_type \<noteq> [] \<and> py_upper_unchanged link_type)"
| "well_supported (RemoveLink e s t link_type ctx) =
     (en_evidence e \<noteq> [] \<and> link_type \<noteq> [] \<and> py_upper_unchanged link_type)"

fun destructive :: "curation_action \<Rightarrow> bool" where
  "destructive (NormalizeMemory e t title summary tags) = False"
| "destructive (CreateLink e s t link_type ctx) = False"
| "destructive _ = True"

text \<open>What the memories allow.\<close>

definition untouchable :: "curation_action \<Rightarrow> protection_mode set" where
  "untouchable a = {ProtNoAutonomousMutation, ProtManualReviewRequired}
     \<union> (if destructive a then {ProtNoAutonomousDestructiveChange, ProtPinnedActive} else {})"

fun facts_agree :: "(uuid \<rightharpoonup> string) option \<Rightarrow> uuid set \<Rightarrow> curation_action \<Rightarrow> bool" where
  "facts_agree (Some tys) contradictory (MergeMemories e c sources title content summary m) =
     (let facts = {i \<in> insert c (set sources). tys i = Some ''fact''} in
      card facts \<le> 1 \<or> (facts \<inter> contradictory = {} \<and> unresolved_tensions m \<noteq> []))"
| "facts_agree _ _ _ = True"

definition permitted ::
  "(uuid \<rightharpoonup> string) option \<Rightarrow> uuid set \<Rightarrow> (uuid \<Rightarrow> protection_mode set) \<Rightarrow> curation_action \<Rightarrow> bool" where
  "permitted types contradictory protections a =
     (well_supported a
      \<and> (\<forall>i \<in> affected_ids (Typed a). protections i \<inter> untouchable a = {})
      \<and> (\<forall>tys. types = Some tys \<longrightarrow> (\<forall>i \<in> affected_ids (Typed a). \<exists>ty \<in> set KNOWN_MEMORY_TYPES. tys i = Some ty))
      \<and> facts_agree types contradictory a)"

section \<open>The decision grants exactly that\<close>

lemma blank_strip: "blank s = (py_strip s = [])"
  by (auto simp: blank_def py_strip_def)

lemma manifest_codes: "validate_claim_manifest mapped m = [] \<longleftrightarrow> complete_manifest mapped m"
  by (auto simp: validate_claim_manifest_def complete_manifest_def blank_strip)

lemma kind_codes_typed: "kind_codes (Typed a) = [] \<longleftrightarrow> well_supported a"
  by (cases a) (auto simp: manifest_codes evidence_code_def content_codes_def link_codes_def substantive_def blank_strip
      split: option.splits)

lemma destructive_operation: "operation_text (action_operation a) \<in> set DESTRUCTIVE_OPERATIONS \<longleftrightarrow> destructive a"
  by (cases a) (simp_all add: DESTRUCTIVE_OPERATIONS_def)

lemma protection_codes_typed:
  "protection_codes (operation_text (action_operation a)) (\<Union> (protections ` ids)) = []
    \<longleftrightarrow> (\<forall>i \<in> ids. protections i \<inter> untouchable a = {})"
  unfolding protection_codes_def destructive_operation by (auto simp: untouchable_def)

lemma type_codes_empty:
  "type_codes types ids = [] \<longleftrightarrow> (\<forall>tys. types = Some tys \<longrightarrow> (\<forall>i \<in> ids. \<exists>ty \<in> set KNOWN_MEMORY_TYPES. tys i = Some ty))"
proof (cases types)
  case (Some tys)
  have "(case tys i of None \<Rightarrow> True | Some ty \<Rightarrow> ty \<notin> S) = (\<not> (\<exists>ty \<in> S. tys i = Some ty))" for i S
    by (cases "tys i") auto
  then show ?thesis by (simp add: type_codes_def Some)
qed (simp add: type_codes_def)

lemma merge_codes_typed: "merge_codes types contradictory (Typed a) = [] \<longleftrightarrow> facts_agree types contradictory a"
  by (cases a; cases types) (auto simp: Let_def not_less)

lemma typed_enabled: "policy_mode (operation_text (action_operation a)) = ModeEnabled"
  by (cases a) (simp_all add: policy_mode_def SUPPORTED_OPERATIONS_def)

lemma ordered_unique_Nil [simp]: "ordered_unique xs = [] \<longleftrightarrow> xs = []"
  by (metis set_ordered_unique set_empty)


section \<open>Typed actions\<close>

text \<open>C24. The types of the actions carry part of the policy: a typed action that passed validation is of a
  supported operation and is never rejected because its operation, the form of its link type or an
  empty normalization.\<close>

theorem typed_action_codes:
  assumes "action_valid a" and "d = evaluate_curation_action types contradictory protections (Typed a)"
  shows "pd_mode d = ModeEnabled \<and> pd_risk d \<noteq> RiskDisabled
    \<and> set (pd_codes d) \<inter> {DeleteNotSupported, OperationNotSupported, LinkTypeNotCanonical, EmptyNormalize} = {}"
proof -
  let ?none = "{DeleteNotSupported, OperationNotSupported, LinkTypeNotCanonical, EmptyNormalize}"
  have "pd_risk d \<noteq> RiskDisabled"
    by (cases a) (simp_all add: assms(2) evaluate_curation_action_def Let_def classify_operation_risk_def SUPPORTED_OPERATIONS_def)
  moreover have "set (kind_codes (Typed a)) \<inter> ?none = {}"
    using assms(1) canonical_upper
    by (cases a) (auto simp: action_valid_def evidence_code_def content_codes_def link_codes_def validate_claim_manifest_def
        split: option.splits)
  moreover have "set (protection_codes op' ps) \<inter> ?none = {}" for op' ps
    by (auto simp: protection_codes_def)
  moreover have "set (type_codes types ids) \<inter> ?none = {}" for ids
    by (auto simp: type_codes_def split: option.splits)
  moreover have "set (merge_codes types contradictory (Typed a)) \<inter> ?none = {}"
    by (cases a) (auto simp: Let_def)
  ultimately have "set (pd_codes d) \<inter> ?none = {}" and "pd_risk d \<noteq> RiskDisabled"
    unfolding assms(2) policy_codes_set Int_Un_distrib2 by simp_all
  then show ?thesis by (simp add: assms(2) evaluate_curation_action_def Let_def typed_enabled)
qed

definition example_action :: curation_action where
  "example_action = CreateLink \<lparr>en_action_id = UUID ''a1'', en_confidence = 1 / 2, en_rationale = ''r'', en_evidence = [],
       en_preconditions = \<lparr>ap_tokens = [], ap_statuses = [], ap_links = [], ap_absent = []\<rparr>\<rparr>
     (UUID ''m1'') (UUID ''m2'') ''RELATED_TO'' (Some ''shared cause'')"

lemma example_action_valid: "action_valid example_action"
  by code_simp

lemma typed_action_codes_witness:
  "action_valid example_action
    \<and> LinkTypeNotCanonical \<notin> set (pd_codes (evaluate_curation_action None {} (\<lambda>_. {}) (Typed example_action)))"
  using typed_action_codes [OF example_action_valid refl, of None "{}" "\<lambda>_. {}"] example_action_valid by auto

end
