(* ===== verification/CurationStore.thy ===== *)
theory CurationStore
  imports CurationModels
begin

text \<open>
  The ledger of curation, \<open>curation_store.py\<close>: runs, the receipts of the actions they applied, and the
  state of the candidates for curation. Dates are in UTC, so that their texts sort like the dates.
\<close>

section \<open>Rows\<close>

datatype run_state = RunCreated | RunPlanning | RunExecuting | RunVerifying | RunTerminal

datatype receipt_state =
  AppliedUnverified | Verified | VerificationFailed | ReceiptRejected | ReceiptStale | ReceiptFailed

datatype disposition = CandPending | CandRetained | CandActioned | CandCooldown | CandEscalated

record curation_run =
  cr_id :: uuid
  cr_task :: "uuid option"
  cr_epoch :: "int option"
  cr_work_item :: "uuid option"
  cr_frontier :: string
  cr_strategy :: "string option"
  cr_fingerprint :: string
  cr_planner :: "string option"
  cr_provider :: "string option"
  cr_model :: "string option"
  cr_policy_version :: string
  cr_schema_version :: int
  cr_state :: run_state
  cr_outcome :: "run_outcome option"
  cr_plan :: "uuid option"
  cr_rejection_codes :: "string list"
  cr_retry_reason :: "string option"
  cr_budget :: dict
  cr_disclosure :: dict
  cr_created :: "time option"
  cr_terminalized :: "time option"

record receipt =
  rc_run :: uuid
  rc_action :: uuid
  rc_operation :: string
  rc_affected :: "uuid list"
  rc_status :: receipt_state
  rc_before :: "string option"
  rc_after :: "string option"
  rc_event :: "uuid option"
  rc_intent :: "string option"
  rc_descriptor :: "descriptor option"
  rc_error :: "string option"
  rc_applied :: "time option"
  rc_verified :: "time option"

record candidate =
  ca_memory :: uuid
  ca_token :: "string option"
  ca_disposition :: disposition
  ca_no_ops :: int
  ca_cooldown :: "time option"
  ca_reason :: "string option"
  ca_frontier :: "string option"
  ca_run :: "uuid option"
  ca_escalations :: int
  ca_escalated_strategy :: "string option"
  ca_considered :: "time option"
  ca_considered_strategy :: "string option"
  ca_family :: "string option"
  ca_mutated :: "time option"
  ca_evidence :: dict

text \<open>The tables. \<open>cd_broken\<close> has the receipts whose descriptor text does not parse, \<open>cd_events\<close> the
  identifiers of the mutation events a receipt may refer to.\<close>

record curation_db =
  cd_runs :: "curation_run list"
  cd_receipts :: "receipt list"
  cd_candidates :: "candidate list"
  cd_broken :: "(uuid \<times> uuid) set"
  cd_events :: "uuid set"

type_synonym 'a curation_op = "curation_db \<Rightarrow> 'a res \<times> curation_db"

definition receipt_key :: "receipt \<Rightarrow> uuid \<times> uuid" where
  "receipt_key r = (rc_run r, rc_action r)"

text \<open>The errors with a class of their own in the code.\<close>

abbreviation "HydrationError \<equiv> ValueError ''descriptor_hydration_failed''"

section \<open>Pure transitions\<close>

fun run_transitions :: "run_state \<Rightarrow> run_state set" where
  "run_transitions RunCreated = {RunPlanning}"
| "run_transitions RunPlanning = {RunExecuting, RunTerminal}"
| "run_transitions RunExecuting = {RunVerifying, RunTerminal}"
| "run_transitions RunVerifying = {RunTerminal}"
| "run_transitions RunTerminal = {}"

definition transition_run_pure ::
  "curation_run \<Rightarrow> run_state \<Rightarrow> run_outcome option \<Rightarrow> time option \<Rightarrow> curation_run res" where
  "transition_run_pure run state outcome terminalized =
     (if cr_state run = RunTerminal then Inr run
      else if state \<notin> run_transitions (cr_state run) then Inl (ValueError ''invalid curation run transition'')
      else if state = RunTerminal \<and> outcome = None
      then Inl (ValueError ''terminal curation runs require an outcome'')
      else Inr (run\<lparr>cr_state := state, cr_outcome := outcome,
             cr_terminalized := (if state = RunTerminal then terminalized else None)\<rparr>))"

definition terminalize_run_pure :: "curation_run \<Rightarrow> run_outcome \<Rightarrow> time option \<Rightarrow> curation_run res" where
  "terminalize_run_pure run outcome terminalized = transition_run_pure run RunTerminal (Some outcome) terminalized"

definition receipt_terminal :: "receipt \<Rightarrow> bool" where
  "receipt_terminal r = (rc_status r \<noteq> AppliedUnverified)"

definition transition_receipt_pure ::
  "receipt \<Rightarrow> receipt_state \<Rightarrow> time option \<Rightarrow> string option \<Rightarrow> receipt res" where
  "transition_receipt_pure r state verified err =
     (if receipt_terminal r then Inr r
      else if state = AppliedUnverified then Inl (ValueError ''invalid curation receipt transition'')
      else Inr (r\<lparr>rc_status := state, rc_verified := verified, rc_error := err\<rparr>))"

section \<open>Runs\<close>

definition bounded_limit :: "int \<Rightarrow> int res" where
  "bounded_limit limit = (if limit < 1 then Inl (ValueError ''limit must be at least 1'') else Inr (min limit 1000))"

definition create_run :: "time \<Rightarrow> curation_run \<Rightarrow> curation_run curation_op" where
  "create_run clk run db =
     (let new = run\<lparr>cr_created := Some (now_or (cr_created run) clk)\<rparr> in
      if cr_id run \<in> cr_id ` set (cd_runs db) then (Inl IntegrityError, db)
      else (Inr new, db\<lparr>cd_runs := cd_runs db @ [new]\<rparr>))"

definition get_run :: "uuid \<Rightarrow> curation_db \<Rightarrow> curation_run option" where
  "get_run rid db = List.find (\<lambda>r. cr_id r = rid) (cd_runs db)"

text \<open>Newest first, and for one date by descending identifier.\<close>

definition list_runs :: "int \<Rightarrow> curation_db \<Rightarrow> curation_run list res" where
  "list_runs limit db = (case bounded_limit limit of
       Inl e \<Rightarrow> Inl e
     | Inr n \<Rightarrow> Inr (limit_rows n (order_by (\<lambda>r. case cr_created r of None \<Rightarrow> 0 | Some t \<Rightarrow> - t)
         (rev (order_by (\<lambda>r. uuid_text (cr_id r)) (cd_runs db))))))"

text \<open>\<open>transition_run\<close> reads the row, then writes it under a guard on the state; another process may
  run in between. A terminal row that is read is returned as it is.\<close>

definition transition_run_write ::
  "uuid \<Rightarrow> run_state \<Rightarrow> curation_run \<Rightarrow> curation_run \<Rightarrow> curation_db \<Rightarrow> curation_run option \<times> curation_db" where
  "transition_run_write rid expected run existing db =
     (let new = run\<lparr>cr_id := rid, cr_created := (case cr_created run of None \<Rightarrow> cr_created existing | Some t \<Rightarrow> Some t)\<rparr>;
          p = (\<lambda>r. cr_id r = rid \<and> cr_state r = expected);
          db' = db\<lparr>cd_runs := update_where p (\<lambda>_. new) (cd_runs db)\<rparr>
      in if rowcount p (cd_runs db) \<noteq> 1
         then ((case get_run rid db' of
                  None \<Rightarrow> None
                | Some current \<Rightarrow> if cr_state current = RunTerminal then Some current else None), db')
         else (get_run rid db', db'))"

definition transition_run ::
  "uuid \<Rightarrow> run_state \<Rightarrow> curation_run \<Rightarrow> curation_db \<Rightarrow> curation_run option \<times> curation_db" where
  "transition_run rid expected run db =
     (case get_run rid db of
        None \<Rightarrow> (None, db)
      | Some existing \<Rightarrow>
          if cr_state existing = RunTerminal then (Some existing, db)
          else transition_run_write rid expected run existing db)"

definition terminalize_run ::
  "time \<Rightarrow> uuid \<Rightarrow> run_state \<Rightarrow> run_outcome \<Rightarrow> curation_db \<Rightarrow> curation_run option \<times> curation_db" where
  "terminalize_run clk rid expected outcome db =
     (let p = (\<lambda>r. cr_id r = rid \<and> cr_state r = expected \<and> cr_terminalized r = None);
          db' = db\<lparr>cd_runs := update_where p (\<lambda>r. r\<lparr>cr_state := RunTerminal, cr_outcome := Some outcome,
                    cr_terminalized := Some clk\<rparr>) (cd_runs db)\<rparr>
      in case get_run rid db' of
           None \<Rightarrow> (None, db')
         | Some stored \<Rightarrow>
             if rowcount p (cd_runs db) = 1 \<or> cr_state stored = RunTerminal then (Some stored, db') else (None, db'))"

section \<open>Receipts\<close>

definition get_receipt :: "uuid \<Rightarrow> uuid \<Rightarrow> curation_db \<Rightarrow> receipt option res" where
  "get_receipt rid aid db = (case List.find (\<lambda>r. receipt_key r = (rid, aid)) (cd_receipts db) of
       None \<Rightarrow> Inr None
     | Some r \<Rightarrow> if (rid, aid) \<in> cd_broken db then Inl HydrationError else Inr (Some r))"

definition list_receipts :: "uuid \<Rightarrow> int \<Rightarrow> curation_db \<Rightarrow> receipt list res" where
  "list_receipts rid limit db = (case bounded_limit limit of
       Inl e \<Rightarrow> Inl e
     | Inr n \<Rightarrow> let rows = limit_rows n (filter (\<lambda>r. rc_run r = rid) (cd_receipts db)) in
         if \<exists>r \<in> set rows. receipt_key r \<in> cd_broken db then Inl HydrationError else Inr rows)"

definition agree :: "'a option \<Rightarrow> 'a option \<Rightarrow> bool" where
  "agree x y = (x = None \<or> y = None \<or> x = y)"

definition receipt_identity_matches :: "receipt \<Rightarrow> receipt \<Rightarrow> bool" where
  "receipt_identity_matches l r =
     (rc_operation l = rc_operation r \<and> rc_affected l = rc_affected r \<and> rc_before l = rc_before r
      \<and> agree (rc_intent l) (rc_intent r) \<and> agree (rc_descriptor l) (rc_descriptor r))"

text \<open>The insertion fails on a receipt of the same run and action, without the run, and without the
  mutation event it refers to.\<close>

definition receipt_insert_fails :: "receipt \<Rightarrow> curation_db \<Rightarrow> bool" where
  "receipt_insert_fails r db =
     (receipt_key r \<in> receipt_key ` set (cd_receipts db) \<or> rc_run r \<notin> cr_id ` set (cd_runs db)
      \<or> (case rc_event r of None \<Rightarrow> False | Some e \<Rightarrow> e \<notin> cd_events db))"

definition put_receipt :: "time \<Rightarrow> receipt \<Rightarrow> receipt curation_op" where
  "put_receipt clk r db =
     (if rc_intent r = None then (Inl (ValueError ''curation action receipt intent_hash is required''), db)
      else let new = r\<lparr>rc_applied := (case rc_applied r of Some t \<Rightarrow> Some t
                     | None \<Rightarrow> if rc_status r = AppliedUnverified then Some clk else None)\<rparr>
        in if receipt_insert_fails r db then
             (case get_receipt (rc_run r) (rc_action r) db of
                Inl e \<Rightarrow> (Inl e, db)
              | Inr None \<Rightarrow> (Inl IntegrityError, db)
              | Inr (Some existing) \<Rightarrow>
                  if \<not> receipt_identity_matches existing r
                  then (Inl (ValueError ''curation action receipt identity is already in use''), db)
                  else (Inr existing, db))
           else (Inr new, db\<lparr>cd_receipts := cd_receipts db @ [new]\<rparr>))"

text \<open>\<open>transition_receipt\<close>: read, then guarded write of every column but the key, then read.\<close>

definition transition_receipt_write ::
  "uuid \<Rightarrow> uuid \<Rightarrow> receipt_state \<Rightarrow> receipt \<Rightarrow> receipt option curation_op" where
  "transition_receipt_write rid aid expected r db =
     (let p = (\<lambda>s. receipt_key s = (rid, aid) \<and> rc_status s = expected);
          db' = db\<lparr>cd_receipts := update_where p (\<lambda>s. r\<lparr>rc_run := rc_run s, rc_action := rc_action s\<rparr>) (cd_receipts db)\<rparr>
      in case get_receipt rid aid db' of
           Inl e \<Rightarrow> (Inl e, db')
         | Inr None \<Rightarrow> (Inr None, db')
         | Inr (Some stored) \<Rightarrow>
             if rowcount p (cd_receipts db) = 1 \<or> rc_status stored \<noteq> expected then (Inr (Some stored), db')
             else (Inr None, db'))"

definition transition_receipt ::
  "uuid \<Rightarrow> uuid \<Rightarrow> receipt_state \<Rightarrow> receipt \<Rightarrow> receipt option curation_op" where
  "transition_receipt rid aid expected r db =
     (if rc_intent r = None then (Inl (ValueError ''curation action receipt intent_hash is required''), db)
      else case get_receipt rid aid db of
          Inl e \<Rightarrow> (Inl e, db)
        | Inr None \<Rightarrow> (Inr None, db)
        | Inr (Some existing) \<Rightarrow>
            if receipt_terminal existing then (Inr (Some existing), db)
            else transition_receipt_write rid aid expected r db)"

section \<open>Candidates\<close>

definition get_candidate :: "uuid \<Rightarrow> curation_db \<Rightarrow> candidate option" where
  "get_candidate m db = List.find (\<lambda>c. ca_memory c = m) (cd_candidates db)"

definition list_candidates :: "disposition option \<Rightarrow> int \<Rightarrow> curation_db \<Rightarrow> candidate list res" where
  "list_candidates disp limit db = (case bounded_limit limit of
       Inl e \<Rightarrow> Inl e
     | Inr n \<Rightarrow> Inr (limit_rows n (order_by (\<lambda>c. - ca_escalations c)
         (rev (order_by (\<lambda>c. case ca_run c of None \<Rightarrow> [] | Some r \<Rightarrow> uuid_text r)
           (rev (filter (\<lambda>c. case disp of None \<Rightarrow> True | Some d \<Rightarrow> ca_disposition c = d) (cd_candidates db))))))))"

text \<open>The upsert of a candidate, with the guard of \<open>ON CONFLICT DO UPDATE ... WHERE\<close>; the number is the
  row count.\<close>

definition upsert_candidate :: "(candidate \<Rightarrow> bool) \<Rightarrow> candidate \<Rightarrow> curation_db \<Rightarrow> nat \<times> curation_db" where
  "upsert_candidate guard c db =
     (if ca_memory c \<in> ca_memory ` set (cd_candidates db)
      then let p = (\<lambda>s. ca_memory s = ca_memory c \<and> guard s)
           in (rowcount p (cd_candidates db), db\<lparr>cd_candidates := update_where p (\<lambda>_. c) (cd_candidates db)\<rparr>)
      else (1, db\<lparr>cd_candidates := cd_candidates db @ [c]\<rparr>))"

definition put_candidate :: "candidate \<Rightarrow> curation_db \<Rightarrow> candidate \<times> curation_db" where
  "put_candidate c db = (c, snd (upsert_candidate (\<lambda>_. True) c db))"

definition compare_and_set_candidate ::
  "uuid \<Rightarrow> string option \<Rightarrow> candidate \<Rightarrow> candidate option curation_op" where
  "compare_and_set_candidate m expected c db =
     (if ca_memory c \<noteq> m then (Inl (ValueError ''candidate state memory_id does not match CAS key''), db)
      else case expected of
          None \<Rightarrow> (case upsert_candidate (\<lambda>s. ca_token s = None) c db of
              (n, db') \<Rightarrow> (Inr (if n = 1 then Some c else None), db'))
        | Some tok \<Rightarrow>
            let p = (\<lambda>s. ca_memory s = m \<and> ca_token s = Some tok)
            in (Inr (if rowcount p (cd_candidates db) = 1 then Some c else None),
                db\<lparr>cd_candidates := update_where p (\<lambda>_. c) (cd_candidates db)\<rparr>))"

definition is_candidate_in_cooldown :: "time \<Rightarrow> uuid \<Rightarrow> time option \<Rightarrow> curation_db \<Rightarrow> bool" where
  "is_candidate_in_cooldown clk m now db = (case get_candidate m db of
       None \<Rightarrow> False
     | Some c \<Rightarrow> (case ca_cooldown c of None \<Rightarrow> False | Some t \<Rightarrow> t > now_or now clk))"

end
