(* ===== verification/Memories.thy ===== *)
theory Memories
  imports Digits
begin

text \<open>
  The memories as the rest of the program sees them, \<open>core/ports/memory.py\<close>: records, links, the
  context of a read, and the short references \<open>mem-17\<close>.
\<close>

record memory_record =
  mr_id :: string
  mr_title :: string
  mr_content :: string
  mr_summary :: "string option"
  mr_type :: string
  mr_status :: string
  mr_created_at :: string
  mr_updated_at :: string
  mr_read_count :: int
  mr_access_score :: real
  mr_last_accessed :: "string option"
  mr_last_surfaced :: "string option"
  mr_metadata :: dict
  mr_workspaces :: "string list"
  mr_tags :: "string list"
  mr_ref :: "int option"
  mr_archived_at :: "string option"

record memory_link =
  ml_source :: string
  ml_target :: string
  ml_type :: string
  ml_context :: string

text \<open>\<open>relationships\<close> is a dictionary of lists of links.\<close>

record read_context =
  mx_record :: memory_record
  mx_relationships :: "(string \<times> memory_link list) list"
  mx_superseded :: "memory_record list"

definition VALID_MEMORY_TYPES :: "string list" where
  "VALID_MEMORY_TYPES = [''journal'', ''plan'', ''fact'', ''observation'', ''reflection'']"

definition VALID_MEMORY_STATUSES :: "string list" where
  "VALID_MEMORY_STATUSES = [''active'', ''stale'', ''degraded'', ''archived'']"

section \<open>References\<close>

definition format_memory_ref :: "int option \<Rightarrow> string option res" where
  "format_memory_ref n = (case n of
       None \<Rightarrow> Inr None
     | Some i \<Rightarrow> if i < 1 then Inl (ValueError ''memory_ref must be a positive integer'')
         else Inr (Some (''mem-'' @ py_str_int i)))"

text \<open>The pattern \<open>(?:mem-)?([1-9][0-9]*)\<close>, whatever the case, on the stripped text.\<close>

definition parse_memory_ref :: "string \<Rightarrow> int option" where
  "parse_memory_ref value =
     (let s = py_strip value;
          ds = (if str_prefix ''mem-'' (py_lower s) then drop 4 s else s)
      in if ds \<noteq> [] \<and> list_all (\<lambda>c. digit_value c \<noteq> None) ds \<and> hd ds \<noteq> CHR ''0''
         then map_option int (parse_nat ds) else None)"

lemma nat_digits_hd: "0 < n \<Longrightarrow> hd (nat_digits n) \<noteq> CHR ''0''"
proof (induction n rule: nat_digits.induct)
  case (1 n)
  show ?case
  proof (cases "n < 10")
    case True
    have "char_of (48 + n) \<noteq> (CHR ''0'' :: char)"
    proof
      assume "char_of (48 + n) = (CHR ''0'' :: char)"
      then have "of_char (char_of (48 + n) :: char) = (48 :: nat)" by simp
      then show False using 1(2) True by simp
    qed
    moreover have "nat_digits n = [char_of (48 + n)]" using True by (subst nat_digits.simps) simp
    ultimately show ?thesis by simp
  next
    case False
    then have "nat_digits n = nat_digits (n div 10) @ [char_of (48 + n mod 10)]" by (subst nat_digits.simps) simp
    moreover have "hd (nat_digits (n div 10)) \<noteq> CHR ''0''" using 1(1) [OF False] False by simp
    ultimately show ?thesis by simp
  qed
qed

lemma memory_ref_roundtrip:
  assumes "1 \<le> i"
  shows "\<exists>s. format_memory_ref (Some i) = Inr (Some s) \<and> parse_memory_ref s = Some i"
proof -
  let ?ds = "nat_digits (nat i)"
  have plain: "\<forall>c \<in> set (''mem-'' @ ?ds). \<not> py_isspace c"
    using all_digits_plain [OF all_digits_nat_digits [of "nat i"]] by (auto simp: py_isspace_def)
  have strip: "py_strip (''mem-'' @ ?ds) = ''mem-'' @ ?ds" using plain by (rule py_strip_plain)
  have "str_prefix ''mem-'' (py_lower (''mem-'' @ ?ds))"
    by (simp add: str_prefix_def py_lower_def char_lower_def)
  moreover have "list_all (\<lambda>c. digit_value c \<noteq> None) ?ds"
    using all_digits_nat_digits [of "nat i"] by (simp add: all_digits_def list_all_iff)
  moreover have "hd ?ds \<noteq> CHR ''0''" using assms by (intro nat_digits_hd) simp
  ultimately have "parse_memory_ref (''mem-'' @ ?ds) = Some i"
    using assms unfolding parse_memory_ref_def strip by (simp add: Let_def)
  then show ?thesis using assms by (simp add: format_memory_ref_def py_str_int_def)
qed

end
