(* ===== verification/CanonicalIdentity.thy ===== *)
theory CanonicalIdentity
  imports Memories CurationModels
begin

text \<open>
  Identities of records, graphs, links, actions and contexts: a value is normalized, written as
  canonical JSON and hashed, \<open>utils/canonical_identity.py\<close> and \<open>core/curation_identity.py\<close>. The hash
  (SHA-256, in hexadecimal), the name-based UUID and the text of a float are parameters. Below code
  point 256 every text is in NFC already.
\<close>

section \<open>Canonical JSON\<close>

record hashing =
  h_sha256 :: "string \<Rightarrow> string"
  h_uuid5 :: "uuid \<Rightarrow> string \<Rightarrow> uuid"
  h_float :: "real \<Rightarrow> string"

text \<open>\<open>value.replace("\r\n", "\n").replace("\r", "\n")\<close>.\<close>

fun replace_cr_lf :: "string \<Rightarrow> string" where
  "replace_cr_lf (c # d # cs) = (if c = CHR 0x0D \<and> d = CHR 0x0A then d # replace_cr_lf cs else c # replace_cr_lf (d # cs))"
| "replace_cr_lf s = s"

definition normalize_newlines :: "string \<Rightarrow> string" where
  "normalize_newlines s = map (\<lambda>c. if c = CHR 0x0D then CHR 0x0A else c) (replace_cr_lf s)"

definition normalize_text :: "bool \<Rightarrow> string \<Rightarrow> string" where
  "normalize_text collapse s = (if collapse then py_strip (normalize_newlines s) else normalize_newlines s)"

fun normalize :: "json \<Rightarrow> json res"
  and normalize_list :: "json list \<Rightarrow> json list res"
  and normalize_items :: "string list \<Rightarrow> (string \<times> json) list \<Rightarrow> (string \<times> json) list res" where
  "normalize (JStr s) = Inr (JStr (normalize_text False s))"
| "normalize (JList vs) = bind_res (normalize_list vs) (\<lambda>ws. Inr (JList ws))"
| "normalize (JObj kvs) = bind_res (normalize_items [] kvs) (\<lambda>kws. Inr (JObj kws))"
| "normalize v = Inr v"
| "normalize_list [] = Inr []"
| "normalize_list (v # vs) = bind_res (normalize v) (\<lambda>w. bind_res (normalize_list vs) (\<lambda>ws. Inr (w # ws)))"
| "normalize_items seen [] = Inr []"
| "normalize_items seen ((k, v) # kvs) =
     (let k' = normalize_text False k in
      if k' \<in> set seen then Inl (ValueError (''duplicate canonical JSON key: '' @ k'))
      else bind_res (normalize v) (\<lambda>w. bind_res (normalize_items (k' # seen) kvs) (\<lambda>kws. Inr ((k', w) # kws))))"

text \<open>\<open>json.dumps\<close> with \<open>ensure_ascii=False\<close> and the compact separators.\<close>

definition hex_digit :: "nat \<Rightarrow> char" where
  "hex_digit n = (if n < 10 then char_of (48 + n) else char_of (87 + n))"

definition escape_char :: "char \<Rightarrow> string" where
  "escape_char c = (let n = (of_char c :: nat); b = CHR 0x5C in
     if n = 34 then [b, CHR 0x22] else if n = 92 then [b, b]
     else if n = 10 then [b, CHR ''n''] else if n = 13 then [b, CHR ''r''] else if n = 9 then [b, CHR ''t'']
     else if n = 8 then [b, CHR ''b''] else if n = 12 then [b, CHR ''f'']
     else if n < 32 then [b, CHR ''u'', CHR ''0'', CHR ''0'', hex_digit (n div 16), hex_digit (n mod 16)]
     else [c])"

definition json_string :: "string \<Rightarrow> string" where
  "json_string s = CHR 0x22 # concat (map escape_char s) @ [CHR 0x22]"

fun json_text :: "(real \<Rightarrow> string) \<Rightarrow> json \<Rightarrow> string"
  and json_text_list :: "(real \<Rightarrow> string) \<Rightarrow> json list \<Rightarrow> string"
  and json_text_items :: "(real \<Rightarrow> string) \<Rightarrow> (string \<times> json) list \<Rightarrow> string" where
  "json_text ft JNull = ''null''"
| "json_text ft (JBool b) = (if b then ''true'' else ''false'')"
| "json_text ft (JInt i) = py_str_int i"
| "json_text ft (JFloat r) = ft r"
| "json_text ft (JStr s) = json_string s"
| "json_text ft (JList vs) = ''['' @ json_text_list ft vs @ '']''"
| "json_text ft (JObj kvs) = ''{'' @ json_text_items ft kvs @ ''}''"
| "json_text_list ft [] = []"
| "json_text_list ft (v # vs) = json_text ft v @ (if vs = [] then [] else '','' @ json_text_list ft vs)"
| "json_text_items ft [] = []"
| "json_text_items ft ((k, v) # kvs) =
     json_string k @ '':'' @ json_text ft v @ (if kvs = [] then [] else '','' @ json_text_items ft kvs)"

definition canonicalize :: "(real \<Rightarrow> string) \<Rightarrow> json \<Rightarrow> string res" where
  "canonicalize ft v = bind_res (normalize v) (\<lambda>w. Inr (json_text ft (json_sort w)))"

definition stable_hash :: "hashing \<Rightarrow> json \<Rightarrow> string res" where
  "stable_hash h v = bind_res (canonicalize (h_float h) v) (\<lambda>s. Inr (''v1:'' @ h_sha256 h s))"

definition stable_uuid5 :: "hashing \<Rightarrow> uuid \<Rightarrow> json \<Rightarrow> uuid res" where
  "stable_uuid5 h ns v = bind_res (canonicalize (h_float h) v) (\<lambda>s. Inr (h_uuid5 h ns s))"

section \<open>Tokens of records, graphs and links\<close>

definition canonical_token :: "hashing \<Rightarrow> json \<Rightarrow> string res" where
  "canonical_token = stable_hash"

definition identifier_text :: "string \<Rightarrow> string" where
  "identifier_text s = normalize_text True s"

definition set_values :: "string list \<Rightarrow> string list" where
  "set_values xs = sort (remdups (map identifier_text xs))"

definition strings :: "string list \<Rightarrow> json" where
  "strings xs = JList (map JStr xs)"

definition opt_string :: "string option \<Rightarrow> json" where
  "opt_string s = (case s of None \<Rightarrow> JNull | Some t \<Rightarrow> JStr t)"

text \<open>\<open>metadata.get(name, {}) or {}\<close>.\<close>

definition durable_metadata_value :: "memory_record \<Rightarrow> string \<Rightarrow> json" where
  "durable_metadata_value r name =
     (if py_bool (dict_get (mr_metadata r) name) then the (dict_get (mr_metadata r) name) else JObj [])"

definition record_snapshot :: "memory_record \<Rightarrow> json res" where
  "record_snapshot r =
     bind_res (normalize (durable_metadata_value r ''lineage'')) (\<lambda>lineage.
     bind_res (normalize (durable_metadata_value r ''mutation_metadata'')) (\<lambda>mutation.
       Inr (JObj [(''schema_version'', JInt 1), (''record'', JObj
         [(''id'', JStr (identifier_text (mr_id r))),
          (''title'', JStr (normalize_text False (mr_title r))),
          (''content'', JStr (normalize_text False (mr_content r))),
          (''summary'', opt_string (map_option (normalize_text False) (mr_summary r))),
          (''type'', JStr (identifier_text (mr_type r))),
          (''status'', JStr (identifier_text (mr_status r))),
          (''tags'', strings (set_values (mr_tags r))),
          (''workspace_ids'', strings (set_values (mr_workspaces r))),
          (''lineage'', lineage), (''mutation_metadata'', mutation)])])))"

definition record_token :: "hashing \<Rightarrow> memory_record \<Rightarrow> string res" where
  "record_token h r = bind_res (record_snapshot r) (canonical_token h)"

text \<open>The edges as tuples, once each and in order. The edges are those of \<open>link_mapping\<close>, whose contexts
  are texts.\<close>

definition edge_tuple :: "memory_link \<Rightarrow> string \<times> string \<times> string \<times> string" where
  "edge_tuple e = (identifier_text (ml_source e), identifier_text (ml_target e), identifier_text (ml_type e),
     normalize_text False (ml_context e))"

definition edge_json :: "string \<times> string \<times> string \<times> string \<Rightarrow> json" where
  "edge_json e = (case e of (s, t, ty, ctx) \<Rightarrow> JObj [(''source_id'', JStr s), (''target_id'', JStr t),
     (''type'', JStr ty), (''context'', JStr ctx)])"

definition graph_snapshot :: "string \<Rightarrow> memory_link list \<Rightarrow> json" where
  "graph_snapshot memory edges = JObj [(''schema_version'', JInt 1), (''memory_id'', JStr (identifier_text memory)),
     (''edges'', JList (map edge_json (sort (remdups (map edge_tuple edges)))))]"

definition graph_token :: "hashing \<Rightarrow> string \<Rightarrow> memory_link list \<Rightarrow> string res" where
  "graph_token h memory edges = canonical_token h (graph_snapshot memory edges)"

definition candidate_revision_token :: "hashing \<Rightarrow> string \<Rightarrow> string \<Rightarrow> string res" where
  "candidate_revision_token h rec_token gr_token = canonical_token h
     (JObj [(''record_revision_token'', JStr rec_token), (''graph_revision_token'', JStr gr_token)])"

definition link_token :: "hashing \<Rightarrow> string \<Rightarrow> string \<Rightarrow> string \<Rightarrow> string option \<Rightarrow> bool \<Rightarrow> string res" where
  "link_token h source target link_type ctx present = canonical_token h
     (JObj [(''schema_version'', JInt 1), (''source_id'', JStr (identifier_text source)),
        (''target_id'', JStr (identifier_text target)), (''type'', JStr (identifier_text link_type)),
        (''context'', opt_string (map_option (normalize_text False) ctx)), (''exists'', JBool present)])"

definition frontier_fingerprint :: "hashing \<Rightarrow> string \<Rightarrow> string \<Rightarrow> string list \<Rightarrow> string res" where
  "frontier_fingerprint h family strategy seeds = canonical_token h
     (JObj [(''schema_version'', JInt 1), (''family'', JStr (identifier_text family)),
        (''strategy'', JStr (identifier_text strategy)), (''seed_ids'', strings (set_values seeds))])"

definition CONTEXT_KEYS :: "string list" where
  "CONTEXT_KEYS = [''campaign_hypothesis'', ''disclosure'', ''frontier_fingerprint'', ''graph_tokens'', ''limits'',
     ''omissions'', ''record_tokens'', ''seeds'', ''support'']"

definition context_fingerprint :: "hashing \<Rightarrow> dict \<Rightarrow> string res" where
  "context_fingerprint h packet = canonical_token h (JObj ((''schema_version'', JInt 1)
     # List.map_filter (\<lambda>k. map_option (\<lambda>v. (k, v)) (dict_get packet k)) CONTEXT_KEYS))"

section \<open>Identities of actions\<close>

definition ACTION_SET_LIST_KEYS :: "string list" where
  "ACTION_SET_LIST_KEYS = [''tags'', ''evidence'', ''references'', ''target_ids'', ''source_ids'', ''required_links'', ''absent_links'']"

definition ACTION_IDENTIFIER_KEYS :: "string list" where
  "ACTION_IDENTIFIER_KEYS = [''id'', ''memory_id'', ''source_id'', ''target_id'', ''canonical_id'', ''link_type'',
     ''status'', ''tags'', ''target_ids'', ''source_ids'', ''references'']"

definition key_in :: "string option \<Rightarrow> string list \<Rightarrow> bool" where
  "key_in key ks = (case key of None \<Rightarrow> False | Some k \<Rightarrow> k \<in> set ks)"

text \<open>\<open>{canonical_json(item): item ...}\<close>, then its values by key.\<close>

fun keyed_items :: "(real \<Rightarrow> string) \<Rightarrow> json list \<Rightarrow> (string \<times> json) list \<Rightarrow> (string \<times> json) list res" where
  "keyed_items ft [] acc = Inr acc"
| "keyed_items ft (v # vs) acc = bind_res (canonicalize ft v) (\<lambda>s. keyed_items ft vs (dict_set s v acc))"

definition sorted_unique_items :: "(real \<Rightarrow> string) \<Rightarrow> json list \<Rightarrow> json list res" where
  "sorted_unique_items ft vs = bind_res (keyed_items ft vs []) (\<lambda>kvs. Inr (map snd (sort_key fst kvs)))"

fun canonical_action_value :: "(real \<Rightarrow> string) \<Rightarrow> string option \<Rightarrow> json \<Rightarrow> json res"
  and canonical_action_list :: "(real \<Rightarrow> string) \<Rightarrow> string option \<Rightarrow> json list \<Rightarrow> json list res"
  and canonical_action_items :: "(real \<Rightarrow> string) \<Rightarrow> (string \<times> json) list \<Rightarrow> dict \<Rightarrow> dict res" where
  "canonical_action_value ft key (JStr s) =
     Inr (JStr (if key_in key ACTION_IDENTIFIER_KEYS then identifier_text s else normalize_text False s))"
| "canonical_action_value ft key (JObj kvs) = bind_res (canonical_action_items ft kvs []) (\<lambda>d. Inr (JObj d))"
| "canonical_action_value ft key (JList vs) = bind_res (canonical_action_list ft key vs) (\<lambda>ws.
     if key_in key ACTION_SET_LIST_KEYS then bind_res (sorted_unique_items ft ws) (\<lambda>us. Inr (JList us)) else Inr (JList ws))"
| "canonical_action_value ft key v = normalize v"
| "canonical_action_list ft key [] = Inr []"
| "canonical_action_list ft key (v # vs) = bind_res (canonical_action_value ft key v) (\<lambda>w.
     bind_res (canonical_action_list ft key vs) (\<lambda>ws. Inr (w # ws)))"
| "canonical_action_items ft [] acc = Inr acc"
| "canonical_action_items ft ((k, v) # kvs) acc =
     (let k' = normalize_text False k in
      bind_res (canonical_action_value ft (Some k') v) (\<lambda>w. canonical_action_items ft kvs (dict_set k' w acc)))"

definition action_intent_token ::
  "hashing \<Rightarrow> string \<Rightarrow> string list \<Rightarrow> dict \<Rightarrow> json \<Rightarrow> json \<Rightarrow> string res" where
  "action_intent_token h operation targets tokens preconditions payload =
     bind_res (canonical_action_value (h_float h) None
       (JObj [(''schema_version'', JInt 1), (''operation'', JStr operation), (''target_ids'', strings targets),
          (''expected_tokens'', JObj tokens), (''preconditions'', preconditions), (''payload'', payload)]))
       (canonical_token h)"

end
