(* ===== verification/CurationVerifier.thy ===== *)
theory CurationVerifier
  imports CurationStore CanonicalIdentity
begin

text \<open>
  The verification of an applied action against the memories as they are now,
  \<open>core/curation_verifier.py\<close>. A verdict is what the code passes to \<open>_finish\<close>: \<open>None\<close> for
  verified, or the error code of a failure; \<open>Inl\<close> is a raised exception. The repository is read through
  \<open>peek_memory\<close>, a parameter here; \<open>json_repr\<close> is Python's \<open>str\<close> on floats, lists and dictionaries.
\<close>

record verifier_env =
  ve_hashing :: hashing
  ve_peek :: "string \<Rightarrow> read_context option"
  ve_repr :: "json \<Rightarrow> string"
  ve_clk :: time

section \<open>Helpers\<close>

text \<open>\<open>str.upper\<close>; two letters of the range have their capital outside of it and are kept.\<close>

definition upper_char :: "char \<Rightarrow> string" where
  "upper_char c = (let n = (of_char c :: nat) in
     if (97 \<le> n \<and> n \<le> 122) \<or> (224 \<le> n \<and> n \<le> 254 \<and> n \<noteq> 247) then [char_of (n - 32)]
     else if n = 223 then ''SS'' else [c])"

definition link_separator :: "char \<Rightarrow> bool" where
  "link_separator c = (py_isspace c \<or> c = CHR ''-'')"

text \<open>\<open>re.sub(r"[\s-]+", "_", s)\<close>: a run of separators becomes one underscore.\<close>

fun join_separated :: "bool \<Rightarrow> string \<Rightarrow> string" where
  "join_separated inside [] = []"
| "join_separated inside (c # cs) =
     (if link_separator c then (if inside then join_separated True cs else CHR ''_'' # join_separated True cs)
      else c # join_separated False cs)"

definition normalize_link_type :: "string \<Rightarrow> string res" where
  "normalize_link_type link_type =
     (let s = concat (map upper_char (join_separated False (py_strip link_type))) in
      if s = [] then Inl (RuntimeError ''link_type must be non-empty'') else Inr s)"

fun json_str :: "(json \<Rightarrow> string) \<Rightarrow> json \<Rightarrow> string" where
  "json_str repr (JStr s) = s"
| "json_str repr (JInt i) = py_str_int i"
| "json_str repr JNull = ''None''"
| "json_str repr (JBool b) = (if b then ''True'' else ''False'')"
| "json_str repr v = repr v"

definition sorted_ids :: "string list \<Rightarrow> string list" where
  "sorted_ids ids = sort (remdups ids)"

definition receipt_ids :: "receipt \<Rightarrow> string list" where
  "receipt_ids r = sorted_ids (map uuid_text (rc_affected r))"

definition merge_ids :: "uuid \<Rightarrow> uuid list \<Rightarrow> string list" where
  "merge_ids canonical sources = sorted_ids (uuid_text canonical
     # filter (\<lambda>s. s \<noteq> uuid_text canonical) (map uuid_text sources))"

fun snapshots_of :: "(string \<times> memory_record) list \<Rightarrow> (string \<times> json) list res" where
  "snapshots_of [] = Inr []"
| "snapshots_of ((k, r) # rs) = bind_res (record_snapshot r) (\<lambda>v. bind_res (snapshots_of rs) (\<lambda>vs. Inr ((k, v) # vs)))"

definition state_token :: "hashing \<Rightarrow> (string \<times> memory_record) list \<Rightarrow> string list \<Rightarrow> string option res" where
  "state_token h records ids =
     (if records = [] then Inr None
      else bind_res (snapshots_of (sort_key fst records)) (\<lambda>snaps.
        bind_res (canonical_token h (JObj [(''targets'', strings ids), (''records'', JObj snaps)])) (\<lambda>t. Inr (Some t))))"

text \<open>\<open>_fresh_contexts\<close>: \<open>None\<close> is \<open>_PostconditionMismatch("record_missing")\<close>.\<close>

fun fresh_contexts :: "(string \<Rightarrow> read_context option) \<Rightarrow> string list \<Rightarrow> (string \<times> read_context) list option" where
  "fresh_contexts peek [] = Some []"
| "fresh_contexts peek (i # is) = (case peek i of
       None \<Rightarrow> None
     | Some x \<Rightarrow> if mr_id (mx_record x) \<noteq> i then None
         else map_option (\<lambda>xs. (i, x) # xs) (fresh_contexts peek is))"

definition outgoing_edges :: "read_context \<Rightarrow> memory_link list" where
  "outgoing_edges x = (case map_of (mx_relationships x) ''outgoing'' of None \<Rightarrow> [] | Some ls \<Rightarrow> ls)"

definition has_exact_edge :: "read_context \<Rightarrow> string \<Rightarrow> string \<Rightarrow> string \<Rightarrow> string \<Rightarrow> bool res" where
  "has_exact_edge x source target link_type ctx =
     bind_res (normalize_link_type link_type) (\<lambda>ty. Inr (\<exists>e \<in> set (outgoing_edges x).
       ml_source e = source \<and> ml_target e = target \<and> ml_type e = ty \<and> ml_context e = py_strip ctx))"

definition has_any_edge :: "read_context \<Rightarrow> string \<Rightarrow> string \<Rightarrow> string \<Rightarrow> bool res" where
  "has_any_edge x source target link_type =
     bind_res (normalize_link_type link_type) (\<lambda>ty. Inr (\<exists>e \<in> set (outgoing_edges x).
       ml_source e = source \<and> ml_target e = target \<and> ml_type e = ty))"

text \<open>\<open>contexts[key]\<close>.\<close>

definition context_at :: "(string \<times> read_context) list \<Rightarrow> string \<Rightarrow> read_context res" where
  "context_at xs key = (case map_of xs key of None \<Rightarrow> Inl (KeyError key) | Some x \<Rightarrow> Inr x)"

section \<open>Verdicts\<close>

type_synonym verdict = "string option res"

text \<open>The checks most verdicts begin with: the records are there, the receipt names them, and their
  state is the one after the action.\<close>

definition check_token :: "verifier_env \<Rightarrow> receipt \<Rightarrow> (string \<times> read_context) list \<Rightarrow> string list \<Rightarrow> verdict \<Rightarrow> verdict" where
  "check_token env current xs expected k =
     bind_res (state_token (ve_hashing env) (map (\<lambda>(i, x). (i, mx_record x)) xs) expected)
       (\<lambda>tok. if tok \<noteq> rc_after current then Inr (Some ''after_token_mismatch'') else k)"

definition with_contexts ::
  "verifier_env \<Rightarrow> string list \<Rightarrow> ((string \<times> read_context) list \<Rightarrow> verdict) \<Rightarrow> verdict" where
  "with_contexts env expected k = (case fresh_contexts (ve_peek env) expected of
       None \<Rightarrow> Inr (Some ''record_missing'')
     | Some xs \<Rightarrow> k xs)"

definition check_ids :: "receipt \<Rightarrow> string list \<Rightarrow> verdict \<Rightarrow> verdict" where
  "check_ids current expected k = (if receipt_ids current \<noteq> expected then Inr (Some ''affected_ids_mismatch'') else k)"

definition record_verdict :: "verifier_env \<Rightarrow> receipt \<Rightarrow> string list \<Rightarrow> verification_status option \<Rightarrow> verdict" where
  "record_verdict env current expected target_status =
     with_contexts env expected (\<lambda>xs. check_ids current expected
       (if (case target_status of None \<Rightarrow> False
            | Some st \<Rightarrow> \<exists>x \<in> snd ` set xs. mr_status (mx_record x) \<noteq> verification_status_text st)
        then Inr (Some ''status_mismatch'') else check_token env current xs expected (Inr None)))"

definition present_verdict :: "bool res \<Rightarrow> string \<Rightarrow> verdict" where
  "present_verdict found code = bind_res found (\<lambda>b. Inr (if b then None else Some code))"

definition create_link_verdict ::
  "verifier_env \<Rightarrow> receipt \<Rightarrow> uuid \<Rightarrow> uuid \<Rightarrow> string \<Rightarrow> string option \<Rightarrow> string list \<Rightarrow> verdict" where
  "create_link_verdict env current source target link_type ctx expected =
     with_contexts env expected (\<lambda>xs. check_ids current expected (check_token env current xs expected
       (bind_res (context_at xs (uuid_text source)) (\<lambda>x. present_verdict
          (has_exact_edge x (uuid_text source) (uuid_text target) link_type (str_or ctx [])) ''edge_missing''))))"

definition remove_link_verdict ::
  "verifier_env \<Rightarrow> receipt \<Rightarrow> uuid \<Rightarrow> uuid \<Rightarrow> string \<Rightarrow> string list \<Rightarrow> verdict" where
  "remove_link_verdict env current source target link_type expected =
     with_contexts env expected (\<lambda>xs. check_ids current expected (check_token env current xs expected
       (bind_res (context_at xs (uuid_text source)) (\<lambda>x. present_verdict
          (bind_res (has_any_edge x (uuid_text source) (uuid_text target) link_type) (\<lambda>b. Inr (\<not> b)))
          ''edge_still_present''))))"

definition MERGE_LINK_CONTEXT :: string where
  "MERGE_LINK_CONTEXT = ''Merged into canonical memory by provider-free curation.''"

definition SPLIT_LINK_CONTEXT :: string where
  "SPLIT_LINK_CONTEXT = ''Derived from a provider-free memory split.''"

fun merged_sources_verdict ::
  "(string \<times> read_context) list \<Rightarrow> read_context \<Rightarrow> string \<Rightarrow> string list \<Rightarrow> verdict" where
  "merged_sources_verdict xs cx canonical [] = Inr None"
| "merged_sources_verdict xs cx canonical (s # ss) = bind_res (context_at xs s) (\<lambda>x.
     if mr_status (mx_record x) \<noteq> ''archived'' then Inr (Some ''source_not_archived'')
     else bind_res (has_exact_edge cx canonical s ''SUPERSEDES'' MERGE_LINK_CONTEXT) (\<lambda>b.
       if \<not> b then Inr (Some ''merge_edge_missing'') else merged_sources_verdict xs cx canonical ss))"

definition merge_verdict :: "verifier_env \<Rightarrow> receipt \<Rightarrow> uuid \<Rightarrow> uuid list \<Rightarrow> string list \<Rightarrow> verdict" where
  "merge_verdict env current canonical sources expected =
     with_contexts env expected (\<lambda>xs. check_ids current expected (check_token env current xs expected
       (bind_res (context_at xs (uuid_text canonical)) (\<lambda>cx.
          let merged = sorted_ids (filter (\<lambda>s. s \<noteq> uuid_text canonical) (map uuid_text sources)) in
          case dict_get (mr_metadata (mx_record cx)) ''merged_source_ids'' of
            Some (JList vs) \<Rightarrow>
              if set merged \<subseteq> json_str (ve_repr env) ` set vs
              then merged_sources_verdict xs cx (uuid_text canonical) merged
              else Inr (Some ''merge_lineage_missing'')
          | _ \<Rightarrow> Inr (Some ''merge_lineage_missing'')))))"

text \<open>One child of a split: the metadata it must carry, and its edge to the original.\<close>

definition split_child_verdict :: "string \<Rightarrow> json \<Rightarrow> string list \<Rightarrow> int \<Rightarrow> int \<Rightarrow> string \<Rightarrow> read_context \<Rightarrow> verdict" where
  "split_child_verdict original grp children n index child x =
     (let md = mr_metadata (mx_record x) in
      if \<not> dict_field_eq md ''split_from_memory_id'' (JStr original) then Inr (Some ''split_lineage_missing'')
      else if \<not> dict_field_eq md ''split_group_id'' grp then Inr (Some ''split_group_missing'')
      else if \<not> dict_field_eq md ''split_part_index'' (JInt index) \<or> \<not> dict_field_eq md ''split_part_count'' (JInt n)
      then Inr (Some ''split_part_metadata_missing'')
      else if \<not> dict_field_eq md ''split_child_memory_ids'' (strings children)
           \<or> \<not> dict_field_eq md ''split_sibling_memory_ids'' (strings (filter (\<lambda>c. c \<noteq> child) children))
      then Inr (Some ''split_child_metadata_missing'')
      else present_verdict (has_exact_edge x child original ''DEPENDS_ON'' SPLIT_LINK_CONTEXT) ''split_edge_missing'')"

fun split_children_verdict ::
  "string \<Rightarrow> json \<Rightarrow> string list \<Rightarrow> int \<Rightarrow> (string \<times> read_context) list \<Rightarrow> int \<Rightarrow> string list \<Rightarrow> verdict" where
  "split_children_verdict original grp children n xs index [] = Inr None"
| "split_children_verdict original grp children n xs index (c # cs) = bind_res (context_at xs c) (\<lambda>x.
     bind_res (split_child_verdict original grp children n index c x) (\<lambda>v.
       if v \<noteq> None then Inr v else split_children_verdict original grp children n xs (index + 1) cs))"

text \<open>\<open>_split_child_ids\<close>, which raises when they are missing.\<close>

definition split_child_ids :: "verifier_env \<Rightarrow> read_context \<Rightarrow> string list res" where
  "split_child_ids env x = (case dict_get (mr_metadata (mx_record x)) ''split_child_memory_ids'' of
       Some (JList vs) \<Rightarrow>
         let ids = map (json_str (ve_repr env)) vs in
         if vs = [] \<or> \<not> distinct ids then Inl (RuntimeError ''split_children_missing'') else Inr ids
     | _ \<Rightarrow> Inl (RuntimeError ''split_children_missing''))"

definition split_verdict :: "verifier_env \<Rightarrow> receipt \<Rightarrow> uuid \<Rightarrow> uuid \<Rightarrow> verdict" where
  "split_verdict env current target action_id =
     (let original = uuid_text target in
      case ve_peek env original of
        None \<Rightarrow> Inr (Some ''record_missing'')
      | Some ox \<Rightarrow>
          if mr_id (mx_record ox) \<noteq> original then Inr (Some ''record_missing'')
          else bind_res (split_child_ids env ox) (\<lambda>children.
            let expected = sort (original # children) in
            with_contexts env expected (\<lambda>xs. check_ids current expected (check_token env current xs expected
              (bind_res (context_at xs original) (\<lambda>x.
                 let md = mr_metadata (mx_record x); n = int (length children) in
                 if \<not> dict_field_eq md ''split_child_memory_ids'' (strings children) then Inr (Some ''split_children_missing'')
                 else if \<not> dict_field_eq md ''split_child_count'' (JInt n) then Inr (Some ''split_child_count_missing'')
                 else split_children_verdict original (JStr (uuid_text action_id)) children n xs 1 children))))))"

text \<open>A list of JSON values and a list of \<open>UUID\<close> objects: no value equals a \<open>UUID\<close>.\<close>

definition equals_uuids :: "json option \<Rightarrow> uuid list \<Rightarrow> bool" where
  "equals_uuids v ids = (case v of Some (JList vs) \<Rightarrow> vs = [] \<and> ids = [] | _ \<Rightarrow> False)"

definition opt_int :: "int option \<Rightarrow> json" where
  "opt_int n = (case n of None \<Rightarrow> JNull | Some i \<Rightarrow> JInt i)"

definition split_descriptor_verdict :: "verifier_env \<Rightarrow> receipt \<Rightarrow> descriptor \<Rightarrow> string list \<Rightarrow> verdict" where
  "split_descriptor_verdict env current d expected =
     (let original = (case vd_target d of None \<Rightarrow> ''None'' | Some t \<Rightarrow> uuid_text t);
          children = map uuid_text (vd_child_ids d); n = (case vd_child_count d of None \<Rightarrow> 0 | Some n \<Rightarrow> n) in
      case ve_peek env original of
        None \<Rightarrow> Inr (Some ''record_missing'')
      | Some ox \<Rightarrow>
          if mr_id (mx_record ox) \<noteq> original then Inr (Some ''record_missing'')
          else with_contexts env expected (\<lambda>xs. check_token env current xs expected
            (let md = mr_metadata (mx_record ox) in
             if \<not> equals_uuids (dict_get md ''split_child_memory_ids'') (vd_child_ids d)
             then Inr (Some ''split_children_missing'')
             else if \<not> dict_field_eq md ''split_child_count'' (opt_int (vd_child_count d))
             then Inr (Some ''split_child_count_missing'')
             else split_children_verdict original (opt_string (vd_split_group d)) children n xs 1 children)))"

section \<open>Verification\<close>

text \<open>\<open>_finish\<close>.\<close>

definition finish_receipt :: "verifier_env \<Rightarrow> receipt \<Rightarrow> string option \<Rightarrow> receipt curation_op" where
  "finish_receipt env current code db =
     (let new = current\<lparr>rc_status := (if code = None then Verified else VerificationFailed), rc_error := code,
                rc_verified := Some (ve_clk env)\<rparr> in
      case transition_receipt (rc_run current) (rc_action current) AppliedUnverified new db of
        (Inl e, db') \<Rightarrow> (Inl e, db')
      | (Inr (Some r), db') \<Rightarrow> (Inr r, db')
      | (Inr None, db') \<Rightarrow>
          (case get_receipt (rc_run current) (rc_action current) db' of
             Inl e \<Rightarrow> (Inl e, db')
           | Inr None \<Rightarrow> (Inl (RuntimeError ''curation receipt disappeared during verification''), db')
           | Inr (Some r) \<Rightarrow> (Inr r, db')))"

definition finish_verdict :: "verifier_env \<Rightarrow> receipt \<Rightarrow> verdict \<Rightarrow> receipt curation_op" where
  "finish_verdict env current v db = (case v of Inl e \<Rightarrow> (Inl e, db) | Inr code \<Rightarrow> finish_receipt env current code db)"

fun action_verdict :: "verifier_env \<Rightarrow> receipt \<Rightarrow> curation_action \<Rightarrow> verdict" where
  "action_verdict env current (NormalizeMemory _ t _ _ _) = record_verdict env current [uuid_text t] None"
| "action_verdict env current (RewriteMemory _ t _ _ _ _) = record_verdict env current [uuid_text t] None"
| "action_verdict env current (ArchiveMemory _ t _) = record_verdict env current [uuid_text t] None"
| "action_verdict env current (CreateLink _ s t link_type ctx) =
     create_link_verdict env current s t link_type ctx (sorted_ids [uuid_text s, uuid_text t])"
| "action_verdict env current (RemoveLink _ s t link_type _) =
     remove_link_verdict env current s t link_type (sorted_ids [uuid_text s, uuid_text t])"
| "action_verdict env current (MergeMemories _ c sources _ _ _ _) =
     merge_verdict env current c sources (merge_ids c sources)"
| "action_verdict env current (SplitMemory e t _ _) = split_verdict env current t (en_action_id e)"

definition verify :: "verifier_env \<Rightarrow> receipt \<Rightarrow> curation_action \<Rightarrow> receipt curation_op" where
  "verify env r a db = (case get_receipt (rc_run r) (rc_action r) db of
       Inl e \<Rightarrow> (Inl e, db)
     | Inr None \<Rightarrow> (Inl (RuntimeError ''curation receipt was not found''), db)
     | Inr (Some current) \<Rightarrow>
         if rc_status current \<noteq> AppliedUnverified then (Inr current, db)
         else if rc_action current \<noteq> en_action_id (action_envelope a) \<or> rc_run current \<noteq> rc_run r
         then (Inl (RuntimeError ''receipt identity does not match action''), db)
         else if rc_operation current \<noteq> operation_text (action_operation a)
         then (Inl (RuntimeError ''receipt operation does not match action''), db)
         else finish_verdict env current (action_verdict env current a) db)"

text \<open>\<open>verify_descriptor\<close> after the receipt has been read. A field that the operation needs is there,
  since descriptors are valid; an \<open>assert\<close> that fails would raise.\<close>

definition descriptor_ids :: "descriptor \<Rightarrow> string list" where
  "descriptor_ids d =
     (if vd_operation d = SplitMemoryOp
      then sorted_ids ((case vd_target d of None \<Rightarrow> ''None'' | Some t \<Rightarrow> uuid_text t) # map uuid_text (vd_child_ids d))
      else sorted_ids (map uuid_text (vd_target_ids d)))"

definition link_descriptor_verdict :: "verifier_env \<Rightarrow> receipt \<Rightarrow> descriptor \<Rightarrow> string list \<Rightarrow> verdict" where
  "link_descriptor_verdict env current d expected =
     (case (vd_source d, vd_target d, vd_link_type d) of
        (Some s, Some t, Some link_type) \<Rightarrow>
          with_contexts env expected (\<lambda>xs. check_token env current xs expected
            (bind_res (context_at xs (uuid_text s)) (\<lambda>x.
               if vd_exists d = Some True
               then present_verdict (has_exact_edge x (uuid_text s) (uuid_text t) link_type (str_or (vd_context d) []))
                      ''edge_missing''
               else present_verdict (bind_res (has_any_edge x (uuid_text s) (uuid_text t) link_type) (\<lambda>b. Inr (\<not> b)))
                      ''edge_still_present'')))
      | _ \<Rightarrow> Inl AssertionError)"

definition descriptor_verdict :: "verifier_env \<Rightarrow> receipt \<Rightarrow> descriptor \<Rightarrow> verdict" where
  "descriptor_verdict env current d =
     (if rc_descriptor current \<noteq> Some d \<or> vd_schema d \<noteq> 1 \<or> operation_text (vd_operation d) \<noteq> rc_operation current
      then Inr (Some ''descriptor_mismatch'')
      else let expected = descriptor_ids d in
        check_ids current expected
          (if vd_operation d \<in> {NormalizeMemoryOp, RewriteMemoryOp, ArchiveMemoryOp}
           then record_verdict env current expected (vd_target_status d)
           else if vd_operation d \<in> {CreateLinkOp, RemoveLinkOp} then link_descriptor_verdict env current d expected
           else if vd_operation d = MergeMemoriesOp
           then (case vd_canonical d of
                   None \<Rightarrow> Inl AssertionError
                 | Some c \<Rightarrow> merge_verdict env current c (vd_source_ids d) expected)
           else split_descriptor_verdict env current d expected))"

definition verify_descriptor :: "verifier_env \<Rightarrow> receipt \<Rightarrow> descriptor \<Rightarrow> receipt curation_op" where
  "verify_descriptor env r d db = (case get_receipt (rc_run r) (rc_action r) db of
       Inl e \<Rightarrow> (Inl e, db)
     | Inr None \<Rightarrow> (Inl (RuntimeError ''curation receipt was not found''), db)
     | Inr (Some current) \<Rightarrow>
         if rc_status current \<noteq> AppliedUnverified then (Inr current, db)
         else finish_verdict env current (descriptor_verdict env current d) db)"

section \<open>Splits\<close>

text \<open>The identifiers of the children are compared as \<open>UUID\<close> objects with the texts of the metadata: the
  recovery of a split is never verified.\<close>

lemma split_descriptor_never_verified:
  assumes "vd_child_ids d \<noteq> []"
  shows "split_descriptor_verdict env current d expected \<noteq> Inr None"
proof -
  have "\<not> equals_uuids v (vd_child_ids d)" for v
    using assms by (simp add: equals_uuids_def split: option.splits json.splits)
  then show ?thesis
    unfolding split_descriptor_verdict_def with_contexts_def check_token_def Let_def
    by (auto split: option.splits if_splits elim!: bind_res.elims)
qed

end
