(* ===== verification/CurationReconciler.thy ===== *)
theory CurationReconciler
  imports CurationVerifier TaskQueue
begin

text \<open>
  Recovery of curation runs, \<open>core/curation_reconciliation.py\<close>: actions that were committed but not
  verified are verified once, and their run is brought to its end. Every access to the database may
  raise \<open>OperationalError\<close>, before or after its effect: \<open>re_fault\<close> says which does at which attempt.
\<close>

section \<open>Faults\<close>

datatype fault = NoFault | RaisesBefore string | RaisesAfter string

text \<open>The places where the reconciler accesses a database.\<close>

datatype site =
    AtListRuns | AtListReceipts uuid bool | AtVerify uuid uuid | AtTerminalize uuid | AtGetRun uuid | AtTask uuid

fun with_fault :: "fault \<Rightarrow> 'a curation_op \<Rightarrow> 'a curation_op" where
  "with_fault NoFault f db = f db"
| "with_fault (RaisesBefore m) f db = (Inl (OperationalError m), db)"
| "with_fault (RaisesAfter m) f db = (Inl (OperationalError m), snd (f db))"

definition is_locked_message :: "string \<Rightarrow> bool" where
  "is_locked_message m = (str_contains ''database is locked'' (py_lower m) \<or> str_contains ''database is busy'' (py_lower m))"

text \<open>\<open>_with_lock_retries\<close>: three attempts.\<close>

fun lock_retries :: "(nat \<Rightarrow> fault) \<Rightarrow> 'a curation_op \<Rightarrow> nat \<Rightarrow> nat \<Rightarrow> 'a curation_op" where
  "lock_retries flt f attempt 0 db = (Inl (RuntimeError ''curation reconciliation retries exhausted''), db)"
| "lock_retries flt f attempt (Suc n) db =
     (case with_fault (flt attempt) f db of
        (Inl (OperationalError m), db') \<Rightarrow>
          if \<not> is_locked_message m \<or> n = 0 then (Inl (OperationalError m), db')
          else lock_retries flt f (Suc attempt) n db'
      | r \<Rightarrow> r)"

definition with_lock_retries :: "(nat \<Rightarrow> fault) \<Rightarrow> 'a curation_op \<Rightarrow> 'a curation_op" where
  "with_lock_retries flt f = lock_retries flt f 0 3"

definition reading :: "(curation_db \<Rightarrow> 'a res) \<Rightarrow> 'a curation_op" where
  "reading f db = (f db, db)"

definition returning :: "(curation_db \<Rightarrow> 'a \<times> curation_db) \<Rightarrow> 'a curation_op" where
  "returning f db = (case f db of (x, db') \<Rightarrow> (Inr x, db'))"

section \<open>Outcomes\<close>

datatype recon_disposition = DispContinue | DispDefer | DispBlock

record recon_outcome =
  ro_disposition :: recon_disposition
  ro_reason :: string
  ro_run :: "uuid option"
  ro_work_item :: "uuid option"
  ro_verified :: int
  ro_delay :: "real option"
  ro_final :: "curation_run option"

definition recon_defer :: "curation_run option \<Rightarrow> string \<Rightarrow> recon_outcome" where
  "recon_defer run reason = \<lparr>ro_disposition = DispDefer, ro_reason = reason, ro_run = map_option cr_id run,
     ro_work_item = (case run of None \<Rightarrow> None | Some r \<Rightarrow> cr_work_item r), ro_verified = 0,
     ro_delay = Some 0.05, ro_final = None\<rparr>"

definition recon_block :: "curation_run \<Rightarrow> string \<Rightarrow> int \<Rightarrow> curation_run option \<Rightarrow> recon_outcome" where
  "recon_block run reason n final = \<lparr>ro_disposition = DispBlock, ro_reason = reason, ro_run = Some (cr_id run),
     ro_work_item = cr_work_item run, ro_verified = n, ro_delay = None, ro_final = final\<rparr>"

definition recon_continue :: "curation_run \<Rightarrow> string \<Rightarrow> int \<Rightarrow> curation_run option \<Rightarrow> recon_outcome" where
  "recon_continue run reason n final = \<lparr>ro_disposition = DispContinue, ro_reason = reason, ro_run = Some (cr_id run),
     ro_work_item = cr_work_item run, ro_verified = n, ro_delay = None, ro_final = final\<rparr>"

definition continue_after_terminal :: "curation_run \<Rightarrow> curation_run \<Rightarrow> int \<Rightarrow> recon_outcome" where
  "continue_after_terminal run final n = recon_continue run ''run_already_terminal'' n (Some final)"

section \<open>One run\<close>

record reconcile_env =
  re_verifier :: verifier_env
  re_resolve :: "curation_run \<Rightarrow> receipt \<Rightarrow> curation_action option res"
  re_queue :: "taskdb option"
  re_clk :: time
  re_stale_after :: real
  re_fault :: "site \<Rightarrow> nat \<Rightarrow> fault"

type_synonym recon_step = "curation_db \<Rightarrow> recon_outcome option res \<times> curation_db"

definition default_action_resolver :: "curation_run \<Rightarrow> receipt \<Rightarrow> curation_action option res" where
  "default_action_resolver run r =
     (case rc_affected r of
        [m] \<Rightarrow> if rc_operation r \<noteq> ''normalize_memory'' then Inr None
               else Inr (Some (NormalizeMemory \<lparr>en_action_id = rc_action r, en_confidence = 1,
                   en_rationale = ''daemon recovery postcondition verification'', en_evidence = [],
                   en_preconditions = \<lparr>ap_tokens = [], ap_statuses = [], ap_links = [], ap_absent = []\<rparr>\<rparr>
                 m None None (Some [])))
      | _ \<Rightarrow> Inr None)"

text \<open>\<open>_terminalize\<close> with its handling of locks, shared by the three ends of a run: \<open>k\<close> gets the run as
  stored, or \<open>None\<close>.\<close>

definition terminalizing ::
  "reconcile_env \<Rightarrow> curation_run \<Rightarrow> run_outcome \<Rightarrow> int \<Rightarrow> (curation_run option \<Rightarrow> recon_step) \<Rightarrow> recon_step" where
  "terminalizing env run outcome n k db =
     (case with_lock_retries (re_fault env (AtTerminalize (cr_id run)))
             (returning (terminalize_run (re_clk env) (cr_id run) (cr_state run) outcome)) db of
        (Inl (OperationalError m), db') \<Rightarrow>
          (Inr (Some (if is_locked_message m then recon_defer (Some run) ''sqlite_locked''
                      else recon_block run ''run_terminalization_failed'' n None)), db')
      | (Inl e, db') \<Rightarrow> (Inl e, db')
      | (Inr final, db') \<Rightarrow> k final db')"

text \<open>Without a result of \<open>terminalize_run\<close> the run is read once more, without retries.\<close>

definition or_stored :: "reconcile_env \<Rightarrow> curation_run \<Rightarrow> (curation_run \<Rightarrow> recon_step) \<Rightarrow> curation_run option \<Rightarrow> recon_step" where
  "or_stored env run k final db = (case final of
       Some r \<Rightarrow> k r db
     | None \<Rightarrow>
         (case with_fault (re_fault env (AtGetRun (cr_id run)) 0) (reading (\<lambda>db. Inr (get_run (cr_id run) db))) db of
            (Inl e, db') \<Rightarrow> (Inl e, db')
          | (Inr None, db') \<Rightarrow> (Inr (Some (recon_block run ''run_missing'' 0 None)), db')
          | (Inr (Some r), db') \<Rightarrow> k r db'))"

definition finish_failed_run :: "reconcile_env \<Rightarrow> curation_run \<Rightarrow> string \<Rightarrow> int \<Rightarrow> recon_step" where
  "finish_failed_run env run reason n =
     terminalizing env run OutVerificationFailed n (\<lambda>final db.
       (case final of
          Some r \<Rightarrow> if cr_outcome r \<noteq> Some OutVerificationFailed
            then (Inr (Some (continue_after_terminal run r n)), db)
            else (Inr (Some (recon_block run reason n final)), db)
        | None \<Rightarrow> (Inr (Some (recon_block run reason n None)), db)))"

definition terminalize_empty_run :: "reconcile_env \<Rightarrow> curation_run \<Rightarrow> run_outcome \<Rightarrow> string \<Rightarrow> recon_step" where
  "terminalize_empty_run env run outcome reason =
     terminalizing env run outcome 0 (or_stored env run (\<lambda>r db.
       if cr_outcome r \<noteq> None \<and> cr_outcome r \<noteq> Some outcome then (Inr (Some (continue_after_terminal run r 0)), db)
       else (Inr (Some (recon_continue run reason 0 (Some r))), db)))"

definition run_stale :: "reconcile_env \<Rightarrow> curation_run \<Rightarrow> bool" where
  "run_stale env run = (case cr_created run of None \<Rightarrow> False
     | Some t \<Rightarrow> max (re_clk env - t) 0 \<ge> re_stale_after env)"

text \<open>A run without receipts follows its task.\<close>

definition without_task :: "reconcile_env \<Rightarrow> curation_run \<Rightarrow> recon_step" where
  "without_task env run db =
     (if \<not> run_stale env run then (Inr None, db)
      else terminalize_empty_run env run OutProviderFailed ''stale_task_missing'' db)"

definition reconcile_empty_run :: "reconcile_env \<Rightarrow> curation_run \<Rightarrow> recon_step" where
  "reconcile_empty_run env run db =
     (case (re_queue env, cr_task run) of
        (Some tq, Some tid) \<Rightarrow>
          (case with_lock_retries (re_fault env (AtTask tid)) (reading (\<lambda>_. get_task (uuid_text tid) tq)) db of
             (Inl (OperationalError m), db') \<Rightarrow>
               if is_locked_message m then (Inr (Some (recon_defer (Some run) ''sqlite_locked'')), db')
               else (Inl (OperationalError m), db')
           | (Inl (ValueError m), db') \<Rightarrow> without_task env run db'
           | (Inl (KeyError m), db') \<Rightarrow> without_task env run db'
           | (Inl e, db') \<Rightarrow> (Inl e, db')
           | (Inr t, db') \<Rightarrow>
               if t_status t \<in> {Pending, Running} then (Inr None, db')
               else if t_status t = Cancelled then terminalize_empty_run env run OutCancelled ''task_cancelled'' db'
               else terminalize_empty_run env run OutProviderFailed ''task_finished_without_run'' db')
      | _ \<Rightarrow> without_task env run db)"

definition finalize_if_possible :: "reconcile_env \<Rightarrow> curation_run \<Rightarrow> receipt list \<Rightarrow> int \<Rightarrow> recon_step" where
  "finalize_if_possible env run receipts n db =
     (if receipts = [] then reconcile_empty_run env run db
      else if \<exists>r \<in> set receipts. rc_status r = AppliedUnverified
      then (Inr (Some (recon_defer (Some run) ''receipt_unresolved'')), db)
      else let failed = (\<exists>r \<in> set receipts. rc_status r \<noteq> Verified);
               outcome = (if failed then OutVerificationFailed else OutApplied)
        in terminalizing env run outcome 0 (or_stored env run (\<lambda>r db.
             if cr_outcome r \<noteq> None \<and> cr_outcome r \<noteq> Some outcome then (Inr (Some (continue_after_terminal run r n)), db)
             else if failed \<or> cr_outcome r = Some OutVerificationFailed
             then (Inr (Some (recon_block run ''verification_failed'' n (Some r))), db)
             else (Inr (Some (recon_continue run ''run_finalized'' n (Some r))), db))) db)"

text \<open>The verification of one pending receipt: the receipt as verified, or the end of the run.\<close>

definition verify_pending :: "reconcile_env \<Rightarrow> curation_run \<Rightarrow> receipt \<Rightarrow> (string + receipt curation_op)" where
  "verify_pending env run r = (case rc_descriptor r of
       Some d \<Rightarrow> Inr (verify_descriptor (re_verifier env) r d)
     | None \<Rightarrow> (case re_resolve env run r of
         Inl e \<Rightarrow> Inl ''action_resolution_failed''
       | Inr None \<Rightarrow> Inl ''action_unavailable''
       | Inr (Some a) \<Rightarrow> Inr (verify (re_verifier env) r a)))"

fun verify_each ::
  "reconcile_env \<Rightarrow> curation_run \<Rightarrow> receipt list \<Rightarrow> int \<Rightarrow> curation_db \<Rightarrow> (recon_outcome option res + int) \<times> curation_db" where
  "verify_each env run [] n db = (Inr n, db)"
| "verify_each env run (r # rs) n db =
     (let stop = (\<lambda>(o', db'). (Inl o', db')) in
      case verify_pending env run r of
        Inl reason \<Rightarrow> stop (finish_failed_run env run reason n db)
      | Inr f \<Rightarrow>
          (case with_lock_retries (re_fault env (AtVerify (rc_run r) (rc_action r))) f db of
             (Inl (OperationalError m), db') \<Rightarrow>
               if is_locked_message m then (Inl (Inr (Some (recon_defer (Some run) ''sqlite_locked''))), db')
               else stop (finish_failed_run env run ''verification_storage_failed'' n db')
           | (Inl _, db') \<Rightarrow> stop (finish_failed_run env run ''verification_failed'' n db')
           | (Inr res, db') \<Rightarrow> verify_each env run rs (if rc_status res = Verified then n + 1 else n) db'))"

text \<open>\<open>list_receipts\<close> with the handling of its errors.\<close>

definition reading_receipts ::
  "reconcile_env \<Rightarrow> curation_run \<Rightarrow> bool \<Rightarrow> int \<Rightarrow> (receipt list \<Rightarrow> recon_step) \<Rightarrow> recon_step" where
  "reading_receipts env run final n k db =
     (case with_lock_retries (re_fault env (AtListReceipts (cr_id run) final)) (reading (list_receipts (cr_id run) 100)) db of
        (Inl (OperationalError m), db') \<Rightarrow>
          (Inr (Some (if is_locked_message m then recon_defer (Some run) ''sqlite_locked''
                      else recon_block run ''receipt_read_failed'' 0 None)), db')
      | (Inl (ValueError m), db') \<Rightarrow> finish_failed_run env run ''descriptor_hydration_failed'' n db'
      | (Inl e, db') \<Rightarrow> (Inl e, db')
      | (Inr rs, db') \<Rightarrow> k rs db')"

definition reconcile_run :: "reconcile_env \<Rightarrow> curation_run \<Rightarrow> recon_step" where
  "reconcile_run env run =
     reading_receipts env run False 0 (\<lambda>receipts db.
       let pending = filter (\<lambda>r. rc_status r = AppliedUnverified) receipts in
       if pending = [] then finalize_if_possible env run receipts 0 db
       else case verify_each env run pending 0 db of
           (Inl o', db') \<Rightarrow> (o', db')
         | (Inr n, db') \<Rightarrow> reading_receipts env run True n (\<lambda>rs. finalize_if_possible env run rs n) db')"

section \<open>All runs\<close>

fun reconcile_each :: "reconcile_env \<Rightarrow> curation_run list \<Rightarrow> curation_db \<Rightarrow> recon_outcome list res \<times> curation_db" where
  "reconcile_each env [] db = (Inr [], db)"
| "reconcile_each env (run # runs) db =
     (if cr_state run = RunTerminal then reconcile_each env runs db
      else case reconcile_run env run db of
          (Inl e, db') \<Rightarrow> (Inl e, db')
        | (Inr o', db') \<Rightarrow>
            (case reconcile_each env runs db' of
               (Inl e, db'') \<Rightarrow> (Inl e, db'')
             | (Inr os, db'') \<Rightarrow> (Inr (case o' of None \<Rightarrow> os | Some x \<Rightarrow> x # os), db'')))"

definition reconcile :: "reconcile_env \<Rightarrow> curation_db \<Rightarrow> recon_outcome list res \<times> curation_db" where
  "reconcile env db =
     (case with_lock_retries (re_fault env AtListRuns) (reading (list_runs 200)) db of
        (Inl (OperationalError m), db') \<Rightarrow>
          if is_locked_message m then (Inr [recon_defer None ''sqlite_locked''], db') else (Inl (OperationalError m), db')
      | (Inl e, db') \<Rightarrow> (Inl e, db')
      | (Inr runs, db') \<Rightarrow> reconcile_each env runs db')"

definition before_curator_work :: "reconcile_env \<Rightarrow> curation_db \<Rightarrow> recon_outcome res \<times> curation_db" where
  "before_curator_work env db =
     (case reconcile env db of
        (Inl e, db') \<Rightarrow> (Inl e, db')
      | (Inr os, db') \<Rightarrow>
          (Inr (case List.find (\<lambda>x. ro_disposition x = DispBlock) os of
                  Some x \<Rightarrow> x
                | None \<Rightarrow> (case List.find (\<lambda>x. ro_disposition x = DispDefer) os of
                    Some x \<Rightarrow> x
                  | None \<Rightarrow> \<lparr>ro_disposition = DispContinue, ro_reason = ''reconciled'', ro_run = None,
                      ro_work_item = None, ro_verified = 0, ro_delay = None, ro_final = None\<rparr>)), db'))"

section \<open>Attribution of provider attempts\<close>

datatype attribution = AttrExact | AttrMissing | AttrMismatched | AttrAmbiguous

record provider_attempt =
  pa_task :: "string option"
  pa_epoch :: "int option"
  pa_identity :: "string option"

text \<open>The observations by identity, and whether one was contradicted; the counts of attempts that lack
  a field, agree and disagree with the run.\<close>

record attempt_counts =
  ac_seen :: "(string \<times> (string \<times> int)) list"
  ac_missing :: nat
  ac_mismatched :: nat
  ac_exact :: nat
  ac_ambiguous :: bool

definition attempt_text :: "string option \<Rightarrow> string option" where
  "attempt_text s = (case s of None \<Rightarrow> None | Some t \<Rightarrow> if t = [] then None else Some t)"

definition count_attempt :: "string \<times> int \<Rightarrow> provider_attempt \<Rightarrow> attempt_counts \<Rightarrow> attempt_counts" where
  "count_attempt expected a c =
     (case (attempt_text (pa_task a), pa_epoch a, attempt_text (pa_identity a)) of
        (Some t, Some e, Some i) \<Rightarrow>
          let prev = map_of (ac_seen c) i
          in c\<lparr>ac_ambiguous := ac_ambiguous c \<or> (prev \<noteq> None \<and> prev \<noteq> Some (t, e)),
               ac_seen := AList.update i (t, e) (ac_seen c),
               ac_exact := (if (t, e) = expected then ac_exact c + 1 else ac_exact c),
               ac_mismatched := (if (t, e) = expected then ac_mismatched c else ac_mismatched c + 1)\<rparr>
      | _ \<Rightarrow> c\<lparr>ac_missing := ac_missing c + 1\<rparr>)"

definition reconcile_provider_attempts ::
  "curation_run \<Rightarrow> provider_attempt list \<Rightarrow> attribution \<times> string \<times> string list" where
  "reconcile_provider_attempts run attempts =
     (case (cr_task run, cr_epoch run) of
        (Some t, Some e) \<Rightarrow>
          let c = fold (count_attempt (uuid_text t, e)) attempts
                \<lparr>ac_seen = [], ac_missing = 0, ac_mismatched = 0, ac_exact = 0, ac_ambiguous = False\<rparr>;
              ids = sort (map fst (ac_seen c))
          in if ac_ambiguous c \<or> (ac_exact c \<noteq> 0 \<and> (ac_mismatched c \<noteq> 0 \<or> ac_missing c \<noteq> 0))
             then (AttrAmbiguous, ''provider_attempt_attribution_ambiguous'', ids)
             else if ac_mismatched c \<noteq> 0 then (AttrMismatched, ''provider_attempt_attribution_mismatched'', ids)
             else if ac_missing c \<noteq> 0 \<or> ac_seen c = [] then (AttrMissing, ''provider_attempt_attribution_missing'', ids)
             else (AttrExact, ''provider_attempt_attribution_exact'', ids)
      | _ \<Rightarrow> (AttrMissing, ''run_execution_identity_missing'', []))"

end
