(* ===== verification/CurationLaws.thy ===== *)
theory CurationLaws
  imports CurationReconciler CurationPolicy
begin

text \<open>
  The laws of the curation ledger and of its reconciler: the moves they make on the rows, whatever
  access to the database fails.
\<close>

section \<open>The ledger\<close>

definition ledger_ok :: "curation_db \<Rightarrow> bool" where
  "ledger_ok db = (distinct (map cr_id (cd_runs db)) \<and> distinct (map receipt_key (cd_receipts db))
     \<and> distinct (map ca_memory (cd_candidates db))
     \<and> (\<forall>r \<in> set (cd_receipts db). rc_intent r \<noteq> None \<and> rc_run r \<in> cr_id ` set (cd_runs db))
     \<and> (\<forall>r \<in> set (cd_runs db). cr_created r \<noteq> None))"

definition empty_ledger :: curation_db where
  "empty_ledger = \<lparr>cd_runs = [], cd_receipts = [], cd_candidates = [], cd_broken = {}, cd_events = {}\<rparr>"

lemma ledger_okD:
  assumes "ledger_ok db"
  shows "distinct (map cr_id (cd_runs db))" "distinct (map receipt_key (cd_receipts db))"
    "distinct (map ca_memory (cd_candidates db))"
    "r \<in> set (cd_receipts db) \<Longrightarrow> rc_intent r \<noteq> None" "r \<in> set (cd_receipts db) \<Longrightarrow> rc_run r \<in> cr_id ` set (cd_runs db)"
    "c \<in> set (cd_runs db) \<Longrightarrow> cr_created c \<noteq> None"
  using assms unfolding ledger_ok_def by blast+

text \<open>A row of the ledger under its key.\<close>

lemma get_run_iff:
  assumes "distinct (map cr_id (cd_runs db))"
  shows "get_run i db = Some r \<longleftrightarrow> r \<in> set (cd_runs db) \<and> cr_id r = i"
proof
  assume "get_run i db = Some r"
  then show "r \<in> set (cd_runs db) \<and> cr_id r = i" unfolding get_run_def by (auto dest: find_SomeD)
next
  assume "r \<in> set (cd_runs db) \<and> cr_id r = i"
  then show "get_run i db = Some r" unfolding get_run_def using assms by (intro find_key [where k = cr_id]) auto
qed

lemma find_receipt_iff:
  assumes "distinct (map receipt_key (cd_receipts db))"
  shows "List.find (\<lambda>r. receipt_key r = k) (cd_receipts db) = Some r \<longleftrightarrow> r \<in> set (cd_receipts db) \<and> receipt_key r = k"
proof
  assume "List.find (\<lambda>r. receipt_key r = k) (cd_receipts db) = Some r"
  then show "r \<in> set (cd_receipts db) \<and> receipt_key r = k" by (auto dest: find_SomeD)
next
  assume "r \<in> set (cd_receipts db) \<and> receipt_key r = k"
  then show "List.find (\<lambda>r. receipt_key r = k) (cd_receipts db) = Some r"
    using assms by (intro find_key [where k = receipt_key]) auto
qed

lemma get_receipt_SomeD:
  "get_receipt i a db = Inr (Some r) \<Longrightarrow> r \<in> set (cd_receipts db) \<and> receipt_key r = (i, a) \<and> (i, a) \<notin> cd_broken db"
  unfolding get_receipt_def by (auto split: option.splits if_splits dest: find_SomeD)

lemma get_receiptI:
  assumes "distinct (map receipt_key (cd_receipts db))" and "r \<in> set (cd_receipts db)" and "receipt_key r = (i, a)"
    and "(i, a) \<notin> cd_broken db"
  shows "get_receipt i a db = Inr (Some r)"
  using find_receipt_iff [OF assms(1), of "(i, a)" r] assms by (simp add: get_receipt_def)

text \<open>A guarded update of one row, by key.\<close>

lemma keyed_update_map:
  assumes "distinct (map k rows)" and "r \<in> set rows" and "p r" and "\<And>s. p s \<Longrightarrow> k s = k r"
  shows "update_where p f rows = map (\<lambda>s. if s = r then f r else s) rows"
proof -
  have "p s \<longleftrightarrow> s = r" if "s \<in> set rows" for s
    using assms that by (auto simp: distinct_map dest: inj_onD)
  then show ?thesis unfolding update_where_def by (intro map_cong) auto
qed

lemma unguarded_update: "(\<And>s. s \<in> set rows \<Longrightarrow> \<not> p s) \<Longrightarrow> update_where p f rows = rows \<and> rowcount p rows = 0"
  by (simp add: update_where_none rowcount_0_iff)

section \<open>Moves\<close>

text \<open>A receipt that is brought to an end, and a run that is.\<close>

definition finished_receipt :: "time \<Rightarrow> receipt \<Rightarrow> string option \<Rightarrow> receipt" where
  "finished_receipt clk r code = r\<lparr>rc_status := (if code = None then Verified else VerificationFailed), rc_error := code,
     rc_verified := Some clk\<rparr>"

definition ended_run :: "time \<Rightarrow> curation_run \<Rightarrow> run_outcome \<Rightarrow> curation_run" where
  "ended_run clk run outcome = run\<lparr>cr_state := RunTerminal, cr_outcome := Some outcome, cr_terminalized := Some clk\<rparr>"

lemma finished_receipt_simps [simp]:
  "receipt_key (finished_receipt clk r code) = receipt_key r" "rc_run (finished_receipt clk r code) = rc_run r"
  "rc_action (finished_receipt clk r code) = rc_action r" "rc_intent (finished_receipt clk r code) = rc_intent r"
  "rc_status (finished_receipt clk r code) = (if code = None then Verified else VerificationFailed)"
  by (simp_all add: finished_receipt_def receipt_key_def)

lemma ended_run_simps [simp]:
  "cr_id (ended_run clk run o') = cr_id run" "cr_state (ended_run clk run o') = RunTerminal"
  "cr_outcome (ended_run clk run o') = Some o'" "cr_terminalized (ended_run clk run o') = Some clk"
  "cr_created (ended_run clk run o') = cr_created run"
  by (simp_all add: ended_run_def)

definition with_receipt :: "receipt \<Rightarrow> receipt \<Rightarrow> curation_db \<Rightarrow> curation_db" where
  "with_receipt r r' db = db\<lparr>cd_receipts := map (\<lambda>s. if s = r then r' else s) (cd_receipts db)\<rparr>"

definition with_run :: "curation_run \<Rightarrow> curation_run \<Rightarrow> curation_db \<Rightarrow> curation_db" where
  "with_run r r' db = db\<lparr>cd_runs := map (\<lambda>s. if s = r then r' else s) (cd_runs db)\<rparr>"

lemma with_receipt_simps [simp]:
  "cd_runs (with_receipt r r' db) = cd_runs db" "cd_candidates (with_receipt r r' db) = cd_candidates db"
  "cd_broken (with_receipt r r' db) = cd_broken db" "cd_events (with_receipt r r' db) = cd_events db"
  "cd_receipts (with_receipt r r' db) = map (\<lambda>s. if s = r then r' else s) (cd_receipts db)"
  by (simp_all add: with_receipt_def)

lemma with_run_simps [simp]:
  "cd_receipts (with_run r r' db) = cd_receipts db" "cd_candidates (with_run r r' db) = cd_candidates db"
  "cd_broken (with_run r r' db) = cd_broken db" "cd_events (with_run r r' db) = cd_events db"
  "cd_runs (with_run r r' db) = map (\<lambda>s. if s = r then r' else s) (cd_runs db)"
  by (simp_all add: with_run_def)

lemma distinct_keyed:
  assumes "distinct (map k rows)" and "k r' = k r"
  shows "distinct (map k (map (\<lambda>s. if s = r then r' else s) rows))"
    and "k ` (\<lambda>s. if s = r then r' else s) ` set rows = k ` set rows"
proof -
  have eq: "map k (map (\<lambda>s. if s = r then r' else s) rows) = map k rows" using assms(2) by (induction rows) auto
  then show "distinct (map k (map (\<lambda>s. if s = r then r' else s) rows))" using assms(1) unfolding eq by simp
  show "k ` (\<lambda>s. if s = r then r' else s) ` set rows = k ` set rows"
    using arg_cong [OF eq, of set] unfolding set_map .
qed

lemma with_receipt_ok:
  assumes "ledger_ok db" and "receipt_key r' = receipt_key r" and "rc_intent r' \<noteq> None"
  shows "ledger_ok (with_receipt r r' db)"
proof -
  have "rc_run r' = rc_run r" using assms(2) by (simp add: receipt_key_def)
  moreover note distinct_keyed(1) [OF ledger_okD(2) [OF assms(1)] assms(2)]
  ultimately show ?thesis using assms unfolding ledger_ok_def with_receipt_simps set_map by auto
qed

lemma with_run_ok:
  assumes "ledger_ok db" and "cr_id r' = cr_id r" and "cr_created r' \<noteq> None"
  shows "ledger_ok (with_run r r' db)"
  using assms distinct_keyed [OF ledger_okD(1) [OF assms(1)] assms(2)]
  unfolding ledger_ok_def with_run_simps set_map by auto

text \<open>A change of receipts under their keys shows in the list of a run.\<close>

lemma list_receipts_map:
  assumes "list_receipts i n db = Inr rs"
    and "\<And>s. receipt_key (g s) = receipt_key s" and "cd_receipts db' = map g (cd_receipts db)" and "cd_broken db' = cd_broken db"
  shows "list_receipts i n db' = Inr (map g rs)"
proof -
  have "rc_run (g s) = rc_run s" for s using assms(2) [of s] by (simp add: receipt_key_def)
  then have "filter (\<lambda>s. rc_run s = i) (map g xs) = map g (filter (\<lambda>s. rc_run s = i) xs)" for xs
    by (induction xs) auto
  then have rows: "limit_rows m (filter (\<lambda>s. rc_run s = i) (map g xs)) = map g (limit_rows m (filter (\<lambda>s. rc_run s = i) xs))" for m xs
    by (simp add: limit_rows_def take_map)
  show ?thesis using assms unfolding list_receipts_def assms(3,4) rows Let_def
    by (auto split: sum.splits if_splits)
qed

text \<open>The two writes of the reconciler.\<close>

lemma terminalize_row:
  assumes "ledger_ok db" and run: "run \<in> set (cd_runs db)" "cr_terminalized run = None"
  shows "terminalize_run clk (cr_id run) (cr_state run) outcome db
    = (Some (ended_run clk run outcome), with_run run (ended_run clk run outcome) db)"
proof -
  let ?p = "\<lambda>r. cr_id r = cr_id run \<and> cr_state r = cr_state run \<and> cr_terminalized r = None"
  let ?f = "\<lambda>r. r\<lparr>cr_state := RunTerminal, cr_outcome := Some outcome, cr_terminalized := Some clk\<rparr>"
  let ?db = "with_run run (ended_run clk run outcome) db"
  note dist = ledger_okD(1) [OF assms(1)]
  have rows: "update_where ?p ?f (cd_runs db) = map (\<lambda>s. if s = run then ended_run clk run outcome else s) (cd_runs db)"
    unfolding ended_run_def using run by (intro keyed_update_map [OF dist run(1)]) auto
  have count: "rowcount ?p (cd_runs db) = 1" using run by (intro rowcount_key [OF dist run(1)]) auto
  have db: "db\<lparr>cd_runs := update_where ?p ?f (cd_runs db)\<rparr> = ?db" by (simp add: with_run_def rows)
  have "distinct (map cr_id (cd_runs ?db))" unfolding with_run_simps by (rule distinct_keyed(1) [OF dist]) simp
  then have "get_run (cr_id run) ?db = Some (ended_run clk run outcome)" using run by (simp add: get_run_iff image_iff)
  then show ?thesis unfolding terminalize_run_def db Let_def using count by simp
qed

lemma terminalize_stored:
  assumes "distinct (map cr_id (cd_runs db))" and "expected \<noteq> RunTerminal" and "get_run i db = Some stored"
    and "cr_state stored = RunTerminal"
  shows "terminalize_run clk i expected outcome db = (Some stored, db)"
proof -
  have "\<not> (cr_id s = i \<and> cr_state s = expected \<and> cr_terminalized s = None)" if "s \<in> set (cd_runs db)" for s
    using that assms get_run_iff [OF assms(1), of i s] by auto
  then have "update_where (\<lambda>r. cr_id r = i \<and> cr_state r = expected \<and> cr_terminalized r = None) f (cd_runs db) = cd_runs db" for f
    by (intro update_where_none)
  then show ?thesis using assms(3,4) by (simp add: terminalize_run_def Let_def)
qed

lemma terminalize_run_cases:
  assumes "ledger_ok db" and "expected \<noteq> RunTerminal"
  shows "(\<exists>run \<in> set (cd_runs db). cr_id run = i \<and> cr_state run = expected \<and> cr_terminalized run = None
       \<and> terminalize_run clk i expected outcome db = (Some (ended_run clk run outcome), with_run run (ended_run clk run outcome) db))
    \<or> snd (terminalize_run clk i expected outcome db) = db
      \<and> (fst (terminalize_run clk i expected outcome db) = None
         \<or> (\<exists>run \<in> set (cd_runs db). cr_id run = i \<and> cr_state run = RunTerminal
            \<and> fst (terminalize_run clk i expected outcome db) = Some run))"
proof -
  let ?p = "\<lambda>r. cr_id r = i \<and> cr_state r = expected \<and> cr_terminalized r = None"
  let ?f = "\<lambda>r. r\<lparr>cr_state := RunTerminal, cr_outcome := Some outcome, cr_terminalized := Some clk\<rparr>"
  show ?thesis
  proof (cases "\<exists>run \<in> set (cd_runs db). ?p run")
    case True
    then show ?thesis using terminalize_row [OF assms(1)] by blast
  next
    case False
    then have un: "update_where ?p ?f (cd_runs db) = cd_runs db" "rowcount ?p (cd_runs db) = 0"
      using unguarded_update [of "cd_runs db" ?p ?f] by blast+
    then show ?thesis
      using get_run_iff [OF ledger_okD(1) [OF assms(1)], of i]
      by (auto simp: terminalize_run_def Let_def split: option.splits)
  qed
qed

lemma transition_pending:
  assumes ok: "ledger_ok db" and cur: "get_receipt (rc_run r) (rc_action r) db = Inr (Some r)" "rc_status r = AppliedUnverified"
    and new: "receipt_key r' = receipt_key r" "rc_intent r' \<noteq> None"
  shows "transition_receipt (rc_run r) (rc_action r) AppliedUnverified r' db = (Inr (Some r'), with_receipt r r' db)"
proof -
  have r: "r \<in> set (cd_receipts db)" "receipt_key r = (rc_run r, rc_action r)" "(rc_run r, rc_action r) \<notin> cd_broken db"
    using get_receipt_SomeD [OF cur(1)] by blast+
  have r': "rc_run r' = rc_run r" "rc_action r' = rc_action r" using new(1) by (simp_all add: receipt_key_def)
  note dist = ledger_okD(2) [OF ok]
  let ?p = "\<lambda>s. receipt_key s = (rc_run r, rc_action r) \<and> rc_status s = AppliedUnverified"
  let ?f = "\<lambda>s. r'\<lparr>rc_run := rc_run s, rc_action := rc_action s\<rparr>"
  have "?f r = r'" using r' by (cases r') simp
  then have rows: "update_where ?p ?f (cd_receipts db) = map (\<lambda>s. if s = r then r' else s) (cd_receipts db)"
    using keyed_update_map [OF dist r(1), of ?p ?f] r(2) cur(2) by simp
  have count: "rowcount ?p (cd_receipts db) = 1"
    using r cur(2) by (intro rowcount_key [OF dist r(1)]) auto
  have db: "db\<lparr>cd_receipts := update_where ?p ?f (cd_receipts db)\<rparr> = with_receipt r r' db"
    by (simp add: with_receipt_def rows)
  have "distinct (map receipt_key (cd_receipts (with_receipt r r' db)))"
    unfolding with_receipt_simps by (rule distinct_keyed(1) [OF dist new(1)])
  then have "get_receipt (rc_run r) (rc_action r) (with_receipt r r' db) = Inr (Some r')"
    using r r' by (intro get_receiptI) (auto simp: receipt_key_def)
  then have "transition_receipt_write (rc_run r) (rc_action r) AppliedUnverified r' db
      = (Inr (Some r'), with_receipt r r' db)"
    unfolding transition_receipt_write_def db Let_def using count by simp
  then show ?thesis
    using cur new(2) by (simp add: transition_receipt_def receipt_terminal_def)
qed

lemma finish_receipt_cases:
  assumes ok: "ledger_ok db" and cur: "get_receipt (rc_run r) (rc_action r) db = Inr (Some r)" "rc_status r = AppliedUnverified"
  shows "finish_receipt env r code db = (Inr (finished_receipt (ve_clk env) r code), with_receipt r (finished_receipt (ve_clk env) r code) db)"
proof -
  have "rc_intent r \<noteq> None" using ledger_okD(4) [OF ok] get_receipt_SomeD [OF cur(1)] by blast
  then have "transition_receipt (rc_run r) (rc_action r) AppliedUnverified (finished_receipt (ve_clk env) r code) db
      = (Inr (Some (finished_receipt (ve_clk env) r code)), with_receipt r (finished_receipt (ve_clk env) r code) db)"
    by (intro transition_pending [OF ok cur]) simp_all
  then show ?thesis unfolding finish_receipt_def finished_receipt_def [symmetric] Let_def by simp
qed

end
