(* ===== verification/ReconcilerMoves.thy ===== *)
theory ReconcilerMoves
  imports CurationLaws
begin

text \<open>
  What the curation reconciler does to the ledger, whatever access to the database fails and
  wherever: it only verifies pending receipts, with the verdict of the verifier, and ends runs, as
  applied only when it has just read their receipts as verified.
\<close>

section \<open>Moves\<close>

definition judged :: "reconcile_env \<Rightarrow> receipt \<Rightarrow> string option \<Rightarrow> bool" where
  "judged env r code = (case rc_descriptor r of
       Some d \<Rightarrow> descriptor_verdict (re_verifier env) r d = Inr code
     | None \<Rightarrow> \<exists>run a. re_resolve env run r = Inr (Some a) \<and> action_verdict (re_verifier env) r a = Inr code)"

definition all_verified :: "curation_db \<Rightarrow> uuid \<Rightarrow> bool" where
  "all_verified db i = (\<exists>rs. list_receipts i 100 db = Inr rs \<and> rs \<noteq> [] \<and> (\<forall>r \<in> set rs. rc_status r = Verified))"

inductive recon_move :: "reconcile_env \<Rightarrow> curation_db \<Rightarrow> curation_db \<Rightarrow> bool" for env where
  move_receipt: "r \<in> set (cd_receipts db) \<Longrightarrow> rc_status r = AppliedUnverified \<Longrightarrow> judged env r code \<Longrightarrow>
    recon_move env db (with_receipt r (finished_receipt (ve_clk (re_verifier env)) r code) db)"
| move_run: "run \<in> set (cd_runs db) \<Longrightarrow> cr_state run \<noteq> RunTerminal \<Longrightarrow> (outcome = OutApplied \<Longrightarrow> all_verified db (cr_id run)) \<Longrightarrow>
    recon_move env db (with_run run (ended_run (re_clk env) run outcome) db)"

definition reached :: "reconcile_env \<Rightarrow> curation_db \<Rightarrow> curation_db \<Rightarrow> bool" where
  "reached env db0 db = ((recon_move env)\<^sup>*\<^sup>* db0 db \<and> ledger_ok db)"

lemma reached_refl: "ledger_ok db \<Longrightarrow> reached env db db"
  by (simp add: reached_def)

lemma recon_move_ok: "recon_move env db db' \<Longrightarrow> ledger_ok db \<Longrightarrow> ledger_ok db'"
proof (induction rule: recon_move.induct)
  case (move_receipt r db code)
  then show ?case by (intro with_receipt_ok) (simp_all add: ledger_okD(4))
next
  case (move_run run db outcome)
  then show ?case by (intro with_run_ok) (simp_all add: ledger_okD(6))
qed

lemma reached_step: "reached env db0 db \<Longrightarrow> recon_move env db db' \<Longrightarrow> reached env db0 db'"
  unfolding reached_def using recon_move_ok by (blast intro: rtranclp.rtrancl_into_rtrancl)

lemma reached_unverified:
  assumes "reached env db0 db" and "s \<in> set (cd_receipts db)" and "rc_status s = AppliedUnverified"
  shows "s \<in> set (cd_receipts db0)"
proof -
  have "(recon_move env)\<^sup>*\<^sup>* db0 db" using assms(1) by (simp add: reached_def)
  then show ?thesis using assms(2)
  proof (induction rule: rtranclp_induct)
    case (step db1 db2)
    then show ?case using assms(3) by (auto elim!: recon_move.cases split: if_splits)
  qed simp
qed

section \<open>Faults\<close>

lemma lock_retries_keeps:
  assumes "\<And>db. P db \<Longrightarrow> P (snd (f db))" and "P db"
  shows "P (snd (lock_retries flt f a n db))"
  using assms(2)
proof (induction n arbitrary: a db)
  case (Suc n)
  let ?r = "with_fault (flt a) f db"
  have P: "P (snd ?r)" using Suc.prems assms(1) by (cases "flt a") simp_all
  show ?case
  proof (cases "\<exists>m. fst ?r = Inl (OperationalError m) \<and> is_locked_message m \<and> n \<noteq> 0")
    case True
    then obtain m db' where "?r = (Inl (OperationalError m), db')" "is_locked_message m" "n \<noteq> 0" by (cases ?r) auto
    then show ?thesis using Suc.IH [of db' "Suc a"] P by simp
  next
    case False
    then have "lock_retries flt f a (Suc n) db = ?r"
      by (cases ?r) (auto split: sum.splits py_error.splits)
    then show ?thesis using P by simp
  qed
qed simp

lemma lock_retries_reading:
  "lock_retries flt (reading f) a n db = (x, db') \<Longrightarrow> db' = db \<and> (\<forall>y. x = Inr y \<longrightarrow> f db = Inr y)"
proof (induction n arbitrary: a)
  case (Suc n)
  have r: "snd (with_fault (flt a) (reading f) db) = db"
    "fst (with_fault (flt a) (reading f) db) = f db \<or> (\<exists>m. fst (with_fault (flt a) (reading f) db) = Inl (OperationalError m))"
    by (cases "flt a"; simp add: reading_def)+
  show ?case
  proof (cases "\<exists>m. fst (with_fault (flt a) (reading f) db) = Inl (OperationalError m) \<and> is_locked_message m \<and> n \<noteq> 0")
    case True
    then obtain m where "with_fault (flt a) (reading f) db = (Inl (OperationalError m), db)" "is_locked_message m" "n \<noteq> 0"
      using r(1) by (cases "with_fault (flt a) (reading f) db") auto
    then have "lock_retries flt (reading f) (Suc a) n db = (x, db')" using Suc.prems by simp
    then show ?thesis by (rule Suc.IH)
  next
    case False
    then have "lock_retries flt (reading f) a (Suc n) db = with_fault (flt a) (reading f) db"
      by (cases "with_fault (flt a) (reading f) db") (auto split: sum.splits py_error.splits)
    then show ?thesis using Suc.prems r by auto
  qed
qed auto

lemma with_lock_retries_reading:
  "with_lock_retries flt (reading f) db = (x, db') \<Longrightarrow> db' = db \<and> (\<forall>y. x = Inr y \<longrightarrow> f db = Inr y)"
  unfolding with_lock_retries_def by (rule lock_retries_reading)

lemma with_lock_retries_keeps:
  "(\<And>db. P db \<Longrightarrow> P (snd (f db))) \<Longrightarrow> P db \<Longrightarrow> P (snd (with_lock_retries flt f db))"
  unfolding with_lock_retries_def by (rule lock_retries_keeps)

section \<open>Soundness of the steps\<close>

lemma verdict_move:
  assumes r: "reached env db0 db" and start: "ledger_ok db0" "r \<in> set (cd_receipts db0)"
    and cur: "get_receipt (rc_run r) (rc_action r) db = Inr (Some current)" "rc_status current = AppliedUnverified"
    and v: "\<And>code. current = r \<Longrightarrow> v = Inr code \<Longrightarrow> judged env r code"
  shows "reached env db0 (snd (finish_verdict (re_verifier env) current v db))"
proof (cases v)
  case (Inl e)
  then show ?thesis using r by (simp add: finish_verdict_def)
next
  case (Inr c)
  have ok: "ledger_ok db" using r by (simp add: reached_def)
  have mem: "current \<in> set (cd_receipts db)" "receipt_key current = (rc_run r, rc_action r)"
    using get_receipt_SomeD [OF cur(1)] by blast+
  then have "current \<in> set (cd_receipts db0)" using reached_unverified [OF r] cur(2) by blast
  then have eq: "current = r"
    using ledger_okD(2) [OF start(1)] start(2) mem(2) unfolding distinct_map
    by (intro inj_onD [of receipt_key]) (simp_all add: receipt_key_def)
  then have "judged env r c" using v Inr by simp
  then have "recon_move env db (snd (finish_receipt (re_verifier env) current c db))"
    using finish_receipt_cases [OF ok, of current] cur mem eq by (auto intro: move_receipt)
  then show ?thesis using reached_step [OF r] Inr by (simp add: finish_verdict_def)
qed

lemma verify_pending_moves:
  assumes r: "reached env db0 db" and start: "ledger_ok db0" "r \<in> set (cd_receipts db0)"
    and f: "verify_pending env run r = Inr f"
  shows "reached env db0 (snd (f db))"
proof (cases "rc_descriptor r")
  case (Some d)
  then have f': "f = verify_descriptor (re_verifier env) r d" using f by (simp add: verify_pending_def)
  have "reached env db0 (snd (finish_verdict (re_verifier env) current (descriptor_verdict (re_verifier env) current d) db))"
    if "get_receipt (rc_run r) (rc_action r) db = Inr (Some current)" "rc_status current = AppliedUnverified" for current
    using Some by (intro verdict_move [OF r start that]) (simp add: judged_def)
  then show ?thesis using r unfolding f' verify_descriptor_def by (auto split: sum.split option.split)
next
  case None
  then obtain a where a: "re_resolve env run r = Inr (Some a)" "f = verify (re_verifier env) r a"
    using f by (auto simp: verify_pending_def split: sum.splits option.splits)
  have "reached env db0 (snd (finish_verdict (re_verifier env) current (action_verdict (re_verifier env) current a) db))"
    if "get_receipt (rc_run r) (rc_action r) db = Inr (Some current)" "rc_status current = AppliedUnverified" for current
    using None a(1) by (intro verdict_move [OF r start that]) (auto simp: judged_def)
  then show ?thesis using r unfolding a(2) verify_def by (auto split: sum.split option.split)
qed

text \<open>A run that was listed is ended, whatever happens to the statement.\<close>

lemma terminalize_moves:
  assumes r: "reached env db0 db" and run: "cr_state run \<noteq> RunTerminal"
    and just: "outcome = OutApplied \<Longrightarrow> all_verified db (cr_id run)"
  shows "reached env db0 (snd (with_lock_retries flt (returning (terminalize_run (re_clk env) (cr_id run) (cr_state run) outcome)) db))"
proof -
  let ?f = "returning (terminalize_run (re_clk env) (cr_id run) (cr_state run) outcome)"
  let ?P = "\<lambda>d. reached env db0 d \<and> cd_receipts d = cd_receipts db \<and> cd_broken d = cd_broken db"
  have step: "?P (snd (?f d))" if "?P d" for d
  proof -
    have ok: "ledger_ok d" using that by (simp add: reached_def)
    have snd: "snd (?f d) = snd (terminalize_run (re_clk env) (cr_id run) (cr_state run) outcome d)"
      by (simp add: returning_def split: prod.split)
    from terminalize_run_cases [OF ok run, of "cr_id run" "re_clk env" outcome] show ?thesis
    proof
      assume "\<exists>r \<in> set (cd_runs d). cr_id r = cr_id run \<and> cr_state r = cr_state run \<and> cr_terminalized r = None
         \<and> terminalize_run (re_clk env) (cr_id run) (cr_state run) outcome d
           = (Some (ended_run (re_clk env) r outcome), with_run r (ended_run (re_clk env) r outcome) d)"
      then obtain r where x: "r \<in> set (cd_runs d)" "cr_id r = cr_id run" "cr_state r = cr_state run"
          "terminalize_run (re_clk env) (cr_id run) (cr_state run) outcome d
           = (Some (ended_run (re_clk env) r outcome), with_run r (ended_run (re_clk env) r outcome) d)" by blast
      have "all_verified d (cr_id r)" if "outcome = OutApplied"
        using just [OF that] \<open>?P d\<close> x(2) by (simp add: all_verified_def list_receipts_def bounded_limit_def)
      then have "recon_move env d (with_run r (ended_run (re_clk env) r outcome) d)"
        using x(1,3) run by (intro move_run) auto
      then show ?thesis using reached_step that x(4) snd by auto
    qed (use that snd in auto)
  qed
  have "?P db" using r by simp
  from with_lock_retries_keeps [where P = ?P and f = ?f and flt = flt, OF step this] show ?thesis by blast
qed

text \<open>A step of the reconciler keeps what has been reached.\<close>

definition sound :: "reconcile_env \<Rightarrow> curation_db \<Rightarrow> recon_step \<Rightarrow> bool" where
  "sound env db0 s = (\<forall>db. reached env db0 db \<longrightarrow> reached env db0 (snd (s db)))"

lemma terminalizing_sound:
  assumes "reached env db0 db" and "cr_state run \<noteq> RunTerminal" and "outcome = OutApplied \<Longrightarrow> all_verified db (cr_id run)"
    and "\<And>final. sound env db0 (k final)"
  shows "reached env db0 (snd (terminalizing env run outcome n k db))"
proof -
  obtain x d where res: "with_lock_retries (re_fault env (AtTerminalize (cr_id run)))
      (returning (terminalize_run (re_clk env) (cr_id run) (cr_state run) outcome)) db = (x, d)" by fastforce
  have "reached env db0 d"
    using terminalize_moves [where flt = "re_fault env (AtTerminalize (cr_id run))" and outcome = outcome, OF assms(1,2)]
      assms(3) res by simp
  then show ?thesis
    using assms(4) unfolding terminalizing_def res sound_def by (auto split: sum.split py_error.split)
qed

lemma sound_return: "sound env db0 (\<lambda>db. (x, db))"
  by (simp add: sound_def)

lemma or_stored_sound: "(\<And>r. sound env db0 (k r)) \<Longrightarrow> sound env db0 (or_stored env run k final)"
  unfolding sound_def or_stored_def
  by (cases "re_fault env (AtGetRun (cr_id run)) 0") (auto simp: reading_def split: option.split)

lemma finish_failed_sound:
  assumes "cr_state run \<noteq> RunTerminal"
  shows "sound env db0 (finish_failed_run env run reason n)"
  unfolding sound_def finish_failed_run_def
  by (intro allI impI terminalizing_sound assms) (auto simp: sound_def split: option.split)

lemma terminalize_empty_sound:
  assumes "cr_state run \<noteq> RunTerminal" and "outcome \<noteq> OutApplied"
  shows "sound env db0 (terminalize_empty_run env run outcome reason)"
  unfolding sound_def terminalize_empty_run_def
  by (intro allI impI terminalizing_sound assms or_stored_sound) (use assms(2) in \<open>auto simp: sound_def\<close>)

lemma without_task_sound:
  assumes "cr_state run \<noteq> RunTerminal"
  shows "sound env db0 (without_task env run)"
  using terminalize_empty_sound [OF assms, of OutProviderFailed env db0 "''stale_task_missing''"]
  by (simp add: sound_def without_task_def)

lemma reconcile_empty_sound:
  assumes "cr_state run \<noteq> RunTerminal"
  shows "sound env db0 (reconcile_empty_run env run)"
proof -
  note ends = without_task_sound [OF assms, of env db0, unfolded sound_def]
    terminalize_empty_sound [OF assms, of OutProviderFailed env db0 "''task_finished_without_run''", unfolded sound_def]
    terminalize_empty_sound [OF assms, of OutCancelled env db0 "''task_cancelled''", unfolded sound_def]
  have "reached env db0 (snd (reconcile_empty_run env run db))" if r: "reached env db0 db" for db
  proof (cases "re_queue env = None \<or> cr_task run = None")
    case True
    then show ?thesis using ends r by (auto simp: reconcile_empty_run_def split: option.split)
  next
    case False
    then obtain tq tid where t: "re_queue env = Some tq" "cr_task run = Some tid" by auto
    obtain x d where res: "with_lock_retries (re_fault env (AtTask tid)) (reading (\<lambda>_. get_task (uuid_text tid) tq)) db = (x, d)"
      by fastforce
    have "d = db" using with_lock_retries_reading [OF res] by blast
    then show ?thesis using ends r res
      by (auto simp: reconcile_empty_run_def t split: sum.split py_error.split)
  qed
  then show ?thesis by (simp add: sound_def)
qed

lemma finalize_sound:
  assumes "reached env db0 db" and "cr_state run \<noteq> RunTerminal" and "list_receipts (cr_id run) 100 db = Inr rs"
  shows "reached env db0 (snd (finalize_if_possible env run rs n db))"
proof -
  have v: "all_verified db (cr_id run)" if "rs \<noteq> []" "\<forall>r \<in> set rs. rc_status r = Verified"
    using assms(3) that by (auto simp: all_verified_def)
  show ?thesis
    unfolding finalize_if_possible_def Let_def
    using assms(1) reconcile_empty_sound [OF assms(2), of env db0]
    by (auto simp: sound_def v split: if_splits
        intro!: terminalizing_sound [OF assms(1,2)] or_stored_sound [unfolded sound_def])
qed

lemma reading_receipts_sound:
  assumes "cr_state run \<noteq> RunTerminal"
    and "\<And>rs db. reached env db0 db \<Longrightarrow> list_receipts (cr_id run) 100 db = Inr rs \<Longrightarrow> reached env db0 (snd (k rs db))"
  shows "sound env db0 (reading_receipts env run final n k)"
proof -
  have "reached env db0 (snd (reading_receipts env run final n k db))" if r: "reached env db0 db" for db
  proof -
    obtain x d where res: "with_lock_retries (re_fault env (AtListReceipts (cr_id run) final))
        (reading (list_receipts (cr_id run) 100)) db = (x, d)" by fastforce
    note read = with_lock_retries_reading [OF res]
    have "reached env db0 (snd (finish_failed_run env run ''descriptor_hydration_failed'' n d))"
      using finish_failed_sound [OF assms(1), unfolded sound_def] read r by blast
    then show ?thesis
      using assms(2) r read unfolding reading_receipts_def res
      by (auto split: sum.split py_error.split)
  qed
  then show ?thesis by (simp add: sound_def)
qed

lemma verify_each_sound:
  assumes run: "cr_state run \<noteq> RunTerminal" and start: "ledger_ok db0"
  shows "set rs \<subseteq> set (cd_receipts db0) \<Longrightarrow> reached env db0 db \<Longrightarrow> reached env db0 (snd (verify_each env run rs n db))"
proof (induction rs arbitrary: n db)
  case (Cons r rs)
  note failed = finish_failed_sound [OF run, of env db0, unfolded sound_def, rule_format]
  show ?case
  proof (cases "verify_pending env run r")
    case (Inl reason)
    then show ?thesis using failed [OF Cons.prems(2)] by (simp add: Let_def case_prod_beta)
  next
    case (Inr f)
    obtain x d where res: "with_lock_retries (re_fault env (AtVerify (rc_run r) (rc_action r))) f db = (x, d)" by fastforce
    have "r \<in> set (cd_receipts db0)" using Cons.prems(1) by simp
    note step = verify_pending_moves [OF _ start this Inr]
    have d: "reached env db0 d"
      using with_lock_retries_keeps [where P = "reached env db0" and f = f and db = db, OF step Cons.prems(2)]
        arg_cong [OF res, of snd] by (metis snd_conv)
    show ?thesis
    proof (cases x)
      case (Inl e)
      obtain o1 d1 where f1: "finish_failed_run env run ''verification_storage_failed'' n d = (o1, d1)" by fastforce
      obtain o2 d2 where f2: "finish_failed_run env run ''verification_failed'' n d = (o2, d2)" by fastforce
      have ends: "reached env db0 d1" "reached env db0 d2"
        using failed [OF d, of "''verification_storage_failed''" n] failed [OF d, of "''verification_failed''" n] f1 f2 by simp_all
      have "snd (verify_each env run (r # rs) n db) \<in> {d, d1, d2}"
        unfolding verify_each.simps Let_def Inr sum.case res Inl by (cases e) (simp_all add: f1 f2)
      with ends d show ?thesis by auto
    next
      case x: (Inr r')
      then show ?thesis using Cons.IH [OF _ d] Cons.prems(1) Inr res by (simp add: Let_def)
    qed
  qed
qed simp

lemma listed_receipts: "list_receipts i n db = Inr rs \<Longrightarrow> set rs \<subseteq> set (cd_receipts db)"
  using set_limit_rows by (fastforce simp: list_receipts_def Let_def split: sum.splits if_splits)

lemma reconcile_run_sound:
  assumes run: "cr_state run \<noteq> RunTerminal" and start: "ledger_ok db0"
  shows "sound env db0 (reconcile_run env run)"
  unfolding reconcile_run_def
proof (intro reading_receipts_sound run)
  fix rs db
  assume r: "reached env db0 db" and listed: "list_receipts (cr_id run) 100 db = Inr rs"
  let ?pending = "filter (\<lambda>r. rc_status r = AppliedUnverified) rs"
  note final = finalize_sound [OF _ run]
  have sub: "set ?pending \<subseteq> set (cd_receipts db0)" using listed_receipts [OF listed] reached_unverified [OF r] by auto
  obtain x d where each: "verify_each env run ?pending 0 db = (x, d)" by fastforce
  have d: "reached env db0 d" using verify_each_sound [OF run start sub r, of 0] by (simp add: each)
  have "sound env db0 (reading_receipts env run True n (\<lambda>rs. finalize_if_possible env run rs n))" for n
    by (intro reading_receipts_sound run final)
  then show "reached env db0 (snd (let pending = ?pending in
       if pending = [] then finalize_if_possible env run rs 0 db
       else case verify_each env run pending 0 db of
           (Inl o', db') \<Rightarrow> (o', db')
         | (Inr n, db') \<Rightarrow> reading_receipts env run True n (\<lambda>rs. finalize_if_possible env run rs n) db'))"
    using final [OF r listed] d by (simp add: each sound_def Let_def split: sum.split)
qed

lemma reconcile_each_moves: "ledger_ok db0 \<Longrightarrow> reached env db0 db \<Longrightarrow> reached env db0 (snd (reconcile_each env runs db))"
proof (induction runs arbitrary: db)
  case (Cons run runs)
  show ?case
  proof (cases "cr_state run = RunTerminal")
    case False
    obtain x d where res: "reconcile_run env run db = (x, d)" by fastforce
    have "reached env db0 d" using reconcile_run_sound [OF False Cons.prems(1), of env] Cons.prems(2) res by (auto simp: sound_def)
    from Cons.IH [OF Cons.prems(1) this] this False res show ?thesis
      by (auto split: sum.split prod.split)
  qed (use Cons in simp)
qed simp

lemma reconcile_moves:
  assumes "ledger_ok db"
  shows "reached env db (snd (reconcile env db))"
proof -
  obtain x d where res: "with_lock_retries (re_fault env AtListRuns) (reading (list_runs 200)) db = (x, d)" by fastforce
  have "reached env db d" using with_lock_retries_reading [OF res] reached_refl [OF assms] by blast
  then show ?thesis
    using reconcile_each_moves [OF assms] unfolding reconcile_def res by (auto split: sum.split py_error.split)
qed

end
