(* ===== verification/CurationLedger.thy ===== *)
theory CurationLedger
  imports ReconcilerMoves
begin

text \<open>
  The ledger of curation over time: its operations as steps, with arguments as free as the callers
  leave them, the invariant of its tables, and what no step undoes.
\<close>

section \<open>Steps\<close>

text \<open>The writes of \<open>SQLiteCurationStore\<close> and the pass of the reconciler. Callers expect a state that is not
  final: \<open>transition_run\<close> returns a final row that it reads, and writes under the expected state; \<open>existing\<close>
  is the row it has read, perhaps some time ago.\<close>

inductive ledger_step :: "curation_db \<Rightarrow> curation_db \<Rightarrow> bool" where
  step_create_run: "ledger_step db (snd (create_run clk run db))"
| step_transition_run: "expected \<noteq> RunTerminal \<Longrightarrow> cr_created existing \<noteq> None \<Longrightarrow>
    ledger_step db (snd (transition_run_write rid expected run existing db))"
| step_terminalize_run: "expected \<noteq> RunTerminal \<Longrightarrow> ledger_step db (snd (terminalize_run clk rid expected outcome db))"
| step_put_receipt: "ledger_step db (snd (put_receipt clk r db))"
| step_transition_receipt: "rc_intent r \<noteq> None \<Longrightarrow>
    ledger_step db (snd (transition_receipt_write rid aid AppliedUnverified r db))"
| step_put_candidate: "ledger_step db (snd (put_candidate c db))"
| step_cas_candidate: "ledger_step db (snd (compare_and_set_candidate m tok c db))"
| step_reconcile: "ledger_step db (snd (reconcile env db))"
| step_mutation: "ledger_step db (db\<lparr>cd_events := insert e (cd_events db)\<rparr>)"

definition ledger_kept :: "curation_db \<Rightarrow> curation_db \<Rightarrow> bool" where
  "ledger_kept db db' =
     ((\<forall>run \<in> set (cd_runs db). cr_state run = RunTerminal \<longrightarrow> run \<in> set (cd_runs db'))
      \<and> (\<forall>r \<in> set (cd_receipts db). rc_status r \<noteq> AppliedUnverified \<longrightarrow> r \<in> set (cd_receipts db'))
      \<and> cr_id ` set (cd_runs db) \<subseteq> cr_id ` set (cd_runs db')
      \<and> receipt_key ` set (cd_receipts db) \<subseteq> receipt_key ` set (cd_receipts db'))"

lemma ledger_kept_refl [simp]: "ledger_kept db db"
  by (simp add: ledger_kept_def)

lemma ledger_kept_trans: "ledger_kept db1 db2 \<Longrightarrow> ledger_kept db2 db3 \<Longrightarrow> ledger_kept db1 db3"
  unfolding ledger_kept_def
  by (elim conjE, intro conjI) (simp, simp, erule (1) subset_trans, erule (1) subset_trans)

definition ledger_good :: "curation_db \<Rightarrow> curation_db \<Rightarrow> bool" where
  "ledger_good db db' = (ledger_ok db' \<and> ledger_kept db db')"

section \<open>Tables\<close>

text \<open>An update of rows that keeps their keys.\<close>

lemma update_runs_good:
  assumes "ledger_ok db" and "\<And>r. p r \<Longrightarrow> cr_id (f r) = cr_id r \<and> cr_created (f r) \<noteq> None \<and> cr_state r \<noteq> RunTerminal"
  shows "ledger_good db (db\<lparr>cd_runs := update_where p f (cd_runs db)\<rparr>)"
proof -
  have ids: "map cr_id (update_where p f (cd_runs db)) = map cr_id (cd_runs db)" using assms(2) by (intro map_update_where) blast
  note set_ids = arg_cong [OF ids, of set, unfolded set_map]
  show ?thesis
    using assms unfolding ledger_good_def ledger_ok_def ledger_kept_def
    by (simp add: ids set_ids) (auto simp: in_update_where)
qed

lemma update_receipts_good:
  assumes "ledger_ok db"
    and "\<And>r. p r \<Longrightarrow> receipt_key (f r) = receipt_key r \<and> rc_intent (f r) \<noteq> None \<and> rc_status r = AppliedUnverified"
  shows "ledger_good db (db\<lparr>cd_receipts := update_where p f (cd_receipts db)\<rparr>)"
proof -
  have keys: "map receipt_key (update_where p f (cd_receipts db)) = map receipt_key (cd_receipts db)"
    using assms(2) by (intro map_update_where) blast
  note set_keys = arg_cong [OF keys, of set, unfolded set_map]
  have "rc_run (f r) = rc_run r" if "p r" for r using assms(2) [OF that] by (simp add: receipt_key_def)
  then show ?thesis
    using assms unfolding ledger_good_def ledger_ok_def ledger_kept_def
    by (simp add: keys set_keys) (auto simp: in_update_where)
qed

lemma update_candidates_good:
  assumes "ledger_ok db" and "\<And>s. p s \<Longrightarrow> ca_memory (f s) = ca_memory s"
  shows "ledger_good db (db\<lparr>cd_candidates := update_where p f (cd_candidates db)\<rparr>)"
  using assms unfolding ledger_good_def ledger_kept_def ledger_ok_def by (simp add: map_update_where)

lemma upsert_good:
  assumes "ledger_ok db"
  shows "ledger_good db (snd (upsert_candidate guard c db))"
proof (cases "ca_memory c \<in> ca_memory ` set (cd_candidates db)")
  case True
  then show ?thesis using assms by (auto simp: upsert_candidate_def Let_def intro: update_candidates_good)
next
  case False
  then show ?thesis using assms by (simp add: upsert_candidate_def ledger_good_def ledger_kept_def ledger_ok_def)
qed

section \<open>Every step\<close>

lemma create_run_good: "ledger_ok db \<Longrightarrow> ledger_good db (snd (create_run clk run db))"
  by (auto simp: create_run_def Let_def ledger_good_def ledger_ok_def ledger_kept_def)

lemma transition_run_good:
  assumes "ledger_ok db" and "expected \<noteq> RunTerminal" and "cr_created existing \<noteq> None"
  shows "ledger_good db (snd (transition_run_write rid expected run existing db))"
proof -
  have "snd (transition_run_write rid expected run existing db) = db\<lparr>cd_runs := update_where
      (\<lambda>r. cr_id r = rid \<and> cr_state r = expected) (\<lambda>_. run\<lparr>cr_id := rid,
        cr_created := (case cr_created run of None \<Rightarrow> cr_created existing | Some t \<Rightarrow> Some t)\<rparr>) (cd_runs db)\<rparr>"
    by (simp add: transition_run_write_def Let_def)
  then show ?thesis using assms by (auto intro!: update_runs_good split: option.split)
qed

lemma terminalize_run_good:
  assumes "ledger_ok db" and "expected \<noteq> RunTerminal"
  shows "ledger_good db (snd (terminalize_run clk rid expected outcome db))"
  using terminalize_run_cases [OF assms, of rid clk outcome]
proof
  assume "\<exists>run \<in> set (cd_runs db). cr_id run = rid \<and> cr_state run = expected \<and> cr_terminalized run = None
     \<and> terminalize_run clk rid expected outcome db = (Some (ended_run clk run outcome), with_run run (ended_run clk run outcome) db)"
  then obtain run where run: "run \<in> set (cd_runs db)" "cr_state run = expected"
      "snd (terminalize_run clk rid expected outcome db) = with_run run (ended_run clk run outcome) db" by auto
  have "ledger_ok (with_run run (ended_run clk run outcome) db)"
    using run(1) by (intro with_run_ok [OF assms(1)]) (simp_all add: ledger_okD(6) [OF assms(1)])
  moreover have "ledger_kept db (with_run run (ended_run clk run outcome) db)"
    using run(1,2) assms(2) distinct_keyed(2) [of cr_id "cd_runs db" "ended_run clk run outcome" run] ledger_okD(1) [OF assms(1)]
    by (auto simp: ledger_kept_def image_iff)
  ultimately show ?thesis by (simp add: ledger_good_def run(3))
next
  assume "snd (terminalize_run clk rid expected outcome db) = db
      \<and> (fst (terminalize_run clk rid expected outcome db) = None
         \<or> (\<exists>run \<in> set (cd_runs db). cr_id run = rid \<and> cr_state run = RunTerminal
            \<and> fst (terminalize_run clk rid expected outcome db) = Some run))"
  then show ?thesis using assms(1) by (simp add: ledger_good_def)
qed

lemma put_receipt_good: "ledger_ok db \<Longrightarrow> ledger_good db (snd (put_receipt clk r db))"
  unfolding put_receipt_def Let_def
  by (auto simp: receipt_insert_fails_def receipt_key_def ledger_good_def ledger_kept_def ledger_ok_def
      split: sum.split option.split)

lemma transition_receipt_good:
  assumes "ledger_ok db" and "rc_intent r \<noteq> None"
  shows "ledger_good db (snd (transition_receipt_write rid aid AppliedUnverified r db))"
proof -
  have "snd (transition_receipt_write rid aid AppliedUnverified r db) = db\<lparr>cd_receipts := update_where
      (\<lambda>s. receipt_key s = (rid, aid) \<and> rc_status s = AppliedUnverified) (\<lambda>s. r\<lparr>rc_run := rc_run s, rc_action := rc_action s\<rparr>)
      (cd_receipts db)\<rparr>"
    by (simp add: transition_receipt_write_def Let_def split: sum.split option.split)
  then show ?thesis using assms by (auto simp: receipt_key_def intro!: update_receipts_good)
qed

lemma candidate_good:
  assumes "ledger_ok db"
  shows "ledger_good db (snd (put_candidate c db))" "ledger_good db (snd (compare_and_set_candidate m tok c db))"
proof -
  show "ledger_good db (snd (put_candidate c db))" using assms by (simp add: put_candidate_def upsert_good)
  have "ledger_good db db" using assms by (simp add: ledger_good_def)
  then show "ledger_good db (snd (compare_and_set_candidate m tok c db))"
    using assms upsert_good [OF assms, of "\<lambda>s. ca_token s = None" c]
    by (auto simp: compare_and_set_candidate_def Let_def intro!: update_candidates_good split: option.split prod.split)
qed

lemma recon_move_kept:
  assumes "recon_move env db db'" and "ledger_ok db"
  shows "ledger_kept db db'"
  using assms(1)
proof cases
  case (move_receipt r code)
  then show ?thesis
    using distinct_keyed(2) [of receipt_key "cd_receipts db" "finished_receipt (ve_clk (re_verifier env)) r code" r]
      ledger_okD(2) [OF assms(2)]
    by (auto simp: ledger_kept_def image_iff)
next
  case (move_run run outcome)
  then show ?thesis
    using distinct_keyed(2) [of cr_id "cd_runs db" "ended_run (re_clk env) run outcome" run] ledger_okD(1) [OF assms(2)]
    by (auto simp: ledger_kept_def image_iff)
qed

lemma reconcile_good:
  assumes "ledger_ok db"
  shows "ledger_good db (snd (reconcile env db))"
proof -
  have r: "(recon_move env)\<^sup>*\<^sup>* db (snd (reconcile env db))" "ledger_ok (snd (reconcile env db))"
    using reconcile_moves [OF assms] by (simp_all add: reached_def)
  have "ledger_kept db d \<and> ledger_ok d" if "(recon_move env)\<^sup>*\<^sup>* db d" for d
    using that
  proof (induction rule: rtranclp_induct)
    case (step d1 d2)
    then show ?case using recon_move_kept recon_move_ok ledger_kept_trans by blast
  qed (simp add: assms)
  then show ?thesis using r by (simp add: ledger_good_def)
qed

lemma ledger_step_good: "ledger_step db db' \<Longrightarrow> ledger_ok db \<Longrightarrow> ledger_good db db'"
proof (induction rule: ledger_step.induct)
  case (step_mutation db e)
  then show ?case by (auto simp: ledger_good_def ledger_ok_def ledger_kept_def)
qed (simp_all add: create_run_good transition_run_good terminalize_run_good put_receipt_good transition_receipt_good
    candidate_good reconcile_good)

lemma ledger_steps_good:
  assumes "ledger_step\<^sup>*\<^sup>* db db'" and "ledger_ok db"
  shows "ledger_good db db'"
  using assms(1)
proof (induction rule: rtranclp_induct)
  case base
  then show ?case using assms(2) by (simp add: ledger_good_def)
next
  case (step d1 d2)
  then show ?case using ledger_step_good ledger_kept_trans by (auto simp: ledger_good_def)
qed

end
