(* ===== verification/ReconcilerProgress.thy ===== *)
theory ReconcilerProgress
  imports ReconcilerMoves
begin

text \<open>
  What the reconciler achieves when the faults pass: the retries do not show, every pending receipt
  is judged, and the run is brought to its end.
\<close>

section \<open>Passing faults\<close>

definition passes :: "(nat \<Rightarrow> fault) \<Rightarrow> nat \<Rightarrow> nat \<Rightarrow> bool" where
  "passes flt a n = (\<exists>k < n. flt (a + k) = NoFault
     \<and> (\<forall>j < k. \<exists>m. is_locked_message m \<and> flt (a + j) \<in> {RaisesBefore m, RaisesAfter m}))"

definition faults_pass :: "reconcile_env \<Rightarrow> bool" where
  "faults_pass env = (\<forall>s. passes (re_fault env s) 0 3)"

definition no_db_error :: "'a res \<Rightarrow> bool" where
  "no_db_error x = (\<forall>m. x \<noteq> Inl (OperationalError m))"

lemma no_db_error_simps [simp]: "no_db_error (Inr x)" "no_db_error (Inl e) = (\<forall>m. e \<noteq> OperationalError m)"
  by (simp_all add: no_db_error_def)

lemma lock_retries_pass:
  assumes "f (snd (f db)) = f db" and "no_db_error (fst (f db))"
  shows "passes flt a n \<Longrightarrow> d \<in> {db, snd (f db)} \<Longrightarrow> lock_retries flt f a n d = f db"
proof (induction n arbitrary: a d)
  case 0
  then show ?case by (simp add: passes_def)
next
  case (Suc n)
  have fd: "f d = f db" using Suc.prems(2) assms(1) by auto
  show ?case
  proof (cases "flt a = NoFault")
    case True
    then show ?thesis
      using assms(2) fd by (cases "f db") (auto simp: no_db_error_def split: sum.splits py_error.splits)
  next
    case False
    obtain k where k: "k < Suc n" "flt (a + k) = NoFault"
        "\<forall>j < k. \<exists>m. is_locked_message m \<and> flt (a + j) \<in> {RaisesBefore m, RaisesAfter m}"
      using Suc.prems(1) unfolding passes_def by blast
    with False obtain k' where k': "k = Suc k'" by (cases k) auto
    have rest: "passes flt (Suc a) n"
      unfolding passes_def
    proof (intro exI [of _ k'] conjI allI impI)
      show "k' < n" "flt (Suc a + k') = NoFault" using k k' by simp_all
      fix j assume "j < k'"
      then show "\<exists>m. is_locked_message m \<and> flt (Suc a + j) \<in> {RaisesBefore m, RaisesAfter m}"
        using k(3) [rule_format, of "Suc j"] k' by simp
    qed
    have "n \<noteq> 0" using k(1) k' by simp
    obtain m where m: "is_locked_message m" "flt a \<in> {RaisesBefore m, RaisesAfter m}"
      using k(3) [rule_format, of 0] k' by auto
    define d' where "d' = snd (with_fault (flt a) f d)"
    have "with_fault (flt a) f d = (Inl (OperationalError m), d')" "d' \<in> {db, snd (f db)}"
      using m(2) Suc.prems(2) fd by (auto simp: d'_def)
    then show ?thesis using Suc.IH [OF rest] m(1) \<open>n \<noteq> 0\<close> by simp
  qed
qed

lemma with_lock_retries_pass:
  assumes "faults_pass env" and "f (snd (f db)) = f db" and "no_db_error (fst (f db))"
  shows "with_lock_retries (re_fault env s) f db = f db"
  unfolding with_lock_retries_def
  using lock_retries_pass [OF assms(2,3)] assms(1) unfolding faults_pass_def by blast

lemma reading_pass: "faults_pass env \<Longrightarrow> no_db_error (f db) \<Longrightarrow> with_lock_retries (re_fault env s) (reading f) db = (f db, db)"
  using with_lock_retries_pass [of env "reading f" db s] by (simp add: reading_def)

section \<open>Verdicts raise no database errors\<close>

lemma no_db_error_bind [simp]: "no_db_error (bind_res x f) = (no_db_error x \<and> (\<forall>y. x = Inr y \<longrightarrow> no_db_error (f y)))"
  by (cases x) simp_all

lemma normalize_no_db:
  "no_db_error (normalize v)" "no_db_error (normalize_list vs)" "no_db_error (normalize_items seen kvs)"
  by (induction v and vs and seen kvs rule: normalize_normalize_list_normalize_items.induct)
    (auto simp: Let_def)

lemma hash_no_db: "no_db_error (canonical_token h v)"
  by (auto simp: canonical_token_def stable_hash_def canonicalize_def normalize_no_db)

lemma snapshots_no_db: "no_db_error (snapshots_of rs)"
  by (induction rs rule: snapshots_of.induct) (auto simp: record_snapshot_def normalize_no_db)

lemma state_token_no_db: "no_db_error (state_token h rs ids)"
  by (auto simp: state_token_def snapshots_no_db hash_no_db)

lemma link_type_no_db: "no_db_error (normalize_link_type s)"
  by (simp add: normalize_link_type_def Let_def)

lemma edge_no_db: "no_db_error (has_exact_edge x a b c d)" "no_db_error (has_any_edge x a b c)"
  by (auto simp: has_exact_edge_def has_any_edge_def link_type_no_db)

lemma context_no_db: "no_db_error (context_at xs k)"
  by (simp add: context_at_def split: option.split)

lemma check_no_db:
  "no_db_error k \<Longrightarrow> no_db_error (check_token env r xs ids k)"
  "(\<And>xs. no_db_error (g xs)) \<Longrightarrow> no_db_error (with_contexts env ids g)"
  "no_db_error k \<Longrightarrow> no_db_error (check_ids r ids k)"
  "no_db_error b \<Longrightarrow> no_db_error (present_verdict b code)"
  by (auto simp: check_token_def with_contexts_def check_ids_def present_verdict_def state_token_no_db split: option.split)

lemma record_no_db: "no_db_error (record_verdict env r ids st)"
  by (auto simp: record_verdict_def intro!: check_no_db)

lemma link_no_db:
  "no_db_error (create_link_verdict env r a b c d ids)" "no_db_error (remove_link_verdict env r a b c ids)"
  by (auto simp: create_link_verdict_def remove_link_verdict_def context_no_db edge_no_db intro!: check_no_db)

lemma merged_no_db: "no_db_error (merged_sources_verdict xs cx c ss)"
  by (induction ss) (auto simp: context_no_db edge_no_db)

lemma merge_no_db: "no_db_error (merge_verdict env r c ss ids)"
  by (auto simp: merge_verdict_def Let_def context_no_db merged_no_db intro!: check_no_db split: option.split json.split)

lemma split_children_no_db: "no_db_error (split_children_verdict og grp cs n xs i ds)"
  by (induction ds arbitrary: i)
    (auto simp: context_no_db split_child_verdict_def Let_def intro!: check_no_db edge_no_db)

lemma split_no_db: "no_db_error (split_verdict env r t a)" "no_db_error (split_descriptor_verdict env r d ids)"
  by (auto simp: split_verdict_def split_descriptor_verdict_def Let_def split_child_ids_def context_no_db
      split_children_no_db intro!: check_no_db split: option.split json.split)

lemma verdict_no_db: "no_db_error (action_verdict env r a)" "no_db_error (descriptor_verdict env r d)"
proof -
  show "no_db_error (action_verdict env r a)"
    by (cases a) (simp_all add: record_no_db link_no_db merge_no_db split_no_db)
  show "no_db_error (descriptor_verdict env r d)"
    by (auto simp: descriptor_verdict_def link_descriptor_verdict_def Let_def record_no_db merge_no_db split_no_db
        context_no_db edge_no_db intro!: check_no_db split: option.split)
qed

section \<open>The end of a run\<close>

text \<open>A run that may be ended: it is in the ledger and not over.\<close>

definition open_run :: "curation_db \<Rightarrow> curation_run \<Rightarrow> bool" where
  "open_run db run = (ledger_ok db \<and> run \<in> set (cd_runs db) \<and> cr_state run \<noteq> RunTerminal \<and> cr_terminalized run = None)"

lemma open_runD:
  assumes "open_run db run"
  shows "ledger_ok db" "run \<in> set (cd_runs db)" "cr_state run \<noteq> RunTerminal" "cr_terminalized run = None"
  using assms unfolding open_run_def by blast+

lemma terminalize_open:
  fixes clk outcome
  assumes "open_run db run"
  defines "final \<equiv> ended_run clk run outcome"
  shows "terminalize_run clk (cr_id run) (cr_state run) outcome db = (Some final, with_run run final db)"
    and "terminalize_run clk (cr_id run) (cr_state run) outcome (with_run run final db) = (Some final, with_run run final db)"
proof -
  note run = open_runD [OF assms(1)]
  show "terminalize_run clk (cr_id run) (cr_state run) outcome db = (Some final, with_run run final db)"
    unfolding final_def by (rule terminalize_row [OF run(1,2,4)])
  have dist: "distinct (map cr_id (cd_runs (with_run run final db)))"
    unfolding with_run_simps final_def by (rule distinct_keyed(1) [OF ledger_okD(1) [OF run(1)]]) simp
  have "get_run (cr_id run) (with_run run final db) = Some final"
    unfolding get_run_iff [OF dist] using run(2) by (simp add: image_iff final_def)
  then show "terminalize_run clk (cr_id run) (cr_state run) outcome (with_run run final db) = (Some final, with_run run final db)"
    by (rule terminalize_stored [OF dist run(3)]) (simp add: final_def)
qed

lemma terminalizing_open:
  assumes "faults_pass env" and "open_run db run"
  shows "terminalizing env run outcome n k db
    = k (Some (ended_run (re_clk env) run outcome)) (with_run run (ended_run (re_clk env) run outcome) db)"
proof -
  let ?f = "returning (terminalize_run (re_clk env) (cr_id run) (cr_state run) outcome)"
  have "?f db = (Inr (Some (ended_run (re_clk env) run outcome)), with_run run (ended_run (re_clk env) run outcome) db)"
    by (simp add: returning_def terminalize_open(1) [OF assms(2)])
  moreover from this have "?f (snd (?f db)) = ?f db"
    by (simp add: returning_def terminalize_open(2) [OF assms(2)])
  ultimately show ?thesis
    using with_lock_retries_pass [OF assms(1), of ?f db "AtTerminalize (cr_id run)"] by (simp add: terminalizing_def)
qed

lemma finish_failed_open:
  assumes "faults_pass env" and "open_run db run"
  shows "finish_failed_run env run reason n db
    = (Inr (Some (recon_block run reason n (Some (ended_run (re_clk env) run OutVerificationFailed)))),
       with_run run (ended_run (re_clk env) run OutVerificationFailed) db)"
  by (simp add: finish_failed_run_def terminalizing_open [OF assms])

lemma finalize_open:
  assumes "faults_pass env" and "open_run db run" and "rs \<noteq> []" and "\<forall>r \<in> set rs. rc_status r \<noteq> AppliedUnverified"
  defines "failed \<equiv> (\<exists>r \<in> set rs. rc_status r \<noteq> Verified)"
  defines "final \<equiv> ended_run (re_clk env) run (if failed then OutVerificationFailed else OutApplied)"
  shows "finalize_if_possible env run rs n db
    = (Inr (Some (if failed then recon_block run ''verification_failed'' n (Some final)
         else recon_continue run ''run_finalized'' n (Some final))), with_run run final db)"
  using assms(3,4) unfolding failed_def final_def
  by (auto simp: finalize_if_possible_def Let_def terminalizing_open [OF assms(1,2)] or_stored_def)

section \<open>The pending receipts\<close>

text \<open>What the verifier says of a pending receipt of a run; \<open>Inl\<close> when there is nothing to verify it by.\<close>

definition judgement :: "reconcile_env \<Rightarrow> curation_run \<Rightarrow> receipt \<Rightarrow> verdict" where
  "judgement env run r = (case rc_descriptor r of
       Some d \<Rightarrow> descriptor_verdict (re_verifier env) r d
     | None \<Rightarrow> (case re_resolve env run r of
         Inr (Some a) \<Rightarrow>
           if rc_action r \<noteq> en_action_id (action_envelope a) then Inl (RuntimeError ''receipt identity does not match action'')
           else if rc_operation r \<noteq> operation_text (action_operation a)
           then Inl (RuntimeError ''receipt operation does not match action'')
           else action_verdict (re_verifier env) r a
       | _ \<Rightarrow> Inl (RuntimeError ''unresolved'')))"

definition closed_receipt :: "reconcile_env \<Rightarrow> curation_run \<Rightarrow> receipt \<Rightarrow> receipt" where
  "closed_receipt env run r = finished_receipt (ve_clk (re_verifier env)) r
     (case judgement env run r of Inl e \<Rightarrow> None | Inr c \<Rightarrow> c)"

lemma closed_receipt_simps [simp]:
  "receipt_key (closed_receipt env run r) = receipt_key r" "rc_status (closed_receipt env run r) \<noteq> AppliedUnverified"
  "rc_intent (closed_receipt env run r) = rc_intent r"
  "judgement env run r = Inr c \<Longrightarrow> rc_status (closed_receipt env run r) = (if c = None then Verified else VerificationFailed)"
  by (simp_all add: closed_receipt_def)

definition pending_in :: "curation_db \<Rightarrow> receipt \<Rightarrow> bool" where
  "pending_in db r = (r \<in> set (cd_receipts db) \<and> rc_status r = AppliedUnverified \<and> receipt_key r \<notin> cd_broken db)"

lemma judgement_no_db: "no_db_error (judgement env run r)"
  by (auto simp: judgement_def verdict_no_db split: option.split sum.split)

lemma finish_verdict_twice:
  assumes ok: "ledger_ok db" and r: "pending_in db r"
    and f: "\<And>d current. get_receipt (rc_run r) (rc_action r) d = Inr (Some current) \<Longrightarrow>
        f d = (if rc_status current \<noteq> AppliedUnverified then (Inr current, d) else finish_verdict (re_verifier env) current (v current) d)"
    and v: "v r = judgement env run r"
  shows "f db = (case judgement env run r of Inl e \<Rightarrow> (Inl e, db)
      | Inr c \<Rightarrow> (Inr (closed_receipt env run r), with_receipt r (closed_receipt env run r) db))"
    and "f (snd (f db)) = f db"
proof -
  let ?new = "closed_receipt env run r"
  note dist = ledger_okD(2) [OF ok]
  have key: "receipt_key r = (rc_run r, rc_action r)" by (simp add: receipt_key_def)
  have r': "r \<in> set (cd_receipts db)" "rc_status r = AppliedUnverified" "(rc_run r, rc_action r) \<notin> cd_broken db"
    using r unfolding pending_in_def key by blast+
  have get: "get_receipt (rc_run r) (rc_action r) db = Inr (Some r)" by (rule get_receiptI [OF dist r'(1) key r'(3)])
  show once: "f db = (case judgement env run r of Inl e \<Rightarrow> (Inl e, db) | Inr c \<Rightarrow> (Inr ?new, with_receipt r ?new db))"
    using f [OF get] r'(2) v finish_receipt_cases [OF ok get r'(2)]
    by (simp add: finish_verdict_def closed_receipt_def split: sum.split)
  have "distinct (map receipt_key (cd_receipts (with_receipt r ?new db)))"
    unfolding with_receipt_simps by (rule distinct_keyed(1) [OF dist]) simp
  then have "get_receipt (rc_run r) (rc_action r) (with_receipt r ?new db) = Inr (Some ?new)"
    using r' key by (intro get_receiptI) auto
  from f [OF this] show "f (snd (f db)) = f db" unfolding once by (simp split: sum.split) (simp add: once)
qed

lemma verify_pending_cases:
  assumes "ledger_ok db" and "pending_in db r"
  shows "case verify_pending env run r of
      Inl _ \<Rightarrow> \<exists>e. judgement env run r = Inl e
    | Inr f \<Rightarrow> f db = (case judgement env run r of Inl e \<Rightarrow> (Inl e, db)
          | Inr c \<Rightarrow> (Inr (closed_receipt env run r), with_receipt r (closed_receipt env run r) db))
        \<and> f (snd (f db)) = f db"
proof (cases "rc_descriptor r")
  case (Some d)
  have "judgement env run r = descriptor_verdict (re_verifier env) r d" by (simp add: judgement_def Some)
  note twice = finish_verdict_twice [OF assms, where f = "verify_descriptor (re_verifier env) r d"
      and v = "\<lambda>c. descriptor_verdict (re_verifier env) c d" and env = env and run = run, OF _ this [symmetric]]
  show ?thesis using twice by (simp add: verify_pending_def Some verify_descriptor_def)
next
  case None
  show ?thesis
  proof (cases "\<exists>a. re_resolve env run r = Inr (Some a)")
    case True
    then obtain a where a: "re_resolve env run r = Inr (Some a)" by blast
    let ?v = "\<lambda>c. if rc_action r \<noteq> en_action_id (action_envelope a) then Inl (RuntimeError ''receipt identity does not match action'')
           else if rc_operation c \<noteq> operation_text (action_operation a)
           then Inl (RuntimeError ''receipt operation does not match action'')
           else action_verdict (re_verifier env) c a"
    have "judgement env run r = ?v r" by (simp add: judgement_def None a)
    note twice = finish_verdict_twice [OF assms, where f = "verify (re_verifier env) r a" and v = ?v and env = env and run = run,
        OF _ this [symmetric]]
    have "verify (re_verifier env) r a d = (if rc_status current \<noteq> AppliedUnverified then (Inr current, d)
        else finish_verdict (re_verifier env) current (?v current) d)"
      if "get_receipt (rc_run r) (rc_action r) d = Inr (Some current)" for d current
    proof -
      have "rc_run current = rc_run r" "rc_action current = rc_action r"
        using get_receipt_SomeD [OF that] by (simp_all add: receipt_key_def)
      then show ?thesis using that by (simp add: verify_def finish_verdict_def)
    qed
    from twice [OF this] show ?thesis by (simp add: verify_pending_def None a)
  next
    case False
    then show ?thesis by (auto simp: verify_pending_def judgement_def None split: sum.splits option.splits)
  qed
qed

lemma open_run_cong:
  assumes "open_run db run" and "ledger_ok db'" and "cd_runs db' = cd_runs db"
  shows "open_run db' run"
  using assms by (simp add: open_run_def)

lemma closed_ok: "ledger_ok db \<Longrightarrow> pending_in db r \<Longrightarrow> ledger_ok (with_receipt r (closed_receipt env run r) db)"
  by (rule with_receipt_ok) (simp_all add: pending_in_def ledger_okD(4))

text \<open>One pending receipt is either closed, and the others follow, or the run is ended.\<close>

lemma verify_each_step:
  assumes env: "faults_pass env" and run: "open_run db run" and r: "pending_in db r"
  shows "case judgement env run r of
      Inl _ \<Rightarrow> \<exists>reason. verify_each env run (r # rs) n db
        = (let final = ended_run (re_clk env) run OutVerificationFailed in
           (Inl (Inr (Some (recon_block run reason n (Some final)))), with_run run final db))
    | Inr c \<Rightarrow> \<exists>n'. verify_each env run (r # rs) n db
        = verify_each env run rs n' (with_receipt r (closed_receipt env run r) db)"
proof -
  note failed = finish_failed_open [OF env run]
  note c = verify_pending_cases [OF open_runD(1) [OF run] r, of env run]
  show ?thesis
  proof (cases "verify_pending env run r")
    case (Inl reason)
    then show ?thesis using c by (auto simp: Let_def failed)
  next
    case (Inr f)
    have ndb: "no_db_error (fst (f db))"
      using c judgement_no_db [of env run r] by (auto simp: Inr split: sum.splits)
    have res: "with_lock_retries (re_fault env s) f db = f db" for s
      using c unfolding Inr sum.case by (intro with_lock_retries_pass [OF env, of f db, OF _ ndb]) (rule conjunct2)
    show ?thesis
    proof (cases "judgement env run r")
      case j: (Inl e)
      then have "f db = (Inl e, db)" using c by (simp add: Inr)
      moreover have "\<forall>m. e \<noteq> OperationalError m" using judgement_no_db [of env run r] by (simp add: j)
      ultimately show ?thesis
        by (cases e) (auto simp: Inr j res failed Let_def)
    next
      case j: (Inr code)
      then have "f db = (Inr (closed_receipt env run r), with_receipt r (closed_receipt env run r) db)" using c by (simp add: Inr)
      then show ?thesis by (auto simp: Inr j res Let_def)
    qed
  qed
qed

text \<open>The pending receipts as a whole.\<close>

definition closing :: "reconcile_env \<Rightarrow> curation_run \<Rightarrow> receipt set \<Rightarrow> receipt \<Rightarrow> receipt" where
  "closing env run ps s = (if s \<in> ps then closed_receipt env run s else s)"

lemma verify_each_open:
  assumes env: "faults_pass env"
  shows "open_run db run \<Longrightarrow> distinct ps \<Longrightarrow> \<forall>r \<in> set ps. pending_in db r \<Longrightarrow>
    (if \<forall>r \<in> set ps. judgement env run r \<in> range Inr
     then \<exists>n' db'. verify_each env run ps n db = (Inr n', db') \<and> open_run db' run
        \<and> cd_receipts db' = map (closing env run (set ps)) (cd_receipts db) \<and> cd_broken db' = cd_broken db
     else \<exists>reason n' db'. open_run db' run \<and> verify_each env run ps n db
        = (let final = ended_run (re_clk env) run OutVerificationFailed in
           (Inl (Inr (Some (recon_block run reason n' (Some final)))), with_run run final db')))"
proof (induction ps arbitrary: n db)
  case Nil
  then show ?case by (simp add: closing_def map_idI)
next
  case (Cons r rs)
  have r: "pending_in db r" using Cons.prems(3) by simp
  note step = verify_each_step [OF env Cons.prems(1) r, of rs n]
  show ?case
  proof (cases "judgement env run r")
    case (Inl e)
    then show ?thesis using step Cons.prems(1) by (auto simp: Let_def)
  next
    case (Inr code)
    let ?r = "closed_receipt env run r"
    let ?db = "with_receipt r ?r db"
    obtain n' where eq: "verify_each env run (r # rs) n db = verify_each env run rs n' ?db" using step Inr by auto
    have run: "open_run ?db run"
      by (rule open_run_cong [OF Cons.prems(1)]) (simp_all add: closed_ok [OF open_runD(1) [OF Cons.prems(1)] r])
    have rs: "\<forall>s \<in> set rs. pending_in ?db s" using Cons.prems(2,3) by (auto simp: pending_in_def image_iff)
    have "?r \<notin> set rs" using rs closed_receipt_simps(2) by (auto simp: pending_in_def)
    then have comp: "closing env run (set rs) (if s = r then ?r else s) = closing env run (set (r # rs)) s" for s
      using Cons.prems(2) by (simp add: closing_def)
    have rows: "map (closing env run (set rs)) (cd_receipts ?db) = map (closing env run (set (r # rs))) (cd_receipts db)"
      by (simp add: comp)
    have all: "(\<forall>s \<in> set (r # rs). judgement env run s \<in> range Inr) = (\<forall>s \<in> set rs. judgement env run s \<in> range Inr)"
      by (simp add: Inr)
    from Cons.IH [OF run _ rs, of n'] Cons.prems(2) show ?thesis unfolding eq all rows with_receipt_simps(3) by simp
  qed
qed

section \<open>A run with receipts\<close>

definition settled :: "reconcile_env \<Rightarrow> curation_run \<Rightarrow> receipt \<Rightarrow> bool" where
  "settled env run r = (if rc_status r = AppliedUnverified then judgement env run r = Inr None else rc_status r = Verified)"

lemma closing_settled:
  assumes "r \<in> set rs" and "\<forall>r \<in> set rs. rc_status r = AppliedUnverified \<longrightarrow> judgement env run r \<in> range Inr"
  defines "ps \<equiv> set (filter (\<lambda>r. rc_status r = AppliedUnverified) rs)"
  shows "rc_status (closing env run ps r) \<noteq> AppliedUnverified"
    and "rc_status (closing env run ps r) = Verified \<longleftrightarrow> settled env run r"
proof -
  have "rc_status (closing env run ps r) \<noteq> AppliedUnverified \<and> (rc_status (closing env run ps r) = Verified \<longleftrightarrow> settled env run r)"
  proof (cases "rc_status r = AppliedUnverified")
    case True
    then obtain c where "judgement env run r = Inr c" using assms(1,2) by auto
    then show ?thesis using True assms(1) by (simp add: closing_def settled_def ps_def)
  qed (simp add: closing_def settled_def ps_def)
  then show "rc_status (closing env run ps r) \<noteq> AppliedUnverified"
    and "rc_status (closing env run ps r) = Verified \<longleftrightarrow> settled env run r" by blast+
qed

lemma open_ended:
  assumes "open_run db run"
  shows "get_run (cr_id run) (with_run run (ended_run clk run o') db) = Some (ended_run clk run o')"
proof -
  note run = open_runD [OF assms]
  have dist: "distinct (map cr_id (cd_runs (with_run run (ended_run clk run o') db)))"
    unfolding with_run_simps by (rule distinct_keyed(1) [OF ledger_okD(1) [OF run(1)]]) simp
  show ?thesis unfolding get_run_iff [OF dist] using run(2) by (simp add: image_iff)
qed

lemma limit_rows_distinct: "distinct xs \<Longrightarrow> distinct (limit_rows n xs)"
  by (simp add: limit_rows_def distinct_take)

lemma reconcile_run_ends:
  assumes env: "faults_pass env" and run: "open_run db run" and rs: "list_receipts (cr_id run) 100 db = Inr rs" "rs \<noteq> []"
  defines "good \<equiv> (\<forall>r \<in> set rs. settled env run r)"
  shows "\<exists>o' db'. reconcile_run env run db = (Inr (Some o'), db')
    \<and> get_run (cr_id run) db' = Some (ended_run (re_clk env) run (if good then OutApplied else OutVerificationFailed))
    \<and> ro_disposition o' = (if good then DispContinue else DispBlock)"
proof -
  let ?ps = "filter (\<lambda>r. rc_status r = AppliedUnverified) rs"
  have listed: "reading_receipts env run final n k d = k ts d" if "list_receipts (cr_id run) 100 d = Inr ts" for final n k d ts
    using reading_pass [OF env, of "list_receipts (cr_id run) 100" d] that by (simp add: reading_receipts_def)
  have ends: "\<exists>o' db'. finalize_if_possible env run ts n d = (Inr (Some o'), db')
      \<and> get_run (cr_id run) db' = Some (ended_run (re_clk env) run (if good then OutApplied else OutVerificationFailed))
      \<and> ro_disposition o' = (if good then DispContinue else DispBlock)"
    if "open_run d run" "ts \<noteq> []" "\<forall>r \<in> set ts. rc_status r \<noteq> AppliedUnverified"
      "(\<exists>r \<in> set ts. rc_status r \<noteq> Verified) = (\<not> good)" for ts n d
    using finalize_open [OF env that(1-3), of n] open_ended [OF that(1)] that(4)
    by (auto simp: recon_block_def recon_continue_def)
  show ?thesis
  proof (cases "?ps = []")
    case True
    then have no: "\<forall>r \<in> set rs. rc_status r \<noteq> AppliedUnverified" by (simp add: filter_empty_conv)
    have "(\<exists>r \<in> set rs. rc_status r \<noteq> Verified) = (\<not> good)" using no by (auto simp: good_def settled_def)
    from ends [OF run rs(2) no this] show ?thesis
      using True by (simp add: reconcile_run_def listed [OF rs(1)])
  next
    case False
    have dist: "distinct (cd_receipts db)" using ledger_okD(2) [OF open_runD(1) [OF run]] by (simp add: distinct_map)
    have rows: "distinct rs" "\<forall>r \<in> set rs. r \<in> set (cd_receipts db) \<and> receipt_key r \<notin> cd_broken db"
      using rs(1) limit_rows_distinct [OF distinct_filter [OF dist]] listed_receipts [OF rs(1)]
      by (auto simp: list_receipts_def Let_def split: sum.splits if_splits)
    then have ps: "distinct ?ps" "\<forall>r \<in> set ?ps. pending_in db r" by (auto simp: pending_in_def)
    note each = verify_each_open [OF env run ps, of 0]
    show ?thesis
    proof (cases "\<forall>r \<in> set ?ps. judgement env run r \<in> range Inr")
      case True
      then obtain n db' where v: "verify_each env run ?ps 0 db = (Inr n, db')" "open_run db' run"
          "cd_receipts db' = map (closing env run (set ?ps)) (cd_receipts db)" "cd_broken db' = cd_broken db"
        using each unfolding if_P [OF True] by blast
      let ?ts = "map (closing env run (set ?ps)) rs"
      have ts: "list_receipts (cr_id run) 100 db' = Inr ?ts"
        by (rule list_receipts_map [OF rs(1) _ v(3,4)]) (simp add: closing_def)
      have j: "\<forall>r \<in> set rs. rc_status r = AppliedUnverified \<longrightarrow> judgement env run r \<in> range Inr" using True by auto
      note closed = closing_settled [OF _ j]
      have good: "(\<exists>r \<in> set ?ts. rc_status r \<noteq> Verified) = (\<not> good)" using closed(2) by (auto simp: good_def)
      have clean: "\<forall>r \<in> set ?ts. rc_status r \<noteq> AppliedUnverified" using closed(1) by auto
      have "?ts \<noteq> []" using rs(2) by simp
      note ends = ends [OF v(2) this clean good, of n]
      have eq: "reconcile_run env run db = finalize_if_possible env run ?ts n db'"
        unfolding reconcile_run_def listed [OF rs(1)] Let_def if_not_P [OF False] v(1) prod.case sum.case by (rule listed [OF ts])
      from ends show ?thesis unfolding eq .
    next
      case no: False
      then obtain reason n db' where v: "open_run db' run"
          "verify_each env run ?ps 0 db = (Inl (Inr (Some (recon_block run reason n
              (Some (ended_run (re_clk env) run OutVerificationFailed))))), with_run run (ended_run (re_clk env) run OutVerificationFailed) db')"
        using each unfolding if_not_P [OF no] Let_def by blast
      have "\<not> good" using no by (auto simp: good_def settled_def)
      moreover have "reconcile_run env run db = (Inr (Some (recon_block run reason n (Some (ended_run (re_clk env) run OutVerificationFailed)))),
          with_run run (ended_run (re_clk env) run OutVerificationFailed) db')"
        unfolding reconcile_run_def listed [OF rs(1)] Let_def if_not_P [OF False] v(2) by simp
      ultimately show ?thesis using open_ended [OF v(1)] by (simp add: recon_block_def)
    qed
  qed
qed

end
