(* ===== verification/CurationProps.thy ===== *)
theory CurationProps
  imports CurationLedger ReconcilerProgress
begin

text \<open>The properties of the curation ledger and of the recovery of its runs.\<close>

section \<open>Recovery under faults\<close>

lemma all_verified_move: "recon_move env db db' \<Longrightarrow> all_verified db i \<Longrightarrow> all_verified db' i"
proof (induction rule: recon_move.induct)
  case (move_receipt r db code)
  then obtain rs where rs: "list_receipts i 100 db = Inr rs" "rs \<noteq> []" "\<forall>r \<in> set rs. rc_status r = Verified"
    by (auto simp: all_verified_def)
  let ?r = "finished_receipt (ve_clk (re_verifier env)) r code"
  let ?f = "\<lambda>s. if s = r then ?r else s"
  have "map ?f rs = rs" using rs(3) move_receipt(2) by (intro map_idI) auto
  moreover have "list_receipts i 100 (with_receipt r ?r db) = Inr (map ?f rs)" by (rule list_receipts_map [OF rs(1)]) simp_all
  ultimately have "list_receipts i 100 (with_receipt r ?r db) = Inr rs" by simp
  with rs show ?case by (auto simp: all_verified_def)
next
  case (move_run run db outcome)
  then show ?case by (simp add: all_verified_def list_receipts_def bounded_limit_def)
qed

text \<open>What a recovery may have done.\<close>

definition recovered_runs :: "reconcile_env \<Rightarrow> curation_db \<Rightarrow> curation_db \<Rightarrow> bool" where
  "recovered_runs env db db' = ((\<forall>run \<in> set (cd_runs db). cr_state run = RunTerminal \<longrightarrow> run \<in> set (cd_runs db'))
     \<and> (\<forall>run \<in> set (cd_runs db'). run \<in> set (cd_runs db)
          \<or> (\<exists>r0 \<in> set (cd_runs db). \<exists>o'. cr_state r0 \<noteq> RunTerminal \<and> run = ended_run (re_clk env) r0 o'
               \<and> (o' = OutApplied \<longrightarrow> all_verified db' (cr_id run)))))"

definition recovered_receipts :: "reconcile_env \<Rightarrow> curation_db \<Rightarrow> curation_db \<Rightarrow> bool" where
  "recovered_receipts env db db' = ((\<forall>r \<in> set (cd_receipts db). rc_status r \<noteq> AppliedUnverified \<longrightarrow> r \<in> set (cd_receipts db'))
     \<and> (\<forall>r \<in> set (cd_receipts db'). r \<in> set (cd_receipts db)
          \<or> (\<exists>r0 \<in> set (cd_receipts db). \<exists>code. rc_status r0 = AppliedUnverified \<and> judged env r0 code
               \<and> r = finished_receipt (ve_clk (re_verifier env)) r0 code)))"

lemma recovered_step:
  assumes move: "recon_move env db1 db2" and so_far: "recovered_runs env db db1" "recovered_receipts env db db1"
  shows "recovered_runs env db db2 \<and> recovered_receipts env db db2"
  using move
proof cases
  case (move_receipt r code)
  have "recovered_runs env db db2"
    using so_far(1) all_verified_move [OF move] unfolding recovered_runs_def by (fastforce simp: move_receipt(1))
  moreover have "r \<in> set (cd_receipts db)"
    using so_far(2) move_receipt(2,3) unfolding recovered_receipts_def by (auto split: if_splits)
  then have "recovered_receipts env db db2"
    using so_far(2) move_receipt(3,4) unfolding recovered_receipts_def by (fastforce simp: move_receipt(1))
  ultimately show ?thesis by blast
next
  case (move_run run outcome)
  have "recovered_receipts env db db2" using so_far(2) by (simp add: move_run(1) recovered_receipts_def)
  moreover have verified: "all_verified db2 i" if "all_verified db1 i" for i using all_verified_move [OF move that] .
  have old: "run \<in> set (cd_runs db)"
    using so_far(1) move_run(2,3) unfolding recovered_runs_def by (metis ended_run_simps(2))
  have "recovered_runs env db db2"
    unfolding recovered_runs_def
  proof (intro conjI ballI impI)
    fix r assume "r \<in> set (cd_runs db)" "cr_state r = RunTerminal"
    then show "r \<in> set (cd_runs db2)"
      using so_far(1) move_run(3) unfolding recovered_runs_def by (force simp: move_run(1))
  next
    fix r assume "r \<in> set (cd_runs db2)"
    then consider (same) "r \<in> set (cd_runs db1)" | (new) "r = ended_run (re_clk env) run outcome"
      by (auto simp: move_run(1) split: if_splits)
    then show "r \<in> set (cd_runs db) \<or> (\<exists>r0 \<in> set (cd_runs db). \<exists>o'. cr_state r0 \<noteq> RunTerminal
        \<and> r = ended_run (re_clk env) r0 o' \<and> (o' = OutApplied \<longrightarrow> all_verified db2 (cr_id r)))"
    proof cases
      case same
      then show ?thesis using so_far(1) verified unfolding recovered_runs_def by blast
    next
      case new
      then show ?thesis using old move_run(3,4) verified by auto
    qed
  qed
  ultimately show ?thesis by blast
qed

lemma recovered_reached:
  assumes "reached env db db'"
  shows "recovered_runs env db db' \<and> recovered_receipts env db db'"
proof -
  have "(recon_move env)\<^sup>*\<^sup>* db db'" using assms by (simp add: reached_def)
  then show ?thesis
  proof (induction rule: rtranclp_induct)
    case base
    then show ?case by (simp add: recovered_runs_def recovered_receipts_def)
  next
    case (step db1 db2)
    then show ?case using recovered_step by blast
  qed
qed


text \<open>A run whose one action, a normalization, was applied before a crash; the first attempts to record
  its verification and the end of the run take effect but are reported as a locked database.\<close>

definition example_run :: curation_run where
  "example_run = \<lparr>cr_id = UUID ''r1'', cr_task = None, cr_epoch = None, cr_work_item = None, cr_frontier = ''f'',
     cr_strategy = None, cr_fingerprint = ''c'', cr_planner = None, cr_provider = None, cr_model = None,
     cr_policy_version = ''v1'', cr_schema_version = 1, cr_state = RunVerifying, cr_outcome = None, cr_plan = None,
     cr_rejection_codes = [], cr_retry_reason = None, cr_budget = [], cr_disclosure = [], cr_created = Some 1,
     cr_terminalized = None\<rparr>"

definition example_descriptor :: descriptor where
  "example_descriptor = \<lparr>vd_schema = 1, vd_operation = NormalizeMemoryOp, vd_target_ids = [UUID ''m1''],
     vd_target_status = Some VActive, vd_source = None, vd_target = None, vd_link_type = None, vd_context = None,
     vd_exists = None, vd_canonical = None, vd_source_ids = [], vd_child_ids = [], vd_split_group = None,
     vd_child_count = None\<rparr>"

definition example_receipt :: receipt where
  "example_receipt = \<lparr>rc_run = UUID ''r1'', rc_action = UUID ''a1'', rc_operation = ''normalize_memory'',
     rc_affected = [UUID ''m1''], rc_status = AppliedUnverified, rc_before = None, rc_after = Some ''v1:h'',
     rc_event = None, rc_intent = Some ''i'', rc_descriptor = Some example_descriptor, rc_error = None,
     rc_applied = Some 2, rc_verified = None\<rparr>"

definition example_ledger :: curation_db where
  "example_ledger = \<lparr>cd_runs = [example_run], cd_receipts = [example_receipt], cd_candidates = [], cd_broken = {},
     cd_events = {}\<rparr>"

definition example_memory :: memory_record where
  "example_memory = \<lparr>mr_id = ''m1'', mr_title = ''t'', mr_content = ''c'', mr_summary = None, mr_type = ''fact'',
     mr_status = ''active'', mr_created_at = [], mr_updated_at = [], mr_read_count = 0, mr_access_score = 0,
     mr_last_accessed = None, mr_last_surfaced = None, mr_metadata = [], mr_workspaces = [], mr_tags = [],
     mr_ref = None, mr_archived_at = None\<rparr>"

definition example_recovery :: reconcile_env where
  "example_recovery = \<lparr>re_verifier = \<lparr>ve_hashing = \<lparr>h_sha256 = (\<lambda>_. ''h''), h_uuid5 = (\<lambda>i _. i), h_float = (\<lambda>_. [])\<rparr>,
       ve_peek = (\<lambda>_. Some \<lparr>mx_record = example_memory, mx_relationships = [], mx_superseded = []\<rparr>),
       ve_repr = (\<lambda>_. []), ve_clk = 5\<rparr>,
     re_resolve = (\<lambda>_ _. Inr None), re_queue = None, re_clk = 6, re_stale_after = 60,
     re_fault = (\<lambda>s n. if n = 0 then RaisesAfter ''database is locked'' else NoFault)\<rparr>"

lemmas example_defs = example_run_def example_descriptor_def example_receipt_def example_ledger_def
  example_memory_def example_recovery_def

lemma example_ledger_ok: "ledger_ok example_ledger"
  by (simp add: ledger_ok_def example_defs receipt_key_def)

lemma example_recovered: "cd_runs (snd (reconcile example_recovery example_ledger)) = [ended_run 6 example_run OutApplied]"
  by code_simp


section \<open>Recovery when faults pass\<close>


lemma example_fault_passes: "passes (re_fault example_recovery s) 0 3"
  unfolding passes_def by (rule exI [of _ 1]) (simp add: example_recovery_def, code_simp)

lemma example_judged: "judgement example_recovery example_run example_receipt = Inr None"
  by code_simp


section \<open>The ledger over time\<close>

text \<open>C22. Whatever is written to the ledger, by whichever process and in whatever order, recovery under faults
  included: its tables keep their keys and references, no run and no receipt disappears, and a run that is over
  and a receipt that is decided stay exactly as they are.\<close>

theorem ledger_final:
  assumes "ledger_step\<^sup>*\<^sup>* empty_ledger db" and "ledger_step\<^sup>*\<^sup>* db db'"
  shows "ledger_ok db'
    \<and> (\<forall>run \<in> set (cd_runs db). cr_state run = RunTerminal \<longrightarrow> run \<in> set (cd_runs db'))
    \<and> (\<forall>r \<in> set (cd_receipts db). rc_status r \<noteq> AppliedUnverified \<longrightarrow> r \<in> set (cd_receipts db'))
    \<and> cr_id ` set (cd_runs db) \<subseteq> cr_id ` set (cd_runs db')
    \<and> receipt_key ` set (cd_receipts db) \<subseteq> receipt_key ` set (cd_receipts db')"
proof -
  have "ledger_ok empty_ledger" by (simp add: ledger_ok_def empty_ledger_def)
  with assms(1) have "ledger_ok db" using ledger_steps_good ledger_good_def by blast
  then show ?thesis using ledger_steps_good [OF assms(2)] by (simp add: ledger_good_def ledger_kept_def)
qed

lemma ledger_final_witness:
  "\<exists>db. ledger_step\<^sup>*\<^sup>* empty_ledger db \<and> ended_run 6 example_run OutApplied \<in> set (cd_runs (snd (reconcile example_recovery db)))
    \<and> ledger_ok (snd (reconcile example_recovery db))"
proof -
  let ?run = "ended_run 6 example_run OutApplied"
  let ?db = "snd (create_run 1 ?run empty_ledger)"
  have "ledger_step\<^sup>*\<^sup>* empty_ledger ?db" by (rule r_into_rtranclp) (rule step_create_run)
  moreover have "ledger_step\<^sup>*\<^sup>* ?db (snd (reconcile example_recovery ?db))" by (rule r_into_rtranclp) (rule step_reconcile)
  moreover have "?run \<in> set (cd_runs ?db)"
    by (simp add: create_run_def Let_def empty_ledger_def ended_run_def example_run_def now_or_def)
  ultimately show ?thesis using ledger_final [of ?db "snd (reconcile example_recovery ?db)"] by auto
qed

end
