(* ===== verification/Summaries.thy ===== *)
theory Summaries
  imports Texts
begin

text \<open>
  The summary of a memory made without a model, \<open>core/summaries.py\<close>. The horizontal ellipsis that ends a
  cut summary is one character outside of the range; the argument \<open>dots\<close> stands for it. A line
  has no white space at its ends when it is tried as a heading.
\<close>

section \<open>Patterns\<close>

definition MAX_SUMMARY_CHARS :: nat where
  "MAX_SUMMARY_CHARS = 220"

definition SIGNAL_VERBS :: "string list" where
  "SIGNAL_VERBS = [''add'', ''added'', ''archive'', ''archived'', ''capture'', ''captured'', ''clean'', ''completed'',
     ''consolidates'', ''create'', ''created'', ''document'', ''documents'', ''fix'', ''fixed'', ''harden'', ''hardened'',
     ''implement'', ''implemented'', ''improve'', ''improved'', ''link'', ''linked'', ''merge'', ''merged'', ''normalize'',
     ''normalized'', ''record'', ''records'', ''refresh'', ''refreshed'', ''repair'', ''repaired'', ''split'', ''summarize'',
     ''summarized'', ''surface'', ''surfaces'', ''track'', ''tracked'', ''update'', ''updated'', ''verify'', ''verified'']"

text \<open>The characters of \<open>[a-zA-Z0-9_:-]\<close>.\<close>

definition token_char :: "char \<Rightarrow> bool" where
  "token_char c = (let n = (of_char c :: nat) in
     (48 \<le> n \<and> n \<le> 58) \<or> (65 \<le> n \<and> n \<le> 90) \<or> n = 95 \<or> n = 45 \<or> (97 \<le> n \<and> n \<le> 122))"

text \<open>What follows the match of \<open>^\s*[-*+]\s+\<close>, and of \<open>^\s*[-*]?\s*\[[^\]]+\]\s*\<close>.\<close>

definition bullet_rest :: "string \<Rightarrow> string option" where
  "bullet_rest s = (case dropWhile py_isspace s of
       c # d # cs \<Rightarrow> if c \<in> set ''-*+'' \<and> py_isspace d then Some (dropWhile py_isspace cs) else None
     | _ \<Rightarrow> None)"

definition timestamp_rest :: "string \<Rightarrow> string option" where
  "timestamp_rest s =
     (let t = dropWhile py_isspace s;
          u = (case t of c # cs \<Rightarrow> if c \<in> set ''-*'' then dropWhile py_isspace cs else t | [] \<Rightarrow> [])
      in case u of
           c # cs \<Rightarrow> if c = CHR ''['' \<and> takeWhile (\<lambda>d. d \<noteq> CHR '']'') cs \<noteq> []
             then (case dropWhile (\<lambda>d. d \<noteq> CHR '']'') cs of [] \<Rightarrow> None | _ # ds \<Rightarrow> Some (dropWhile py_isspace ds)) else None
         | [] \<Rightarrow> None)"

text \<open>The heading of a line, by \<open>^\s{0,3}#+\s+(.+?)\s*$\<close>.\<close>

definition heading_of :: "string \<Rightarrow> string option" where
  "heading_of line =
     (let t = dropWhile py_isspace line; u = dropWhile (\<lambda>c. c = CHR ''#'') t; h = py_strip u
      in if length line - length t \<le> 3 \<and> u \<noteq> t \<and> h \<noteq> [] \<and> py_isspace (hd u) then Some h else None)"

section \<open>Pieces\<close>

definition token_set :: "string \<Rightarrow> string list" where
  "token_set s = remdups (map py_lower (char_runs token_char [] s))"

definition strip_line_prefix :: "string \<Rightarrow> string" where
  "strip_line_prefix v =
     (let s = (case bullet_rest v of None \<Rightarrow> v | Some r \<Rightarrow> r)
      in py_strip (case timestamp_rest s of None \<Rightarrow> s | Some r \<Rightarrow> r))"

definition trim_summary :: "char \<Rightarrow> nat \<Rightarrow> string \<Rightarrow> string" where
  "trim_summary dots n v =
     (let t = inline_text v in
      if length t \<le> n then t else rstrip_chars '' ,;:-'' (take (n - 1) t) @ [dots])"

text \<open>\<open>re.split(r"(?<=[.!?])\s+", s)\<close>: whether the last character ends a sentence, and whether the reading is inside
  of a separator.\<close>

fun sentence_parts :: "bool \<Rightarrow> bool \<Rightarrow> string \<Rightarrow> string \<Rightarrow> string list" where
  "sentence_parts ended inside acc [] = [rev acc]"
| "sentence_parts ended inside acc (c # cs) =
     (if py_isspace c \<and> inside then sentence_parts False True [] cs
      else if py_isspace c \<and> ended then rev acc # sentence_parts False True [] cs
      else sentence_parts (c \<in> set ''.!?'') False (c # acc) cs)"

definition split_sentences :: "string \<Rightarrow> string list" where
  "split_sentences s =
     (let t = inline_text s in
      if t = [] then [] else filter (\<lambda>p. p \<noteq> []) (map py_strip (sentence_parts False False [] t)))"

definition bullet_phrase :: "string \<Rightarrow> string" where
  "bullet_phrase v =
     (let lead = (case split_sentences v of [] \<Rightarrow> v | s # _ \<Rightarrow> s) in
      if CHR '':'' \<in> set lead
      then let left = takeWhile (\<lambda>c. c \<noteq> CHR '':'') lead; right = drop 1 (dropWhile (\<lambda>c. c \<noteq> CHR '':'') lead) in
        if 0 < length (py_strip left) \<and> length (py_strip left) \<le> 80 then inline_text left else inline_text right
      else inline_text lead)"

fun unique_phrases :: "string list \<Rightarrow> string list \<Rightarrow> string list" where
  "unique_phrases seen [] = []"
| "unique_phrases seen (p # ps) =
     (let t = rstrip_chars ''. '' (py_strip p) in
      if t = [] \<or> py_lower t \<in> set seen then unique_phrases seen ps else t # unique_phrases (py_lower t # seen) ps)"

definition join_phrases :: "string list \<Rightarrow> string" where
  "join_phrases phrases = (case unique_phrases [] phrases of
       [] \<Rightarrow> ''key points''
     | [p] \<Rightarrow> p
     | [p, q] \<Rightarrow> p @ '' and '' @ q
     | ps \<Rightarrow> py_join '', '' (butlast ps) @ '', and '' @ last ps)"

text \<open>\<open>_sentence_score\<close>; its first component is a whole number.\<close>

definition sentence_score :: "string list \<Rightarrow> string \<Rightarrow> int \<times> int \<times> int" where
  "sentence_score title_tokens sentence =
     (let tokens = token_set sentence;
          overlap = int (length (filter (\<lambda>t. t \<in> set title_tokens) tokens));
          verbs = int (length (filter (\<lambda>t. t \<in> set SIGNAL_VERBS) tokens));
          n = int (length sentence);
          length_bonus = (if 40 \<le> n \<and> n \<le> 180 then 2 else if 20 \<le> n \<and> n \<le> 220 then 1 else 0);
          punctuation_bonus = (if CHR '':'' \<in> set sentence \<or> CHR '';'' \<in> set sentence then 1 else 0)
      in (overlap * 4 + verbs * 3 + length_bonus + punctuation_bonus, overlap, - \<bar>n - 96\<bar>))"

section \<open>Summaries\<close>

fun prose_of :: "nat \<Rightarrow> string list \<Rightarrow> string option" where
  "prose_of n [] = None"
| "prose_of n [s] = (if length s \<le> n then Some s else None)"
| "prose_of n (s # t # ss) = (let joined = py_strip (s @ '' '' @ t) in if length joined \<le> n then Some joined else None)"

definition simple_prose_summary :: "nat \<Rightarrow> string \<Rightarrow> string option" where
  "simple_prose_summary n content = (case filter (\<lambda>l. l \<noteq> []) (map py_strip (split_lines content)) of
       [line] \<Rightarrow>
         if bullet_rest line \<noteq> None \<or> heading_of line \<noteq> None then None else prose_of n (split_sentences line)
     | _ \<Rightarrow> None)"

definition bullet_lines :: "string \<Rightarrow> string list" where
  "bullet_lines content =
     List.map_filter (\<lambda>l. if l = [] \<or> heading_of l \<noteq> None then None
       else if bullet_rest l \<noteq> None \<or> timestamp_rest l \<noteq> None then Some (inline_text (strip_line_prefix l)) else None)
       (map py_strip (split_lines content))"

definition bullet_summary :: "char \<Rightarrow> nat \<Rightarrow> string \<Rightarrow> string option \<Rightarrow> string option" where
  "bullet_summary dots n content memory_type =
     (let ls = bullet_lines content; phrases = filter (\<lambda>p. p \<noteq> []) (map bullet_phrase ls) in
      if length ls < 2 \<or> phrases = [] then None
      else let lead = (if memory_type = Some ''reflection'' \<or> str_prefix ''Consolidated observations:'' content
                       then ''Consolidates'' else ''Covers'')
        in Some (trim_summary dots n (lead @ '' '' @ join_phrases (take 3 phrases) @ ''.'')))"

definition line_candidates :: "string \<Rightarrow> string \<Rightarrow> string list" where
  "line_candidates title l =
     (if l = [] then []
      else case heading_of l of
        Some h \<Rightarrow> let heading = inline_text h in
          if heading \<noteq> [] \<and> py_lower heading \<noteq> py_lower title then [heading] else []
      | None \<Rightarrow> let cleaned = inline_text (strip_line_prefix l) in
          if cleaned = [] then [] else filter (\<lambda>s. s \<noteq> []) (split_sentences cleaned))"

definition candidate_sentences :: "string \<Rightarrow> string \<Rightarrow> string list" where
  "candidate_sentences title content = concat (map (line_candidates title) (map py_strip (split_lines content)))"

text \<open>\<open>sorted(..., reverse=True)[0]\<close>: the first of the highest score.\<close>

fun best_sentence :: "(string \<Rightarrow> int \<times> int \<times> int) \<Rightarrow> string \<Rightarrow> string list \<Rightarrow> string" where
  "best_sentence score s [] = s"
| "best_sentence score s (t # ts) = best_sentence score (if score s < score t then t else s) ts"

definition ranked_summary :: "char \<Rightarrow> nat \<Rightarrow> string \<Rightarrow> string \<Rightarrow> string" where
  "ranked_summary dots n title content = (case candidate_sentences title content of
       [] \<Rightarrow> []
     | s # ss \<Rightarrow> trim_summary dots n (best_sentence (sentence_score (token_set title)) s ss))"

definition first_line_summary :: "char \<Rightarrow> nat \<Rightarrow> string \<Rightarrow> string" where
  "first_line_summary dots n content =
     (case filter (\<lambda>l. l \<noteq> []) (map (\<lambda>l. inline_text (strip_line_prefix l)) (split_lines content)) of
        [] \<Rightarrow> trim_summary dots n (inline_text content)
      | l # _ \<Rightarrow> if length l \<le> n then l else trim_summary dots n l)"

definition build_deterministic_summary :: "char \<Rightarrow> string \<Rightarrow> string \<Rightarrow> string option \<Rightarrow> nat \<Rightarrow> string" where
  "build_deterministic_summary dots title content memory_type n =
     (let stripped = py_strip content in
      if stripped = [] then []
      else case bullet_summary dots n stripped memory_type of
        Some s \<Rightarrow> s
      | None \<Rightarrow> (case simple_prose_summary n stripped of
            Some s \<Rightarrow> s
          | None \<Rightarrow> let s = ranked_summary dots n (inline_text title) stripped in
              if s \<noteq> [] then s else first_line_summary dots n stripped))"

section \<open>Lemmas\<close>

lemma trim_length: "0 < n \<Longrightarrow> length (trim_summary dots n v) \<le> n"
  using length_rstrip [of "'' ,;:-''" "take (n - 1) (inline_text v)"]
  by (auto simp: trim_summary_def Let_def)

lemma trim_empty: "trim_summary dots n v = [] \<longleftrightarrow> inline_text v = []"
  by (cases "inline_text v") (simp_all add: trim_summary_def Let_def)

lemma trim_one_line: "\<not> py_isspace dots \<Longrightarrow> one_line (trim_summary dots n v)"
  using one_line_subset [OF inline_one_line [of v], of "rstrip_chars '' ,;:-'' (take (n - 1) (inline_text v))"]
    set_rstrip [of "'' ,;:-''" "take (n - 1) (inline_text v)"] set_take_subset [of "n - 1" "inline_text v"]
  by (auto simp: trim_summary_def Let_def)

lemma set_sentence_parts: "w \<in> set (sentence_parts e i acc s) \<Longrightarrow> set w \<subseteq> set acc \<union> set s"
  by (induction e i acc s arbitrary: w rule: sentence_parts.induct) (auto split: if_splits)

lemma split_sentences_props:
  assumes "w \<in> set (split_sentences s)"
  shows "w \<noteq> []" "one_line w" "\<exists>c \<in> set w. \<not> py_isspace c"
proof -
  obtain p where p: "p \<in> set (sentence_parts False False [] (inline_text s))" "w = py_strip p" "w \<noteq> []"
    using assms by (auto simp: split_sentences_def Let_def split: if_splits)
  show "w \<noteq> []" by fact
  show "one_line w" using set_sentence_parts [OF p(1)] set_py_strip [of p] p(2)
    by (intro one_line_subset [OF inline_one_line [of s]]) auto
  show "\<exists>c \<in> set w. \<not> py_isspace c" using p(2,3) py_strip_empty [of p] in_py_strip [of _ p] by blast
qed

lemma best_in: "best_sentence score s ts \<in> set (s # ts)"
proof (induction ts arbitrary: s)
  case (Cons t ts)
  then show ?case using Cons [of "if score s < score t then t else s"] by (auto split: if_splits)
qed simp

text \<open>What a summary may be: short, on one line and not empty.\<close>

definition good_summary :: "nat \<Rightarrow> string \<Rightarrow> bool" where
  "good_summary n s = (length s \<le> n \<and> one_line s \<and> s \<noteq> [])"

lemma trim_good:
  "0 < n \<Longrightarrow> \<not> py_isspace dots \<Longrightarrow> \<exists>c \<in> set v. \<not> py_isspace c \<Longrightarrow> good_summary n (trim_summary dots n v)"
  by (auto simp: good_summary_def trim_length trim_one_line trim_empty inline_empty)

lemma bullet_good:
  assumes "0 < n" "\<not> py_isspace dots" "bullet_summary dots n content ty = Some s"
  shows "good_summary n s"
proof -
  obtain v where v: "s = trim_summary dots n v" "CHR ''C'' \<in> set v"
    using assms(3) by (auto simp: bullet_summary_def Let_def split: if_splits)
  moreover have "\<not> py_isspace (CHR ''C'')" by (simp add: py_isspace_def)
  ultimately show ?thesis unfolding v(1) using assms(1,2) trim_good by blast
qed

lemma prose_good:
  assumes "prose_of n ss = Some s" and "\<And>w. w \<in> set ss \<Longrightarrow> w \<noteq> [] \<and> one_line w \<and> (\<exists>c \<in> set w. \<not> py_isspace c)"
  shows "good_summary n s"
  using assms
proof (induction n ss rule: prose_of.induct)
  case (3 n a b ss)
  have s: "s = py_strip (a @ '' '' @ b)" "length s \<le> n"
    using "3.prems"(1) by (simp_all add: Let_def split: if_splits)
  have ab: "one_line a" "\<exists>c \<in> set a. \<not> py_isspace c" "one_line b" using "3.prems"(2) by simp_all
  have "one_line s" unfolding s(1) using ab(1,3) by (intro one_line_subset [OF _ set_py_strip]) simp
  moreover have "s \<noteq> []" unfolding s(1) py_strip_empty using ab(2) by auto
  ultimately show ?case using s(2) by (simp add: good_summary_def)
qed (auto simp: good_summary_def split: if_splits)

lemma simple_good:
  assumes "simple_prose_summary n content = Some s"
  shows "good_summary n s"
proof -
  obtain line where "prose_of n (split_sentences line) = Some s"
    using assms by (auto simp: simple_prose_summary_def split: list.splits if_splits)
  then show ?thesis by (rule prose_good) (use split_sentences_props in blast)
qed

lemma candidate_visible: "w \<in> set (candidate_sentences title content) \<Longrightarrow> \<exists>c \<in> set w. \<not> py_isspace c"
  by (auto simp: candidate_sentences_def line_candidates_def Let_def intro: inline_visible split_sentences_props(3)
      split: if_splits option.splits)

lemma ranked_good:
  assumes "0 < n" "\<not> py_isspace dots" "ranked_summary dots n title content \<noteq> []"
  shows "good_summary n (ranked_summary dots n title content)"
proof (cases "candidate_sentences title content")
  case (Cons a as)
  let ?b = "best_sentence (sentence_score (token_set title)) a as"
  have "\<exists>c \<in> set ?b. \<not> py_isspace c" using candidate_visible [of ?b title content] best_in [of _ a as] Cons by simp
  then show ?thesis using trim_good [OF assms(1,2)] Cons by (simp add: ranked_summary_def)
qed (use assms in \<open>simp add: ranked_summary_def\<close>)

lemma first_line_good:
  assumes "0 < n" "\<not> py_isspace dots" "\<exists>c \<in> set content. \<not> py_isspace c"
  shows "good_summary n (first_line_summary dots n content)"
proof (cases "filter (\<lambda>l. l \<noteq> []) (map (\<lambda>l. inline_text (strip_line_prefix l)) (split_lines content))")
  case Nil
  have "\<exists>c \<in> set (inline_text content). \<not> py_isspace c" using assms(3) inline_visible [of content] by (auto simp: inline_empty)
  then show ?thesis using trim_good [OF assms(1,2)] by (simp add: first_line_summary_def Nil)
next
  case (Cons l ls)
  then have "l \<in> set (filter (\<lambda>l. l \<noteq> []) (map (\<lambda>l. inline_text (strip_line_prefix l)) (split_lines content)))" by simp
  then obtain k where k: "l = inline_text k" "l \<noteq> []" by auto
  then have "\<exists>c \<in> set l. \<not> py_isspace c" using inline_visible by simp
  then have "good_summary n (trim_summary dots n l)" by (rule trim_good [OF assms(1,2)])
  moreover have "length l \<le> n \<Longrightarrow> good_summary n l" using k by (simp add: good_summary_def)
  ultimately show ?thesis using Cons by (simp add: first_line_summary_def)
qed

section \<open>The shape of a summary\<close>

text \<open>C35. The summary of a text is at most as long as asked for, has no line breaks, tabs or other white space than blanks,
  and is empty exactly if there is nothing to summarize.\<close>

theorem summary_shape:
  assumes "0 < n" and "\<not> py_isspace dots" and "s = build_deterministic_summary dots title content memory_type n"
  shows "length s \<le> n \<and> (\<forall>c \<in> set s. py_isspace c \<longrightarrow> c = CHR '' '') \<and> (s = [] \<longleftrightarrow> (\<forall>c \<in> set content. py_isspace c))"
proof (cases "py_strip content = []")
  case True
  then show ?thesis using assms(3) by (simp add: build_deterministic_summary_def py_strip_empty)
next
  case False
  then have visible: "\<exists>c \<in> set content. \<not> py_isspace c" by (simp add: py_strip_empty)
  then have "\<exists>c \<in> set (py_strip content). \<not> py_isspace c" using in_py_strip [of _ content] by blast
  note last_resort = first_line_good [OF assms(1,2) this]
  have "good_summary n s"
    using False assms(3) bullet_good [OF assms(1,2)] simple_good ranked_good [OF assms(1,2)] last_resort
    by (simp add: build_deterministic_summary_def Let_def split: option.splits if_splits)
  then show ?thesis using visible by (auto simp: good_summary_def one_line_def)
qed

lemma summary_shape_witness:
  "length (build_deterministic_summary (CHR ''~'') ''Plan'' (''- fix: the parser'' @ [CHR 0x0A] @ ''- add: more tests'') None 20) \<le> 20
    \<and> build_deterministic_summary (CHR ''~'') ''Plan'' (''- fix: the parser'' @ [CHR 0x0A] @ ''- add: more tests'') None 20 \<noteq> []"
proof -
  have "\<not> py_isspace (CHR ''~'')" by (simp add: py_isspace_def)
  from summary_shape [OF _ this refl, of 20 "''Plan''" "(''- fix: the parser'' @ [CHR 0x0A] @ ''- add: more tests'')" None] show ?thesis by (auto simp: py_isspace_def)
qed

end
