(* ===== verification/ActionTransaction.thy ===== *)
theory ActionTransaction
  imports CurationVerifier EmbeddingRepairs Summaries
begin

text \<open>
  The transaction that a curation action runs in, \<open>curation_action_uow.py\<close> and the class
  \<open>_SQLiteCurationTransaction\<close> of \<open>curation_action_store.py\<close>: its database, its operations and the
  callbacks that call them. Fresh identifiers and the clock are parameters; texts are in NFC already.
\<close>

section \<open>Errors\<close>

text \<open>\<open>CurationActionError\<close> and its subclasses; \<open>Raised\<close> is any other exception.\<close>

datatype action_error =
    ActionStale string | ActionTransient string | ActionFatal string | ActionContract string string
  | ActionInjected string | Raised py_error

type_synonym 'a act = "action_error + 'a"

fun bind_act :: "'a act \<Rightarrow> ('a \<Rightarrow> 'b act) \<Rightarrow> 'b act" where
  "bind_act (Inl e) f = Inl e"
| "bind_act (Inr x) f = f x"

fun raising :: "'a res \<Rightarrow> 'a act" where
  "raising (Inl e) = Inl (Raised e)"
| "raising (Inr x) = Inr x"

definition require :: "bool \<Rightarrow> action_error \<Rightarrow> unit act" where
  "require b e = (if b then Inr () else Inl e)"

definition quoted :: "string \<Rightarrow> string" where
  "quoted s = [CHR 0x27] @ s @ [CHR 0x27]"

section \<open>The database\<close>

text \<open>A row of \<open>memories\<close> with its workspaces and its tags; \<open>memories_fts\<close> is the search index.\<close>

record fts_row =
  fr_id :: string
  fr_title :: string
  fr_summary :: string
  fr_content :: string
  fr_tags :: "string list"

record protection_row =
  pt_memory :: string
  pt_mode :: string
  pt_reason :: string
  pt_actor :: "string option"
  pt_created :: string
  pt_expires :: "string option"

datatype event_status = EventApplied | EventRejected | EventStale | EventFailed

record mutation_event =
  mv_id :: uuid
  mv_operation :: string
  mv_actor_kind :: string
  mv_actor :: "string option"
  mv_family :: "string option"
  mv_task :: "uuid option"
  mv_run :: "uuid option"
  mv_plan :: "uuid option"
  mv_action :: "uuid option"
  mv_provider :: "string option"
  mv_reason :: "string option"
  mv_rationale :: "string option"
  mv_policy :: "string option"
  mv_schema :: int
  mv_status :: event_status
  mv_restores :: "uuid option"
  mv_key :: "string option"
  mv_created :: string
  mv_terminal :: "string option"

record record_revision =
  rv_event :: uuid
  rv_memory :: string
  rv_role :: string
  rv_before_exists :: bool
  rv_before :: "json option"
  rv_after_exists :: bool
  rv_after :: "json option"
  rv_before_token :: "string option"
  rv_after_token :: "string option"

record link_revision =
  lv_event :: uuid
  lv_source :: string
  lv_target :: string
  lv_type :: string
  lv_context :: "string option"
  lv_before :: bool
  lv_after :: bool

record action_db =
  ad_ledger :: curation_db
  ad_memories :: "memory_record list"
  ad_links :: "memory_link list"
  ad_fts :: "fts_row list"
  ad_protections :: "protection_row list"
  ad_repairs :: "repair_item list"
  ad_events :: "mutation_event list"
  ad_record_revisions :: "record_revision list"
  ad_link_revisions :: "link_revision list"

record action_env =
  ax_hashing :: hashing
  ax_repr :: "json \<Rightarrow> string"
  ax_dots :: char
  ax_model :: string
  ax_clk :: time
  ax_now :: string
  ax_event :: uuid
  ax_new_id :: "nat \<Rightarrow> string"
  ax_repair_id :: "string \<Rightarrow> string"
  ax_dump :: "action_preconditions \<Rightarrow> json"
  ax_fault :: "string \<Rightarrow> action_error option"

text \<open>The constraints on \<open>memory_mutation_events\<close>: its key, its two partial unique indices and the event it restores.\<close>

definition event_insert_fails :: "mutation_event \<Rightarrow> mutation_event list \<Rightarrow> bool" where
  "event_insert_fails ev rows =
     (mv_id ev \<in> mv_id ` set rows
      \<or> mv_run ev \<noteq> None \<and> mv_action ev \<noteq> None \<and> (mv_run ev, mv_action ev) \<in> (\<lambda>v. (mv_run v, mv_action v)) ` set rows
      \<or> mv_key ev \<noteq> None \<and> mv_key ev \<in> mv_key ` set rows
      \<or> (case mv_restores ev of None \<Rightarrow> False | Some e \<Rightarrow> e \<notin> mv_id ` set rows))"

definition find_memory :: "string \<Rightarrow> action_db \<Rightarrow> memory_record option" where
  "find_memory i db = List.find (\<lambda>r. mr_id r = i) (ad_memories db)"

text \<open>\<open>_hydrate_record\<close>: workspaces and tags in order; the date of archiving is not read.\<close>

definition hydrate_record :: "memory_record \<Rightarrow> memory_record" where
  "hydrate_record r = r\<lparr>mr_workspaces := sort (mr_workspaces r), mr_tags := sort (mr_tags r), mr_archived_at := None\<rparr>"

definition link_key :: "memory_link \<Rightarrow> string \<times> string \<times> string" where
  "link_key l = (ml_source l, ml_target l, ml_type l)"

section \<open>Identities and values\<close>

definition canonical_id :: "string \<Rightarrow> string" where
  "canonical_id s = py_strip s"

definition canonical_target_ids :: "string list \<Rightarrow> string list act" where
  "canonical_target_ids vs =
     (let ids = map canonical_id vs in
      if [] \<in> set ids then Inl (ActionFatal ''target IDs must be non-empty'') else Inr (sorted_ids ids))"

definition external_id :: "string \<Rightarrow> bool" where
  "external_id i = str_prefix ''ext:'' i"

definition local_memory_ids :: "string list \<Rightarrow> string list act" where
  "local_memory_ids vs = bind_act (canonical_target_ids vs) (\<lambda>ids. Inr (filter (\<lambda>i. \<not> external_id i) ids))"

text \<open>\<open>text_or\<close>: a missing key and \<open>None\<close> fall back.\<close>

definition text_or :: "(json \<Rightarrow> string) \<Rightarrow> json option \<Rightarrow> string \<Rightarrow> string" where
  "text_or repr v fallback = (case v of
       None \<Rightarrow> fallback | Some JNull \<Rightarrow> fallback | Some w \<Rightarrow> py_strip (json_str repr w))"

definition normalized_values :: "(json \<Rightarrow> string) \<Rightarrow> json option \<Rightarrow> string list \<Rightarrow> string list res" where
  "normalized_values repr v fallback =
     (let clean = (\<lambda>xs. sorted_ids (filter (\<lambda>x. x \<noteq> []) (map py_strip xs))) in
      case v of
        None \<Rightarrow> Inr (clean fallback)
      | Some JNull \<Rightarrow> Inr (clean fallback)
      | Some (JList ws) \<Rightarrow> Inr (clean (map (json_str repr) ws))
      | _ \<Rightarrow> Inl (ValueError ''collection value expected''))"

definition uow_link_type :: "string \<Rightarrow> string res" where
  "uow_link_type s = (case normalize_link_type s of
       Inl e \<Rightarrow> Inl (ValueError ''link_type must be non-empty'') | Inr t \<Rightarrow> Inr t)"

definition metadata_value :: "json option \<Rightarrow> dict \<Rightarrow> dict res" where
  "metadata_value v fallback = (case v of
       None \<Rightarrow> Inr fallback | Some (JObj d) \<Rightarrow> Inr d | _ \<Rightarrow> Inl (ValueError ''metadata must be a mapping''))"

section \<open>Prepared updates and creations\<close>

record prepared_memory =
  pm_title :: string
  pm_content :: string
  pm_type :: string
  pm_status :: string
  pm_summary :: "string option"
  pm_workspaces :: "string list"
  pm_tags :: "string list"
  pm_metadata :: dict

definition str_key :: "(json \<Rightarrow> string) \<Rightarrow> dict \<Rightarrow> string list \<Rightarrow> string \<Rightarrow> string" where
  "str_key repr c keys fallback = (case List.map_filter (dict_get c) keys of [] \<Rightarrow> fallback | v # _ \<Rightarrow> json_str repr v)"

definition build_summary :: "action_env \<Rightarrow> string \<Rightarrow> string \<Rightarrow> string \<Rightarrow> string" where
  "build_summary env title content memory_type =
     build_deterministic_summary (ax_dots env) title content (Some memory_type) MAX_SUMMARY_CHARS"

definition updated_summary :: "action_env \<Rightarrow> memory_record \<Rightarrow> dict \<Rightarrow> string \<Rightarrow> string \<Rightarrow> string \<Rightarrow> string option" where
  "updated_summary env existing c title content memory_type = (case dict_get c ''summary'' of
       Some JNull \<Rightarrow> None
     | Some v \<Rightarrow> Some (json_str (ax_repr env) v)
     | None \<Rightarrow> if \<exists>k \<in> {''title'', ''content'', ''type'', ''memory_type''}. dict_get c k \<noteq> None
         then Some (build_summary env title content memory_type) else mr_summary existing)"

definition prepare_memory_update :: "action_env \<Rightarrow> memory_record \<Rightarrow> dict \<Rightarrow> prepared_memory res" where
  "prepare_memory_update env existing c =
     (let repr = ax_repr env;
          title = text_or repr (dict_get c ''title'') (mr_title existing);
          content = text_or repr (dict_get c ''content'') (mr_content existing);
          memory_type = str_key repr c [''memory_type'', ''type''] (mr_type existing);
          status = str_key repr c [''status''] (mr_status existing)
      in if title = [] \<or> content = [] then Inl (ValueError ''title and content must be non-empty'')
         else if memory_type \<notin> set VALID_MEMORY_TYPES then Inl (ValueError (''invalid memory_type: '' @ quoted memory_type))
         else if status \<notin> set VALID_MEMORY_STATUSES then Inl (ValueError (''invalid status: '' @ quoted status))
         else bind_res (normalized_values repr (dict_get c ''workspace_ids'') (mr_workspaces existing)) (\<lambda>ws.
           bind_res (normalized_values repr (dict_get c ''tags'') (mr_tags existing)) (\<lambda>tags.
           bind_res (metadata_value (dict_get c ''metadata'') (mr_metadata existing)) (\<lambda>md.
             Inr \<lparr>pm_title = title, pm_content = content, pm_type = memory_type, pm_status = status,
               pm_summary = updated_summary env existing c title content memory_type,
               pm_workspaces = ws, pm_tags = tags, pm_metadata = md\<rparr>))))"

text \<open>\<open>prepare_memory_create\<close>: also the identifier and the dates.\<close>

definition prepare_memory_create ::
  "action_env \<Rightarrow> string \<Rightarrow> dict \<Rightarrow> (string \<times> prepared_memory \<times> string \<times> string) act" where
  "prepare_memory_create env fresh c =
     (let repr = ax_repr env; title = py_strip (str_key repr c [''title''] []);
          content = py_strip (str_key repr c [''content''] []);
          memory_type = str_key repr c [''memory_type'', ''type''] ''journal''; status = str_key repr c [''status''] ''active'';
          created = str_key repr c [''created_at''] (ax_now env); updated = str_key repr c [''updated_at''] created
      in if dict_get c ''memory_id'' = Some JNull then Inl (ActionFatal ''identity must be non-null'')
         else if title = [] \<or> content = [] then Inl (Raised (ValueError ''title and content must be non-empty''))
         else if memory_type \<notin> set VALID_MEMORY_TYPES \<or> status \<notin> set VALID_MEMORY_STATUSES
         then Inl (Raised (ValueError ''invalid memory type or status''))
         else raising (bind_res (normalized_values repr (Some (case dict_get c ''workspace_ids'' of None \<Rightarrow> JList [] | Some v \<Rightarrow> v)) [])
           (\<lambda>ws. if ws = [] then Inl (ValueError ''workspace_ids must contain at least one non-empty value'')
             else bind_res (normalized_values repr (Some (case dict_get c ''tags'' of None \<Rightarrow> JList [] | Some v \<Rightarrow> v)) [])
               (\<lambda>tags. bind_res (metadata_value (dict_get c ''metadata'') []) (\<lambda>md.
                 Inr (canonical_id (str_key repr c [''memory_id''] fresh),
                   \<lparr>pm_title = title, pm_content = content, pm_type = memory_type, pm_status = status,
                    pm_summary = Some (if py_bool (dict_get c ''summary'') then str_key repr c [''summary''] []
                      else build_summary env title content memory_type),
                    pm_workspaces = ws, pm_tags = tags, pm_metadata = md\<rparr>, created, updated))))))"

section \<open>The transaction\<close>

record tx =
  tx_db :: action_db
  tx_targets :: "string set"
  tx_new :: "string set"
  tx_touched :: "string list"

type_synonym 'a tx_op = "tx \<Rightarrow> 'a act \<times> tx"

definition ret_tx :: "'a \<Rightarrow> 'a tx_op" where
  "ret_tx x s = (Inr x, s)"

definition bind_tx :: "'a tx_op \<Rightarrow> ('a \<Rightarrow> 'b tx_op) \<Rightarrow> 'b tx_op" where
  "bind_tx m f s = (case m s of (Inl e, s') \<Rightarrow> (Inl e, s') | (Inr x, s') \<Rightarrow> f x s')"

text \<open>A read of the state, and a write of it.\<close>

definition ask_tx :: "(tx \<Rightarrow> 'a act) \<Rightarrow> 'a tx_op" where
  "ask_tx f s = (f s, s)"

definition put_tx :: "(tx \<Rightarrow> tx) \<Rightarrow> unit tx_op" where
  "put_tx f s = (Inr (), f s)"

definition stage_tx :: "action_env \<Rightarrow> string \<Rightarrow> unit tx_op" where
  "stage_tx env stage s = (case ax_fault env stage of None \<Rightarrow> (Inr (), s) | Some e \<Rightarrow> (Inl e, s))"

definition touch_tx :: "string list \<Rightarrow> unit tx_op" where
  "touch_tx is = put_tx (\<lambda>s. s\<lparr>tx_touched := tx_touched s @ is\<rparr>)"

definition on_db :: "(action_db \<Rightarrow> action_db) \<Rightarrow> tx \<Rightarrow> tx" where
  "on_db f s = s\<lparr>tx_db := f (tx_db s)\<rparr>"

definition exists_memory :: "string \<Rightarrow> tx \<Rightarrow> bool" where
  "exists_memory i s = (find_memory i (tx_db s) \<noteq> None)"

definition require_access :: "string \<Rightarrow> string tx_op" where
  "require_access m = ask_tx (\<lambda>s. let i = canonical_id m in
     if i \<notin> tx_targets s \<and> i \<notin> tx_new s \<and> exists_memory i s
     then Inl (ActionFatal (''callback discovered unlocked target '' @ quoted i)) else Inr i)"

definition require_endpoint :: "string \<Rightarrow> string tx_op" where
  "require_endpoint m = ask_tx (\<lambda>s. let i = canonical_id m in
     if external_id i \<or> i \<in> tx_targets s \<or> i \<in> tx_new s then Inr i
     else if exists_memory i s then Inl (ActionFatal (''callback discovered unlocked link endpoint '' @ quoted i))
     else Inl (ActionFatal (''link endpoint '' @ quoted i @ '' does not exist'')))"

definition read_memory :: "string \<Rightarrow> memory_record option tx_op" where
  "read_memory i = ask_tx (\<lambda>s. Inr (map_option hydrate_record (find_memory i (tx_db s))))"

definition get_memory_tx :: "string \<Rightarrow> memory_record option tx_op" where
  "get_memory_tx m = bind_tx (require_access m) read_memory"

definition get_links_tx :: "string \<Rightarrow> string \<Rightarrow> string option \<Rightarrow> memory_link list tx_op" where
  "get_links_tx m direction link_type =
     bind_tx (require_access m) (\<lambda>i.
     bind_tx (ask_tx (\<lambda>_. case link_type of None \<Rightarrow> Inr None
                | Some t \<Rightarrow> raising (bind_res (uow_link_type t) (\<lambda>ty. Inr (Some ty))))) (\<lambda>ty.
       ask_tx (\<lambda>s. Inr (order_by link_key (filter (\<lambda>l.
           (if direction = ''incoming'' then ml_target l else ml_source l) = i
           \<and> (case ty of None \<Rightarrow> True | Some t \<Rightarrow> ml_type l = t)) (ad_links (tx_db s)))))))"

definition get_protections_tx :: "string \<Rightarrow> protection_row list tx_op" where
  "get_protections_tx m = bind_tx (require_access m) (\<lambda>i.
     ask_tx (\<lambda>s. Inr (order_by pt_mode (filter (\<lambda>p. pt_memory p = i) (ad_protections (tx_db s))))))"

text \<open>The columns of an update. The optional columns are numbers and texts.\<close>

definition optional_columns :: "(json \<Rightarrow> string) \<Rightarrow> dict \<Rightarrow> memory_record \<Rightarrow> memory_record" where
  "optional_columns repr c r =
     (let opt = (\<lambda>k old. case dict_get c k of None \<Rightarrow> old | Some JNull \<Rightarrow> None | Some v \<Rightarrow> Some (json_str repr v)) in
      r\<lparr>mr_access_score := (case dict_get c ''access_score'' of None \<Rightarrow> mr_access_score r
            | Some v \<Rightarrow> (case py_num v of None \<Rightarrow> 0 | Some x \<Rightarrow> x)),
        mr_last_accessed := opt ''last_accessed_at'' (mr_last_accessed r),
        mr_last_surfaced := opt ''last_surfaced_at'' (mr_last_surfaced r)\<rparr>)"

definition write_prepared :: "action_env \<Rightarrow> prepared_memory \<Rightarrow> dict \<Rightarrow> memory_record \<Rightarrow> memory_record" where
  "write_prepared env p c r = optional_columns (ax_repr env) c (r\<lparr>mr_title := pm_title p, mr_content := pm_content p,
     mr_summary := pm_summary p, mr_type := pm_type p, mr_status := pm_status p, mr_metadata := dict_sort (pm_metadata p),
     mr_updated_at := ax_now env, mr_workspaces := pm_workspaces p, mr_tags := pm_tags p\<rparr>)"

definition replace_fts :: "string \<Rightarrow> prepared_memory \<Rightarrow> action_db \<Rightarrow> action_db" where
  "replace_fts i p db = db\<lparr>ad_fts := filter (\<lambda>f. fr_id f \<noteq> i) (ad_fts db)
     @ [\<lparr>fr_id = i, fr_title = pm_title p, fr_summary = str_or (pm_summary p) [], fr_content = pm_content p, fr_tags = pm_tags p\<rparr>]\<rparr>"

definition update_memory_tx :: "action_env \<Rightarrow> string \<Rightarrow> dict \<Rightarrow> memory_record option tx_op" where
  "update_memory_tx env m c =
     bind_tx (require_access m) (\<lambda>i.
     bind_tx (get_memory_tx i) (\<lambda>found.
     case found of
       None \<Rightarrow> ask_tx (\<lambda>_. Inl (ActionStale (''target memory '' @ quoted i @ '' is missing'')))
     | Some existing \<Rightarrow>
         bind_tx (ask_tx (\<lambda>_. raising (prepare_memory_update env existing c))) (\<lambda>p.
         bind_tx (put_tx (on_db (\<lambda>db. db\<lparr>ad_memories :=
            update_where (\<lambda>r. mr_id r = i) (write_prepared env p c) (ad_memories db)\<rparr>))) (\<lambda>_.
         bind_tx (touch_tx [i]) (\<lambda>_.
         bind_tx (stage_tx env ''domain_mutation'') (\<lambda>_.
         bind_tx (put_tx (on_db (replace_fts i p))) (\<lambda>_.
         bind_tx (stage_tx env ''projection_update'') (\<lambda>_.
           get_memory_tx i))))))))"

definition new_memory :: "string \<Rightarrow> int \<Rightarrow> prepared_memory \<Rightarrow> string \<Rightarrow> string \<Rightarrow> memory_record" where
  "new_memory i ref p created updated = \<lparr>mr_id = i, mr_title = pm_title p, mr_content = pm_content p,
     mr_summary = pm_summary p, mr_type = pm_type p, mr_status = pm_status p, mr_created_at = created,
     mr_updated_at = updated, mr_read_count = 0, mr_access_score = 0, mr_last_accessed = None, mr_last_surfaced = None,
     mr_metadata = dict_sort (pm_metadata p), mr_workspaces = pm_workspaces p, mr_tags = pm_tags p, mr_ref = Some ref,
     mr_archived_at = None\<rparr>"

text \<open>\<open>COALESCE(MAX(memory_ref), 0) + 1\<close>.\<close>

definition next_ref :: "action_db \<Rightarrow> int" where
  "next_ref db = (case List.map_filter mr_ref (ad_memories db) of [] \<Rightarrow> 1 | n # ns \<Rightarrow> fold max ns n + 1)"

definition create_memory_tx :: "action_env \<Rightarrow> dict \<Rightarrow> memory_record option tx_op" where
  "create_memory_tx env c s =
     (case prepare_memory_create env (ax_new_id env (length (tx_touched s))) c of
        Inl e \<Rightarrow> (Inl e, s)
      | Inr (i, p, created, updated) \<Rightarrow>
          if exists_memory i s then (Inl (ActionFatal (''memory '' @ quoted i @ '' already exists'')), s)
          else bind_tx (put_tx (\<lambda>s. on_db (\<lambda>db. db\<lparr>ad_memories := ad_memories db @ [new_memory i (next_ref db) p created updated]\<rparr>)
                   (s\<lparr>tx_new := insert i (tx_new s)\<rparr>))) (\<lambda>_.
            bind_tx (touch_tx [i]) (\<lambda>_.
            bind_tx (stage_tx env ''domain_mutation'') (\<lambda>_.
            bind_tx (put_tx (on_db (replace_fts i p))) (\<lambda>_.
            bind_tx (stage_tx env ''projection_update'') (\<lambda>_. get_memory_tx i))))) s)"

text \<open>The deletion of a row takes the links from it, its workspaces and its tags along.\<close>

definition delete_rows :: "string \<Rightarrow> action_db \<Rightarrow> action_db" where
  "delete_rows i db = db\<lparr>ad_fts := filter (\<lambda>f. fr_id f \<noteq> i) (ad_fts db),
     ad_memories := filter (\<lambda>r. mr_id r \<noteq> i) (ad_memories db), ad_links := filter (\<lambda>l. ml_source l \<noteq> i) (ad_links db)\<rparr>"

definition delete_memory_tx :: "action_env \<Rightarrow> string \<Rightarrow> memory_record option tx_op" where
  "delete_memory_tx env m =
     bind_tx (require_access m) (\<lambda>i.
     bind_tx (get_memory_tx i) (\<lambda>found.
     case found of
       None \<Rightarrow> ask_tx (\<lambda>_. Inl (ActionStale (''target memory '' @ quoted i @ '' is missing'')))
     | Some existing \<Rightarrow>
         bind_tx (put_tx (on_db (delete_rows i))) (\<lambda>_.
         bind_tx (touch_tx [i]) (\<lambda>_.
         bind_tx (stage_tx env ''domain_mutation'') (\<lambda>_. ret_tx found)))))"

text \<open>The upsert of a link fails on the foreign key when the source is not there.\<close>

definition upsert_link :: "memory_link \<Rightarrow> action_db \<Rightarrow> action_db" where
  "upsert_link l db = db\<lparr>ad_links :=
     (if link_key l \<in> link_key ` set (ad_links db) then update_where (\<lambda>k. link_key k = link_key l) (\<lambda>_. l) (ad_links db)
      else ad_links db @ [l])\<rparr>"

definition add_link_tx :: "action_env \<Rightarrow> string \<Rightarrow> string \<Rightarrow> string \<Rightarrow> string \<Rightarrow> memory_link tx_op" where
  "add_link_tx env src tgt link_type ctx =
     bind_tx (require_access src) (\<lambda>s.
     bind_tx (require_endpoint tgt) (\<lambda>t.
     bind_tx (ask_tx (\<lambda>_. raising (uow_link_type link_type))) (\<lambda>ty.
     let l = \<lparr>ml_source = s, ml_target = t, ml_type = ty, ml_context = py_strip ctx\<rparr> in
     bind_tx (ask_tx (\<lambda>st. if exists_memory s st then Inr () else Inl (Raised IntegrityError))) (\<lambda>_.
     bind_tx (put_tx (on_db (upsert_link l))) (\<lambda>_.
     bind_tx (touch_tx [s, t]) (\<lambda>_.
     bind_tx (stage_tx env ''domain_mutation'') (\<lambda>_. ret_tx l)))))))"

definition remove_link_tx :: "action_env \<Rightarrow> string \<Rightarrow> string \<Rightarrow> string \<Rightarrow> bool tx_op" where
  "remove_link_tx env src tgt link_type =
     bind_tx (require_access src) (\<lambda>s.
     bind_tx (require_endpoint tgt) (\<lambda>t.
     bind_tx (ask_tx (\<lambda>_. raising (uow_link_type link_type))) (\<lambda>ty.
     bind_tx (ask_tx (\<lambda>st. Inr (rowcount (\<lambda>l. link_key l = (s, t, ty)) (ad_links (tx_db st)) > 0))) (\<lambda>removed.
     bind_tx (put_tx (on_db (\<lambda>db. db\<lparr>ad_links := filter (\<lambda>l. link_key l \<noteq> (s, t, ty)) (ad_links db)\<rparr>))) (\<lambda>_.
     bind_tx (touch_tx [s, t]) (\<lambda>_.
     bind_tx (stage_tx env ''domain_mutation'') (\<lambda>_. ret_tx removed)))))))"

definition set_lineage_tx :: "action_env \<Rightarrow> string \<Rightarrow> dict \<Rightarrow> memory_record option tx_op" where
  "set_lineage_tx env m lineage =
     bind_tx (get_memory_tx m) (\<lambda>found. case found of
       None \<Rightarrow> ask_tx (\<lambda>_. Inl (ActionStale (''target memory '' @ quoted m @ '' is missing'')))
     | Some r \<Rightarrow> update_memory_tx env m [(''metadata'', JObj (dict_set ''lineage'' (JObj lineage) (mr_metadata r)))])"

section \<open>Callbacks\<close>

text \<open>A callback sees the transaction only through these calls, and may do anything with their answers
  and their exceptions.\<close>

datatype tx_call =
    GetMemory string | GetLinks string string "string option" | GetProtections string
  | UpdateMemory string dict | CreateMemory dict | DeleteMemory string
  | AddLink string string string string | RemoveLinkCall string string string | SetLineage string dict

datatype tx_answer =
  AnsMemory "memory_record option" | AnsLinks "memory_link list" | AnsProtections "protection_row list"
  | AnsLink memory_link | AnsBool bool

definition answering :: "('a \<Rightarrow> tx_answer) \<Rightarrow> 'a tx_op \<Rightarrow> tx_answer tx_op" where
  "answering c m = bind_tx m (\<lambda>x. ret_tx (c x))"

fun call_tx :: "action_env \<Rightarrow> tx_call \<Rightarrow> tx_answer tx_op" where
  "call_tx env (GetMemory m) = answering AnsMemory (get_memory_tx m)"
| "call_tx env (GetLinks m d t) = answering AnsLinks (get_links_tx m d t)"
| "call_tx env (GetProtections m) = answering AnsProtections (get_protections_tx m)"
| "call_tx env (UpdateMemory m c) = answering AnsMemory (update_memory_tx env m c)"
| "call_tx env (CreateMemory c) = answering AnsMemory (create_memory_tx env c)"
| "call_tx env (DeleteMemory m) = answering AnsMemory (delete_memory_tx env m)"
| "call_tx env (AddLink s t ty c) = answering AnsLink (add_link_tx env s t ty c)"
| "call_tx env (RemoveLinkCall s t ty) = answering AnsBool (remove_link_tx env s t ty)"
| "call_tx env (SetLineage m d) = answering AnsMemory (set_lineage_tx env m d)"

record mutation_result =
  mu_operation :: string
  mu_affected :: "string list"
  mu_descriptor :: "descriptor option"

datatype callback = Finish mutation_result | Fail action_error | Call tx_call "tx_answer act \<Rightarrow> callback"

primrec run_callback :: "action_env \<Rightarrow> callback \<Rightarrow> mutation_result tx_op" where
  "run_callback env (Finish r) = ret_tx r"
| "run_callback env (Fail e) = ask_tx (\<lambda>_. Inl e)"
| "run_callback env (Call c k) = (\<lambda>s. case call_tx env c s of (a, s') \<Rightarrow> run_callback env (k a) s')"

end
