(* ===== verification/ActionStore.thy ===== *)
theory ActionStore
  imports ActionTransaction
begin

text \<open>
  The store of curation actions, \<open>SQLiteCurationActionStore\<close> of \<open>curation_action_store.py\<close> with the
  shared parts of \<open>curation_action_uow.py\<close>, and the sequential executor of \<open>curation_batch_executor.py\<close>.
  An action runs in one transaction: it is checked, applied by its callback, and leaves a history, repair
  requests and a receipt; or nothing.
\<close>

section \<open>Requests\<close>

record action_request =
  rq_run :: uuid
  rq_action :: uuid
  rq_targets :: "string list"
  rq_tokens :: "(string \<times> string) list"
  rq_apply :: callback
  rq_preconditions :: "action_preconditions option"
  rq_operation :: "string option"
  rq_payload :: json
  rq_descriptor :: "descriptor option"
  rq_actor :: string
  rq_restores :: "uuid option"
  rq_key :: "string option"

text \<open>What \<open>execute_action\<close> works with: identifiers and tokens in canonical form.\<close>

record normal_request =
  nq_targets :: "string list"
  nq_tokens :: "(string \<times> string) list"
  nq_operation :: string

definition normalize_request :: "action_request \<Rightarrow> normal_request act" where
  "normalize_request q =
     bind_act (canonical_target_ids (rq_targets q)) (\<lambda>targets.
       if targets = [] then Inl (ActionFatal ''at least one target ID is required'')
       else let tokens = fold (\<lambda>(k, v). AList.update (canonical_id k) v) (rq_tokens q) [] in
         if \<exists>kv \<in> set tokens. snd kv = [] then Inl (ActionFatal ''revision tokens must be non-empty'')
         else case rq_operation q of
             None \<Rightarrow> Inl (ActionFatal ''action operation is required'')
           | Some oper \<Rightarrow> if py_strip oper = [] then Inl (ActionFatal ''action operation must be non-empty'')
               else Inr \<lparr>nq_targets = targets, nq_tokens = tokens, nq_operation = py_strip oper\<rparr>)"

definition identity_text :: "action_request \<Rightarrow> string" where
  "identity_text q = uuid_text (rq_run q) @ ''/'' @ uuid_text (rq_action q)"

definition action_intent_hash :: "action_env \<Rightarrow> action_request \<Rightarrow> normal_request \<Rightarrow> string \<Rightarrow> string act" where
  "action_intent_hash env q nq operation =
     (case action_intent_token (ax_hashing env) operation (nq_targets nq) (map (\<lambda>(k, v). (k, JStr v)) (nq_tokens nq))
         (case rq_preconditions q of None \<Rightarrow> JNull | Some p \<Rightarrow> ax_dump env p) (rq_payload q) of
        Inl (ValueError m) \<Rightarrow> Inl (ActionFatal ''action intent is not canonically representable'')
      | Inl (TypeError m) \<Rightarrow> Inl (ActionFatal ''action intent is not canonically representable'')
      | Inl e \<Rightarrow> Inl (Raised e)
      | Inr h \<Rightarrow> Inr h)"

section \<open>Replay\<close>

definition check_replay_identity :: "action_env \<Rightarrow> action_request \<Rightarrow> normal_request \<Rightarrow> receipt \<Rightarrow> unit act" where
  "check_replay_identity env q nq r = (case rc_intent r of
       None \<Rightarrow> Inl (ActionFatal (''curation action identity collision: legacy-unverifiable receipt for '' @ identity_text q))
     | Some stored \<Rightarrow>
         bind_act (action_intent_hash env q nq (nq_operation nq)) (\<lambda>h.
           require (h = stored \<and> agree (rc_descriptor r) (rq_descriptor q))
             (ActionFatal (''curation action identity collision for '' @ identity_text q))))"

definition replayed :: "action_env \<Rightarrow> action_request \<Rightarrow> normal_request \<Rightarrow> action_db \<Rightarrow> receipt option act" where
  "replayed env q nq db =
     bind_act (raising (get_receipt (rq_run q) (rq_action q) (ad_ledger db))) (\<lambda>found. case found of
       None \<Rightarrow> Inr None
     | Some r \<Rightarrow> bind_act (check_replay_identity env q nq r) (\<lambda>_. Inr (Some r)))"

section \<open>Guards\<close>

fun check_all :: "('a \<Rightarrow> unit act) \<Rightarrow> 'a list \<Rightarrow> unit act" where
  "check_all f [] = Inr ()"
| "check_all f (x # xs) = bind_act (f x) (\<lambda>_. check_all f xs)"

definition lock_target :: "action_db \<Rightarrow> string \<Rightarrow> unit act" where
  "lock_target db i = require (external_id i \<or> find_memory i db \<noteq> None)
     (ActionStale (''target memory '' @ quoted i @ '' is missing''))"

definition read_records :: "action_db \<Rightarrow> string list \<Rightarrow> (string \<times> memory_record) list" where
  "read_records db ids = List.map_filter (\<lambda>i. map_option (\<lambda>r. (i, hydrate_record r)) (find_memory i db)) ids"

definition links_for_memory :: "action_db \<Rightarrow> string \<Rightarrow> memory_link list" where
  "links_for_memory db i = filter (\<lambda>l. ml_source l = i \<or> ml_target l = i) (ad_links db)"

definition record_guard :: "action_env \<Rightarrow> (string \<times> memory_record) list \<Rightarrow> (string \<times> string) list \<Rightarrow> string \<Rightarrow> unit act" where
  "record_guard env records tokens i =
     (let stale = ActionStale (''record revision token is stale for '' @ quoted i) in
      case (case map_of tokens i of Some t \<Rightarrow> Some t | None \<Rightarrow> map_of tokens (''record:'' @ i)) of
        None \<Rightarrow> Inr ()
      | Some expected \<Rightarrow> (case map_of records i of
            None \<Rightarrow> Inl stale
          | Some r \<Rightarrow> bind_act (raising (record_token (ax_hashing env) r)) (\<lambda>t. require (t = expected) stale)))"

definition graph_guard :: "action_env \<Rightarrow> action_db \<Rightarrow> (string \<times> string) list \<Rightarrow> string \<Rightarrow> unit act" where
  "graph_guard env db tokens i = (case map_of tokens (''graph:'' @ i) of
       None \<Rightarrow> Inr ()
     | Some expected \<Rightarrow> bind_act (raising (graph_token (ax_hashing env) i (links_for_memory db i))) (\<lambda>t.
         require (t = expected) (ActionStale (''graph revision token is stale for '' @ quoted i))))"

definition link_token_key :: "string \<Rightarrow> (string \<times> string \<times> string) option" where
  "link_token_key key = (case split_on (CHR '':'') (if str_prefix ''link:'' key then drop 5 key else key) of
       [s, t, ty] \<Rightarrow> if s = [] \<or> t = [] \<or> ty = [] then None else Some (s, t, ty)
     | _ \<Rightarrow> None)"

definition find_link :: "action_db \<Rightarrow> string \<times> string \<times> string \<Rightarrow> memory_link option" where
  "find_link db k = List.find (\<lambda>l. link_key l = k) (ad_links db)"

definition link_guard :: "action_env \<Rightarrow> action_db \<Rightarrow> string \<times> string \<Rightarrow> unit act" where
  "link_guard env db kv = (case link_token_key (fst kv) of
       None \<Rightarrow> Inr ()
     | Some (s, t, ty) \<Rightarrow>
         bind_act (raising (uow_link_type ty)) (\<lambda>nty.
           let row = find_link db (s, t, nty) in
           bind_act (raising (link_token (ax_hashing env) s t ty (map_option ml_context row) (row \<noteq> None))) (\<lambda>tok.
             require (tok = snd kv) (ActionStale (''link revision token is stale for '' @ s @ '':'' @ t @ '':'' @ ty)))))"

definition check_tokens ::
  "action_env \<Rightarrow> action_db \<Rightarrow> (string \<times> memory_record) list \<Rightarrow> string list \<Rightarrow> (string \<times> string) list \<Rightarrow> unit act" where
  "check_tokens env db records targets tokens =
     bind_act (check_all (\<lambda>i. bind_act (record_guard env records tokens i) (\<lambda>_. graph_guard env db tokens i)) targets)
       (\<lambda>_. check_all (link_guard env db) tokens)"

fun memory_status_text :: "memory_status \<Rightarrow> string" where
  "memory_status_text StActive = ''active''"
| "memory_status_text StArchived = ''archived''"

definition status_guard :: "action_db \<Rightarrow> string list \<Rightarrow> uuid \<times> memory_status \<Rightarrow> unit act" where
  "status_guard db targets x =
     (let i = canonical_id (uuid_text (fst x)) in
      if i \<notin> set targets then Inl (ActionFatal ''status precondition references an unlocked target'')
      else require (map_option mr_status (find_memory i db) = Some (memory_status_text (snd x)))
        (ActionStale (''status precondition is stale for '' @ quoted i)))"

definition link_precondition :: "action_db \<Rightarrow> string list \<Rightarrow> bool \<Rightarrow> uuid \<times> uuid \<times> string \<times> string option \<Rightarrow> unit act" where
  "link_precondition db targets should_exist x = (case x of (src, tgt, link_type, ctx) \<Rightarrow>
     let s = canonical_id (uuid_text src); t = canonical_id (uuid_text tgt) in
     if s \<notin> set targets \<or> t \<notin> set targets then Inl (ActionFatal ''link precondition references an unlocked target'')
     else bind_act (raising (uow_link_type link_type)) (\<lambda>ty.
       if \<not> should_exist \<and> ctx \<noteq> None then Inl (ActionFatal ''absent-link precondition must omit relationship context'')
       else let present = (case find_link db (s, t, ty) of
                  None \<Rightarrow> False | Some l \<Rightarrow> \<not> should_exist \<or> ctx = None \<or> ctx = Some (ml_context l))
         in require (present = should_exist) (ActionStale ''link precondition is stale'')))"

definition check_preconditions :: "action_db \<Rightarrow> string list \<Rightarrow> action_preconditions option \<Rightarrow> unit act" where
  "check_preconditions db targets pre = (case pre of
       None \<Rightarrow> Inr ()
     | Some p \<Rightarrow>
         bind_act (check_all (status_guard db targets) (ap_statuses p)) (\<lambda>_.
         bind_act (check_all (link_precondition db targets True)
             (map (\<lambda>a. (la_source a, la_target a, la_type a, la_context a)) (ap_links p))) (\<lambda>_.
         check_all (link_precondition db targets False)
             (map (\<lambda>a. (al_source a, al_target a, al_type a, None)) (ap_absent p)))))"

section \<open>Traces of an action\<close>

text \<open>Whether a record is the same before and after, by its token.\<close>

definition same_record :: "action_env \<Rightarrow> memory_record option \<Rightarrow> memory_record \<Rightarrow> bool act" where
  "same_record env before after = (case before of
       None \<Rightarrow> Inr False
     | Some b \<Rightarrow> bind_act (raising (record_token (ax_hashing env) b)) (\<lambda>tb.
         bind_act (raising (record_token (ax_hashing env) after)) (\<lambda>ta. Inr (tb = ta))))"

text \<open>\<open>INSERT OR IGNORE\<close> of one repair request.\<close>

definition request_repair :: "action_env \<Rightarrow> string \<Rightarrow> memory_record \<Rightarrow> repair_item list \<Rightarrow> repair_item list" where
  "request_repair env i after rows =
     (let e = \<lparr>e_id = ax_repair_id env i, e_memory_id = i,
                e_workspace = (case mr_workspaces after of [] \<Rightarrow> None | w # _ \<Rightarrow> Some w), e_model_name = ax_model env,
                e_memory_updated_at = mr_updated_at after, e_status = RepairPending, e_attempts = 0,
                e_available_at = ax_clk env, e_created_at = ax_clk env, e_updated_at = ax_clk env, e_claimed_at = None,
                e_completed_at = None, e_lease_owner = None, e_lease_expires_at = None, e_last_error = None\<rparr>
      in if e_id e \<in> e_id ` set rows \<or> repair_version e \<in> repair_version ` set rows then rows else rows @ [e])"

fun repair_intents ::
  "action_env \<Rightarrow> (string \<times> memory_record) list \<Rightarrow> (string \<times> memory_record) list \<Rightarrow> repair_item list \<Rightarrow> repair_item list act" where
  "repair_intents env before [] rows = Inr rows"
| "repair_intents env before ((i, after) # rest) rows =
     bind_act (same_record env (map_of before i) after) (\<lambda>same.
       repair_intents env before rest (if same then rows else request_repair env i after rows))"

definition optional_token :: "action_env \<Rightarrow> memory_record option \<Rightarrow> string option act" where
  "optional_token env r = (case r of None \<Rightarrow> Inr None
     | Some x \<Rightarrow> bind_act (raising (record_token (ax_hashing env) x)) (\<lambda>t. Inr (Some t)))"

definition optional_snapshot :: "memory_record option \<Rightarrow> json option act" where
  "optional_snapshot r = (case r of None \<Rightarrow> Inr None
     | Some x \<Rightarrow> bind_act (raising (record_snapshot x)) (\<lambda>v. Inr (Some (json_sort v))))"

fun record_revisions ::
  "action_env \<Rightarrow> uuid \<Rightarrow> (string \<times> memory_record) list \<Rightarrow> (string \<times> memory_record) list \<Rightarrow> string list \<Rightarrow> record_revision list act" where
  "record_revisions env event before after [] = Inr []"
| "record_revisions env event before after (i # ids) =
     bind_act (case map_of after i of None \<Rightarrow> Inr False | Some a \<Rightarrow> same_record env (map_of before i) a) (\<lambda>same.
     bind_act (optional_snapshot (map_of before i)) (\<lambda>bs.
     bind_act (optional_snapshot (map_of after i)) (\<lambda>as.
     bind_act (optional_token env (map_of before i)) (\<lambda>bt.
     bind_act (optional_token env (map_of after i)) (\<lambda>at'.
     bind_act (record_revisions env event before after ids) (\<lambda>rest.
       Inr ((if same then [] else [\<lparr>rv_event = event, rv_memory = i, rv_role = ''target'',
              rv_before_exists = (map_of before i \<noteq> None), rv_before = bs,
              rv_after_exists = (map_of after i \<noteq> None), rv_after = as, rv_before_token = bt, rv_after_token = at'\<rparr>]) @ rest)))))))"

definition related_links :: "action_db \<Rightarrow> string list \<Rightarrow> ((string \<times> string \<times> string) \<times> memory_link) list" where
  "related_links db ids = map (\<lambda>l. (link_key l, l)) (filter (\<lambda>l. ml_source l \<in> set ids \<or> ml_target l \<in> set ids) (ad_links db))"

definition link_revisions ::
  "uuid \<Rightarrow> ((string \<times> string \<times> string) \<times> memory_link) list \<Rightarrow> ((string \<times> string \<times> string) \<times> memory_link) list \<Rightarrow> link_revision list" where
  "link_revisions event before after =
     List.map_filter (\<lambda>k. let b = map_of before k; a = map_of after k in
         if b \<noteq> None \<and> a \<noteq> None \<and> map_option ml_context b = map_option ml_context a then None
         else Some \<lparr>lv_event = event, lv_source = fst k, lv_target = fst (snd k), lv_type = snd (snd k),
               lv_context = map_option ml_context a, lv_before = (b \<noteq> None), lv_after = (a \<noteq> None)\<rparr>)
       (sort (remdups (map fst before @ map fst after)))"

definition event_key :: "action_request \<Rightarrow> string" where
  "event_key q = str_or (rq_key q) (uuid_text (rq_run q) @ '':'' @ uuid_text (rq_action q))"

definition action_event :: "action_env \<Rightarrow> action_request \<Rightarrow> curation_run \<Rightarrow> string \<Rightarrow> mutation_event" where
  "action_event env q run operation = \<lparr>mv_id = ax_event env, mv_operation = operation, mv_actor_kind = rq_actor q,
     mv_actor = None, mv_family = Some ''curation'', mv_task = cr_task run, mv_run = Some (rq_run q), mv_plan = cr_plan run,
     mv_action = Some (rq_action q), mv_provider = None, mv_reason = None, mv_rationale = None,
     mv_policy = Some (cr_policy_version run), mv_schema = 1, mv_status = EventApplied, mv_restores = rq_restores q,
     mv_key = Some (event_key q), mv_created = ax_now env, mv_terminal = None\<rparr>"

definition write_event :: "action_env \<Rightarrow> action_request \<Rightarrow> curation_run \<Rightarrow> string \<Rightarrow> action_db \<Rightarrow> action_db act" where
  "write_event env q run operation db =
     (let ev = action_event env q run operation in
      if event_insert_fails ev (ad_events db) then Inl (Raised IntegrityError)
      else Inr (db\<lparr>ad_events := ad_events db @ [ev],
               ad_ledger := (ad_ledger db)\<lparr>cd_events := insert (ax_event env) (cd_events (ad_ledger db))\<rparr>\<rparr>))"

definition write_history ::
  "action_env \<Rightarrow> action_request \<Rightarrow> curation_run \<Rightarrow> string \<Rightarrow> (string \<times> memory_record) list \<Rightarrow> (string \<times> memory_record) list
   \<Rightarrow> ((string \<times> string \<times> string) \<times> memory_link) list \<Rightarrow> ((string \<times> string \<times> string) \<times> memory_link) list
   \<Rightarrow> action_db \<Rightarrow> action_db act" where
  "write_history env q run operation before after before_links after_links db =
     bind_act (write_event env q run operation db) (\<lambda>db.
     bind_act (record_revisions env (ax_event env) before after (sorted_ids (map fst before @ map fst after))) (\<lambda>revs.
       Inr (db\<lparr>ad_record_revisions := ad_record_revisions db @ revs,
               ad_link_revisions := ad_link_revisions db @ link_revisions (ax_event env) before_links after_links\<rparr>)))"

text \<open>\<open>UUID(text)\<close>: 32 hexadecimal digits, with hyphens, braces and a prefix that do not count.\<close>

definition hex_value :: "char \<Rightarrow> bool" where
  "hex_value c = (let n = (of_char c :: nat) in (48 \<le> n \<and> n \<le> 57) \<or> (65 \<le> n \<and> n \<le> 70) \<or> (97 \<le> n \<and> n \<le> 102))"

fun remove_text :: "string \<Rightarrow> string \<Rightarrow> nat \<Rightarrow> string" where
  "remove_text sub [] skip = []"
| "remove_text sub (c # cs) (Suc skip) = remove_text sub cs skip"
| "remove_text sub (c # cs) 0 = (if str_prefix sub (c # cs) then remove_text sub cs (length sub - 1)
     else c # remove_text sub cs 0)"

definition brace :: "char \<Rightarrow> bool" where
  "brace c = (c = CHR ''{'' \<or> c = CHR ''}'')"

definition parse_uuid :: "string \<Rightarrow> uuid option" where
  "parse_uuid s =
     (let t = remove_text ''uuid:'' (remove_text ''urn:'' s 0) 0;
          h = filter (\<lambda>c. c \<noteq> CHR ''-'') (rev (dropWhile brace (rev (dropWhile brace t))))
      in if length h = 32 \<and> list_all hex_value h
         then let l = py_lower h in
           Some (UUID (take 8 l @ ''-'' @ take 4 (drop 8 l) @ ''-'' @ take 4 (drop 12 l) @ ''-'' @ take 4 (drop 16 l) @ ''-'' @ drop 20 l))
         else None)"

fun parse_uuids :: "string list \<Rightarrow> uuid list res" where
  "parse_uuids [] = Inr []"
| "parse_uuids (s # ss) = (case parse_uuid s of
     None \<Rightarrow> Inl (ValueError ''badly formed hexadecimal UUID string'')
   | Some u \<Rightarrow> bind_res (parse_uuids ss) (\<lambda>us. Inr (u # us)))"

section \<open>Execution\<close>

definition stage_act :: "action_env \<Rightarrow> string \<Rightarrow> unit act" where
  "stage_act env stage = (case ax_fault env stage of None \<Rightarrow> Inr () | Some e \<Rightarrow> Inl e)"

text \<open>The run of a restoration is made when it is not there.\<close>

definition restore_run :: "action_env \<Rightarrow> action_request \<Rightarrow> uuid \<Rightarrow> curation_run" where
  "restore_run env q event = \<lparr>cr_id = rq_run q, cr_task = None, cr_epoch = None, cr_work_item = None,
     cr_frontier = ''restore:'' @ uuid_text event, cr_strategy = None,
     cr_fingerprint = str_or (rq_key q) (uuid_text (rq_action q)), cr_planner = None, cr_provider = None, cr_model = None,
     cr_policy_version = ''1'', cr_schema_version = 1, cr_state = RunExecuting, cr_outcome = None, cr_plan = None,
     cr_rejection_codes = [], cr_retry_reason = None, cr_budget = [], cr_disclosure = [], cr_created = Some (ax_clk env),
     cr_terminalized = None\<rparr>"

definition open_action_run :: "action_env \<Rightarrow> action_request \<Rightarrow> action_db \<Rightarrow> (curation_run \<times> action_db) act" where
  "open_action_run env q db = (case (get_run (rq_run q) (ad_ledger db), rq_restores q) of
       (None, None) \<Rightarrow> Inl (ActionFatal (''curation run '' @ uuid_text (rq_run q) @ '' was not found''))
     | (None, Some event) \<Rightarrow>
         let run = restore_run env q event in
         Inr (run, db\<lparr>ad_ledger := (ad_ledger db)\<lparr>cd_runs := cd_runs (ad_ledger db) @ [run]\<rparr>\<rparr>)
     | (Some run, restores) \<Rightarrow>
         if cr_state run = RunTerminal \<and> restores = None
         then Inl (ActionFatal (''curation run '' @ uuid_text (rq_run q) @ '' is terminal''))
         else Inr (run, db))"

definition make_receipt ::
  "action_env \<Rightarrow> action_request \<Rightarrow> normal_request \<Rightarrow> mutation_result \<Rightarrow> string list
   \<Rightarrow> string option \<Rightarrow> string option \<Rightarrow> receipt act" where
  "make_receipt env q nq result touched before_token after_token =
     bind_act (local_memory_ids (if mu_affected result \<noteq> [] then mu_affected result
         else if touched \<noteq> [] then touched else nq_targets nq)) (\<lambda>affected.
     bind_act (raising (parse_uuids affected)) (\<lambda>ids.
     bind_act (action_intent_hash env q nq (py_strip (mu_operation result))) (\<lambda>h.
       Inr \<lparr>rc_run = rq_run q, rc_action = rq_action q, rc_operation = py_strip (mu_operation result), rc_affected = ids,
         rc_status = AppliedUnverified, rc_before = before_token, rc_after = after_token, rc_event = Some (ax_event env),
         rc_intent = Some h,
         rc_descriptor = (case mu_descriptor result of Some d \<Rightarrow> Some d | None \<Rightarrow> rq_descriptor q), rc_error = None,
         rc_applied = Some (ax_clk env), rc_verified = None\<rparr>)))"

definition insert_receipt :: "receipt \<Rightarrow> action_db \<Rightarrow> action_db act" where
  "insert_receipt r db =
     (if receipt_insert_fails r (ad_ledger db) then Inl (Raised IntegrityError)
      else Inr (db\<lparr>ad_ledger := (ad_ledger db)\<lparr>cd_receipts := cd_receipts (ad_ledger db) @ [r]\<rparr>\<rparr>))"

text \<open>From the end of the callback to the receipt. \<open>db0\<close> is the database as the action found it.\<close>

definition record_action ::
  "action_env \<Rightarrow> action_request \<Rightarrow> normal_request \<Rightarrow> curation_run \<Rightarrow> action_db \<Rightarrow> mutation_result \<Rightarrow> string list
   \<Rightarrow> action_db \<Rightarrow> (receipt \<times> action_db) act" where
  "record_action env q nq run db0 result touched db =
     bind_act (require (py_strip (mu_operation result) \<noteq> []) (ActionFatal ''mutation result operation must be non-empty'')) (\<lambda>_.
     bind_act (require (py_strip (mu_operation result) = nq_operation nq)
         (ActionFatal ''action operation does not match mutation result'')) (\<lambda>_.
     bind_act (stage_act env ''after_domain_mutation'') (\<lambda>_.
     bind_act (canonical_target_ids (nq_targets nq @ touched)) (\<lambda>after_ids.
     let before = read_records db0 (nq_targets nq); after = read_records db after_ids in
     bind_act (raising (state_token (ax_hashing env) before (nq_targets nq))) (\<lambda>before_token.
     bind_act (raising (state_token (ax_hashing env) after after_ids)) (\<lambda>after_token.
     bind_act (repair_intents env before after (ad_repairs db)) (\<lambda>repairs.
     bind_act (stage_act env ''repair_intent'') (\<lambda>_.
     bind_act (write_history env q run (py_strip (mu_operation result)) before after (related_links db0 (nq_targets nq))
         (related_links db after_ids) (db\<lparr>ad_repairs := repairs\<rparr>)) (\<lambda>db.
     bind_act (stage_act env ''history'') (\<lambda>_.
     bind_act (make_receipt env q nq result touched before_token after_token) (\<lambda>r.
     bind_act (insert_receipt r db) (\<lambda>db.
     bind_act (stage_act env ''receipt_preparation'') (\<lambda>_.
       Inr (r, db))))))))))))))"

definition guarded_action :: "action_env \<Rightarrow> action_request \<Rightarrow> normal_request \<Rightarrow> action_db \<Rightarrow> (curation_run \<times> action_db) act" where
  "guarded_action env q nq db =
     bind_act (open_action_run env q db) (\<lambda>(run, db).
     bind_act (check_all (lock_target db) (nq_targets nq)) (\<lambda>_.
     bind_act (check_tokens env db (read_records db (nq_targets nq)) (nq_targets nq) (nq_tokens nq)) (\<lambda>_.
     bind_act (check_preconditions db (nq_targets nq) (rq_preconditions q)) (\<lambda>_. Inr (run, db)))))"

definition start_tx :: "normal_request \<Rightarrow> action_db \<Rightarrow> tx" where
  "start_tx nq db = \<lparr>tx_db = db, tx_targets = set (nq_targets nq), tx_new = {}, tx_touched = []\<rparr>"

text \<open>The body of the transaction: the receipt and the database to commit, or an exception.\<close>

definition apply_action :: "action_env \<Rightarrow> action_request \<Rightarrow> normal_request \<Rightarrow> action_db \<Rightarrow> (receipt \<times> action_db) act" where
  "apply_action env q nq db =
     bind_act (guarded_action env q nq db) (\<lambda>(run, db).
     case run_callback env (rq_apply q) (start_tx nq db) of
       (Inl e, s) \<Rightarrow> Inl e
     | (Inr result, s) \<Rightarrow>
         bind_act (record_action env q nq run db result (tx_touched s) (tx_db s)) (\<lambda>(r, db).
         bind_act (stage_act env ''commit'') (\<lambda>_. Inr (r, db))))"

text \<open>The handlers around the transaction.\<close>

definition retryable_message :: "string \<Rightarrow> bool" where
  "retryable_message m = (str_contains ''locked'' (py_lower m) \<or> str_contains ''busy'' (py_lower m))"

fun translate_error :: "action_request \<Rightarrow> action_error \<Rightarrow> action_error" where
  "translate_error q (Raised (OperationalError m)) =
     (if retryable_message m then ActionTransient (''SQLite action transaction was busy for '' @ identity_text q)
      else ActionFatal (''SQLite action transaction failed for '' @ identity_text q))"
| "translate_error q (Raised e) = ActionFatal (''curation action failed for '' @ identity_text q)"
| "translate_error q e = e"

text \<open>The transaction, in which the receipt is looked for again; \<open>begin\<close> and \<open>commit\<close> may fail too. On
  any exception the database is rolled back.\<close>

definition execute_transaction :: "action_env \<Rightarrow> action_request \<Rightarrow> normal_request \<Rightarrow> action_db \<Rightarrow> receipt act \<times> action_db" where
  "execute_transaction env q nq db =
     (case bind_act (stage_act env ''begin'') (\<lambda>_. bind_act (replayed env q nq db) (\<lambda>found. case found of
          Some r \<Rightarrow> Inr (r, db)
        | None \<Rightarrow> apply_action env q nq db)) of
        Inl e \<Rightarrow> (Inl (translate_error q e), db)
      | Inr (r, db') \<Rightarrow> (Inr r, db'))"

definition execute_action :: "action_env \<Rightarrow> action_request \<Rightarrow> action_db \<Rightarrow> receipt act \<times> action_db" where
  "execute_action env q db =
     (case normalize_request q of
        Inl e \<Rightarrow> (Inl e, db)
      | Inr nq \<Rightarrow>
          (case replayed env q nq db of
             Inl e \<Rightarrow> (Inl e, db)
           | Inr (Some r) \<Rightarrow> (Inr r, db)
           | Inr None \<Rightarrow> execute_transaction env q nq db))"

section \<open>Batches\<close>

fun action_failure :: "action_error \<Rightarrow> bool" where
  "action_failure (Raised e) = False"
| "action_failure e = True"

text \<open>\<open>SequentialCurationActionExecutor\<close>: failures of actions are outcomes, other exceptions end the batch.\<close>

fun execute_actions :: "action_env \<Rightarrow> action_request list \<Rightarrow> action_db \<Rightarrow> receipt act list act \<times> action_db" where
  "execute_actions env [] db = (Inr [], db)"
| "execute_actions env (q # qs) db =
     (case execute_action env q db of
        (Inl e, db') \<Rightarrow>
          if \<not> action_failure e then (Inl e, db')
          else (case execute_actions env qs db' of (os, db'') \<Rightarrow> (bind_act os (\<lambda>os. Inr (Inl e # os)), db''))
      | (Inr r, db') \<Rightarrow>
          (case execute_actions env qs db' of (os, db'') \<Rightarrow> (bind_act os (\<lambda>os. Inr (Inr r # os)), db'')))"

end
