(* ===== verification/MutationHistory.thy ===== *)
theory MutationHistory
  imports ActionStore CurationPolicy
begin

text \<open>
  The history of mutations, \<open>mutation_history_store.py\<close> over the contracts of \<open>mutation_history.py\<close>:
  events with the revisions of records and links, protections, and the requests to restore. Dates are
  kept as the texts that the store writes. The tables of events, revisions and protections are those of
  the action store.
\<close>

section \<open>Rows\<close>

datatype restore_scope = ScopeAll | ScopeRecords | ScopeLinks

datatype restore_status = RestoreApplied | RestoreConflicted | RestoreRejected | RestoreAlready | RestoreFailed

record restore_request =
  rr_target :: uuid
  rr_scope :: restore_scope
  rr_record_tokens :: "(uuid \<times> string) list"
  rr_link_tokens :: "(string \<times> string) list"
  rr_actor :: "string option"
  rr_reason :: string
  rr_key :: string
  rr_confirmation :: bool

record restore_result =
  rs_status :: restore_status
  rs_request :: "uuid option"
  rs_event :: "uuid option"
  rs_target :: uuid
  rs_reason :: "string option"
  rs_details :: "(string \<times> string) list"

record restore_row =
  rw_id :: uuid
  rw_request :: restore_request
  rw_status :: restore_status
  rw_event :: "uuid option"
  rw_reason :: "string option"
  rw_details :: "(string \<times> string) list"
  rw_created :: string
  rw_terminal :: "string option"

record history_db =
  hd_actions :: action_db
  hd_restores :: "restore_row list"

text \<open>An operation that may raise, over the database.\<close>

type_synonym 'a history_op = "history_db \<Rightarrow> 'a res \<times> history_db"

definition on_actions :: "(action_db \<Rightarrow> action_db) \<Rightarrow> history_db \<Rightarrow> history_db" where
  "on_actions f h = h\<lparr>hd_actions := f (hd_actions h)\<rparr>"

abbreviation "history_events h \<equiv> ad_events (hd_actions h)"

section \<open>Events\<close>

definition actor_kinds :: "string list" where
  "actor_kinds = [''user'', ''maintenance'', ''system'', ''restore'']"

text \<open>Reading a row fails on an actor that is none of \<open>MutationActorKind\<close>.\<close>

definition event_from_row :: "mutation_event \<Rightarrow> mutation_event res" where
  "event_from_row ev = (if mv_actor_kind ev \<in> set actor_kinds then Inr ev
     else Inl (ValueError (''not a valid MutationActorKind: '' @ mv_actor_kind ev)))"

definition optional_row :: "('r \<Rightarrow> 'a res) \<Rightarrow> 'r option \<Rightarrow> 'a option res" where
  "optional_row f r = (case r of None \<Rightarrow> Inr None | Some x \<Rightarrow> bind_res (f x) (\<lambda>y. Inr (Some y)))"

fun all_rows :: "('r \<Rightarrow> 'a res) \<Rightarrow> 'r list \<Rightarrow> 'a list res" where
  "all_rows f [] = Inr []"
| "all_rows f (r # rs) = bind_res (f r) (\<lambda>x. bind_res (all_rows f rs) (\<lambda>xs. Inr (x # xs)))"

definition get_event :: "uuid \<Rightarrow> history_db \<Rightarrow> mutation_event option res" where
  "get_event i h = optional_row event_from_row (List.find (\<lambda>v. mv_id v = i) (history_events h))"

definition get_event_by_action :: "uuid \<Rightarrow> uuid \<Rightarrow> history_db \<Rightarrow> mutation_event option res" where
  "get_event_by_action rid aid h = optional_row event_from_row
     (List.find (\<lambda>v. mv_run v = Some rid \<and> mv_action v = Some aid) (history_events h))"

definition get_event_by_idempotency_key :: "string \<Rightarrow> history_db \<Rightarrow> mutation_event option res" where
  "get_event_by_idempotency_key k h = optional_row event_from_row
     (List.find (\<lambda>v. mv_key v = Some k) (history_events h))"

definition event_identity_matches :: "mutation_event \<Rightarrow> mutation_event \<Rightarrow> bool \<Rightarrow> bool" where
  "event_identity_matches l r include_id =
     (r = l\<lparr>mv_created := mv_created r, mv_terminal := mv_terminal r, mv_id := (if include_id then mv_id l else mv_id r)\<rparr>)"

text \<open>\<open>_find_existing_event\<close>: all candidates are read, then the first that is there is compared.\<close>

definition event_candidates :: "mutation_event \<Rightarrow> history_db \<Rightarrow> (mutation_event option \<times> bool) list res" where
  "event_candidates ev h =
     bind_res (get_event (mv_id ev) h) (\<lambda>a.
     bind_res (case (mv_run ev, mv_action ev) of
         (Some rid, Some aid) \<Rightarrow> bind_res (get_event_by_action rid aid h) (\<lambda>b. Inr [(b, False)])
       | _ \<Rightarrow> Inr []) (\<lambda>bs.
     bind_res (case mv_key ev of
         Some k \<Rightarrow> bind_res (get_event_by_idempotency_key k h) (\<lambda>c. Inr [(c, False)])
       | None \<Rightarrow> Inr []) (\<lambda>cs. Inr ((a, True) # bs @ cs))))"

definition find_existing_event :: "mutation_event \<Rightarrow> history_db \<Rightarrow> mutation_event option res" where
  "find_existing_event ev h = bind_res (event_candidates ev h) (\<lambda>cs.
     case List.find (\<lambda>c. fst c \<noteq> None) cs of
       None \<Rightarrow> Inr None
     | Some (None, same_id) \<Rightarrow> Inr None
     | Some (Some found, same_id) \<Rightarrow>
         if event_identity_matches found ev same_id then Inr (Some found)
         else Inl (ValueError (''mutation event idempotency identity is already in use for '' @ uuid_text (mv_id found))))"

definition add_event :: "mutation_event \<Rightarrow> action_db \<Rightarrow> action_db" where
  "add_event ev db = db\<lparr>ad_events := ad_events db @ [ev],
     ad_ledger := (ad_ledger db)\<lparr>cd_events := insert (mv_id ev) (cd_events (ad_ledger db))\<rparr>\<rparr>"

text \<open>\<open>append_event\<close>; an event without a date is given the present one, \<open>now\<close>.\<close>

definition append_event :: "mutation_event \<Rightarrow> mutation_event history_op" where
  "append_event ev h =
     (if event_insert_fails ev (history_events h)
      then (case find_existing_event ev h of
              Inl e \<Rightarrow> (Inl e, h) | Inr None \<Rightarrow> (Inl IntegrityError, h) | Inr (Some found) \<Rightarrow> (Inr found, h))
      else (Inr ev, on_actions (add_event ev) h))"

text \<open>\<open>list_events\<close>: the filters are those that were given.\<close>

record event_filter =
  ef_memory :: "uuid option"
  ef_actor_kind :: "string option"
  ef_family :: "string option"
  ef_operation :: "string option"
  ef_after :: "string option"
  ef_before :: "string option"

definition given :: "'a option \<Rightarrow> ('a \<Rightarrow> bool) \<Rightarrow> bool" where
  "given x p = (case x of None \<Rightarrow> True | Some y \<Rightarrow> p y)"

definition event_concerns :: "history_db \<Rightarrow> mutation_event \<Rightarrow> uuid \<Rightarrow> bool" where
  "event_concerns h ev m =
     ((\<exists>r \<in> set (ad_record_revisions (hd_actions h)). rv_event r = mv_id ev \<and> rv_memory r = uuid_text m)
      \<or> (\<exists>l \<in> set (ad_link_revisions (hd_actions h)). lv_event l = mv_id ev
           \<and> (lv_source l = uuid_text m \<or> lv_target l = uuid_text m)))"

definition event_matches :: "event_filter \<Rightarrow> history_db \<Rightarrow> mutation_event \<Rightarrow> bool" where
  "event_matches f h ev =
     (given (ef_memory f) (event_concerns h ev) \<and> given (ef_actor_kind f) (\<lambda>k. mv_actor_kind ev = k)
      \<and> given (ef_family f) (\<lambda>k. mv_family ev = Some k) \<and> given (ef_operation f) (\<lambda>k. mv_operation ev = k)
      \<and> given (ef_after f) (\<lambda>t. t \<le> mv_created ev) \<and> given (ef_before f) (\<lambda>t. mv_created ev \<le> t))"

text \<open>Newest first, for one date by descending identifier.\<close>

definition list_events :: "event_filter \<Rightarrow> int \<Rightarrow> int \<Rightarrow> history_db \<Rightarrow> mutation_event list res" where
  "list_events f limit offset h =
     bind_res (bounded_limit limit) (\<lambda>n.
       if offset < 0 then Inl (ValueError ''offset must not be negative'')
       else all_rows event_from_row (limit_rows n (drop (nat offset)
         (rev (order_by (\<lambda>v. (mv_created v, uuid_text (mv_id v))) (filter (event_matches f h) (history_events h)))))))"

section \<open>Revisions\<close>

definition revision_key :: "record_revision \<Rightarrow> uuid \<times> string \<times> string" where
  "revision_key r = (rv_event r, rv_memory r, rv_role r)"

definition link_revision_key :: "link_revision \<Rightarrow> uuid \<times> string \<times> string \<times> string" where
  "link_revision_key l = (lv_event l, lv_source l, lv_target l, lv_type l)"

text \<open>\<open>INSERT OR IGNORE\<close> of rows with a key.\<close>

fun insert_or_ignore :: "('r \<Rightarrow> 'k) \<Rightarrow> 'r list \<Rightarrow> 'r list \<Rightarrow> 'r list" where
  "insert_or_ignore k rows [] = rows"
| "insert_or_ignore k rows (r # rs) = insert_or_ignore k (if k r \<in> k ` set rows then rows else rows @ [r]) rs"

text \<open>A revision of an event that is not there breaks the foreign key, which is not ignored.\<close>

definition append_record_revisions :: "record_revision list \<Rightarrow> unit history_op" where
  "append_record_revisions rs h =
     (if \<exists>r \<in> set rs. rv_event r \<notin> mv_id ` set (history_events h) then (Inl IntegrityError, h)
      else (Inr (), on_actions (\<lambda>db. db\<lparr>ad_record_revisions := insert_or_ignore revision_key (ad_record_revisions db) rs\<rparr>) h))"

definition append_link_revisions :: "link_revision list \<Rightarrow> unit history_op" where
  "append_link_revisions ls h =
     (if \<exists>l \<in> set ls. lv_event l \<notin> mv_id ` set (history_events h) then (Inl IntegrityError, h)
      else (Inr (), on_actions (\<lambda>db. db\<lparr>ad_link_revisions := insert_or_ignore link_revision_key (ad_link_revisions db) ls\<rparr>) h))"

text \<open>The revisions as they are read back: identifiers are \<open>UUID\<close> objects, and a text that is none raises.\<close>

definition revision_roles :: "string list" where
  "revision_roles = [''target'', ''canonical'', ''source'', ''original'', ''split_child'']"

definition parsed_uuid :: "string \<Rightarrow> uuid res" where
  "parsed_uuid s = (case parse_uuid s of None \<Rightarrow> Inl (ValueError ''badly formed hexadecimal UUID string'') | Some u \<Rightarrow> Inr u)"

definition snapshot_shaped :: "json option \<Rightarrow> bool" where
  "snapshot_shaped v = (case v of None \<Rightarrow> True | Some (JObj kvs) \<Rightarrow> True | _ \<Rightarrow> False)"

definition record_revision_from_row :: "record_revision \<Rightarrow> record_revision res" where
  "record_revision_from_row r = bind_res (parsed_uuid (rv_memory r)) (\<lambda>u.
     if rv_role r \<notin> set revision_roles then Inl (ValueError (''not a valid RevisionRole: '' @ rv_role r))
     else if \<not> snapshot_shaped (rv_before r) \<or> \<not> snapshot_shaped (rv_after r)
     then Inl (ValueError ''Input should be a valid dictionary'')
     else Inr (r\<lparr>rv_memory := uuid_text u\<rparr>))"

definition link_revision_from_row :: "link_revision \<Rightarrow> link_revision res" where
  "link_revision_from_row l = bind_res (parsed_uuid (lv_source l)) (\<lambda>s. bind_res (parsed_uuid (lv_target l)) (\<lambda>t.
     Inr (l\<lparr>lv_source := uuid_text s, lv_target := uuid_text t\<rparr>)))"

definition optional_limit :: "int option \<Rightarrow> 'r list \<Rightarrow> 'r list res" where
  "optional_limit limit rows = (case limit of None \<Rightarrow> Inr rows | Some n \<Rightarrow> bind_res (bounded_limit n) (\<lambda>m. Inr (limit_rows m rows)))"

definition get_record_revisions :: "uuid \<Rightarrow> int option \<Rightarrow> history_db \<Rightarrow> record_revision list res" where
  "get_record_revisions i limit h =
     bind_res (optional_limit limit (filter (\<lambda>r. rv_event r = i) (ad_record_revisions (hd_actions h))))
       (all_rows record_revision_from_row)"

definition get_link_revisions :: "uuid \<Rightarrow> int option \<Rightarrow> history_db \<Rightarrow> link_revision list res" where
  "get_link_revisions i limit h =
     bind_res (optional_limit limit (filter (\<lambda>l. lv_event l = i) (ad_link_revisions (hd_actions h))))
       (all_rows link_revision_from_row)"

section \<open>Protections\<close>

fun protection_mode_text :: "protection_mode \<Rightarrow> string" where
  "protection_mode_text ProtNoAutonomousMutation = ''no_autonomous_mutation''"
| "protection_mode_text ProtNoAutonomousDestructiveChange = ''no_autonomous_destructive_change''"
| "protection_mode_text ProtManualReviewRequired = ''manual_review_required''"
| "protection_mode_text ProtLocalProviderOnly = ''local_provider_only''"
| "protection_mode_text ProtNoExternalProviderDisclosure = ''no_external_provider_disclosure''"
| "protection_mode_text ProtPinnedActive = ''pinned_active''"

definition protection_modes :: "protection_mode list" where
  "protection_modes = [ProtNoAutonomousMutation, ProtNoAutonomousDestructiveChange, ProtManualReviewRequired, ProtLocalProviderOnly,
     ProtNoExternalProviderDisclosure, ProtPinnedActive]"

definition protection_from_row :: "protection_row \<Rightarrow> protection_row res" where
  "protection_from_row p = bind_res (parsed_uuid (pt_memory p)) (\<lambda>u.
     if pt_mode p \<notin> protection_mode_text ` set protection_modes then Inl (ValueError (''not a valid ProtectionMode: '' @ pt_mode p))
     else Inr (p\<lparr>pt_memory := uuid_text u\<rparr>))"

text \<open>The latest first, for one date by mode.\<close>

definition get_protections :: "uuid \<Rightarrow> history_db \<Rightarrow> protection_row list res" where
  "get_protections m h = all_rows protection_from_row
     (rev (order_by pt_created (rev (order_by pt_mode
       (filter (\<lambda>p. pt_memory p = uuid_text m) (ad_protections (hd_actions h)))))))"

definition protection_key :: "protection_row \<Rightarrow> string \<times> string" where
  "protection_key p = (pt_memory p, pt_mode p)"

definition set_protection :: "protection_row \<Rightarrow> history_db \<Rightarrow> protection_row \<times> history_db" where
  "set_protection p h = (p, on_actions (\<lambda>db. db\<lparr>ad_protections :=
     (if protection_key p \<in> protection_key ` set (ad_protections db)
      then update_where (\<lambda>r. protection_key r = protection_key p) (\<lambda>_. p) (ad_protections db)
      else ad_protections db @ [p])\<rparr>) h)"

definition remove_protection :: "uuid \<Rightarrow> protection_mode \<Rightarrow> history_db \<Rightarrow> history_db" where
  "remove_protection m mode = on_actions (\<lambda>db. db\<lparr>ad_protections :=
     filter (\<lambda>p. protection_key p \<noteq> (uuid_text m, protection_mode_text mode)) (ad_protections db)\<rparr>)"

section \<open>Terminal results\<close>

text \<open>An event ends once. The event is read before and after the guarded update.\<close>

definition terminalize_event :: "uuid \<Rightarrow> event_status \<Rightarrow> string \<Rightarrow> mutation_event history_op" where
  "terminalize_event i status now h = (case get_event i h of
       Inl e \<Rightarrow> (Inl e, h)
     | Inr None \<Rightarrow> (Inl (KeyError (''mutation event '' @ uuid_text i @ '' was not found'')), h)
     | Inr (Some ev) \<Rightarrow>
         let p = (\<lambda>v. mv_id v = i \<and> mv_terminal v = None);
             h' = on_actions (\<lambda>db. db\<lparr>ad_events :=
               update_where p (\<lambda>v. v\<lparr>mv_status := status, mv_terminal := Some now\<rparr>) (ad_events db)\<rparr>) h
         in case get_event i h' of
              Inl e \<Rightarrow> (Inl e, h')
            | Inr None \<Rightarrow> (Inl AssertionError, h')
            | Inr (Some updated) \<Rightarrow>
                if rowcount p (history_events h) = 0 \<and> mv_status updated \<noteq> status
                then (Inl (ValueError (''mutation event '' @ uuid_text i @ '' already terminalized'')), h')
                else (Inr updated, h'))"

section \<open>Requests to restore\<close>

definition restore_result_from_row :: "bool \<Rightarrow> restore_row \<Rightarrow> restore_result" where
  "restore_result_from_row replay w =
     \<lparr>rs_status = (if replay \<and> rw_status w = RestoreApplied then RestoreAlready else rw_status w), rs_request = Some (rw_id w),
      rs_event = rw_event w, rs_target = rr_target (rw_request w), rs_reason = rw_reason w, rs_details = rw_details w\<rparr>"

text \<open>Two dictionaries are equal whatever the order of their keys.\<close>

definition same_tokens :: "('k \<times> 'v) list \<Rightarrow> ('k \<times> 'v) list \<Rightarrow> bool" where
  "same_tokens xs ys = (\<forall>k \<in> fst ` (set xs \<union> set ys). map_of xs k = map_of ys k)"

definition restore_request_identity_matches :: "restore_request \<Rightarrow> restore_request \<Rightarrow> bool" where
  "restore_request_identity_matches request stored =
     (rr_target stored = rr_target request \<and> rr_scope stored = rr_scope request
      \<and> same_tokens (rr_record_tokens stored) (rr_record_tokens request)
      \<and> same_tokens (rr_link_tokens stored) (rr_link_tokens request)
      \<and> rr_actor stored = rr_actor request \<and> rr_reason stored = rr_reason request
      \<and> rr_confirmation stored = rr_confirmation request)"

definition restore_insert_fails :: "uuid \<Rightarrow> restore_request \<Rightarrow> history_db \<Rightarrow> bool" where
  "restore_insert_fails i request h =
     (i \<in> rw_id ` set (hd_restores h) \<or> rr_key request \<in> (\<lambda>w. rr_key (rw_request w)) ` set (hd_restores h)
      \<or> rr_target request \<notin> mv_id ` set (history_events h))"

definition request_restore :: "uuid \<Rightarrow> string \<Rightarrow> restore_request \<Rightarrow> restore_result history_op" where
  "request_restore i now request h =
     (if restore_insert_fails i request h
      then (case List.find (\<lambda>w. rr_key (rw_request w) = rr_key request) (hd_restores h) of
              None \<Rightarrow> (Inl IntegrityError, h)
            | Some w \<Rightarrow>
                if restore_request_identity_matches request (rw_request w) then (Inr (restore_result_from_row True w), h)
                else (Inl (ValueError (''restore idempotency key '' @ quoted (rr_key request) @ '' is already in use'')), h))
      else let w = \<lparr>rw_id = i, rw_request = request, rw_status = RestoreApplied, rw_event = None, rw_reason = None,
                      rw_details = [], rw_created = now, rw_terminal = None\<rparr>
        in (Inr (restore_result_from_row False w), h\<lparr>hd_restores := hd_restores h @ [w]\<rparr>))"

text \<open>The first terminal result wins. The event of a result refers to \<open>memory_mutation_events\<close>.\<close>

definition terminalize_restore_request :: "uuid \<Rightarrow> restore_result \<Rightarrow> string \<Rightarrow> restore_result history_op" where
  "terminalize_restore_request i result now h =
     (let p = (\<lambda>w. rw_id w = i \<and> rw_terminal w = None);
          h' = h\<lparr>hd_restores := update_where p (\<lambda>w. w\<lparr>rw_status := rs_status result, rw_event := rs_event result,
                 rw_reason := rs_reason result, rw_details := rs_details result, rw_terminal := Some now\<rparr>) (hd_restores h)\<rparr>
      in if rowcount p (hd_restores h) > 0 \<and> (case rs_event result of None \<Rightarrow> False | Some e \<Rightarrow> e \<notin> mv_id ` set (history_events h))
         then (Inl IntegrityError, h)
         else case List.find (\<lambda>w. rw_id w = i) (hd_restores h') of
           None \<Rightarrow> (Inl (KeyError (''restore request '' @ uuid_text i @ '' was not found'')), h')
         | Some w \<Rightarrow>
             let stored = restore_result_from_row False w in
             if rowcount p (hd_restores h) = 0 \<and> rs_status stored \<noteq> rs_status result
             then (Inl (ValueError (''restore request '' @ uuid_text i @ '' already terminalized'')), h')
             else (Inr stored, h'))"

end
