(* ===== verification/MutationRestore.thy ===== *)
theory MutationRestore
  imports MutationHistory
begin

text \<open>
  The restoration of a mutation, \<open>core/mutation_restore.py\<close>: the description of the inverse of an event
  from its revisions, and its execution as an action of its own through the action store.
\<close>

section \<open>Inverses\<close>

datatype conflict_code = MalformedHistory | IncompleteHistory | UnsupportedOperation | StaleState

fun conflict_code_text :: "conflict_code \<Rightarrow> string" where
  "conflict_code_text MalformedHistory = ''malformed_history''"
| "conflict_code_text IncompleteHistory = ''incomplete_history''"
| "conflict_code_text UnsupportedOperation = ''unsupported_operation''"
| "conflict_code_text StaleState = ''stale_state''"

record restore_conflict =
  ro_code :: conflict_code
  ro_operation :: string
  ro_reason :: string

text \<open>Identifiers of records are the texts of \<open>UUID\<close> objects.\<close>

record inverse_record_change =
  ic_memory :: string
  ic_exists :: bool
  ic_snapshot :: "json option"
  ic_expected :: "string option"
  ic_resulting :: "string option"

record inverse_link_change =
  il_source :: string
  il_target :: string
  il_type :: string
  il_context :: "string option"
  il_exists :: bool

record inverse_description =
  iv_source_operation :: string
  iv_inverse_operation :: string
  iv_records :: "inverse_record_change list"
  iv_links :: "inverse_link_change list"

definition UNSUPPORTED :: "string list" where
  "UNSUPPORTED = [''rewrite_memory'', ''remove_link'', ''archive_memory'', ''merge_memories'', ''split_memory'',
     ''delete_memory'', ''delete'']"

definition RECORD_OPERATIONS :: "string list" where
  "RECORD_OPERATIONS = [''normalize_memory'']"

definition SNAPSHOT_FIELDS :: "string list" where
  "SNAPSHOT_FIELDS = [''id'', ''title'', ''content'', ''summary'', ''type'', ''status'', ''tags'', ''workspace_ids'', ''lineage'',
     ''mutation_metadata'']"

text \<open>A stored snapshot, checked and in canonical form. Reading the canonical text back is sorting the keys
  of the normalized value.\<close>

definition semantic_snapshot :: "json \<Rightarrow> json res" where
  "semantic_snapshot v = (case v of
       JObj kvs \<Rightarrow>
         (case dict_get kvs ''record'' of
            Some (JObj r) \<Rightarrow>
              if fst ` set kvs \<noteq> {''schema_version'', ''record''}
              then Inl (ValueError ''snapshot is not a complete semantic snapshot'')
              else if \<not> dict_field_eq kvs ''schema_version'' (JInt 1)
              then Inl (ValueError ''snapshot schema version is unsupported'')
              else if \<not> set SNAPSHOT_FIELDS \<subseteq> fst ` set r then Inl (ValueError ''snapshot record is incomplete'')
              else bind_res (normalize (JObj [(''schema_version'', the (dict_get kvs ''schema_version'')),
                     (''record'', JObj (map (\<lambda>k. (k, the (dict_get r k))) SNAPSHOT_FIELDS))])) (\<lambda>w. Inr (json_sort w))
          | _ \<Rightarrow> Inl (ValueError ''snapshot is not a complete semantic snapshot''))
     | _ \<Rightarrow> Inl (ValueError ''snapshot is not a complete semantic snapshot''))"

definition conflict :: "conflict_code \<Rightarrow> string \<Rightarrow> string \<Rightarrow> restore_conflict" where
  "conflict code operation reason = \<lparr>ro_code = code, ro_operation = operation, ro_reason = reason\<rparr>"

definition empty_text :: "string option \<Rightarrow> bool" where
  "empty_text s = (s = None \<or> s = Some [])"

text \<open>The text of the exceptions that \<open>_semantic_snapshot\<close> raises.\<close>

fun error_text :: "py_error \<Rightarrow> string" where
  "error_text (ValueError m) = m"
| "error_text (TypeError m) = m"
| "error_text (RuntimeError m) = m"
| "error_text (KeyError m) = quoted m"
| "error_text e = []"

definition record_conflict :: "mutation_event \<Rightarrow> record_revision \<Rightarrow> restore_conflict option" where
  "record_conflict ev r =
     (if rv_event r \<noteq> mv_id ev \<or> rv_role r \<noteq> ''target''
      then Some (conflict MalformedHistory (mv_operation ev) ''revision belongs to another event'')
      else if rv_before_exists r \<noteq> (rv_before r \<noteq> None) \<or> rv_after_exists r \<noteq> (rv_after r \<noteq> None)
      then Some (conflict IncompleteHistory (mv_operation ev) ''existence flags do not match snapshots'')
      else if rv_before_exists r \<and> empty_text (rv_before_token r)
      then Some (conflict IncompleteHistory (mv_operation ev) ''before token is missing'')
      else if rv_after_exists r \<and> empty_text (rv_after_token r)
      then Some (conflict IncompleteHistory (mv_operation ev) ''after token is missing'')
      else case bind_res (optional_row semantic_snapshot (rv_before r)) (\<lambda>_. optional_row semantic_snapshot (rv_after r)) of
          Inl e \<Rightarrow> Some (conflict MalformedHistory (mv_operation ev) (error_text e))
        | Inr _ \<Rightarrow> None)"

text \<open>\<open>build_inverse\<close>: \<open>Inl\<close> is a typed conflict.\<close>

definition invert_record :: "mutation_event \<Rightarrow> record_revision \<Rightarrow> restore_conflict + inverse_description" where
  "invert_record ev r = (case record_conflict ev r of
       Some c \<Rightarrow> Inl c
     | None \<Rightarrow> (case (rv_before r, rv_after r) of
           (Some b, Some a) \<Rightarrow>
             (case semantic_snapshot b of
                Inl e \<Rightarrow> Inl (conflict MalformedHistory (mv_operation ev) (error_text e))
              | Inr snap \<Rightarrow> Inr \<lparr>iv_source_operation = mv_operation ev, iv_inverse_operation = ''restore_record'',
                    iv_records = [\<lparr>ic_memory = rv_memory r, ic_exists = rv_before_exists r, ic_snapshot = Some snap,
                      ic_expected = rv_after_token r, ic_resulting = rv_before_token r\<rparr>], iv_links = []\<rparr>)
         | _ \<Rightarrow> Inl (conflict IncompleteHistory (mv_operation ev) ''record snapshots are required'')))"

definition invert_link :: "mutation_event \<Rightarrow> link_revision \<Rightarrow> restore_conflict + inverse_description" where
  "invert_link ev l =
     (if lv_event l \<noteq> mv_id ev \<or> py_strip (lv_type l) = [] \<or> lv_before l = lv_after l
      then Inl (conflict MalformedHistory (mv_operation ev) ''link existence transition is invalid'')
      else Inr \<lparr>iv_source_operation = mv_operation ev, iv_inverse_operation = ''remove_link'', iv_records = [],
             iv_links = [\<lparr>il_source = lv_source l, il_target = lv_target l, il_type = lv_type l, il_context = lv_context l,
               il_exists = lv_before l\<rparr>]\<rparr>)"

definition build_inverse ::
  "mutation_event \<Rightarrow> record_revision list \<Rightarrow> link_revision list \<Rightarrow> restore_conflict + inverse_description" where
  "build_inverse ev records links =
     (let oper = mv_operation ev in
      if oper \<in> set UNSUPPORTED
      then Inl (conflict UnsupportedOperation oper ''this operation does not have a supported low-risk restore'')
      else if mv_status ev \<noteq> EventApplied then Inl (conflict MalformedHistory oper ''event is not applied'')
      else if oper \<in> set RECORD_OPERATIONS
      then (case (records, links) of
              ([r], []) \<Rightarrow> invert_record ev r
            | _ \<Rightarrow> Inl (conflict IncompleteHistory oper ''expected exactly one record revision''))
      else if oper = ''create_link''
      then (case (records, links) of
              ([], [l]) \<Rightarrow> invert_link ev l
            | _ \<Rightarrow> Inl (conflict IncompleteHistory oper ''expected exactly one link revision''))
      else Inl (conflict UnsupportedOperation oper ''operation has no safe inverse''))"

section \<open>Plans\<close>

definition record_target_ids :: "inverse_description \<Rightarrow> string list" where
  "record_target_ids v = map ic_memory (iv_records v)"

definition inverse_target_ids :: "inverse_description \<Rightarrow> string list" where
  "inverse_target_ids v = sorted_ids (record_target_ids v @ concat (map (\<lambda>c. [il_source c, il_target c]) (iv_links v)))"

definition inverse_preconditions :: "inverse_description \<Rightarrow> action_preconditions option" where
  "inverse_preconditions v =
     (if iv_links v = [] then None
      else Some \<lparr>ap_tokens = [], ap_statuses = [],
        ap_links = map (\<lambda>c. \<lparr>la_source = UUID (il_source c), la_target = UUID (il_target c), la_type = il_type c,
             la_context = il_context c\<rparr>) (filter (\<lambda>c. \<not> il_exists c) (iv_links v)),
        ap_absent = []\<rparr>)"

definition scope_conflict :: "restore_scope \<Rightarrow> inverse_description \<Rightarrow> (conflict_code \<times> string) option" where
  "scope_conflict scope v =
     (if scope = ScopeAll \<or> scope = ScopeRecords \<and> iv_records v \<noteq> [] \<and> iv_links v = []
         \<or> scope = ScopeLinks \<and> iv_links v \<noteq> [] \<and> iv_records v = []
      then None else Some (UnsupportedOperation, ''requested restore scope does not match the supported inverse''))"

text \<open>The tokens of the request under the keys of the action store.\<close>

definition link_token_key_for :: "string list \<Rightarrow> string \<Rightarrow> string" where
  "link_token_key_for targets key =
     (if str_prefix ''graph:'' key then key else if key \<in> set targets then ''graph:'' @ key else ''link:'' @ key)"

definition expected_tokens :: "restore_request \<Rightarrow> string list \<Rightarrow> (string \<times> string) list" where
  "expected_tokens request targets =
     fold (\<lambda>(k, t). AList.update (link_token_key_for targets k) t) (rr_link_tokens request)
       (fold (\<lambda>(m, t). AList.update (uuid_text m) t) (rr_record_tokens request) [])"

section \<open>The callback\<close>

definition snapshot_field :: "json \<Rightarrow> string \<Rightarrow> json" where
  "snapshot_field snap k = (case snap of
       JObj kvs \<Rightarrow> (case dict_get kvs ''record'' of Some (JObj r) \<Rightarrow> (case dict_get r k of Some v \<Rightarrow> v | None \<Rightarrow> JNull) | _ \<Rightarrow> JNull)
     | _ \<Rightarrow> JNull)"

definition restored_metadata :: "json \<Rightarrow> dict \<Rightarrow> dict" where
  "restored_metadata snap md =
     fold (\<lambda>k d. case snapshot_field snap k of JObj v \<Rightarrow> dict_set k (JObj v) d | _ \<Rightarrow> d) [''lineage'', ''mutation_metadata''] md"

definition restored_columns :: "json \<Rightarrow> memory_record \<Rightarrow> dict" where
  "restored_columns snap current =
     [(''title'', snapshot_field snap ''title''), (''content'', snapshot_field snap ''content''),
      (''summary'', snapshot_field snap ''summary''), (''memory_type'', snapshot_field snap ''type''),
      (''status'', snapshot_field snap ''status''), (''tags'', snapshot_field snap ''tags''),
      (''workspace_ids'', snapshot_field snap ''workspace_ids''),
      (''metadata'', JObj (restored_metadata snap (mr_metadata current)))]"

fun restore_records :: "inverse_record_change list \<Rightarrow> callback \<Rightarrow> callback" where
  "restore_records [] k = k"
| "restore_records (c # cs) k = (case (ic_exists c, ic_snapshot c) of
       (True, Some snap) \<Rightarrow>
         Call (GetMemory (ic_memory c)) (\<lambda>a. case a of
             Inl e \<Rightarrow> Fail e
           | Inr (AnsMemory (Some current)) \<Rightarrow>
               Call (UpdateMemory (ic_memory c) (restored_columns snap current)) (\<lambda>b. case b of
                   Inl e \<Rightarrow> Fail e | Inr _ \<Rightarrow> restore_records cs k)
           | Inr _ \<Rightarrow> Fail (ActionStale (''target memory '' @ ic_memory c @ '' is missing'')))
     | _ \<Rightarrow> Fail (Raised (ValueError ''restoring a missing record is not supported'')))"

fun restore_links :: "inverse_link_change list \<Rightarrow> callback \<Rightarrow> callback" where
  "restore_links [] k = k"
| "restore_links (c # cs) k =
     Call (if il_exists c then AddLink (il_source c) (il_target c) (il_type c) (str_or (il_context c) [])
           else RemoveLinkCall (il_source c) (il_target c) (il_type c))
       (\<lambda>a. case a of Inl e \<Rightarrow> Fail e | Inr _ \<Rightarrow> restore_links cs k)"

definition restore_callback :: "inverse_description \<Rightarrow> callback" where
  "restore_callback v = restore_records (iv_records v) (restore_links (iv_links v)
     (Finish \<lparr>mu_operation = ''restore'', mu_affected = inverse_target_ids v, mu_descriptor = None\<rparr>))"

section \<open>Execution\<close>

text \<open>\<open>rx_request\<close> and \<open>rx_run\<close> are fresh identifiers, \<open>rx_ledger\<close> tells whether a ledger was given.\<close>

record restore_env =
  rx_action :: action_env
  rx_request :: uuid
  rx_run :: uuid
  rx_ledger :: bool

type_synonym 'a restore_op = "history_db \<Rightarrow> 'a act \<times> history_db"

definition lift_op :: "'a history_op \<Rightarrow> 'a restore_op" where
  "lift_op m h = (case m h of (x, h') \<Rightarrow> (raising x, h'))"

definition bind_op :: "'a restore_op \<Rightarrow> ('a \<Rightarrow> 'b restore_op) \<Rightarrow> 'b restore_op" where
  "bind_op m f h = (case m h of (Inl e, h') \<Rightarrow> (Inl e, h') | (Inr x, h') \<Rightarrow> f x h')"

definition conflict_result :: "restore_request \<Rightarrow> conflict_code \<Rightarrow> string \<Rightarrow> string option \<Rightarrow> restore_result" where
  "conflict_result request code reason operation =
     \<lparr>rs_status = RestoreConflicted, rs_request = None, rs_event = None, rs_target = rr_target request, rs_reason = Some reason,
      rs_details = (''code'', conflict_code_text code) # (case operation of None \<Rightarrow> [] | Some p \<Rightarrow> [(''operation'', p)])\<rparr>"

definition finish_restore :: "restore_env \<Rightarrow> uuid option \<Rightarrow> restore_result \<Rightarrow> restore_result restore_op" where
  "finish_restore x request_id result = (case request_id of
       None \<Rightarrow> (\<lambda>h. (Inr result, h))
     | Some i \<Rightarrow> lift_op (terminalize_restore_request i result (ax_now (rx_action x))))"

definition DEFAULT_BUDGET :: dict where
  "DEFAULT_BUDGET = [(''seed_records'', JInt 0), (''support_records'', JInt 0), (''exploratory_records'', JInt 0),
     (''context_characters'', JInt 0), (''read_tool_calls'', JInt 0), (''records_returned'', JInt 0),
     (''proposed_actions'', JInt 0), (''planner_attempts'', JInt 0), (''premium_requests'', JInt 0), (''provider_calls'', JInt 0),
     (''wall_clock_seconds'', JFloat 0), (''token_usage'', JNull), (''token_usage_source'', JNull)]"

definition new_restore_run :: "uuid \<Rightarrow> mutation_event \<Rightarrow> restore_request \<Rightarrow> curation_run" where
  "new_restore_run rid ev request = \<lparr>cr_id = rid, cr_task = None, cr_epoch = None, cr_work_item = None,
     cr_frontier = ''restore:'' @ uuid_text (mv_id ev), cr_strategy = None, cr_fingerprint = rr_key request,
     cr_planner = None, cr_provider = None, cr_model = None, cr_policy_version = ''1'', cr_schema_version = 1,
     cr_state = RunExecuting, cr_outcome = None, cr_plan = None, cr_rejection_codes = [], cr_retry_reason = None,
     cr_budget = DEFAULT_BUDGET, cr_disclosure = [], cr_created = None, cr_terminalized = None\<rparr>"

definition ensure_run :: "restore_env \<Rightarrow> uuid \<Rightarrow> mutation_event \<Rightarrow> restore_request \<Rightarrow> unit restore_op" where
  "ensure_run x rid ev request h =
     (if rx_ledger x \<and> get_run rid (ad_ledger (hd_actions h)) = None
      then (case create_run (ax_clk (rx_action x)) (new_restore_run rid ev request) (ad_ledger (hd_actions h)) of
              (Inl e, l) \<Rightarrow> (Inl (Raised e), h)
            | (Inr run, l) \<Rightarrow> (Inr (), on_actions (\<lambda>db. db\<lparr>ad_ledger := l\<rparr>) h))
      else (Inr (), h))"

definition restore_action :: "uuid \<Rightarrow> uuid \<Rightarrow> mutation_event \<Rightarrow> restore_request \<Rightarrow> inverse_description \<Rightarrow> action_request" where
  "restore_action rid aid ev request v = \<lparr>rq_run = rid, rq_action = aid, rq_targets = inverse_target_ids v,
     rq_tokens = expected_tokens request (inverse_target_ids v), rq_apply = restore_callback v,
     rq_preconditions = inverse_preconditions v, rq_operation = Some ''restore'',
     rq_payload = JObj [(''target_event_id'', JStr (uuid_text (mv_id ev))), (''request_id'', JStr (rr_key request))],
     rq_descriptor = None, rq_actor = ''restore'', rq_restores = Some (mv_id ev), rq_key = Some (rr_key request)\<rparr>"

text \<open>The receipt of a restoration counts as verified at once.\<close>

definition settle_receipt :: "restore_env \<Rightarrow> receipt \<Rightarrow> unit restore_op" where
  "settle_receipt x r h =
     (if rx_ledger x
      then (case transition_receipt (rc_run r) (rc_action r) AppliedUnverified
                (r\<lparr>rc_status := Verified, rc_verified := Some (ax_clk (rx_action x))\<rparr>) (ad_ledger (hd_actions h)) of
              (Inl e, l) \<Rightarrow> (Inl (Raised e), on_actions (\<lambda>db. db\<lparr>ad_ledger := l\<rparr>) h)
            | (Inr _, l) \<Rightarrow> (Inr (), on_actions (\<lambda>db. db\<lparr>ad_ledger := l\<rparr>) h))
      else (Inr (), h))"

definition run_restore ::
  "restore_env \<Rightarrow> restore_request \<Rightarrow> uuid option \<Rightarrow> uuid \<Rightarrow> uuid \<Rightarrow> mutation_event \<Rightarrow> inverse_description
   \<Rightarrow> restore_result restore_op" where
  "run_restore x request request_id rid aid ev v h =
     (case execute_action (rx_action x) (restore_action rid aid ev request v) (hd_actions h) of
        (Inl (ActionStale m), db) \<Rightarrow>
          finish_restore x request_id (conflict_result request StaleState m None) (h\<lparr>hd_actions := db\<rparr>)
      | (Inl e, db) \<Rightarrow> (Inl e, h\<lparr>hd_actions := db\<rparr>)
      | (Inr r, db) \<Rightarrow>
          bind_op (settle_receipt x r) (\<lambda>_. finish_restore x request_id
            \<lparr>rs_status = RestoreApplied, rs_request = request_id, rs_event = rc_event r, rs_target = rr_target request,
             rs_reason = None, rs_details = []\<rparr>) (h\<lparr>hd_actions := db\<rparr>))"

text \<open>From the event to the result, once the request is registered.\<close>

definition restore_event ::
  "restore_env \<Rightarrow> restore_request \<Rightarrow> uuid option \<Rightarrow> uuid option \<Rightarrow> uuid option \<Rightarrow> mutation_event \<Rightarrow> restore_result restore_op" where
  "restore_event x request request_id run_id action_id ev =
     bind_op (lift_op (\<lambda>h. (get_record_revisions (mv_id ev) None h, h))) (\<lambda>records.
     bind_op (lift_op (\<lambda>h. (get_link_revisions (mv_id ev) None h, h))) (\<lambda>links.
     case build_inverse ev records links of
       Inl c \<Rightarrow> finish_restore x request_id (conflict_result request (ro_code c) (ro_reason c) (Some (ro_operation c)))
     | Inr v \<Rightarrow>
       (case scope_conflict (rr_scope request) v of
          Some (code, reason) \<Rightarrow> finish_restore x request_id (conflict_result request code reason None)
        | None \<Rightarrow>
            if \<exists>m \<in> set (record_target_ids v). m \<notin> fst ` set (expected_tokens request (inverse_target_ids v))
            then finish_restore x request_id (conflict_result request IncompleteHistory
              ''restore requires current record tokens for every affected record'' None)
            else
              let rid = (case run_id of Some r \<Rightarrow> r | None \<Rightarrow> (case mv_run ev of Some r \<Rightarrow> r | None \<Rightarrow> rx_run x));
                  aid = (case action_id of Some a \<Rightarrow> a
                    | None \<Rightarrow> h_uuid5 (ax_hashing (rx_action x)) (mv_id ev) (''restore:'' @ rr_key request))
              in bind_op (ensure_run x rid ev request) (\<lambda>_. run_restore x request request_id rid aid ev v))))"

definition execute_restore ::
  "restore_env \<Rightarrow> restore_request \<Rightarrow> uuid option \<Rightarrow> uuid option \<Rightarrow> restore_result restore_op" where
  "execute_restore x request run_id action_id =
     bind_op (lift_op (request_restore (rx_request x) (ax_now (rx_action x)) request)) (\<lambda>registered.
     if rs_status registered \<noteq> RestoreApplied \<and> (rs_status registered \<noteq> RestoreAlready \<or> rs_event registered \<noteq> None)
     then (\<lambda>h. (Inr registered, h))
     else
       bind_op (lift_op (\<lambda>h. (get_event (rr_target request) h, h))) (\<lambda>found. case found of
         None \<Rightarrow> finish_restore x (rs_request registered)
           (conflict_result request MalformedHistory ''target mutation event was not found'' None)
       | Some ev \<Rightarrow> restore_event x request (rs_request registered) run_id action_id ev))"

end
