(* ===== verification/ActionLaws.thy ===== *)
theory ActionLaws
  imports ActionStore CurationLaws
begin

text \<open>
  The laws of the transaction of a curation action: rules for its sequencing, and what a callback can
  and cannot do to the database, whatever it calls.
\<close>

section \<open>Rules for sequences\<close>

text \<open>Partial correctness with the condition \<open>E\<close> on an exception.\<close>

definition triple :: "(tx \<Rightarrow> bool) \<Rightarrow> (tx \<Rightarrow> bool) \<Rightarrow> 'a tx_op \<Rightarrow> ('a \<Rightarrow> tx \<Rightarrow> bool) \<Rightarrow> bool" where
  "triple E P m Q = (\<forall>s. P s \<longrightarrow> (\<forall>e. fst (m s) = Inl e \<longrightarrow> E (snd (m s))) \<and> (\<forall>x. fst (m s) = Inr x \<longrightarrow> Q x (snd (m s))))"

lemma tripleI:
  "(\<And>s e s'. P s \<Longrightarrow> m s = (Inl e, s') \<Longrightarrow> E s') \<Longrightarrow> (\<And>s x s'. P s \<Longrightarrow> m s = (Inr x, s') \<Longrightarrow> Q x s') \<Longrightarrow> triple E P m Q"
  unfolding triple_def by (metis prod.collapse)

lemma tripleD: "triple E P m Q \<Longrightarrow> P s \<Longrightarrow> m s = (Inr x, s') \<Longrightarrow> Q x s'"
  unfolding triple_def by force

lemma tripleE: "triple E P m Q \<Longrightarrow> P s \<Longrightarrow> m s = (Inl e, s') \<Longrightarrow> E s'"
  unfolding triple_def by force

lemma triple_bind:
  assumes "triple E P m R" and "\<And>x. triple E (R x) (f x) Q"
  shows "triple E P (bind_tx m f) Q"
proof (rule tripleI)
  fix s e s' assume s: "P s" "bind_tx m f s = (Inl e, s')"
  obtain y s1 where m: "m s = (y, s1)" by fastforce
  show "E s'"
  proof (cases y)
    case (Inl e1)
    then show ?thesis using s m tripleE [OF assms(1) s(1)] by (simp add: bind_tx_def)
  next
    case (Inr x)
    then show ?thesis using s m tripleE [OF assms(2) tripleD [OF assms(1) s(1)]] by (simp add: bind_tx_def)
  qed
next
  fix s x s' assume s: "P s" "bind_tx m f s = (Inr x, s')"
  obtain y s1 where m: "m s = (y, s1)" by fastforce
  show "Q x s'"
  proof (cases y)
    case (Inl e1)
    then show ?thesis using s m by (simp add: bind_tx_def)
  next
    case (Inr z)
    then show ?thesis using s m tripleD [OF assms(2) tripleD [OF assms(1) s(1)]] by (simp add: bind_tx_def)
  qed
qed

lemma triple_conseq: "triple E P m Q \<Longrightarrow> (\<And>s. P' s \<Longrightarrow> P s) \<Longrightarrow> (\<And>x s. Q x s \<Longrightarrow> Q' x s) \<Longrightarrow> triple E P' m Q'"
  unfolding triple_def by blast

lemma triple_ret: "(\<And>s. P s \<Longrightarrow> Q x s) \<Longrightarrow> triple E P (ret_tx x) Q"
  by (simp add: triple_def ret_tx_def)

lemma triple_ask: "(\<And>s. P s \<Longrightarrow> E s) \<Longrightarrow> (\<And>s x. P s \<Longrightarrow> f s = Inr x \<Longrightarrow> Q x s) \<Longrightarrow> triple E P (ask_tx f) Q"
  by (simp add: triple_def ask_tx_def)

lemma triple_put: "(\<And>s. P s \<Longrightarrow> Q () (f s)) \<Longrightarrow> triple E P (put_tx f) Q"
  by (simp add: triple_def put_tx_def)

lemma triple_stage: "(\<And>s. P s \<Longrightarrow> E s) \<Longrightarrow> triple E P (stage_tx env st) (\<lambda>_. P)"
  by (simp add: triple_def stage_tx_def split: option.split)

section \<open>What a callback leaves alone\<close>

definition links_anchored :: "action_db \<Rightarrow> bool" where
  "links_anchored db = (\<forall>l \<in> set (ad_links db). find_memory (ml_source l) db \<noteq> None)"

definition same_books :: "action_db \<Rightarrow> action_db \<Rightarrow> bool" where
  "same_books db db' = (ad_ledger db' = ad_ledger db \<and> ad_protections db' = ad_protections db \<and> ad_repairs db' = ad_repairs db
     \<and> ad_events db' = ad_events db \<and> ad_record_revisions db' = ad_record_revisions db
     \<and> ad_link_revisions db' = ad_link_revisions db)"

text \<open>The invariant of a callback on the targets \<open>T\<close>: rows of other memories, and links from them, are as
  they were at the start.\<close>

definition confined :: "action_db \<Rightarrow> string set \<Rightarrow> tx \<Rightarrow> bool" where
  "confined db0 T s = (tx_targets s = T \<and> (\<forall>i \<in> tx_new s. i \<in> T \<or> find_memory i db0 = None)
     \<and> filter (\<lambda>r. mr_id r \<notin> T \<union> tx_new s) (ad_memories (tx_db s)) = filter (\<lambda>r. mr_id r \<notin> T) (ad_memories db0)
     \<and> filter (\<lambda>l. ml_source l \<notin> T \<union> tx_new s) (ad_links (tx_db s)) = filter (\<lambda>l. ml_source l \<notin> T) (ad_links db0)
     \<and> links_anchored (tx_db s) \<and> same_books db0 (tx_db s))"

definition access :: "string \<Rightarrow> tx \<Rightarrow> bool" where
  "access i s = (i \<in> tx_targets s \<or> i \<in> tx_new s \<or> find_memory i (tx_db s) = None)"

lemma confinedD:
  assumes "confined db0 T s"
  shows "tx_targets s = T" "i \<in> tx_new s \<Longrightarrow> i \<in> T \<or> find_memory i db0 = None"
    "filter (\<lambda>r. mr_id r \<notin> T \<union> tx_new s) (ad_memories (tx_db s)) = filter (\<lambda>r. mr_id r \<notin> T) (ad_memories db0)"
    "filter (\<lambda>l. ml_source l \<notin> T \<union> tx_new s) (ad_links (tx_db s)) = filter (\<lambda>l. ml_source l \<notin> T) (ad_links db0)"
    "links_anchored (tx_db s)" "same_books db0 (tx_db s)"
  using assms unfolding confined_def by simp_all

lemma find_memory_None_iff: "find_memory i db = None \<longleftrightarrow> i \<notin> mr_id ` set (ad_memories db)"
  by (auto simp: find_memory_def find_None_iff)

text \<open>The writes of a transaction.\<close>

lemma filter_filter_keep: "(\<And>x. x \<in> set xs \<Longrightarrow> Q x \<Longrightarrow> P x) \<Longrightarrow> filter Q (filter P xs) = filter Q xs"
  by (simp add: filter_filter) (rule filter_cong, auto)

lemma confined_rows:
  assumes "confined db0 T s" and "i \<in> T \<union> tx_new s" and "\<And>r. mr_id (f r) = mr_id r"
  shows "confined db0 T (on_db (\<lambda>db. db\<lparr>ad_memories := update_where (\<lambda>r. mr_id r = i) f (ad_memories db)\<rparr>) s)"
proof -
  have "map mr_id (update_where (\<lambda>r. mr_id r = i) f (ad_memories (tx_db s))) = map mr_id (ad_memories (tx_db s))"
    using assms(3) by (intro map_update_where)
  from arg_cong [OF this, of set]
  have ids: "mr_id ` set (update_where (\<lambda>r. mr_id r = i) f (ad_memories (tx_db s))) = mr_id ` set (ad_memories (tx_db s))"
    unfolding set_map .
  have rows: "filter (\<lambda>r. mr_id r \<notin> T \<union> tx_new s) (update_where (\<lambda>r. mr_id r = i) f (ad_memories (tx_db s)))
      = filter (\<lambda>r. mr_id r \<notin> T \<union> tx_new s) (ad_memories (tx_db s))"
    using assms(2,3) by (intro filter_update_where) auto
  show ?thesis
    using assms(1) unfolding confined_def on_db_def links_anchored_def same_books_def find_memory_None_iff
    by (simp add: rows [simplified] ids)
qed

lemma confined_insert:
  assumes I: "confined db0 T s" and new: "find_memory (mr_id r) (tx_db s) = None"
  shows "confined db0 T (on_db (\<lambda>db. db\<lparr>ad_memories := ad_memories db @ [r]\<rparr>) (s\<lparr>tx_new := insert (mr_id r) (tx_new s)\<rparr>))"
proof -
  let ?N = "insert (mr_id r) (tx_new s)"
  have not_row: "mr_id x \<noteq> mr_id r" if "x \<in> set (ad_memories (tx_db s))" for x
    using new that unfolding find_memory_None_iff by (metis imageI)
  have not_link: "ml_source l \<noteq> mr_id r" if "l \<in> set (ad_links (tx_db s))" for l
    using new that confinedD(5) [OF I] by (auto simp: links_anchored_def)
  have "mr_id r \<in> T \<or> find_memory (mr_id r) db0 = None"
  proof (cases "mr_id r \<in> T \<union> tx_new s")
    case True
    then show ?thesis using confinedD(2) [OF I, of "mr_id r"] by auto
  next
    case False
    then have "mr_id r \<notin> mr_id ` set (filter (\<lambda>x. mr_id x \<notin> T \<union> tx_new s) (ad_memories (tx_db s)))"
      using new unfolding find_memory_None_iff by auto
    then have "mr_id r \<notin> mr_id ` set (filter (\<lambda>x. mr_id x \<notin> T) (ad_memories db0))" unfolding confinedD(3) [OF I] .
    then show ?thesis using False unfolding find_memory_None_iff by auto
  qed
  moreover have "filter (\<lambda>x. mr_id x \<notin> T \<union> ?N) (ad_memories (tx_db s)) = filter (\<lambda>x. mr_id x \<notin> T \<union> tx_new s) (ad_memories (tx_db s))"
    using not_row by (intro filter_cong) auto
  moreover have "filter (\<lambda>l. ml_source l \<notin> T \<union> ?N) (ad_links (tx_db s)) = filter (\<lambda>l. ml_source l \<notin> T \<union> tx_new s) (ad_links (tx_db s))"
    using not_link by (intro filter_cong) auto
  ultimately show ?thesis
    using I unfolding confined_def on_db_def links_anchored_def same_books_def find_memory_None_iff by simp
qed

lemma confined_delete:
  assumes I: "confined db0 T s" and "i \<in> T \<union> tx_new s"
  shows "confined db0 T (on_db (delete_rows i) s)"
proof -
  have "filter (\<lambda>r. mr_id r \<notin> T \<union> tx_new s) (filter (\<lambda>r. mr_id r \<noteq> i) (ad_memories (tx_db s)))
      = filter (\<lambda>r. mr_id r \<notin> T \<union> tx_new s) (ad_memories (tx_db s))"
    using assms(2) by (intro filter_filter_keep) auto
  moreover have "filter (\<lambda>l. ml_source l \<notin> T \<union> tx_new s) (filter (\<lambda>l. ml_source l \<noteq> i) (ad_links (tx_db s)))
      = filter (\<lambda>l. ml_source l \<notin> T \<union> tx_new s) (ad_links (tx_db s))"
    using assms(2) by (intro filter_filter_keep) auto
  moreover have "links_anchored (delete_rows i (tx_db s))"
    using confinedD(5) [OF I] by (auto simp: links_anchored_def delete_rows_def find_memory_None_iff)
  ultimately show ?thesis
    using I unfolding confined_def on_db_def same_books_def by (simp add: delete_rows_def)
qed

lemma confined_upsert:
  assumes I: "confined db0 T s" and "ml_source l \<in> T \<union> tx_new s" and "exists_memory (ml_source l) s"
  shows "confined db0 T (on_db (upsert_link l) s)"
proof -
  have "filter (\<lambda>k. ml_source k \<notin> T \<union> tx_new s) (ad_links (upsert_link l (tx_db s)))
      = filter (\<lambda>k. ml_source k \<notin> T \<union> tx_new s) (ad_links (tx_db s))"
  proof (cases "link_key l \<in> link_key ` set (ad_links (tx_db s))")
    case True
    have "filter (\<lambda>k. ml_source k \<notin> T \<union> tx_new s) (update_where (\<lambda>k. link_key k = link_key l) (\<lambda>_. l) (ad_links (tx_db s)))
      = filter (\<lambda>k. ml_source k \<notin> T \<union> tx_new s) (ad_links (tx_db s))"
      using assms(2) by (intro filter_update_where) (auto simp: link_key_def)
    then show ?thesis using True by (simp add: upsert_link_def)
  next
    case False
    then show ?thesis using assms(2) by (simp add: upsert_link_def)
  qed
  moreover have "links_anchored (upsert_link l (tx_db s))"
    using confinedD(5) [OF I] assms(3)
    by (auto simp: links_anchored_def upsert_link_def exists_memory_def find_memory_def in_update_where split: if_splits)
  ultimately show ?thesis
    using I unfolding confined_def on_db_def same_books_def by (simp add: upsert_link_def)
qed

lemma confined_unlink:
  assumes I: "confined db0 T s" and "a \<in> T \<union> tx_new s \<or> find_memory a (tx_db s) = None"
  shows "confined db0 T (on_db (\<lambda>db. db\<lparr>ad_links := filter (\<lambda>l. link_key l \<noteq> (a, b, ty)) (ad_links db)\<rparr>) s)"
proof -
  have "filter (\<lambda>l. ml_source l \<notin> T \<union> tx_new s) (filter (\<lambda>l. link_key l \<noteq> (a, b, ty)) (ad_links (tx_db s)))
      = filter (\<lambda>l. ml_source l \<notin> T \<union> tx_new s) (ad_links (tx_db s))"
    using assms(2) confinedD(5) [OF I] by (intro filter_filter_keep) (auto simp: link_key_def links_anchored_def)
  then show ?thesis
    using I unfolding confined_def on_db_def same_books_def links_anchored_def find_memory_def by simp
qed

lemma confined_fts: "confined db0 T s \<Longrightarrow> confined db0 T (on_db (replace_fts i p) s)"
  by (simp add: confined_def on_db_def replace_fts_def links_anchored_def same_books_def find_memory_def)

lemma confined_touch: "confined db0 T s \<Longrightarrow> confined db0 T (s\<lparr>tx_touched := is\<rparr>)"
  by (simp add: confined_def)

section \<open>The operations\<close>

definition may_touch :: "action_db \<Rightarrow> string set \<Rightarrow> string \<Rightarrow> tx \<Rightarrow> bool" where
  "may_touch db0 T i s = (confined db0 T s \<and> canonical_id i = i \<and> (i \<in> T \<union> tx_new s \<or> find_memory i (tx_db s) = None))"

lemma may_touchD: "may_touch db0 T i s \<Longrightarrow> confined db0 T s"
  by (simp add: may_touch_def)

lemma access_triple: "triple (confined db0 T) (confined db0 T) (require_access m) (may_touch db0 T)"
  unfolding require_access_def
  by (rule triple_ask)
    (auto simp: may_touch_def exists_memory_def canonical_id_def Let_def confinedD(1) split: if_splits)

lemma access_again: "triple (confined db0 T) (may_touch db0 T i) (require_access i) (\<lambda>j s. j = i \<and> may_touch db0 T i s)"
  unfolding require_access_def
  by (rule triple_ask) (auto simp: may_touch_def Let_def split: if_splits)

definition held :: "action_db \<Rightarrow> string set \<Rightarrow> string \<Rightarrow> memory_record option \<Rightarrow> tx \<Rightarrow> bool" where
  "held db0 T i found s = (may_touch db0 T i s \<and> (found \<noteq> None \<longrightarrow> i \<in> T \<union> tx_new s))"

lemma heldD: "held db0 T i found s \<Longrightarrow> confined db0 T s" "held db0 T i (Some x) s \<Longrightarrow> confined db0 T s \<and> i \<in> T \<union> tx_new s"
  by (simp_all add: held_def may_touch_def)

lemma read_triple: "triple (confined db0 T) (may_touch db0 T i) (read_memory i) (held db0 T i)"
  unfolding read_memory_def by (rule triple_ask) (auto simp: held_def may_touch_def)

lemma get_again: "triple (confined db0 T) (may_touch db0 T i) (get_memory_tx i) (held db0 T i)"
  unfolding get_memory_tx_def
proof (rule triple_bind [OF access_again])
  fix j
  show "triple (confined db0 T) (\<lambda>s. j = i \<and> may_touch db0 T i s) (read_memory j) (held db0 T i)"
  proof (cases "j = i")
    case True
    show ?thesis unfolding True by (rule triple_conseq [OF read_triple]) simp_all
  next
    case False
    then show ?thesis by (simp add: triple_def)
  qed
qed

lemma get_triple: "triple (confined db0 T) (confined db0 T) (get_memory_tx m) (\<lambda>_. confined db0 T)"
  unfolding get_memory_tx_def
  by (rule triple_bind [OF access_triple]) (rule triple_conseq [OF read_triple], assumption, rule heldD)

lemma asks_triple: "triple (confined db0 T) (confined db0 T) (ask_tx f) (\<lambda>_. confined db0 T)"
  by (rule triple_ask)

lemma links_triple: "triple (confined db0 T) (confined db0 T) (get_links_tx m d t) (\<lambda>_. confined db0 T)"
  unfolding get_links_tx_def
  by (intro triple_bind [OF access_triple] triple_bind [where R = "\<lambda>_. confined db0 T"] triple_ask) (auto dest: may_touchD)

lemma protections_triple: "triple (confined db0 T) (confined db0 T) (get_protections_tx m) (\<lambda>_. confined db0 T)"
  unfolding get_protections_tx_def
  by (intro triple_bind [OF access_triple] triple_ask) (auto dest: may_touchD)

text \<open>What follows the first write of an operation.\<close>

lemma touch_triple: "triple (confined db0 T) (confined db0 T) (touch_tx is) (\<lambda>_. confined db0 T)"
  unfolding touch_tx_def by (rule triple_put) (simp add: confined_touch)

lemma stage_triple: "triple (confined db0 T) (confined db0 T) (stage_tx env st) (\<lambda>_. confined db0 T)"
  by (rule triple_stage)

lemma fts_triple: "triple (confined db0 T) (confined db0 T) (put_tx (on_db (replace_fts i p))) (\<lambda>_. confined db0 T)"
  by (rule triple_put) (rule confined_fts)

lemma seq_triple: "triple E E m (\<lambda>_. E) \<Longrightarrow> (\<And>x. triple E E (f x) Q) \<Longrightarrow> triple E E (bind_tx m f) Q"
  by (rule triple_bind)

lemmas after_write = touch_triple stage_triple fts_triple get_triple asks_triple

lemma update_triple: "triple (confined db0 T) (confined db0 T) (update_memory_tx env m c) (\<lambda>_. confined db0 T)"
  unfolding update_memory_tx_def
proof (rule triple_bind [OF access_triple], rule triple_bind [OF get_again])
  fix i found
  have wr: "triple (confined db0 T) (\<lambda>s. confined db0 T s \<and> i \<in> T \<union> tx_new s)
      (put_tx (on_db (\<lambda>db. db\<lparr>ad_memories := update_where (\<lambda>r. mr_id r = i) (write_prepared env p c) (ad_memories db)\<rparr>)))
      (\<lambda>_. confined db0 T)" for p
    by (rule triple_put) (auto intro!: confined_rows simp: write_prepared_def optional_columns_def Let_def)
  have prep: "triple (confined db0 T) (\<lambda>s. confined db0 T s \<and> i \<in> T \<union> tx_new s) (ask_tx (\<lambda>_. raising (prepare_memory_update env x c)))
      (\<lambda>_ s. confined db0 T s \<and> i \<in> T \<union> tx_new s)" for x
    by (rule triple_ask) auto
  show "triple (confined db0 T) (held db0 T i found)
     (case found of None \<Rightarrow> ask_tx (\<lambda>_. Inl (ActionStale (''target memory '' @ quoted i @ '' is missing'')))
      | Some existing \<Rightarrow> bind_tx (ask_tx (\<lambda>_. raising (prepare_memory_update env existing c))) (\<lambda>p.
         bind_tx (put_tx (on_db (\<lambda>db. db\<lparr>ad_memories :=
            update_where (\<lambda>r. mr_id r = i) (write_prepared env p c) (ad_memories db)\<rparr>))) (\<lambda>_.
         bind_tx (touch_tx [i]) (\<lambda>_. bind_tx (stage_tx env ''domain_mutation'') (\<lambda>_.
         bind_tx (put_tx (on_db (replace_fts i p))) (\<lambda>_. bind_tx (stage_tx env ''projection_update'') (\<lambda>_.
           get_memory_tx i))))))) (\<lambda>_. confined db0 T)"
  proof (cases found)
    case None
    show ?thesis unfolding None option.case by (rule triple_ask) (auto dest: heldD)
  next
    case (Some x)
    have "triple (confined db0 T) (\<lambda>s. confined db0 T s \<and> i \<in> T \<union> tx_new s)
      (bind_tx (ask_tx (\<lambda>_. raising (prepare_memory_update env x c))) (\<lambda>p.
         bind_tx (put_tx (on_db (\<lambda>db. db\<lparr>ad_memories :=
            update_where (\<lambda>r. mr_id r = i) (write_prepared env p c) (ad_memories db)\<rparr>))) (\<lambda>_.
         bind_tx (touch_tx [i]) (\<lambda>_. bind_tx (stage_tx env ''domain_mutation'') (\<lambda>_.
         bind_tx (put_tx (on_db (replace_fts i p))) (\<lambda>_. bind_tx (stage_tx env ''projection_update'') (\<lambda>_.
           get_memory_tx i))))))) (\<lambda>_. confined db0 T)"
      by (rule triple_bind [OF prep], rule triple_bind [OF wr]) (intro seq_triple after_write)
    then show ?thesis unfolding Some option.case by (rule triple_conseq) (auto dest: heldD)
  qed
qed

lemma create_triple: "triple (confined db0 T) (confined db0 T) (create_memory_tx env c) (\<lambda>_. confined db0 T)"
proof -
  have step: "triple (confined db0 T) (\<lambda>s. confined db0 T s \<and> find_memory i (tx_db s) = None)
     (bind_tx (put_tx (\<lambda>s. on_db (\<lambda>db. db\<lparr>ad_memories := ad_memories db @ [new_memory i (next_ref db) p a b]\<rparr>)
                   (s\<lparr>tx_new := insert i (tx_new s)\<rparr>))) (\<lambda>_.
            bind_tx (touch_tx [i]) (\<lambda>_.
            bind_tx (stage_tx env ''domain_mutation'') (\<lambda>_.
            bind_tx (put_tx (on_db (replace_fts i p))) (\<lambda>_.
            bind_tx (stage_tx env ''projection_update'') (\<lambda>_. get_memory_tx i)))))) (\<lambda>_. confined db0 T)" for i p a b
  proof (rule triple_bind [where R = "\<lambda>_. confined db0 T"], rule triple_put)
    fix s assume s: "confined db0 T s \<and> find_memory i (tx_db s) = None"
    have "mr_id (new_memory i n p a b) = i" for n by (simp add: new_memory_def)
    then show "confined db0 T (on_db (\<lambda>db. db\<lparr>ad_memories := ad_memories db @ [new_memory i (next_ref db) p a b]\<rparr>)
        (s\<lparr>tx_new := insert i (tx_new s)\<rparr>))"
      using confined_insert [of db0 T s "new_memory i (next_ref (tx_db s)) p a b"] s by (simp add: on_db_def)
  qed (intro seq_triple after_write)
  show ?thesis
  proof (rule tripleI)
    fix s e s' assume I: "confined db0 T s" and run: "create_memory_tx env c s = (Inl e, s')"
    show "confined db0 T s'"
      using run I by (auto simp: create_memory_tx_def exists_memory_def split: sum.splits prod.splits if_splits)
        (rule tripleE [OF step, rotated], assumption, simp)
  next
    fix s x s' assume I: "confined db0 T s" and run: "create_memory_tx env c s = (Inr x, s')"
    show "confined db0 T s'"
      using run I by (auto simp: create_memory_tx_def exists_memory_def split: sum.splits prod.splits if_splits)
        (rule tripleD [OF step, rotated], assumption, simp)
  qed
qed

lemma delete_triple: "triple (confined db0 T) (confined db0 T) (delete_memory_tx env m) (\<lambda>_. confined db0 T)"
  unfolding delete_memory_tx_def
proof (rule triple_bind [OF access_triple], rule triple_bind [OF get_again])
  fix i found
  have del: "triple (confined db0 T) (\<lambda>s. confined db0 T s \<and> i \<in> T \<union> tx_new s) (put_tx (on_db (delete_rows i))) (\<lambda>_. confined db0 T)"
    by (rule triple_put) (blast intro: confined_delete)
  show "triple (confined db0 T) (held db0 T i found)
     (case found of None \<Rightarrow> ask_tx (\<lambda>_. Inl (ActionStale (''target memory '' @ quoted i @ '' is missing'')))
      | Some existing \<Rightarrow> bind_tx (put_tx (on_db (delete_rows i))) (\<lambda>_. bind_tx (touch_tx [i]) (\<lambda>_.
         bind_tx (stage_tx env ''domain_mutation'') (\<lambda>_. ret_tx found)))) (\<lambda>_. confined db0 T)"
  proof (cases found)
    case None
    show ?thesis unfolding None option.case by (rule triple_ask) (auto dest: heldD)
  next
    case (Some x)
    have "triple (confined db0 T) (\<lambda>s. confined db0 T s \<and> i \<in> T \<union> tx_new s)
      (bind_tx (put_tx (on_db (delete_rows i))) (\<lambda>_. bind_tx (touch_tx [i]) (\<lambda>_.
         bind_tx (stage_tx env ''domain_mutation'') (\<lambda>_. ret_tx (Some x))))) (\<lambda>_. confined db0 T)"
      by (rule triple_bind [OF del]) (intro seq_triple after_write triple_ret)
    then show ?thesis unfolding Some option.case by (rule triple_conseq) (auto dest: heldD)
  qed
qed

lemma endpoint_triple: "triple (confined db0 T) (may_touch db0 T i) (require_endpoint m) (\<lambda>_. may_touch db0 T i)"
  unfolding require_endpoint_def by (rule triple_ask) (auto dest: may_touchD)

lemma ask_keeps: "triple (confined db0 T) (may_touch db0 T i) (ask_tx f) (\<lambda>_. may_touch db0 T i)"
  by (rule triple_ask) (auto dest: may_touchD)

lemma add_link_triple: "triple (confined db0 T) (confined db0 T) (add_link_tx env a b ty c) (\<lambda>_. confined db0 T)"
  unfolding add_link_tx_def Let_def
proof (rule triple_bind [OF access_triple], rule triple_bind [OF endpoint_triple], rule triple_bind [OF ask_keeps],
    rule triple_bind [where R = "\<lambda>_ s. may_touch db0 T s0 s \<and> exists_memory s0 s" for s0])
  fix s0
  show "triple (confined db0 T) (may_touch db0 T s0)
      (ask_tx (\<lambda>st. if exists_memory s0 st then Inr () else Inl (Raised IntegrityError)))
      (\<lambda>_ s. may_touch db0 T s0 s \<and> exists_memory s0 s)"
    by (rule triple_ask) (auto dest: may_touchD split: if_splits)
next
  fix s0 t0 ty0
  have "triple (confined db0 T) (\<lambda>s. may_touch db0 T s0 s \<and> exists_memory s0 s)
     (put_tx (on_db (upsert_link \<lparr>ml_source = s0, ml_target = t0, ml_type = ty0, ml_context = py_strip c\<rparr>))) (\<lambda>_. confined db0 T)"
    by (rule triple_put) (auto simp: may_touch_def exists_memory_def intro!: confined_upsert)
  then show "triple (confined db0 T) (\<lambda>s. may_touch db0 T s0 s \<and> exists_memory s0 s)
     (bind_tx (put_tx (on_db (upsert_link \<lparr>ml_source = s0, ml_target = t0, ml_type = ty0, ml_context = py_strip c\<rparr>)))
       (\<lambda>_. bind_tx (touch_tx [s0, t0]) (\<lambda>_. bind_tx (stage_tx env ''domain_mutation'') (\<lambda>_.
          ret_tx \<lparr>ml_source = s0, ml_target = t0, ml_type = ty0, ml_context = py_strip c\<rparr>)))) (\<lambda>_. confined db0 T)"
    by (rule triple_bind) (intro seq_triple after_write triple_ret)
qed

lemma remove_link_triple: "triple (confined db0 T) (confined db0 T) (remove_link_tx env a b ty) (\<lambda>_. confined db0 T)"
  unfolding remove_link_tx_def
proof (rule triple_bind [OF access_triple], rule triple_bind [OF endpoint_triple], rule triple_bind [OF ask_keeps],
    rule triple_bind [OF ask_keeps])
  fix s0 t0 ty0 removed
  have "triple (confined db0 T) (may_touch db0 T s0)
     (put_tx (on_db (\<lambda>db. db\<lparr>ad_links := filter (\<lambda>l. link_key l \<noteq> (s0, t0, ty0)) (ad_links db)\<rparr>))) (\<lambda>_. confined db0 T)"
    by (rule triple_put) (auto simp: may_touch_def intro!: confined_unlink)
  then show "triple (confined db0 T) (may_touch db0 T s0)
     (bind_tx (put_tx (on_db (\<lambda>db. db\<lparr>ad_links := filter (\<lambda>l. link_key l \<noteq> (s0, t0, ty0)) (ad_links db)\<rparr>)))
       (\<lambda>_. bind_tx (touch_tx [s0, t0]) (\<lambda>_. bind_tx (stage_tx env ''domain_mutation'') (\<lambda>_. ret_tx removed)))) (\<lambda>_. confined db0 T)"
    by (rule triple_bind) (intro seq_triple after_write triple_ret)
qed

lemma lineage_triple: "triple (confined db0 T) (confined db0 T) (set_lineage_tx env m d) (\<lambda>_. confined db0 T)"
  unfolding set_lineage_tx_def
  by (rule seq_triple [OF get_triple]) (simp add: update_triple asks_triple split: option.split)

section \<open>Callbacks\<close>

lemma call_triple: "triple (confined db0 T) (confined db0 T) (call_tx env c) (\<lambda>_. confined db0 T)"
  by (cases c) (auto simp: answering_def intro!: seq_triple triple_ret get_triple links_triple protections_triple update_triple
      create_triple delete_triple add_link_triple remove_link_triple lineage_triple)

lemma callback_confined: "confined db0 T s \<Longrightarrow> confined db0 T (snd (run_callback env k s))"
proof (induction k arbitrary: s)
  case (Call c k)
  obtain a s' where run: "call_tx env c s = (a, s')" by fastforce
  have "confined db0 T s'"
    using tripleE [OF call_triple Call.prems] tripleD [OF call_triple Call.prems] run by (cases a) blast+
  then show ?case using Call.IH by (simp add: run)
qed (simp_all add: ret_tx_def ask_tx_def)

end
