(* ===== verification/ActionProps.thy ===== *)
theory ActionProps
  imports ActionLaws
begin

text \<open>
  The properties of curation actions: an action leaves a receipt or no trace, a second attempt changes
  nothing, an action stays within its targets and their revision, and what it did verifies.
\<close>

section \<open>A successful action\<close>

lemma bind_act_Inr: "bind_act m f = Inr y \<longleftrightarrow> (\<exists>x. m = Inr x \<and> f x = Inr y)"
  by (cases m) simp_all

lemma require_Inr [simp]: "require b e = Inr u \<longleftrightarrow> b"
  by (simp add: require_def)

lemma raising_Inr [simp]: "raising m = Inr x \<longleftrightarrow> m = Inr x"
  by (cases m) simp_all

lemma check_all_Inr: "check_all f xs = Inr u \<longleftrightarrow> (\<forall>x \<in> set xs. f x = Inr ())"
  by (induction xs) (auto simp: bind_act_Inr)

definition ledger_with :: "action_env \<Rightarrow> receipt \<Rightarrow> curation_db \<Rightarrow> curation_db" where
  "ledger_with env r l = l\<lparr>cd_receipts := cd_receipts l @ [r], cd_events := insert (ax_event env) (cd_events l)\<rparr>"

text \<open>What an action leaves behind.\<close>

lemma write_event_effect:
  "write_event env q run oper db = Inr db' \<longleftrightarrow> \<not> event_insert_fails (action_event env q run oper) (ad_events db)
    \<and> db' = db\<lparr>ad_events := ad_events db @ [action_event env q run oper],
         ad_ledger := (ad_ledger db)\<lparr>cd_events := insert (ax_event env) (cd_events (ad_ledger db))\<rparr>\<rparr>"
  by (auto simp: write_event_def Let_def)

lemma write_history_effect:
  assumes "write_history env q run oper b a bl al db = Inr db'"
  obtains revs where "record_revisions env (ax_event env) b a (sorted_ids (map fst b @ map fst a)) = Inr revs"
    "\<not> event_insert_fails (action_event env q run oper) (ad_events db)"
    "db' = db\<lparr>ad_events := ad_events db @ [action_event env q run oper],
         ad_ledger := (ad_ledger db)\<lparr>cd_events := insert (ax_event env) (cd_events (ad_ledger db))\<rparr>,
         ad_record_revisions := ad_record_revisions db @ revs,
         ad_link_revisions := ad_link_revisions db @ link_revisions (ax_event env) bl al\<rparr>"
  using assms by (auto simp: write_history_def bind_act_Inr write_event_effect)

lemma action_event_simps [simp]:
  "mv_id (action_event env q run oper) = ax_event env" "mv_operation (action_event env q run oper) = oper"
  "mv_run (action_event env q run oper) = Some (rq_run q)" "mv_action (action_event env q run oper) = Some (rq_action q)"
  "mv_restores (action_event env q run oper) = rq_restores q" "mv_status (action_event env q run oper) = EventApplied"
  "mv_key (action_event env q run oper) = Some (event_key q)"
  by (simp_all add: action_event_def)

lemma make_receipt_effect:
  assumes "make_receipt env q nq result touched bt at' = Inr r"
  shows "rc_run r = rq_run q" "rc_action r = rq_action q" "rc_status r = AppliedUnverified"
    "rc_operation r = py_strip (mu_operation result)" "rc_before r = bt" "rc_after r = at'"
    "rc_descriptor r = (case mu_descriptor result of Some d \<Rightarrow> Some d | None \<Rightarrow> rq_descriptor q)"
    "\<exists>h. rc_intent r = Some h \<and> action_intent_hash env q nq (py_strip (mu_operation result)) = Inr h"
    "\<exists>affected. local_memory_ids (if mu_affected result \<noteq> [] then mu_affected result
         else if touched \<noteq> [] then touched else nq_targets nq) = Inr affected \<and> parse_uuids affected = Inr (rc_affected r)"
  using assms by (auto simp: make_receipt_def bind_act_Inr)

lemma insert_receipt_effect:
  assumes "insert_receipt r db = Inr db'"
  shows "db' = db\<lparr>ad_ledger := (ad_ledger db)\<lparr>cd_receipts := cd_receipts (ad_ledger db) @ [r]\<rparr>\<rparr>"
    "\<not> receipt_insert_fails r (ad_ledger db)"
  using assms by (auto simp: insert_receipt_def split: if_splits)

text \<open>The steps of \<open>record_action\<close>.\<close>

lemma record_action_steps:
  assumes "record_action env q nq run db0 result touched db = Inr (r, db')"
  obtains after_ids bt at' repairs db1 where
    "py_strip (mu_operation result) = nq_operation nq"
    "canonical_target_ids (nq_targets nq @ touched) = Inr after_ids"
    "state_token (ax_hashing env) (read_records db after_ids) after_ids = Inr at'"
    "write_history env q run (py_strip (mu_operation result)) (read_records db0 (nq_targets nq)) (read_records db after_ids)
       (related_links db0 (nq_targets nq)) (related_links db after_ids) (db\<lparr>ad_repairs := repairs\<rparr>) = Inr db1"
    "make_receipt env q nq result touched bt at' = Inr r" "insert_receipt r db1 = Inr db'"
  using assms unfolding record_action_def bind_act_Inr Let_def by (elim exE conjE) (auto simp: bind_act_Inr)

lemma record_action_effect:
  assumes "record_action env q nq run db0 result touched db = Inr (r, db')"
  shows "ad_memories db' = ad_memories db" "ad_links db' = ad_links db" "ad_fts db' = ad_fts db"
    "ad_protections db' = ad_protections db" "ad_ledger db' = ledger_with env r (ad_ledger db)"
    "\<exists>ev. ad_events db' = ad_events db @ [ev] \<and> mv_id ev = ax_event env \<and> mv_run ev = Some (rq_run q) \<and> mv_action ev = Some (rq_action q)"
    "rc_run r = rq_run q" "rc_action r = rq_action q" "rc_status r = AppliedUnverified" "rc_operation r = nq_operation nq"
    "rc_descriptor r = (case mu_descriptor result of Some d \<Rightarrow> Some d | None \<Rightarrow> rq_descriptor q)"
    "\<exists>h. rc_intent r = Some h \<and> action_intent_hash env q nq (nq_operation nq) = Inr h"
    "receipt_key r \<notin> receipt_key ` set (cd_receipts (ad_ledger db))" "rc_run r \<in> cr_id ` set (cd_runs (ad_ledger db))"
    "\<exists>after_ids. canonical_target_ids (nq_targets nq @ touched) = Inr after_ids
       \<and> state_token (ax_hashing env) (read_records db after_ids) after_ids = Inr (rc_after r)"
    "\<exists>affected. local_memory_ids (if mu_affected result \<noteq> [] then mu_affected result
         else if touched \<noteq> [] then touched else nq_targets nq) = Inr affected \<and> parse_uuids affected = Inr (rc_affected r)"
proof -
  obtain after_ids bt at' repairs db1 where st: "py_strip (mu_operation result) = nq_operation nq"
      "canonical_target_ids (nq_targets nq @ touched) = Inr after_ids"
      "state_token (ax_hashing env) (read_records db after_ids) after_ids = Inr at'"
      "write_history env q run (py_strip (mu_operation result)) (read_records db0 (nq_targets nq)) (read_records db after_ids)
       (related_links db0 (nq_targets nq)) (related_links db after_ids) (db\<lparr>ad_repairs := repairs\<rparr>) = Inr db1"
      "make_receipt env q nq result touched bt at' = Inr r" "insert_receipt r db1 = Inr db'"
    using record_action_steps [OF assms] .
  note mr = make_receipt_effect [OF st(5)]
  obtain revs where db1: "db1 = (db\<lparr>ad_repairs := repairs\<rparr>)\<lparr>ad_events := ad_events db @ [action_event env q run (py_strip (mu_operation result))],
         ad_ledger := (ad_ledger db)\<lparr>cd_events := insert (ax_event env) (cd_events (ad_ledger db))\<rparr>,
         ad_record_revisions := ad_record_revisions db @ revs,
         ad_link_revisions := ad_link_revisions db @ link_revisions (ax_event env) (related_links db0 (nq_targets nq)) (related_links db after_ids)\<rparr>"
    using write_history_effect [OF st(4)] by auto
  note ir = insert_receipt_effect [OF st(6)]
  show "ad_memories db' = ad_memories db" "ad_links db' = ad_links db" "ad_fts db' = ad_fts db"
    "ad_protections db' = ad_protections db" "ad_ledger db' = ledger_with env r (ad_ledger db)"
    by (simp_all add: ir(1) db1 ledger_with_def)
  show "\<exists>ev. ad_events db' = ad_events db @ [ev] \<and> mv_id ev = ax_event env \<and> mv_run ev = Some (rq_run q) \<and> mv_action ev = Some (rq_action q)"
    by (simp add: ir(1) db1)
  show "receipt_key r \<notin> receipt_key ` set (cd_receipts (ad_ledger db))" "rc_run r \<in> cr_id ` set (cd_runs (ad_ledger db))"
    using ir(2) by (simp_all add: db1 receipt_insert_fails_def)
  show "\<exists>after_ids. canonical_target_ids (nq_targets nq @ touched) = Inr after_ids
       \<and> state_token (ax_hashing env) (read_records db after_ids) after_ids = Inr (rc_after r)"
    using st(2,3) mr(6) by simp
  show "rc_run r = rq_run q" "rc_action r = rq_action q" "rc_status r = AppliedUnverified" "rc_operation r = nq_operation nq"
    "rc_descriptor r = (case mu_descriptor result of Some d \<Rightarrow> Some d | None \<Rightarrow> rq_descriptor q)"
    "\<exists>h. rc_intent r = Some h \<and> action_intent_hash env q nq (nq_operation nq) = Inr h"
    using mr st(1) by simp_all
  show "\<exists>affected. local_memory_ids (if mu_affected result \<noteq> [] then mu_affected result
         else if touched \<noteq> [] then touched else nq_targets nq) = Inr affected \<and> parse_uuids affected = Inr (rc_affected r)"
    by (rule mr(9))
qed

lemma open_action_run_effect:
  assumes "open_action_run env q db = Inr (run, db1)"
  shows "ad_memories db1 = ad_memories db" "ad_links db1 = ad_links db" "ad_protections db1 = ad_protections db"
    "ad_events db1 = ad_events db" "cd_receipts (ad_ledger db1) = cd_receipts (ad_ledger db)"
    "cd_broken (ad_ledger db1) = cd_broken (ad_ledger db)" "find_memory i db1 = find_memory i db"
    "links_anchored db1 = links_anchored db"
  using assms by (auto simp: open_action_run_def Let_def find_memory_def links_anchored_def split: option.splits if_splits)

lemma apply_action_steps:
  assumes "apply_action env q nq db = Inr (r, db')"
  obtains run db1 result s where "open_action_run env q db = Inr (run, db1)" "guarded_action env q nq db = Inr (run, db1)"
    "run_callback env (rq_apply q) (start_tx nq db1) = (Inr result, s)"
    "record_action env q nq run db1 result (tx_touched s) (tx_db s) = Inr (r, db')"
proof -
  obtain run db1 where g: "guarded_action env q nq db = Inr (run, db1)"
      "(case run_callback env (rq_apply q) (start_tx nq db1) of
         (Inl e, s) \<Rightarrow> Inl e
       | (Inr result, s) \<Rightarrow>
           bind_act (record_action env q nq run db1 result (tx_touched s) (tx_db s)) (\<lambda>(r, db).
           bind_act (stage_act env ''commit'') (\<lambda>_. Inr (r, db)))) = Inr (r, db')"
    using assms by (auto simp: apply_action_def bind_act_Inr)
  have o: "open_action_run env q db = Inr (run, db1)"
    using g(1) by (auto simp: guarded_action_def bind_act_Inr)
  obtain y s where c: "run_callback env (rq_apply q) (start_tx nq db1) = (y, s)" by fastforce
  with g(2) obtain result where "y = Inr result" by (cases y) simp_all
  with c g(2) have "record_action env q nq run db1 result (tx_touched s) (tx_db s) = Inr (r, db')"
    by (auto simp: bind_act_Inr)
  with that o g(1) c \<open>y = Inr result\<close> show ?thesis by blast
qed

lemma start_confined: "links_anchored db \<Longrightarrow> confined db (set (nq_targets nq)) (start_tx nq db)"
  by (simp add: confined_def start_tx_def same_books_def)

lemma apply_action_confined:
  assumes "apply_action env q nq db = Inr (r, db')" and "links_anchored db"
  obtains N where "\<And>i. i \<in> N \<Longrightarrow> i \<in> set (nq_targets nq) \<or> find_memory i db = None"
    "filter (\<lambda>x. mr_id x \<notin> set (nq_targets nq) \<union> N) (ad_memories db') = filter (\<lambda>x. mr_id x \<notin> set (nq_targets nq)) (ad_memories db)"
    "filter (\<lambda>l. ml_source l \<notin> set (nq_targets nq) \<union> N) (ad_links db') = filter (\<lambda>l. ml_source l \<notin> set (nq_targets nq)) (ad_links db)"
    "links_anchored db'" "ad_protections db' = ad_protections db"
    "cd_receipts (ad_ledger db') = cd_receipts (ad_ledger db) @ [r]" "cd_broken (ad_ledger db') = cd_broken (ad_ledger db)"
    "\<exists>ev. ad_events db' = ad_events db @ [ev] \<and> mv_id ev = ax_event env \<and> mv_run ev = Some (rq_run q) \<and> mv_action ev = Some (rq_action q)"
proof -
  obtain run db1 result s where st: "open_action_run env q db = Inr (run, db1)"
      "run_callback env (rq_apply q) (start_tx nq db1) = (Inr result, s)"
      "record_action env q nq run db1 result (tx_touched s) (tx_db s) = Inr (r, db')"
    using apply_action_steps [OF assms(1)] by metis
  note o = open_action_run_effect [OF st(1)] and rec = record_action_effect [OF st(3)]
  have "confined db1 (set (nq_targets nq)) s"
    using callback_confined [OF start_confined [of db1 nq], of env "rq_apply q"] o(8) assms(2) st(2) by simp
  note C = confinedD [OF this]
  have "links_anchored db'" using C(5) by (simp add: links_anchored_def rec(1,2) find_memory_def)
  then show ?thesis
    using that [of "tx_new s"] C(2) C(3) [unfolded o(1)] C(4) [unfolded o(2)] C(6) o rec
    by (simp add: same_books_def ledger_with_def)
qed

section \<open>Execution and replay\<close>

lemma execute_action_cases:
  assumes "execute_action env q db = (out, db')"
  obtains (failed) e where "out = Inl e" "db' = db"
  | (replay) nq r where "normalize_request q = Inr nq" "replayed env q nq db = Inr (Some r)" "out = Inr r" "db' = db"
  | (fresh) nq r where "normalize_request q = Inr nq" "replayed env q nq db = Inr None" "out = Inr r"
      "apply_action env q nq db = Inr (r, db')"
proof (cases "normalize_request q")
  case (Inl e)
  then show ?thesis using assms failed [of e] by (simp add: execute_action_def)
next
  case (Inr nq)
  show ?thesis
  proof (cases "replayed env q nq db")
    case (Inl e)
    then have "(out, db') = (Inl e, db)" using assms \<open>normalize_request q = Inr nq\<close> by (simp add: execute_action_def)
    then show ?thesis using failed by blast
  next
    case (Inr found)
    show ?thesis
    proof (cases found)
      case (Some r)
      then have "(out, db') = (Inr r, db)" using assms \<open>normalize_request q = Inr nq\<close> Inr by (simp add: execute_action_def)
      then show ?thesis using replay \<open>normalize_request q = Inr nq\<close> Inr Some by blast
    next
      case None
      then have run: "execute_transaction env q nq db = (out, db')"
        using assms \<open>normalize_request q = Inr nq\<close> Inr by (simp add: execute_action_def)
      show ?thesis
      proof (cases out)
        case (Inl e)
        then have "db' = db" using run by (auto simp: execute_transaction_def split: sum.splits)
        then show ?thesis using failed Inl by blast
      next
        case (Inr r)
        then have "apply_action env q nq db = Inr (r, db')"
          using run \<open>replayed env q nq db = Inr found\<close> None
          by (auto simp: execute_transaction_def bind_act_Inr split: sum.splits)
        then show ?thesis using fresh \<open>normalize_request q = Inr nq\<close> \<open>replayed env q nq db = Inr found\<close> None Inr by blast
      qed
    qed
  qed
qed

lemma replayed_SomeD:
  assumes "replayed env q nq db = Inr (Some r)"
  shows "get_receipt (rq_run q) (rq_action q) (ad_ledger db) = Inr (Some r)" "agree (rc_descriptor r) (rq_descriptor q)"
    "\<exists>h. rc_intent r = Some h \<and> action_intent_hash env q nq (nq_operation nq) = Inr h"
  using assms by (auto simp: replayed_def check_replay_identity_def bind_act_Inr split: option.splits)

lemma replayed_SomeI:
  assumes "get_receipt (rq_run q) (rq_action q) (ad_ledger db) = Inr (Some r)" "agree (rc_descriptor r) (rq_descriptor q)"
    "rc_intent r = Some h" "action_intent_hash env q nq (nq_operation nq) = Inr h"
  shows "replayed env q nq db = Inr (Some r)"
  using assms by (simp add: replayed_def check_replay_identity_def require_def)

lemma replayed_NoneD:
  assumes "replayed env q nq db = Inr None" and "r \<in> set (cd_receipts (ad_ledger db))"
  shows "receipt_key r \<noteq> (rq_run q, rq_action q)"
proof -
  have "get_receipt (rq_run q) (rq_action q) (ad_ledger db) = Inr None"
    using assms(1) by (auto simp: replayed_def bind_act_Inr split: option.splits)
  then have "List.find (\<lambda>r. receipt_key r = (rq_run q, rq_action q)) (cd_receipts (ad_ledger db)) = None"
    by (simp add: get_receipt_def split: option.splits if_splits)
  then show ?thesis using assms(2) by (auto simp: find_None_iff)
qed

lemma intent_hash_cong:
  "ax_hashing env' = ax_hashing env \<Longrightarrow> ax_dump env' = ax_dump env \<Longrightarrow>
    action_intent_hash env' q nq oper = action_intent_hash env q nq oper"
  unfolding action_intent_hash_def by (simp only:)

text \<open>The invariant of the database: that of the ledger, and the foreign key of the links.\<close>

definition action_db_ok :: "action_db \<Rightarrow> bool" where
  "action_db_ok db = (ledger_ok (ad_ledger db) \<and> links_anchored db)"

lemma open_action_run_ok:
  assumes "open_action_run env q db = Inr (run, db1)" and "ledger_ok (ad_ledger db)"
  shows "ledger_ok (ad_ledger db1)"
proof (cases "get_run (rq_run q) (ad_ledger db)")
  case (Some r)
  then have "db1 = db" using assms(1) by (auto simp: open_action_run_def split: if_splits)
  then show ?thesis using assms(2) by simp
next
  case None
  then obtain e where db1: "db1 = db\<lparr>ad_ledger := (ad_ledger db)\<lparr>cd_runs := cd_runs (ad_ledger db) @ [restore_run env q e]\<rparr>\<rparr>"
    using assms(1) by (auto simp: open_action_run_def Let_def split: option.splits)
  have "rq_run q \<notin> cr_id ` set (cd_runs (ad_ledger db))"
    using None by (auto simp: get_run_def find_None_iff)
  then show ?thesis using assms(2) unfolding ledger_ok_def db1 by (auto simp: restore_run_def)
qed

lemma apply_action_receipt:
  assumes "apply_action env q nq db = Inr (r, db')" and "action_db_ok db"
  shows "rc_run r = rq_run q" "rc_action r = rq_action q" "rc_status r = AppliedUnverified"
    "\<exists>h. rc_intent r = Some h \<and> action_intent_hash env q nq (nq_operation nq) = Inr h"
    "cd_receipts (ad_ledger db') = cd_receipts (ad_ledger db) @ [r]" "cd_broken (ad_ledger db') = cd_broken (ad_ledger db)"
    "\<exists>ev. ad_events db' = ad_events db @ [ev] \<and> mv_id ev = ax_event env \<and> mv_run ev = Some (rq_run q) \<and> mv_action ev = Some (rq_action q)"
    "action_db_ok db'"
proof -
  obtain run db1 result s where st: "open_action_run env q db = Inr (run, db1)"
      "run_callback env (rq_apply q) (start_tx nq db1) = (Inr result, s)"
      "record_action env q nq run db1 result (tx_touched s) (tx_db s) = Inr (r, db')"
    using apply_action_steps [OF assms(1)] by metis
  note rec = record_action_effect [OF st(3)] and o = open_action_run_effect [OF st(1)]
  have ok: "ledger_ok (ad_ledger db)" "links_anchored db" using assms(2) by (simp_all add: action_db_ok_def)
  note con = apply_action_confined [OF assms(1) ok(2)]
  show "rc_run r = rq_run q" "rc_action r = rq_action q" "rc_status r = AppliedUnverified"
    "\<exists>h. rc_intent r = Some h \<and> action_intent_hash env q nq (nq_operation nq) = Inr h"
    using rec by simp_all
  show "cd_receipts (ad_ledger db') = cd_receipts (ad_ledger db) @ [r]" "cd_broken (ad_ledger db') = cd_broken (ad_ledger db)"
    "\<exists>ev. ad_events db' = ad_events db @ [ev] \<and> mv_id ev = ax_event env \<and> mv_run ev = Some (rq_run q) \<and> mv_action ev = Some (rq_action q)"
    using con by metis+
  have "same_books db1 (tx_db s)"
    using confinedD(6) [OF callback_confined [OF start_confined [of db1 nq], of env "rq_apply q"]] o(8) ok(2) st(2) by simp
  then have led: "ad_ledger (tx_db s) = ad_ledger db1" by (simp add: same_books_def)
  have "ledger_ok (ad_ledger db')"
    using open_action_run_ok [OF st(1) ok(1)] rec(12,13,14) unfolding rec(5) ledger_with_def led ledger_ok_def by auto
  then show "action_db_ok db'" using con unfolding action_db_ok_def by metis
qed

section \<open>An action\<close>

text \<open>A normalization that gives one memory a new title, on its current revision.\<close>

definition sample_id :: string where
  "sample_id = ''11111111-1111-1111-1111-111111111111''"

definition sample_memory :: memory_record where
  "sample_memory = \<lparr>mr_id = sample_id, mr_title = ''t'', mr_content = ''c'', mr_summary = None, mr_type = ''fact'',
     mr_status = ''active'', mr_created_at = [], mr_updated_at = [], mr_read_count = 0, mr_access_score = 0,
     mr_last_accessed = None, mr_last_surfaced = None, mr_metadata = [], mr_workspaces = [''w''], mr_tags = [],
     mr_ref = None, mr_archived_at = None\<rparr>"

definition sample_run :: curation_run where
  "sample_run = \<lparr>cr_id = UUID ''r1'', cr_task = None, cr_epoch = None, cr_work_item = None, cr_frontier = ''f'',
     cr_strategy = None, cr_fingerprint = ''c'', cr_planner = None, cr_provider = None, cr_model = None,
     cr_policy_version = ''v1'', cr_schema_version = 1, cr_state = RunExecuting, cr_outcome = None, cr_plan = None,
     cr_rejection_codes = [], cr_retry_reason = None, cr_budget = [], cr_disclosure = [], cr_created = Some 1,
     cr_terminalized = None\<rparr>"

definition sample_db :: action_db where
  "sample_db = \<lparr>ad_ledger = \<lparr>cd_runs = [sample_run], cd_receipts = [], cd_candidates = [], cd_broken = {}, cd_events = {}\<rparr>,
     ad_memories = [sample_memory, sample_memory\<lparr>mr_id := ''other''\<rparr>], ad_links = [], ad_fts = [], ad_protections = [],
     ad_repairs = [], ad_events = [], ad_record_revisions = [], ad_link_revisions = []\<rparr>"

definition sample_env :: action_env where
  "sample_env = \<lparr>ax_hashing = \<lparr>h_sha256 = (\<lambda>_. ''h''), h_uuid5 = (\<lambda>i _. i), h_float = (\<lambda>_. [])\<rparr>,
     ax_repr = (\<lambda>_. []), ax_dots = CHR ''~'', ax_model = ''m'', ax_clk = 5, ax_now = ''now'', ax_event = UUID ''e1'',
     ax_new_id = (\<lambda>_. []), ax_repair_id = (\<lambda>_. ''p''), ax_dump = (\<lambda>_. JNull), ax_fault = (\<lambda>_. None)\<rparr>"

definition sample_request :: action_request where
  "sample_request = \<lparr>rq_run = UUID ''r1'', rq_action = UUID ''a1'', rq_targets = [sample_id],
     rq_tokens = [(sample_id, ''v1:h'')],
     rq_apply = Call (UpdateMemory sample_id [(''title'', JStr ''new'')]) (\<lambda>a. case a of Inl e \<Rightarrow> Fail e
       | Inr _ \<Rightarrow> Finish \<lparr>mu_operation = ''normalize_memory'', mu_affected = [sample_id], mu_descriptor = None\<rparr>),
     rq_preconditions = None, rq_operation = Some ''normalize_memory'', rq_payload = JNull, rq_descriptor = None,
     rq_actor = ''curator'', rq_restores = None, rq_key = None\<rparr>"

definition sample_receipt :: receipt where
  "sample_receipt = \<lparr>rc_run = UUID ''r1'', rc_action = UUID ''a1'', rc_operation = ''normalize_memory'',
     rc_affected = [UUID sample_id], rc_status = AppliedUnverified, rc_before = Some ''v1:h'', rc_after = Some ''v1:h'',
     rc_event = Some (UUID ''e1''), rc_intent = Some ''v1:h'', rc_descriptor = None, rc_error = None, rc_applied = Some 5,
     rc_verified = None\<rparr>"

lemma sample_applied: "fst (execute_action sample_env sample_request sample_db) = Inr sample_receipt"
  by code_simp

lemma sample_execution:
  "execute_action sample_env sample_request sample_db = (Inr sample_receipt, snd (execute_action sample_env sample_request sample_db))"
  using sample_applied by (metis prod.collapse)

lemma sample_normalized:
  "normalize_request sample_request = Inr \<lparr>nq_targets = [sample_id], nq_tokens = [(sample_id, ''v1:h'')], nq_operation = ''normalize_memory''\<rparr>"
  by code_simp

lemma sample_db_ok: "action_db_ok sample_db"
  by (simp add: action_db_ok_def ledger_ok_def links_anchored_def sample_db_def sample_run_def)

lemma sample_fresh: "cd_receipts (ad_ledger sample_db) = []" "cd_broken (ad_ledger sample_db) = {}"
  by (simp_all add: sample_db_def)

lemma sample_found: "find_memory sample_id sample_db = Some sample_memory"
    "find_memory ''other'' sample_db = Some (sample_memory\<lparr>mr_id := ''other''\<rparr>)"
  by (simp_all add: find_memory_def sample_db_def sample_memory_def sample_id_def)

section \<open>Exactly once\<close>

lemma execute_action_outcome:
  assumes "execute_action env q db = (out, db')" and "action_db_ok db"
    and "(rq_run q, rq_action q) \<notin> cd_broken (ad_ledger db)"
  shows "case out of
      Inl e \<Rightarrow> db' = db
    | Inr r \<Rightarrow> receipt_key r = (rq_run q, rq_action q) \<and> action_db_ok db'
        \<and> (r \<in> set (cd_receipts (ad_ledger db)) \<and> db' = db
           \<or> receipt_key r \<notin> receipt_key ` set (cd_receipts (ad_ledger db)) \<and> rc_status r = AppliedUnverified
             \<and> cd_receipts (ad_ledger db') = cd_receipts (ad_ledger db) @ [r]
             \<and> (\<exists>ev. ad_events db' = ad_events db @ [ev] \<and> mv_id ev = ax_event env
                  \<and> mv_run ev = Some (rq_run q) \<and> mv_action ev = Some (rq_action q)))
        \<and> (agree (rc_descriptor r) (rq_descriptor q) \<longrightarrow>
            (\<forall>env'. ax_hashing env' = ax_hashing env \<longrightarrow> ax_dump env' = ax_dump env \<longrightarrow>
               execute_action env' q db' = (Inr r, db')))"
  using assms(1)
proof (cases rule: execute_action_cases)
  case (failed e)
  then show ?thesis by simp
next
  case (replay nq r)
  note R = replayed_SomeD [OF replay(2)]
  have "execute_action env' q db = (Inr r, db)" if "ax_hashing env' = ax_hashing env" "ax_dump env' = ax_dump env" for env'
    using R replayed_SomeI [of q db r _ env' nq] intent_hash_cong [OF that] replay(1) by (auto simp: execute_action_def)
  then show ?thesis using get_receipt_SomeD [OF R(1)] replay(3,4) assms(2) by simp
next
  case (fresh nq r)
  note A = apply_action_receipt [OF fresh(4) assms(2)]
  have key: "receipt_key r = (rq_run q, rq_action q)" using A(1,2) by (simp add: receipt_key_def)
  have "receipt_key r \<notin> receipt_key ` set (cd_receipts (ad_ledger db))"
    unfolding key using replayed_NoneD [OF fresh(2)] by fastforce
  moreover have "execute_action env' q db' = (Inr r, db')"
    if same: "ax_hashing env' = ax_hashing env" "ax_dump env' = ax_dump env" and d: "agree (rc_descriptor r) (rq_descriptor q)" for env'
  proof -
    have "distinct (map receipt_key (cd_receipts (ad_ledger db')))"
      using A(8) ledger_okD(2) by (simp add: action_db_ok_def)
    then have "get_receipt (rq_run q) (rq_action q) (ad_ledger db') = Inr (Some r)"
      using A(5,6) key assms(3) by (intro get_receiptI) simp_all
    then have "replayed env' q nq db' = Inr (Some r)"
      using A(4) intent_hash_cong [OF same] d by (auto intro!: replayed_SomeI)
    then show ?thesis using fresh(1) by (simp add: execute_action_def)
  qed
  ultimately show ?thesis using A key unfolding fresh(3) sum.case by blast
qed

text \<open>C13. An action that fails leaves the database as it was. One that succeeds either has its receipt already, and
  changes nothing, or adds exactly one receipt, to be verified, and one event of the history; the database
  keeps its invariant, and the same request made again, at any time and under any faults, returns that receipt and changes
  nothing, unless the callback replaced the verification descriptor of the request.\<close>

theorem action_exactly_once:
  assumes "execute_action env q db = (out, db')" and "action_db_ok db"
    and "(rq_run q, rq_action q) \<notin> cd_broken (ad_ledger db)"
  shows "case out of
      Inl e \<Rightarrow> db' = db
    | Inr r \<Rightarrow> receipt_key r = (rq_run q, rq_action q) \<and> action_db_ok db'
        \<and> (r \<in> set (cd_receipts (ad_ledger db)) \<and> db' = db
           \<or> receipt_key r \<notin> receipt_key ` set (cd_receipts (ad_ledger db)) \<and> rc_status r = AppliedUnverified
             \<and> cd_receipts (ad_ledger db') = cd_receipts (ad_ledger db) @ [r]
             \<and> (\<exists>ev. ad_events db' = ad_events db @ [ev] \<and> mv_id ev = ax_event env
                  \<and> mv_run ev = Some (rq_run q) \<and> mv_action ev = Some (rq_action q)))
        \<and> (agree (rc_descriptor r) (rq_descriptor q) \<longrightarrow>
            (\<forall>env'. ax_hashing env' = ax_hashing env \<longrightarrow> ax_dump env' = ax_dump env \<longrightarrow>
               execute_action env' q db' = (Inr r, db')))"
  using execute_action_outcome [OF assms] .

lemma action_exactly_once_witness:
  "\<exists>r db'. execute_action sample_env sample_request sample_db = (Inr r, db') \<and> cd_receipts (ad_ledger db') = [r]
    \<and> execute_action (sample_env\<lparr>ax_event := UUID ''e2'', ax_clk := 9\<rparr>) sample_request db' = (Inr r, db')"
proof -
  have "agree (rc_descriptor sample_receipt) (rq_descriptor sample_request)" by (simp add: agree_def sample_receipt_def)
  then have "cd_receipts (ad_ledger (snd (execute_action sample_env sample_request sample_db))) = [sample_receipt]"
      "execute_action (sample_env\<lparr>ax_event := UUID ''e2'', ax_clk := 9\<rparr>) sample_request
         (snd (execute_action sample_env sample_request sample_db)) = (Inr sample_receipt, snd (execute_action sample_env sample_request sample_db))"
    using action_exactly_once [OF sample_execution sample_db_ok] sample_execution by (simp_all add: sample_fresh)
  with sample_execution show ?thesis by blast
qed

section \<open>Confinement\<close>

lemma canonical_targets_set: "canonical_target_ids vs = Inr ids \<Longrightarrow> set ids = canonical_id ` set vs"
  by (auto simp: canonical_target_ids_def sorted_ids_def Let_def split: if_splits)

lemma normalize_targets: "normalize_request q = Inr nq \<Longrightarrow> canonical_target_ids (rq_targets q) = Inr (nq_targets nq)"
  by (auto simp: normalize_request_def bind_act_Inr Let_def split: if_splits option.splits)

lemma find_in_filter:
  assumes "filter P xs = filter Q ys" and "\<And>x. f x = i \<Longrightarrow> P x \<and> Q x"
  shows "filter (\<lambda>x. f x = i) xs = filter (\<lambda>x. f x = i) ys"
proof -
  have "filter (\<lambda>x. f x = i) xs = filter (\<lambda>x. f x = i) (filter P xs)"
    using assms(2) by (simp add: filter_filter) (rule filter_cong, auto)
  also have "\<dots> = filter (\<lambda>x. f x = i) ys"
    using assms(2) unfolding assms(1) by (simp add: filter_filter) (rule filter_cong, auto)
  finally show ?thesis .
qed

lemma find_filter: "List.find P xs = List.find P (filter P xs)"
  by (induction xs) auto

text \<open>C14. Whatever the callback does, an action changes no memory and no link from a memory outside its targets, unless
  it created that memory; no protection; and no receipt of another action.\<close>

theorem action_confined:
  assumes "execute_action env q db = (out, db')" and "links_anchored db"
    and "find_memory i db = Some m" and "i \<notin> canonical_id ` set (rq_targets q)"
  shows "find_memory i db' = Some m \<and> filter (\<lambda>l. ml_source l = i) (ad_links db') = filter (\<lambda>l. ml_source l = i) (ad_links db)
    \<and> ad_protections db' = ad_protections db \<and> links_anchored db'
    \<and> (\<exists>new. cd_receipts (ad_ledger db') = cd_receipts (ad_ledger db) @ new \<and> length new \<le> 1)"
  using assms(1)
proof (cases rule: execute_action_cases)
  case (fresh nq r)
  have out: "i \<notin> set (nq_targets nq)" using assms(4) canonical_targets_set [OF normalize_targets [OF fresh(1)]] by simp
  obtain N where N: "\<And>j. j \<in> N \<Longrightarrow> j \<in> set (nq_targets nq) \<or> find_memory j db = None"
      "filter (\<lambda>x. mr_id x \<notin> set (nq_targets nq) \<union> N) (ad_memories db') = filter (\<lambda>x. mr_id x \<notin> set (nq_targets nq)) (ad_memories db)"
      "filter (\<lambda>l. ml_source l \<notin> set (nq_targets nq) \<union> N) (ad_links db') = filter (\<lambda>l. ml_source l \<notin> set (nq_targets nq)) (ad_links db)"
      "links_anchored db'" "ad_protections db' = ad_protections db"
      "cd_receipts (ad_ledger db') = cd_receipts (ad_ledger db) @ [r]"
    using apply_action_confined [OF fresh(4) assms(2)] by metis
  have "i \<notin> N" using N(1) [of i] out assms(3) by auto
  with out have keep: "\<And>x. mr_id x = i \<Longrightarrow> mr_id x \<notin> set (nq_targets nq) \<union> N \<and> mr_id x \<notin> set (nq_targets nq)"
      "\<And>l. ml_source l = i \<Longrightarrow> ml_source l \<notin> set (nq_targets nq) \<union> N \<and> ml_source l \<notin> set (nq_targets nq)" by auto
  have "find_memory i db' = find_memory i db"
    unfolding find_memory_def by (subst (1 2) find_filter) (simp add: find_in_filter [OF N(2), of mr_id, OF keep(1)])
  then show ?thesis using find_in_filter [OF N(3), of ml_source, OF keep(2)] N(4-6) assms(3) by simp
qed (use assms in simp_all)

lemma action_confined_witness:
  "find_memory ''other'' (snd (execute_action sample_env sample_request sample_db)) = Some (sample_memory\<lparr>mr_id := ''other''\<rparr>)"
proof -
  have "''other'' \<notin> canonical_id ` set (rq_targets sample_request)" by code_simp
  then show ?thesis
    using action_confined [OF sample_execution _ sample_found(2)] sample_db_ok by (simp add: action_db_ok_def)
qed

section \<open>Revision tokens\<close>

text \<open>What the guards of an action have checked.\<close>

lemma guarded_actionD:
  assumes "guarded_action env q nq db = Inr (run, db1)"
  shows "i \<in> set (nq_targets nq) \<Longrightarrow> external_id i \<or> find_memory i db \<noteq> None"
    "i \<in> set (nq_targets nq) \<Longrightarrow> record_guard env (read_records db (nq_targets nq)) (nq_tokens nq) i = Inr ()"
    "i \<in> set (nq_targets nq) \<Longrightarrow> graph_guard env db (nq_tokens nq) i = Inr ()"
    "kv \<in> set (nq_tokens nq) \<Longrightarrow> link_guard env db kv = Inr ()"
    "check_preconditions db (nq_targets nq) (rq_preconditions q) = Inr ()"
proof -
  obtain db2 where o: "open_action_run env q db = Inr (run, db2)" and g: "db1 = db2"
      "\<And>i. i \<in> set (nq_targets nq) \<Longrightarrow> lock_target db2 i = Inr ()"
      "check_tokens env db2 (read_records db2 (nq_targets nq)) (nq_targets nq) (nq_tokens nq) = Inr ()"
      "check_preconditions db2 (nq_targets nq) (rq_preconditions q) = Inr ()"
    using assms by (auto simp: guarded_action_def bind_act_Inr check_all_Inr)
  note same = open_action_run_effect [OF o]
  have reads: "find_memory j db2 = find_memory j db" "find_link db2 k = find_link db k"
      "links_for_memory db2 j = links_for_memory db j" for j k
    using same by (simp_all add: find_link_def links_for_memory_def)
  have atoms: "read_records db2 = read_records db" "graph_guard env db2 = graph_guard env db" "link_guard env db2 = link_guard env db"
      "status_guard db2 = status_guard db" "link_precondition db2 = link_precondition db"
    by (unfold read_records_def [abs_def] graph_guard_def [abs_def] link_guard_def [abs_def] status_guard_def [abs_def]
      link_precondition_def [abs_def] reads) (rule refl)+
  have "check_preconditions db2 = check_preconditions db"
    unfolding check_preconditions_def atoms ..
  note guards = atoms this
  show "i \<in> set (nq_targets nq) \<Longrightarrow> external_id i \<or> find_memory i db \<noteq> None"
    using g(2) [of i] by (simp add: lock_target_def reads)
  show "i \<in> set (nq_targets nq) \<Longrightarrow> record_guard env (read_records db (nq_targets nq)) (nq_tokens nq) i = Inr ()"
    "i \<in> set (nq_targets nq) \<Longrightarrow> graph_guard env db (nq_tokens nq) i = Inr ()"
    "kv \<in> set (nq_tokens nq) \<Longrightarrow> link_guard env db kv = Inr ()"
    using g(3) unfolding check_tokens_def bind_act_Inr check_all_Inr guards by (auto simp: bind_act_Inr)
  show "check_preconditions db (nq_targets nq) (rq_preconditions q) = Inr ()"
    using g(4) unfolding guards .
qed

lemma read_records_lookup:
  "map_of (read_records db ids) i = (if i \<in> set ids then map_option hydrate_record (find_memory i db) else None)"
proof (induction ids)
  case (Cons j ids)
  then show ?case
    by (cases "find_memory j db") (auto simp: read_records_def map_filter_simps)
qed (simp add: read_records_def map_filter_simps)

lemma find_in_records:
  "i \<in> set ids \<Longrightarrow> map_of (read_records db ids) i = map_option hydrate_record (find_memory i db)"
  by (simp add: read_records_lookup)

lemma record_guardD:
  assumes "record_guard env (read_records db ids) tokens i = Inr ()" and "i \<in> set ids" and "map_of tokens i = Some t"
  shows "\<exists>m. find_memory i db = Some m \<and> record_token (ax_hashing env) (hydrate_record m) = Inr t"
  using assms(1,3) unfolding record_guard_def find_in_records [OF assms(2)] Let_def
  by (auto simp: bind_act_Inr split: option.splits)

lemma graph_guardD:
  assumes "graph_guard env db tokens i = Inr ()" and "map_of tokens (''graph:'' @ i) = Some t"
  shows "graph_token (ax_hashing env) i (links_for_memory db i) = Inr t"
  using assms by (auto simp: graph_guard_def bind_act_Inr)

lemma uow_link_type_Inr: "uow_link_type s = Inr ty \<longleftrightarrow> normalize_link_type s = Inr ty"
  by (auto simp: uow_link_type_def split: sum.splits)

lemma link_guardD:
  assumes "link_guard env db (k, t) = Inr ()" and "link_token_key k = Some (a, b, ty)"
  shows "\<exists>nty. normalize_link_type ty = Inr nty \<and> link_token (ax_hashing env) a b ty
     (map_option ml_context (find_link db (a, b, nty))) (find_link db (a, b, nty) \<noteq> None) = Inr t"
  using assms by (auto simp: link_guard_def bind_act_Inr Let_def uow_link_type_Inr)

lemma status_guardD:
  assumes "status_guard db targets (u, st) = Inr ()"
  shows "map_option mr_status (find_memory (canonical_id (uuid_text u)) db) = Some (memory_status_text st)"
  using assms by (auto simp: status_guard_def Let_def split: if_splits)

lemma link_preconditionD:
  assumes "link_precondition db targets should_exist (a, b, ty, c) = Inr ()"
  shows "\<exists>nty. normalize_link_type ty = Inr nty \<and> (let found = find_link db (canonical_id (uuid_text a), canonical_id (uuid_text b), nty) in
     if should_exist then \<exists>l. found = Some l \<and> (c = None \<or> c = Some (ml_context l)) else found = None)"
  using assms by (auto simp: link_precondition_def bind_act_Inr Let_def uow_link_type_Inr split: if_splits option.splits)

text \<open>The key of the graph token of an external target reads as a link from \<open>graph\<close> to \<open>ext\<close>.\<close>

lemma graph_token_of_external:
  "link_token_key (''graph:'' @ ''ext:doc'') = Some (''graph'', ''ext'', ''doc'')" "external_id ''ext:doc''"
  by code_simp+

text \<open>C19. An action is applied only to the revision it was planned on: every target is there, the record, graph and link
  tokens of the request are those of the database at that moment, and its preconditions hold of it.\<close>

theorem applied_on_current_revision:
  assumes "execute_action env q db = (Inr r, db')" and "r \<notin> set (cd_receipts (ad_ledger db))" and "normalize_request q = Inr nq"
  shows "(\<forall>i \<in> set (nq_targets nq). (external_id i \<or> find_memory i db \<noteq> None)
      \<and> (\<forall>t. map_of (nq_tokens nq) i = Some t \<longrightarrow>
          (\<exists>m. find_memory i db = Some m \<and> record_token (ax_hashing env) (hydrate_record m) = Inr t))
      \<and> (\<forall>t. map_of (nq_tokens nq) (''graph:'' @ i) = Some t \<longrightarrow>
          graph_token (ax_hashing env) i (links_for_memory db i) = Inr t))
    \<and> (\<forall>(k, t) \<in> set (nq_tokens nq). \<forall>a b ty. link_token_key k = Some (a, b, ty) \<longrightarrow>
          (\<exists>nty. normalize_link_type ty = Inr nty \<and> link_token (ax_hashing env) a b ty
             (map_option ml_context (find_link db (a, b, nty))) (find_link db (a, b, nty) \<noteq> None) = Inr t))
    \<and> (\<forall>p. rq_preconditions q = Some p \<longrightarrow>
          (\<forall>(u, st) \<in> set (ap_statuses p).
             map_option mr_status (find_memory (canonical_id (uuid_text u)) db) = Some (memory_status_text st))
        \<and> (\<forall>x \<in> set (ap_links p). \<exists>nty l. normalize_link_type (la_type x) = Inr nty
             \<and> find_link db (canonical_id (uuid_text (la_source x)), canonical_id (uuid_text (la_target x)), nty) = Some l
             \<and> (la_context x = None \<or> la_context x = Some (ml_context l)))
        \<and> (\<forall>x \<in> set (ap_absent p). \<exists>nty. normalize_link_type (al_type x) = Inr nty
             \<and> find_link db (canonical_id (uuid_text (al_source x)), canonical_id (uuid_text (al_target x)), nty) = None))"
  using assms(1)
proof (cases rule: execute_action_cases)
  case (fresh nq' r')
  then have nq: "nq' = nq" using assms(3) by simp
  obtain run db1 where g: "guarded_action env q nq db = Inr (run, db1)"
    using apply_action_steps [OF fresh(4)] unfolding nq by metis
  note G = guarded_actionD [OF g]
  have pre: "(\<forall>(u, st) \<in> set (ap_statuses p).
             map_option mr_status (find_memory (canonical_id (uuid_text u)) db) = Some (memory_status_text st))
        \<and> (\<forall>x \<in> set (ap_links p). \<exists>nty l. normalize_link_type (la_type x) = Inr nty
             \<and> find_link db (canonical_id (uuid_text (la_source x)), canonical_id (uuid_text (la_target x)), nty) = Some l
             \<and> (la_context x = None \<or> la_context x = Some (ml_context l)))
        \<and> (\<forall>x \<in> set (ap_absent p). \<exists>nty. normalize_link_type (al_type x) = Inr nty
             \<and> find_link db (canonical_id (uuid_text (al_source x)), canonical_id (uuid_text (al_target x)), nty) = None)"
    if p: "rq_preconditions q = Some p" for p
  proof (intro conjI ballI, goal_cases)
    case (1 x)
    then show ?case using G(5) status_guardD [of db "nq_targets nq" "fst x" "snd x"] unfolding check_preconditions_def p
      by (cases x) (auto simp: bind_act_Inr check_all_Inr)
  next
    case (2 x)
    then show ?case
      using G(5) link_preconditionD [of db "nq_targets nq" True "la_source x" "la_target x" "la_type x" "la_context x"]
      unfolding check_preconditions_def p by (auto simp: bind_act_Inr check_all_Inr Let_def)
  next
    case (3 x)
    then show ?case
      using G(5) link_preconditionD [of db "nq_targets nq" False "al_source x" "al_target x" "al_type x" None]
      unfolding check_preconditions_def p by (auto simp: bind_act_Inr check_all_Inr Let_def)
  qed
  have links: "\<forall>(k, t) \<in> set (nq_tokens nq). \<forall>a b ty. link_token_key k = Some (a, b, ty) \<longrightarrow>
          (\<exists>nty. normalize_link_type ty = Inr nty \<and> link_token (ax_hashing env) a b ty
             (map_option ml_context (find_link db (a, b, nty))) (find_link db (a, b, nty) \<noteq> None) = Inr t)"
    using G(4) link_guardD by blast
  show ?thesis
    using G(1) record_guardD [OF G(2)] graph_guardD [OF G(3)] links pre by blast
next
  case (replay nq r)
  then show ?thesis using assms(2) get_receipt_SomeD [OF replayed_SomeD(1) [OF replay(2)]] by simp
qed simp

lemma applied_on_current_revision_witness:
  "record_token (ax_hashing sample_env) (hydrate_record sample_memory) = Inr ''v1:h''"
proof -
  have "sample_receipt \<notin> set (cd_receipts (ad_ledger sample_db))" by (simp add: sample_fresh)
  from applied_on_current_revision [OF sample_execution this sample_normalized] show ?thesis
    by (simp add: sample_found)
qed

end
