(* ===== verification/ActionVerified.thy ===== *)
theory ActionVerified
  imports ActionProps
begin

text \<open>
  An action that edits one memory is verified afterwards: what the store of actions leaves in a receipt is
  what the verifier of \<open>curation_verifier.py\<close> looks for.
\<close>

section \<open>Callbacks that edit one memory\<close>

fun edits :: "string \<Rightarrow> tx_call \<Rightarrow> bool" where
  "edits i (UpdateMemory m c) = (canonical_id m = i)"
| "edits i (SetLineage m d) = (canonical_id m = i)"
| "edits i (GetMemory m) = True"
| "edits i (GetLinks m d t) = True"
| "edits i (GetProtections m) = True"
| "edits i c = False"

primrec edits_only :: "string \<Rightarrow> callback \<Rightarrow> bool" where
  "edits_only i (Finish r) = (\<forall>m \<in> set (mu_affected r). canonical_id m = i)"
| "edits_only i (Fail e) = True"
| "edits_only i (Call c k) = (edits i c \<and> (\<forall>a. edits_only i (k a)))"

definition edited :: "string \<Rightarrow> tx \<Rightarrow> bool" where
  "edited i s = (exists_memory i s \<and> set (tx_touched s) \<subseteq> {i})"

lemma edited_ask: "triple (edited i) (edited i) (ask_tx f) (\<lambda>_. edited i)"
  by (rule triple_ask)

lemma edited_touch: "triple (edited i) (edited i) (touch_tx [i]) (\<lambda>_. edited i)"
  unfolding touch_tx_def by (rule triple_put) (simp add: edited_def exists_memory_def)

lemma edited_stage: "triple (edited i) (edited i) (stage_tx env st) (\<lambda>_. edited i)"
  by (rule triple_stage)

lemma edited_fts: "triple (edited i) (edited i) (put_tx (on_db (replace_fts i p))) (\<lambda>_. edited i)"
  by (rule triple_put) (simp add: edited_def exists_memory_def on_db_def replace_fts_def find_memory_def)

lemma edited_rows:
  "triple (edited i) (edited i)
     (put_tx (on_db (\<lambda>db. db\<lparr>ad_memories := update_where (\<lambda>r. mr_id r = j) (write_prepared env p c) (ad_memories db)\<rparr>)))
     (\<lambda>_. edited i)"
proof (rule triple_put)
  fix s assume s: "edited i s"
  have "map mr_id (update_where (\<lambda>r. mr_id r = j) (write_prepared env p c) (ad_memories (tx_db s))) = map mr_id (ad_memories (tx_db s))"
    by (intro map_update_where) (simp add: write_prepared_def optional_columns_def Let_def)
  from arg_cong [OF this, of set] show "edited i (on_db (\<lambda>db. db\<lparr>ad_memories :=
      update_where (\<lambda>r. mr_id r = j) (write_prepared env p c) (ad_memories db)\<rparr>) s)"
    using s unfolding edited_def exists_memory_def find_memory_None_iff set_map by (simp add: on_db_def)
qed

lemma edited_get: "triple (edited i) (edited i) (get_memory_tx m) (\<lambda>_. edited i)"
  unfolding get_memory_tx_def require_access_def read_memory_def by (intro seq_triple edited_ask)

lemma edited_reads:
  "triple (edited i) (edited i) (get_links_tx m d t) (\<lambda>_. edited i)"
  "triple (edited i) (edited i) (get_protections_tx m) (\<lambda>_. edited i)"
  unfolding get_links_tx_def get_protections_tx_def require_access_def by (intro seq_triple edited_ask)+

lemma edited_update:
  assumes "canonical_id m = i"
  shows "triple (edited i) (edited i) (update_memory_tx env m c) (\<lambda>_. edited i)"
  unfolding update_memory_tx_def
proof (rule triple_bind [where R = "\<lambda>j s. j = i \<and> edited i s"])
  show "triple (edited i) (edited i) (require_access m) (\<lambda>j s. j = i \<and> edited i s)"
    unfolding require_access_def using assms by (intro triple_ask) (auto simp: Let_def split: if_splits)
next
  fix j
  show "triple (edited i) (\<lambda>s. j = i \<and> edited i s) (bind_tx (get_memory_tx j) (\<lambda>found.
     case found of
       None \<Rightarrow> ask_tx (\<lambda>_. Inl (ActionStale (''target memory '' @ quoted j @ '' is missing'')))
     | Some existing \<Rightarrow>
         bind_tx (ask_tx (\<lambda>_. raising (prepare_memory_update env existing c))) (\<lambda>p.
         bind_tx (put_tx (on_db (\<lambda>db. db\<lparr>ad_memories :=
            update_where (\<lambda>r. mr_id r = j) (write_prepared env p c) (ad_memories db)\<rparr>))) (\<lambda>_.
         bind_tx (touch_tx [j]) (\<lambda>_.
         bind_tx (stage_tx env ''domain_mutation'') (\<lambda>_.
         bind_tx (put_tx (on_db (replace_fts j p))) (\<lambda>_.
         bind_tx (stage_tx env ''projection_update'') (\<lambda>_.
           get_memory_tx j)))))))) (\<lambda>_. edited i)"
  proof (cases "j = i")
    case True
    show ?thesis unfolding True
      by (rule triple_conseq [where P = "edited i" and Q = "\<lambda>_. edited i"], rule seq_triple [OF edited_get])
        (auto split: option.split intro!: seq_triple edited_ask edited_rows edited_touch edited_stage edited_fts edited_get)
  next
    case False
    then show ?thesis by (simp add: triple_def)
  qed
qed

lemma edited_call: "edits i c \<Longrightarrow> triple (edited i) (edited i) (call_tx env c) (\<lambda>_. edited i)"
  by (cases c) (auto simp: answering_def set_lineage_tx_def split: option.split
      intro!: seq_triple triple_ret edited_get edited_reads edited_update edited_ask)

lemma edited_callback: "edits_only i k \<Longrightarrow> edited i s \<Longrightarrow> edited i (snd (run_callback env k s))"
proof (induction k arbitrary: s)
  case (Call c k)
  obtain a s' where run: "call_tx env c s = (a, s')" by fastforce
  have "edits i c" using Call.prems(1) by simp
  then have "edited i s'"
    using tripleE [OF edited_call Call.prems(2)] tripleD [OF edited_call Call.prems(2)] run by (cases a) blast+
  then show ?case using Call.IH [of "k a" s'] Call.prems(1) by (simp add: run)
qed (simp_all add: ret_tx_def ask_tx_def)

lemma edits_only_finish:
  "edits_only i k \<Longrightarrow> run_callback env k s = (Inr r, s') \<Longrightarrow> \<forall>m \<in> set (mu_affected r). canonical_id m = i"
proof (induction k arbitrary: s)
  case (Call c k)
  then show ?case by (cases "call_tx env c s") auto
qed (auto simp: ret_tx_def ask_tx_def)

section \<open>What the receipt says\<close>

lemma sorted_single: "set xs = {i} \<Longrightarrow> sorted_ids xs = [i]"
proof -
  assume xs: "set xs = {i}"
  have "length (remdups xs) = 1" using xs by (simp add: length_remdups_card_conv)
  then obtain y where "remdups xs = [y]" by (auto simp: length_Suc_conv)
  moreover from this have "y = i" using xs by (metis list.simps(15) set_empty2 set_remdups singleton_iff list.set(1) insertI1)
  ultimately show "sorted_ids xs = [i]" by (simp add: sorted_ids_def)
qed

lemma canonical_single:
  assumes "vs \<noteq> []" and "\<forall>v \<in> set vs. canonical_id v = i" and "i \<noteq> []"
  shows "canonical_target_ids vs = Inr [i]"
proof -
  have "set (map canonical_id vs) = {i}" using assms(1,2) by (cases vs) auto
  then show ?thesis using assms(3) sorted_single [of "map canonical_id vs" i] by (simp add: canonical_target_ids_def Let_def)
qed

lemma edited_receipt:
  assumes ap: "apply_action env q nq db = Inr (r, db')"
    and i: "nq_targets nq = [i]" "canonical_id i = i" "i \<noteq> []" "\<not> external_id i" "parse_uuid i = Some u"
    and k: "edits_only i (rq_apply q)"
  shows "rc_affected r = [u]" "\<exists>m. find_memory i db' = Some m
    \<and> state_token (ax_hashing env) [(i, hydrate_record m)] [i] = Inr (rc_after r)"
proof -
  obtain run db1 result s where st: "open_action_run env q db = Inr (run, db1)" "guarded_action env q nq db = Inr (run, db1)"
      "run_callback env (rq_apply q) (start_tx nq db1) = (Inr result, s)"
      "record_action env q nq run db1 result (tx_touched s) (tx_db s) = Inr (r, db')"
    using apply_action_steps [OF ap] by metis
  have "find_memory i db \<noteq> None" using guarded_actionD(1) [OF st(2), of i] i(1,4) by simp
  then have "edited i (start_tx nq db1)"
    by (simp add: edited_def exists_memory_def start_tx_def open_action_run_effect(7) [OF st(1)])
  from edited_callback [OF k this, of env] have ed: "edited i s" using st(3) by simp
  note fin = edits_only_finish [OF k st(3)] and rec = record_action_effect [OF st(4)]
  have touched: "\<forall>t \<in> set (tx_touched s). canonical_id t = i" using ed i(2) by (auto simp: edited_def)
  have single: "local_memory_ids vs = Inr [i]" if "vs \<noteq> []" "\<forall>v \<in> set vs. canonical_id v = i" for vs
    using canonical_single [OF that i(3)] i(4) by (simp add: local_memory_ids_def)
  have "local_memory_ids (if mu_affected result \<noteq> [] then mu_affected result
         else if tx_touched s \<noteq> [] then tx_touched s else nq_targets nq) = Inr [i]"
    using fin touched i(1,2) by (intro single) simp_all
  then show "rc_affected r = [u]" using rec(16) i(5) by simp
  have "canonical_target_ids (nq_targets nq @ tx_touched s) = Inr [i]"
    using touched i by (intro canonical_single) auto
  then have tok: "state_token (ax_hashing env) (read_records (tx_db s) [i]) [i] = Inr (rc_after r)"
    using rec(15) by auto
  obtain m where m: "find_memory i (tx_db s) = Some m" using ed by (auto simp: edited_def exists_memory_def)
  have "find_memory i db' = Some m" using m rec(1) by (simp add: find_memory_def)
  moreover have "read_records (tx_db s) [i] = [(i, hydrate_record m)]"
    using m by (simp add: read_records_def map_filter_simps)
  ultimately show "\<exists>m. find_memory i db' = Some m
    \<and> state_token (ax_hashing env) [(i, hydrate_record m)] [i] = Inr (rc_after r)"
    using tok by auto
qed

fun edited_memory :: "curation_action \<Rightarrow> uuid option" where
  "edited_memory (NormalizeMemory _ t _ _ _) = Some t"
| "edited_memory (RewriteMemory _ t _ _ _ _) = Some t"
| "edited_memory (ArchiveMemory _ t _) = Some t"
| "edited_memory a = None"

lemma operation_text_stripped [simp]: "py_strip (operation_text oper) = operation_text oper"
  by (cases oper) (simp_all add: py_strip_def py_isspace_def)

lemma edited_verdict:
  assumes "edited_memory a = Some u"
  shows "action_verdict env r a = record_verdict env r [uuid_text u] None"
  using assms by (cases a) auto

lemma state_token_single:
  "record_snapshot m = record_snapshot m' \<Longrightarrow> state_token h [(i, m)] ids = state_token h [(i, m')] ids"
  by (simp add: state_token_def)

section \<open>Applied actions verify\<close>

text \<open>C18. If an action whose callback edits only its one target was applied, and the verifier then reads the memory as the
  store left it, the receipt is verified: its identifiers and its token are those the verifier computes.\<close>

theorem applied_edit_verifies:
  assumes "execute_action env q db = (Inr r, db')" and "r \<notin> set (cd_receipts (ad_ledger db))"
    and "action_db_ok db" and "(rq_run q, rq_action q) \<notin> cd_broken (ad_ledger db)"
    and "edited_memory a = Some u" and "en_action_id (action_envelope a) = rq_action q"
    and "rq_operation q = Some (operation_text (action_operation a))"
    and "rq_targets q = [uuid_text u]" and "edits_only (uuid_text u) (rq_apply q)"
    and "canonical_id (uuid_text u) = uuid_text u" and "\<not> external_id (uuid_text u)" and "parse_uuid (uuid_text u) = Some u"
    and "ve_hashing v = ax_hashing env" and "ve_peek v (uuid_text u) = map_option ctx (find_memory (uuid_text u) db')"
    and "\<And>m. mr_id (mx_record (ctx m)) = mr_id m \<and> record_snapshot (mx_record (ctx m)) = record_snapshot (hydrate_record m)"
  shows "verify v r a (ad_ledger db')
    = (Inr (finished_receipt (ve_clk v) r None), with_receipt r (finished_receipt (ve_clk v) r None) (ad_ledger db'))"
  using assms(1)
proof (cases rule: execute_action_cases)
  case (replay nq r')
  then show ?thesis using assms(2) get_receipt_SomeD [OF replayed_SomeD(1) [OF replay(2)]] by simp
next
  case (fresh nq r')
  then have ap: "apply_action env q nq db = Inr (r, db')" by simp
  note A = apply_action_receipt [OF ap assms(3)]
  have ok: "ledger_ok (ad_ledger db')" using A(8) by (simp add: action_db_ok_def)
  have can: "canonical_target_ids [uuid_text u] = Inr (nq_targets nq)"
    using normalize_targets [OF fresh(1)] assms(8) by simp
  then have i: "uuid_text u \<noteq> []" using assms(10) by (auto simp: canonical_target_ids_def Let_def split: if_splits)
  then have "nq_targets nq = [uuid_text u]"
    using can assms(10) canonical_single [of "[uuid_text u]" "uuid_text u"] by simp
  from edited_receipt [OF ap this assms(10) i assms(11,12,9)] obtain m where
    m: "find_memory (uuid_text u) db' = Some m" "rc_affected r = [u]"
      "state_token (ax_hashing env) [(uuid_text u, hydrate_record m)] [uuid_text u] = Inr (rc_after r)"
    by metis
  have mid: "mr_id m = uuid_text u" using m(1) by (auto simp: find_memory_def dest: find_SomeD)
  have oper: "rc_operation r = operation_text (action_operation a)"
  proof -
    obtain run db1 result and s :: tx where "record_action env q nq run db1 result (tx_touched s) (tx_db s) = Inr (r, db')"
      using apply_action_steps [OF ap] by metis
    from record_action_effect(10) [OF this] have "rc_operation r = nq_operation nq" .
    also have "\<dots> = operation_text (action_operation a)"
      using fresh(1) assms(7) by (auto simp: normalize_request_def bind_act_Inr Let_def split: if_splits)
    finally show ?thesis .
  qed
  have fc: "fresh_contexts (ve_peek v) [uuid_text u] = Some [(uuid_text u, ctx m)]"
    using assms(14,15) m(1) mid by simp
  have "action_verdict v r a = Inr None"
    unfolding edited_verdict [OF assms(5)]
    using fc m(2,3) assms(13,15) state_token_single [of "mx_record (ctx m)" "hydrate_record m"]
    by (simp add: record_verdict_def with_contexts_def check_ids_def receipt_ids_def sorted_single check_token_def)
  moreover have cur: "get_receipt (rc_run r) (rc_action r) (ad_ledger db') = Inr (Some r)"
    using A(1,2,5,6) assms(4) by (intro get_receiptI [OF ledger_okD(2) [OF ok]]) (simp_all add: receipt_key_def)
  ultimately show ?thesis
    using finish_receipt_cases [OF ok cur A(3)] A(2,3) assms(6) oper
    unfolding verify_def by (simp add: finish_verdict_def)
qed simp

definition sample_context :: "memory_record \<Rightarrow> read_context" where
  "sample_context m = \<lparr>mx_record = hydrate_record m, mx_relationships = [], mx_superseded = []\<rparr>"

definition sample_verifier :: "action_db \<Rightarrow> verifier_env" where
  "sample_verifier db = \<lparr>ve_hashing = ax_hashing sample_env, ve_peek = (\<lambda>i. map_option sample_context (find_memory i db)),
     ve_repr = (\<lambda>_. []), ve_clk = 7\<rparr>"

definition sample_action :: curation_action where
  "sample_action = NormalizeMemory \<lparr>en_action_id = UUID ''a1'', en_confidence = 1, en_rationale = ''r'', en_evidence = [],
     en_preconditions = \<lparr>ap_tokens = [], ap_statuses = [], ap_links = [], ap_absent = []\<rparr>\<rparr>
     (UUID sample_id) (Some ''new'') None None"

lemma sample_edit: "edits_only sample_id (rq_apply sample_request)"
proof -
  have "canonical_id sample_id = sample_id" by code_simp
  then show ?thesis by (simp add: sample_request_def split: sum.split)
qed

lemma applied_edit_verifies_witness:
  "fst (verify (sample_verifier (snd (execute_action sample_env sample_request sample_db))) sample_receipt sample_action
     (ad_ledger (snd (execute_action sample_env sample_request sample_db)))) = Inr (finished_receipt 7 sample_receipt None)"
proof -
  let ?db = "snd (execute_action sample_env sample_request sample_db)"
  have fixed: "canonical_id (uuid_text (UUID sample_id)) = uuid_text (UUID sample_id)" "\<not> external_id (uuid_text (UUID sample_id))"
      "parse_uuid (uuid_text (UUID sample_id)) = Some (UUID sample_id)"
    by code_simp+
  have request: "edited_memory sample_action = Some (UUID sample_id)" "en_action_id (action_envelope sample_action) = rq_action sample_request"
      "rq_operation sample_request = Some (operation_text (action_operation sample_action))"
      "rq_targets sample_request = [uuid_text (UUID sample_id)]" "edits_only (uuid_text (UUID sample_id)) (rq_apply sample_request)"
    using sample_edit by (simp_all add: sample_action_def sample_request_def)
  have fresh: "sample_receipt \<notin> set (cd_receipts (ad_ledger sample_db))"
      "(rq_run sample_request, rq_action sample_request) \<notin> cd_broken (ad_ledger sample_db)"
    by (simp_all add: sample_fresh)
  have verifier: "ve_hashing (sample_verifier ?db) = ax_hashing sample_env"
      "ve_peek (sample_verifier ?db) (uuid_text (UUID sample_id)) = map_option sample_context (find_memory (uuid_text (UUID sample_id)) ?db)"
    by (simp_all add: sample_verifier_def)
  have same: "mr_id (mx_record (sample_context m)) = mr_id m
      \<and> record_snapshot (mx_record (sample_context m)) = record_snapshot (hydrate_record m)" for m
    by (simp add: sample_context_def hydrate_record_def)
  show ?thesis
    using applied_edit_verifies [OF sample_execution fresh(1) sample_db_ok fresh(2) request(1,2,3,4,5) fixed verifier same]
    by (simp add: sample_verifier_def)
qed

end
