(* ===== verification/RestoreLaws.thy ===== *)
theory RestoreLaws
  imports MutationRestore ActionVerified
begin

text \<open>
  The laws of restoration: the invariant of the history, the life of a request from its registration to its
  one result, and the four ways in which an execution can end.
\<close>

section \<open>The invariant\<close>

text \<open>What the schema and the writers of the tables ensure.\<close>

definition history_ok :: "history_db \<Rightarrow> bool" where
  "history_ok h = (action_db_ok (hd_actions h)
     \<and> cd_broken (ad_ledger (hd_actions h)) \<subseteq> receipt_key ` set (cd_receipts (ad_ledger (hd_actions h)))
     \<and> (\<forall>r \<in> set (cd_receipts (ad_ledger (hd_actions h))). \<exists>e. rc_event r = Some e \<and> e \<in> mv_id ` set (history_events h))
     \<and> distinct (map rw_id (hd_restores h)) \<and> distinct (map (\<lambda>w. rr_key (rw_request w)) (hd_restores h))
     \<and> (\<forall>w \<in> set (hd_restores h). (rw_status w = RestoreApplied \<longrightarrow> (rw_terminal w = None \<longleftrightarrow> rw_event w = None))
          \<and> (rw_status w \<noteq> RestoreApplied \<longrightarrow> rw_terminal w \<noteq> None) \<and> rw_status w \<noteq> RestoreAlready)
     \<and> (\<forall>r \<in> set (ad_record_revisions (hd_actions h)). rv_event r \<in> mv_id ` set (history_events h))
     \<and> (\<forall>l \<in> set (ad_link_revisions (hd_actions h)). lv_event l \<in> mv_id ` set (history_events h)))"

lemma history_okD:
  assumes "history_ok h"
  shows "action_db_ok (hd_actions h)" "distinct (map rw_id (hd_restores h))" "distinct (map (\<lambda>w. rr_key (rw_request w)) (hd_restores h))"
    "cd_broken (ad_ledger (hd_actions h)) \<subseteq> receipt_key ` set (cd_receipts (ad_ledger (hd_actions h)))"
    "w \<in> set (hd_restores h) \<Longrightarrow> rw_status w = RestoreApplied \<Longrightarrow> rw_terminal w = None \<longleftrightarrow> rw_event w = None"
    "w \<in> set (hd_restores h) \<Longrightarrow> rw_status w \<noteq> RestoreAlready"
    "w \<in> set (hd_restores h) \<Longrightarrow> rw_status w \<noteq> RestoreApplied \<Longrightarrow> rw_terminal w \<noteq> None"
    "r \<in> set (ad_record_revisions (hd_actions h)) \<Longrightarrow> rv_event r \<in> mv_id ` set (history_events h)"
    "l \<in> set (ad_link_revisions (hd_actions h)) \<Longrightarrow> lv_event l \<in> mv_id ` set (history_events h)"
    "s \<in> set (cd_receipts (ad_ledger (hd_actions h))) \<Longrightarrow> \<exists>e. rc_event s = Some e \<and> e \<in> mv_id ` set (history_events h)"
  using assms unfolding history_ok_def by blast+

text \<open>Everything but the ledger is the same.\<close>

definition same_domain :: "action_db \<Rightarrow> action_db \<Rightarrow> bool" where
  "same_domain db db' = (db' = db\<lparr>ad_ledger := ad_ledger db'\<rparr>)"

lemma same_domain_refl [simp]: "same_domain db db"
  by (simp add: same_domain_def)

lemma same_domain_ledger [simp]: "same_domain db (db\<lparr>ad_ledger := l\<rparr>)"
  by (simp add: same_domain_def)

lemma same_domain_trans: "same_domain a b \<Longrightarrow> same_domain b c \<Longrightarrow> same_domain a c"
proof -
  assume "same_domain a b" "same_domain b c"
  then obtain l m where "b = a\<lparr>ad_ledger := l\<rparr>" "c = b\<lparr>ad_ledger := m\<rparr>" unfolding same_domain_def by blast
  then show ?thesis by simp
qed

lemma same_domainD:
  assumes "same_domain db db'"
  shows "ad_memories db' = ad_memories db" "ad_links db' = ad_links db" "ad_fts db' = ad_fts db"
    "ad_protections db' = ad_protections db" "ad_repairs db' = ad_repairs db" "ad_events db' = ad_events db"
    "ad_record_revisions db' = ad_record_revisions db" "ad_link_revisions db' = ad_link_revisions db"
proof -
  obtain l where "db' = db\<lparr>ad_ledger := l\<rparr>" using assms unfolding same_domain_def by blast
  then show "ad_memories db' = ad_memories db" "ad_links db' = ad_links db" "ad_fts db' = ad_fts db"
    "ad_protections db' = ad_protections db" "ad_repairs db' = ad_repairs db" "ad_events db' = ad_events db"
    "ad_record_revisions db' = ad_record_revisions db" "ad_link_revisions db' = ad_link_revisions db"
    by simp_all
qed

section \<open>The life of a request\<close>

definition open_row :: "restore_request \<Rightarrow> uuid \<Rightarrow> history_db \<Rightarrow> bool" where
  "open_row request i h = (\<exists>w \<in> set (hd_restores h). rw_id w = i \<and> rw_terminal w = None \<and> rw_status w = RestoreApplied
     \<and> rw_event w = None \<and> rr_key (rw_request w) = rr_key request
     \<and> restore_request_identity_matches request (rw_request w) \<and> rr_target (rw_request w) = rr_target request)"

definition closed_row :: "restore_request \<Rightarrow> restore_result \<Rightarrow> history_db \<Rightarrow> bool" where
  "closed_row request result h = (\<exists>w \<in> set (hd_restores h). rr_key (rw_request w) = rr_key request \<and> rw_terminal w \<noteq> None
     \<and> restore_request_identity_matches request (rw_request w) \<and> restore_result_from_row False w = result)"

lemma same_tokens_refl [simp]: "same_tokens xs xs"
  by (simp add: same_tokens_def)

lemma request_matches_itself [simp]: "restore_request_identity_matches request request"
  by (simp add: restore_request_identity_matches_def)

lemma find_restore:
  assumes "history_ok h" and "w \<in> set (hd_restores h)"
  shows "List.find (\<lambda>v. rr_key (rw_request v) = rr_key (rw_request w)) (hd_restores h) = Some w"
    "List.find (\<lambda>v. rw_id v = rw_id w) (hd_restores h) = Some w"
  using find_key [OF history_okD(3) [OF assms(1)] assms(2), of "\<lambda>v. rr_key (rw_request v) = rr_key (rw_request w)"]
    find_key [OF history_okD(2) [OF assms(1)] assms(2), of "\<lambda>v. rw_id v = rw_id w"] by simp_all

lemma request_restore_cases:
  assumes "request_restore i now request h = (res, h1)" and "history_ok h"
  obtains (fails) e where "res = Inl e" "h1 = h"
  | (known) w where "w \<in> set (hd_restores h)" "rr_key (rw_request w) = rr_key request"
      "restore_request_identity_matches request (rw_request w)" "res = Inr (restore_result_from_row True w)" "h1 = h"
  | (fresh) w where "w = \<lparr>rw_id = i, rw_request = request, rw_status = RestoreApplied, rw_event = None, rw_reason = None,
         rw_details = [], rw_created = now, rw_terminal = None\<rparr>"
      "\<not> restore_insert_fails i request h" "res = Inr (restore_result_from_row False w)"
      "h1 = h\<lparr>hd_restores := hd_restores h @ [w]\<rparr>"
proof (cases "restore_insert_fails i request h")
  case True
  show ?thesis
  proof (cases "List.find (\<lambda>w. rr_key (rw_request w) = rr_key request) (hd_restores h)")
    case None
    then have "(res, h1) = (Inl IntegrityError, h)" using assms(1) True by (simp add: request_restore_def)
    then show ?thesis using fails by blast
  next
    case (Some w)
    have w: "w \<in> set (hd_restores h)" "rr_key (rw_request w) = rr_key request" using find_SomeD [OF Some] by simp_all
    show ?thesis
    proof (cases "restore_request_identity_matches request (rw_request w)")
      case match: True
      then have "(res, h1) = (Inr (restore_result_from_row True w), h)" using assms(1) True Some by (simp add: request_restore_def)
      then show ?thesis using known [OF w(1) w(2) match] by blast
    next
      case False
      then have "h1 = h \<and> (\<exists>e. res = Inl e)" using assms(1) True Some by (auto simp: request_restore_def)
      then show ?thesis using fails by blast
    qed
  qed
next
  case False
  then have "(res, h1) = (let w = \<lparr>rw_id = i, rw_request = request, rw_status = RestoreApplied, rw_event = None, rw_reason = None,
         rw_details = [], rw_created = now, rw_terminal = None\<rparr> in
      (Inr (restore_result_from_row False w), h\<lparr>hd_restores := hd_restores h @ [w]\<rparr>))"
    using assms(1) by (simp add: request_restore_def)
  then show ?thesis using fresh [OF refl False] unfolding Let_def by blast
qed

text \<open>The request goes on exactly if its row is open.\<close>

definition goes_on :: "restore_result \<Rightarrow> bool" where
  "goes_on reg = (rs_status reg = RestoreApplied \<or> rs_status reg = RestoreAlready \<and> rs_event reg = None)"

lemma registered_row:
  assumes "request_restore i now request h = (Inr reg, h1)" and "history_ok h" and "goes_on reg"
  obtains j where "rs_request reg = Some j" "open_row request j h1" "history_ok h1" "hd_actions h1 = hd_actions h"
  using assms(1,2)
proof (cases rule: request_restore_cases)
  case (known w)
  then have st: "rw_status w = RestoreApplied" "rw_event w = None"
    using assms(3) history_okD(6) [OF assms(2) known(1)]
    by (auto simp: goes_on_def restore_result_from_row_def split: if_splits)
  then have "rw_terminal w = None" using history_okD(5) [OF assms(2) known(1)] by blast
  moreover have "rr_target (rw_request w) = rr_target request" using known(3) by (simp add: restore_request_identity_matches_def)
  ultimately have "open_row request (rw_id w) h1" using known st unfolding open_row_def by blast
  moreover have "rs_request reg = Some (rw_id w)" using known(4) by (simp add: restore_result_from_row_def)
  ultimately show ?thesis using that known(5) assms(2) by blast
next
  case (fresh w)
  then have new: "i \<notin> rw_id ` set (hd_restores h)" "rr_key request \<notin> (\<lambda>w. rr_key (rw_request w)) ` set (hd_restores h)"
    by (simp_all add: restore_insert_fails_def)
  have "open_row request i h1" unfolding fresh(4) fresh(1) open_row_def by simp
  moreover have "history_ok h1" using assms(2) new unfolding fresh(4) fresh(1) history_ok_def by auto
  moreover have "rs_request reg = Some i" using fresh(1,3) by (simp add: restore_result_from_row_def)
  moreover have "hd_actions h1 = hd_actions h" by (simp add: fresh(4))
  ultimately show ?thesis using that by blast
qed simp

lemma open_row_cong: "hd_restores h' = hd_restores h \<Longrightarrow> open_row request i h' = open_row request i h"
  by (simp add: open_row_def)

text \<open>Finishing an open row records the result.\<close>

lemma finish_open_row:
  assumes ok: "history_ok h" and op: "open_row request i h" and st: "rs_status result \<noteq> RestoreAlready"
    and ev: "rs_status result = RestoreApplied \<Longrightarrow> rs_event result \<noteq> None"
    and fk: "\<And>e. rs_event result = Some e \<Longrightarrow> e \<in> mv_id ` set (history_events h)"
    and tgt: "rs_target result = rr_target request"
  obtains h' where "finish_restore x (Some i) result h = (Inr (result\<lparr>rs_request := Some i\<rparr>), h')"
    "hd_actions h' = hd_actions h" "closed_row request (result\<lparr>rs_request := Some i\<rparr>) h'" "history_ok h'"
proof -
  let ?now = "ax_now (rx_action x)"
  let ?f = "\<lambda>w. w\<lparr>rw_status := rs_status result, rw_event := rs_event result, rw_reason := rs_reason result,
     rw_details := rs_details result, rw_terminal := Some ?now\<rparr>"
  let ?p = "\<lambda>w. rw_id w = i \<and> rw_terminal w = None"
  obtain w where w: "w \<in> set (hd_restores h)" "rw_id w = i" "rw_terminal w = None" "rr_key (rw_request w) = rr_key request"
      "restore_request_identity_matches request (rw_request w)" "rr_target (rw_request w) = rr_target request"
    using op unfolding open_row_def by blast
  define h' where "h' = h\<lparr>hd_restores := update_where ?p ?f (hd_restores h)\<rparr>"
  have rows: "update_where ?p ?f (hd_restores h) = map (\<lambda>v. if v = w then ?f w else v) (hd_restores h)"
    using w by (intro keyed_update_map [OF history_okD(2) [OF ok] w(1)]) auto
  have count: "rowcount ?p (hd_restores h) = 1"
    using w by (intro rowcount_key [OF history_okD(2) [OF ok] w(1)]) auto
  have keys: "map rw_id (hd_restores h') = map rw_id (hd_restores h)"
    "map (\<lambda>w. rr_key (rw_request w)) (hd_restores h') = map (\<lambda>w. rr_key (rw_request w)) (hd_restores h)"
    unfolding h'_def by (simp_all add: map_update_where)
  have elems: "v \<in> set (hd_restores h) \<or> v = ?f w" if "v \<in> set (hd_restores h')" for v
    using that unfolding h'_def by (auto simp: rows split: if_splits)
  have ok': "history_ok h'"
    unfolding history_ok_def keys
    using ok st ev elems unfolding history_ok_def h'_def by (fastforce simp del: map_map)
  have in': "?f w \<in> set (hd_restores h')" using w(1) unfolding h'_def by (force simp: rows)
  have found: "List.find (\<lambda>v. rw_id v = i) (hd_restores h') = Some (?f w)"
    using find_restore(2) [OF ok' in'] w(2) by simp
  have row: "restore_result_from_row False (?f w) = result\<lparr>rs_request := Some i\<rparr>"
    using w(2,6) tgt by (simp add: restore_result_from_row_def)
  have "\<not> (case rs_event result of None \<Rightarrow> False | Some e \<Rightarrow> e \<notin> mv_id ` set (history_events h))"
    using fk by (simp split: option.split)
  then have "finish_restore x (Some i) result h = (Inr (result\<lparr>rs_request := Some i\<rparr>), h')"
    using found [unfolded h'_def] count row
    by (simp add: finish_restore_def lift_op_def terminalize_restore_request_def Let_def h'_def)
  moreover have "closed_row request (result\<lparr>rs_request := Some i\<rparr>) h'"
    unfolding closed_row_def by (rule bexI [OF _ in']) (use w row in simp)
  moreover have "hd_actions h' = hd_actions h" by (simp add: h'_def)
  ultimately show ?thesis using that ok' by blast
qed

text \<open>A closed request answers with what was recorded.\<close>

definition replayed_result :: "restore_result \<Rightarrow> restore_result" where
  "replayed_result r = (if rs_status r = RestoreApplied then r\<lparr>rs_status := RestoreAlready\<rparr> else r)"

lemma closed_row_replays:
  assumes "history_ok h" and "closed_row request result h"
  shows "execute_restore x request rid aid h = (Inr (replayed_result result), h)"
proof -
  obtain w where w: "w \<in> set (hd_restores h)" "rr_key (rw_request w) = rr_key request" "rw_terminal w \<noteq> None"
      "restore_request_identity_matches request (rw_request w)" "restore_result_from_row False w = result"
    using assms(2) unfolding closed_row_def by blast
  have fails: "restore_insert_fails (rx_request x) request h"
    using w(1,2) unfolding restore_insert_fails_def by (auto intro: rev_image_eqI)
  have found: "List.find (\<lambda>v. rr_key (rw_request v) = rr_key request) (hd_restores h) = Some w"
    using find_restore(1) [OF assms(1) w(1)] unfolding w(2) .
  have reg: "restore_result_from_row True w = replayed_result result"
    unfolding w(5) [symmetric] by (simp add: restore_result_from_row_def replayed_result_def)
  have "rw_status w = RestoreApplied \<Longrightarrow> rw_event w \<noteq> None" using history_okD(5) [OF assms(1) w(1)] w(3) by blast
  then have "rs_status (replayed_result result) \<noteq> RestoreApplied \<and>
      (rs_status (replayed_result result) \<noteq> RestoreAlready \<or> rs_event (replayed_result result) \<noteq> None)"
    using history_okD(6) [OF assms(1) w(1)]
    unfolding w(5) [symmetric] by (auto simp: restore_result_from_row_def replayed_result_def)
  then show ?thesis
    using fails found w(4) reg by (simp add: execute_restore_def bind_op_def lift_op_def request_restore_def)
qed

section \<open>What an action writes into the history\<close>

lemma all_revisions_of:
  "record_revisions env event b a ids = Inr revs \<Longrightarrow> \<forall>r \<in> set revs. rv_event r = event"
  by (induction ids arbitrary: revs) (auto simp: bind_act_Inr split: if_splits)

lemma all_links_of: "l \<in> set (link_revisions event b a) \<Longrightarrow> lv_event l = event"
  by (auto simp: link_revisions_def List.map_filter_def Let_def split: if_splits)

lemma read_records_cong: "ad_memories db = ad_memories db' \<Longrightarrow> read_records db = read_records db'"
  by (simp add: fun_eq_iff read_records_def find_memory_def)

lemma related_links_cong: "ad_links db = ad_links db' \<Longrightarrow> related_links db = related_links db'"
  by (simp add: fun_eq_iff related_links_def)

lemma apply_action_history:
  assumes ap: "apply_action env q nq db = Inr (r, db')" and ok: "action_db_ok db"
  obtains run db1 result s after_ids revs where
    "run_callback env (rq_apply q) (start_tx nq db1) = (Inr result, s)" "ad_memories db1 = ad_memories db" "ad_links db1 = ad_links db"
    "ad_memories db' = ad_memories (tx_db s)" "ad_links db' = ad_links (tx_db s)"
    "canonical_target_ids (nq_targets nq @ tx_touched s) = Inr after_ids"
    "record_revisions env (ax_event env) (read_records db (nq_targets nq)) (read_records db' after_ids)
       (sorted_ids (map fst (read_records db (nq_targets nq)) @ map fst (read_records db' after_ids))) = Inr revs"
    "ad_events db' = ad_events db @ [action_event env q run (nq_operation nq)]"
    "\<not> event_insert_fails (action_event env q run (nq_operation nq)) (ad_events db)"
    "ad_record_revisions db' = ad_record_revisions db @ revs"
    "ad_link_revisions db' = ad_link_revisions db
       @ link_revisions (ax_event env) (related_links db (nq_targets nq)) (related_links db' after_ids)"
    "rc_event r = Some (ax_event env)"
proof -
  obtain run db1 result s where st: "open_action_run env q db = Inr (run, db1)"
      "run_callback env (rq_apply q) (start_tx nq db1) = (Inr result, s)"
      "record_action env q nq run db1 result (tx_touched s) (tx_db s) = Inr (r, db')"
    using apply_action_steps [OF ap] by metis
  note o = open_action_run_effect [OF st(1)]
  have revisions: "ad_record_revisions db1 = ad_record_revisions db \<and> ad_link_revisions db1 = ad_link_revisions db"
    using st(1) by (auto simp: open_action_run_def Let_def split: option.splits if_splits)
  have "same_books db1 (tx_db s)"
    using confinedD(6) [OF callback_confined [OF start_confined [of db1 nq], of env "rq_apply q"]] o(8) st(2) ok
    by (simp add: action_db_ok_def)
  then have books: "ad_events (tx_db s) = ad_events db" "ad_record_revisions (tx_db s) = ad_record_revisions db"
      "ad_link_revisions (tx_db s) = ad_link_revisions db"
    using o(4) revisions by (simp_all add: same_books_def)
  obtain after_ids bt at' repairs db2 where h: "py_strip (mu_operation result) = nq_operation nq"
      "canonical_target_ids (nq_targets nq @ tx_touched s) = Inr after_ids"
      "write_history env q run (py_strip (mu_operation result)) (read_records db1 (nq_targets nq)) (read_records (tx_db s) after_ids)
       (related_links db1 (nq_targets nq)) (related_links (tx_db s) after_ids) ((tx_db s)\<lparr>ad_repairs := repairs\<rparr>) = Inr db2"
      "make_receipt env q nq result (tx_touched s) bt at' = Inr r" "insert_receipt r db2 = Inr db'"
    using record_action_steps [OF st(3)] by metis
  obtain revs where w: "record_revisions env (ax_event env) (read_records db1 (nq_targets nq)) (read_records (tx_db s) after_ids)
       (sorted_ids (map fst (read_records db1 (nq_targets nq)) @ map fst (read_records (tx_db s) after_ids))) = Inr revs"
      "\<not> event_insert_fails (action_event env q run (nq_operation nq)) (ad_events (tx_db s))"
      "db2 = ((tx_db s)\<lparr>ad_repairs := repairs\<rparr>)\<lparr>ad_events := ad_events (tx_db s) @ [action_event env q run (nq_operation nq)],
         ad_ledger := (ad_ledger (tx_db s))\<lparr>cd_events := insert (ax_event env) (cd_events (ad_ledger (tx_db s)))\<rparr>,
         ad_record_revisions := ad_record_revisions (tx_db s) @ revs,
         ad_link_revisions := ad_link_revisions (tx_db s)
           @ link_revisions (ax_event env) (related_links db1 (nq_targets nq)) (related_links (tx_db s) after_ids)\<rparr>"
    using write_history_effect [OF h(3)] unfolding h(1) by auto
  have db': "ad_memories db' = ad_memories (tx_db s)" "ad_links db' = ad_links (tx_db s)"
      "ad_events db' = ad_events db @ [action_event env q run (nq_operation nq)]"
      "ad_record_revisions db' = ad_record_revisions db @ revs"
      "ad_link_revisions db' = ad_link_revisions db
         @ link_revisions (ax_event env) (related_links db1 (nq_targets nq)) (related_links (tx_db s) after_ids)"
    using insert_receipt_effect(1) [OF h(5)] w(3) books by simp_all
  have "rc_event r = Some (ax_event env)" using h(4) by (auto simp: make_receipt_def bind_act_Inr)
  then show ?thesis
    using that [OF st(2) o(1,2) db'(1,2) h(2), of revs run] w(1,2) db'(3-5) books(1)
      read_records_cong [OF o(1)] read_records_cong [OF db'(1)] related_links_cong [OF o(2)] related_links_cong [OF db'(2)]
    by simp
qed

text \<open>An action keeps the invariant of the history.\<close>

lemma execute_action_ok:
  assumes ex: "execute_action env q (hd_actions h) = (out, db)" and ok: "history_ok h"
  shows "history_ok (h\<lparr>hd_actions := db\<rparr>)"
  using ex
proof (cases rule: execute_action_cases)
  case (fresh nq r)
  note A = apply_action_receipt [OF fresh(4) history_okD(1) [OF ok]]
  obtain run after_ids revs where H: "record_revisions env (ax_event env) (read_records (hd_actions h) (nq_targets nq)) (read_records db after_ids)
       (sorted_ids (map fst (read_records (hd_actions h) (nq_targets nq)) @ map fst (read_records db after_ids))) = Inr revs"
    "ad_events db = history_events h @ [action_event env q run (nq_operation nq)]"
    "ad_record_revisions db = ad_record_revisions (hd_actions h) @ revs"
    "ad_link_revisions db = ad_link_revisions (hd_actions h)
       @ link_revisions (ax_event env) (related_links (hd_actions h) (nq_targets nq)) (related_links db after_ids)"
    "rc_event r = Some (ax_event env)"
    using apply_action_history [OF fresh(4) history_okD(1) [OF ok]] by metis
  have revs: "\<forall>r \<in> set revs. rv_event r = ax_event env" by (rule all_revisions_of [OF H(1)])
  show ?thesis
    using ok A(5,6,8) revs all_links_of unfolding history_ok_def by (auto simp: H(2-5))
qed (use ok in simp_all)

section \<open>The steps of a restoration\<close>

lemma history_ok_ledger:
  assumes "history_ok h" and "ledger_ok l" and "cd_broken l \<subseteq> receipt_key ` set (cd_receipts l)"
    and "\<And>r. r \<in> set (cd_receipts l) \<Longrightarrow> \<exists>e. rc_event r = Some e \<and> e \<in> mv_id ` set (history_events h)"
  shows "history_ok (on_actions (\<lambda>db. db\<lparr>ad_ledger := l\<rparr>) h)"
  using assms unfolding history_ok_def action_db_ok_def links_anchored_def find_memory_def on_actions_def by simp

lemma ensure_run_works:
  assumes ok: "history_ok h"
  obtains h' where "ensure_run x rid ev request h = (Inr (), h')" "same_domain (hd_actions h) (hd_actions h')"
    "hd_restores h' = hd_restores h" "history_ok h'" "ad_memories (hd_actions h') = ad_memories (hd_actions h)"
proof (cases "rx_ledger x \<and> get_run rid (ad_ledger (hd_actions h)) = None")
  case False
  then have "ensure_run x rid ev request h = (Inr (), h)" unfolding ensure_run_def by (rule if_not_P)
  then show ?thesis using that ok same_domain_refl by blast
next
  case True
  let ?l = "ad_ledger (hd_actions h)"
  let ?run = "(new_restore_run rid ev request)\<lparr>cr_created := Some (ax_clk (rx_action x))\<rparr>"
  have new: "rid \<notin> cr_id ` set (cd_runs ?l)" using True by (auto simp: get_run_def find_None_iff)
  have "create_run (ax_clk (rx_action x)) (new_restore_run rid ev request) ?l = (Inr ?run, ?l\<lparr>cd_runs := cd_runs ?l @ [?run]\<rparr>)"
    using new by (simp add: create_run_def new_restore_run_def now_or_def Let_def)
  then have en: "ensure_run x rid ev request h = (Inr (), on_actions (\<lambda>db. db\<lparr>ad_ledger := ?l\<lparr>cd_runs := cd_runs ?l @ [?run]\<rparr>\<rparr>) h)"
    using True by (simp add: ensure_run_def)
  have "ledger_ok ?l" using history_okD(1) [OF ok] by (simp add: action_db_ok_def)
  then have "ledger_ok (?l\<lparr>cd_runs := cd_runs ?l @ [?run]\<rparr>)"
    using new unfolding ledger_ok_def by (auto simp: new_restore_run_def)
  then have "history_ok (on_actions (\<lambda>db. db\<lparr>ad_ledger := ?l\<lparr>cd_runs := cd_runs ?l @ [?run]\<rparr>\<rparr>) h)"
    using history_okD(4) [OF ok] history_okD(10) [OF ok] by (intro history_ok_ledger [OF ok]) simp_all
  then show ?thesis using that [OF en] by (simp add: on_actions_def)
qed

lemma settle_works:
  assumes ok: "history_ok h" and cur: "get_receipt (rc_run r) (rc_action r) (ad_ledger (hd_actions h)) = Inr (Some r)"
  obtains h' where "settle_receipt x r h = (Inr (), h')" "same_domain (hd_actions h) (hd_actions h')"
    "hd_restores h' = hd_restores h" "history_ok h'"
proof (cases "rx_ledger x")
  case False
  then have "settle_receipt x r h = (Inr (), h)" by (simp add: settle_receipt_def)
  then show ?thesis using that ok same_domain_refl by blast
next
  case True
  let ?l = "ad_ledger (hd_actions h)"
  let ?r = "r\<lparr>rc_status := Verified, rc_verified := Some (ax_clk (rx_action x))\<rparr>"
  have lok: "ledger_ok ?l" using history_okD(1) [OF ok] by (simp add: action_db_ok_def)
  have r: "r \<in> set (cd_receipts ?l)" using get_receipt_SomeD [OF cur] by blast
  have intent: "rc_intent r \<noteq> None" by (rule ledger_okD(4) [OF lok r])
  show ?thesis
  proof (cases "rc_status r = AppliedUnverified")
    case False
    then have "transition_receipt (rc_run r) (rc_action r) AppliedUnverified ?r ?l = (Inr (Some r), ?l)"
      using cur intent by (simp add: transition_receipt_def receipt_terminal_def)
    then have "settle_receipt x r h = (Inr (), on_actions (\<lambda>db. db\<lparr>ad_ledger := ?l\<rparr>) h)"
      using True by (simp add: settle_receipt_def)
    moreover have "on_actions (\<lambda>db. db\<lparr>ad_ledger := ?l\<rparr>) h = h" by (simp add: on_actions_def)
    ultimately show ?thesis using that ok same_domain_refl by metis
  next
    case pending: True
    have key: "receipt_key ?r = receipt_key r" "rc_intent ?r \<noteq> None" using intent by (simp_all add: receipt_key_def)
    have "transition_receipt (rc_run r) (rc_action r) AppliedUnverified ?r ?l = (Inr (Some ?r), with_receipt r ?r ?l)"
      by (rule transition_pending [OF lok cur pending key])
    then have st: "settle_receipt x r h = (Inr (), on_actions (\<lambda>db. db\<lparr>ad_ledger := with_receipt r ?r ?l\<rparr>) h)"
      using True by (simp add: settle_receipt_def)
    have "history_ok (on_actions (\<lambda>db. db\<lparr>ad_ledger := with_receipt r ?r ?l\<rparr>) h)"
    proof (rule history_ok_ledger [OF ok with_receipt_ok [OF lok key]])
      show "cd_broken (with_receipt r ?r ?l) \<subseteq> receipt_key ` set (cd_receipts (with_receipt r ?r ?l))"
        using history_okD(4) [OF ok] distinct_keyed(2) [OF ledger_okD(2) [OF lok] key(1)]
        unfolding with_receipt_simps set_map by simp
    next
      fix s assume "s \<in> set (cd_receipts (with_receipt r ?r ?l))"
      then obtain s0 where "s0 \<in> set (cd_receipts ?l)" "rc_event s = rc_event s0"
        by (auto split: if_splits)
      then show "\<exists>e. rc_event s = Some e \<and> e \<in> mv_id ` set (history_events h)" using history_okD(10) [OF ok] by metis
    qed
    then show ?thesis using that [OF st] by (simp add: on_actions_def)
  qed
qed

lemma executed_receipt:
  assumes "execute_action env q (hd_actions h) = (Inr r, db)" and ok: "history_ok h"
  shows "get_receipt (rc_run r) (rc_action r) (ad_ledger db) = Inr (Some r)"
    "\<exists>e. rc_event r = Some e \<and> e \<in> mv_id ` set (ad_events db)"
proof -
  have ok': "history_ok (h\<lparr>hd_actions := db\<rparr>)" by (rule execute_action_ok [OF assms])
  show got: "get_receipt (rc_run r) (rc_action r) (ad_ledger db) = Inr (Some r)"
    using assms(1)
  proof (cases rule: execute_action_cases)
    case (replay nq r')
    note g = replayed_SomeD(1) [OF replay(2)]
    have "receipt_key r' = (rq_run q, rq_action q)" using get_receipt_SomeD [OF g] by blast
    then show ?thesis using g replay(3,4) by (simp add: receipt_key_def)
  next
    case (fresh nq r')
    note A = apply_action_receipt [OF fresh(4) history_okD(1) [OF ok]]
    have "receipt_key r \<notin> receipt_key ` set (cd_receipts (ad_ledger (hd_actions h)))"
      using replayed_NoneD [OF fresh(2)] A(1,2) fresh(3) by (fastforce simp: receipt_key_def)
    then have "receipt_key r \<notin> cd_broken (ad_ledger db)" using history_okD(4) [OF ok] A(6) by auto
    moreover have "distinct (map receipt_key (cd_receipts (ad_ledger db)))"
      using A(8) ledger_okD(2) by (simp add: action_db_ok_def)
    ultimately show ?thesis using A(5) fresh(3) by (intro get_receiptI) (simp_all add: receipt_key_def)
  qed simp
  show "\<exists>e. rc_event r = Some e \<and> e \<in> mv_id ` set (ad_events db)"
    using history_okD(10) [OF ok', of r] get_receipt_SomeD [OF got] by simp
qed

text \<open>How an execution can end.\<close>

definition applied_result :: "restore_request \<Rightarrow> uuid \<Rightarrow> receipt \<Rightarrow> restore_result" where
  "applied_result request i r = \<lparr>rs_status = RestoreApplied, rs_request = Some i, rs_event = rc_event r,
     rs_target = rr_target request, rs_reason = None, rs_details = []\<rparr>"

lemma run_restore_cases:
  assumes run: "run_restore x request (Some i) rid aid ev v h = (out, h')" and ok: "history_ok h" and op: "open_row request i h"
  obtains (failed) e where "out = Inl e" "same_domain (hd_actions h) (hd_actions h')" "history_ok h'"
  | (refused) result where "out = Inr result" "rs_status result = RestoreConflicted" "same_domain (hd_actions h) (hd_actions h')"
      "closed_row request result h'" "history_ok h'"
  | (applied) r db where "execute_action (rx_action x) (restore_action rid aid ev request v) (hd_actions h) = (Inr r, db)"
      "out = Inr (applied_result request i r)" "same_domain db (hd_actions h')"
      "closed_row request (applied_result request i r) h'" "history_ok h'"
proof -
  obtain res db where ex: "execute_action (rx_action x) (restore_action rid aid ev request v) (hd_actions h) = (res, db)" by fastforce
  have ok1: "history_ok (h\<lparr>hd_actions := db\<rparr>)" by (rule execute_action_ok [OF ex ok])
  have op1: "open_row request i (h\<lparr>hd_actions := db\<rparr>)" using op by (simp add: open_row_def)
  show ?thesis
  proof (cases res)
    case (Inl e)
    have db: "db = hd_actions h" using ex Inl by (cases rule: execute_action_cases) simp_all
    then have h: "h\<lparr>hd_actions := db\<rparr> = h" by simp
    show ?thesis
    proof (cases "\<exists>m. e = ActionStale m")
      case True
      then obtain m where m: "e = ActionStale m" by blast
      let ?c = "conflict_result request StaleState m None"
      have c: "rs_status ?c = RestoreConflicted" "rs_event ?c = None" "rs_target ?c = rr_target request"
        by (simp_all add: conflict_result_def)
      obtain h2 where fin: "finish_restore x (Some i) ?c h = (Inr (?c\<lparr>rs_request := Some i\<rparr>), h2)"
          "hd_actions h2 = hd_actions h" "closed_row request (?c\<lparr>rs_request := Some i\<rparr>) h2" "history_ok h2"
        using finish_open_row [OF ok op, of ?c x] c by auto
      have "(out, h') = finish_restore x (Some i) ?c h"
        using run unfolding run_restore_def ex Inl m by (simp add: h)
      then have "out = Inr (?c\<lparr>rs_request := Some i\<rparr>)" "h' = h2" using fin(1) by simp_all
      then show ?thesis using refused [of "?c\<lparr>rs_request := Some i\<rparr>"] fin c(1) by simp
    next
      case False
      then have "out = Inl e" "h' = h"
        using run unfolding run_restore_def ex Inl by (cases e; simp add: h)+
      then show ?thesis using failed ok by simp
    qed
  next
    case (Inr r)
    have ex': "execute_action (rx_action x) (restore_action rid aid ev request v) (hd_actions h) = (Inr r, db)" using ex Inr by simp
    note R = executed_receipt [OF ex' ok]
    obtain h2 where st: "settle_receipt x r (h\<lparr>hd_actions := db\<rparr>) = (Inr (), h2)" "same_domain db (hd_actions h2)"
        "hd_restores h2 = hd_restores h" "history_ok h2"
      using settle_works [OF ok1, of r x] R(1) by auto
    have op2: "open_row request i h2" using op st(3) by (simp add: open_row_def)
    let ?a = "applied_result request i r"
    have a: "rs_status ?a = RestoreApplied" "rs_event ?a = rc_event r" "rs_target ?a = rr_target request" "?a\<lparr>rs_request := Some i\<rparr> = ?a"
      by (simp_all add: applied_result_def)
    have f: "rs_status ?a \<noteq> RestoreAlready" "rs_status ?a = RestoreApplied \<Longrightarrow> rs_event ?a \<noteq> None"
        "\<And>e. rs_event ?a = Some e \<Longrightarrow> e \<in> mv_id ` set (history_events h2)"
      using R(2) same_domainD(6) [OF st(2)] a by auto
    obtain h3 where fin: "finish_restore x (Some i) ?a h2 = (Inr ?a, h3)" "hd_actions h3 = hd_actions h2"
        "closed_row request ?a h3" "history_ok h3"
      using finish_open_row [OF st(4) op2 f a(3), of x] unfolding a(4) by blast
    have "(out, h') = finish_restore x (Some i) ?a h2"
      using run unfolding run_restore_def ex Inr by (simp add: bind_op_def st(1) applied_result_def)
    then have "out = Inr ?a" "h' = h3" using fin(1) by simp_all
    then show ?thesis using applied [OF ex'] fin st(2) by simp
  qed
qed

lemma events_of_same_domain:
  assumes "same_domain (hd_actions h) (hd_actions h')"
  shows "get_event i h' = get_event i h" "get_record_revisions i n h' = get_record_revisions i n h"
    "get_link_revisions i n h' = get_link_revisions i n h"
  using same_domainD [OF assms] by (simp_all add: get_event_def get_record_revisions_def get_link_revisions_def)

lemma restore_event_cases:
  assumes run: "restore_event x request (Some i) run_id action_id ev h = (out, h')" and ok: "history_ok h" and op: "open_row request i h"
  obtains (failed) e where "out = Inl e" "same_domain (hd_actions h) (hd_actions h')" "history_ok h'"
  | (refused) result where "out = Inr result" "rs_status result = RestoreConflicted" "same_domain (hd_actions h) (hd_actions h')"
      "closed_row request result h'" "history_ok h'"
  | (applied) records links v rid aid h1 r db where
      "get_record_revisions (mv_id ev) None h = Inr records" "get_link_revisions (mv_id ev) None h = Inr links"
      "build_inverse ev records links = Inr v" "same_domain (hd_actions h) (hd_actions h1)" "history_ok h1"
      "execute_action (rx_action x) (restore_action rid aid ev request v) (hd_actions h1) = (Inr r, db)"
      "out = Inr (applied_result request i r)" "same_domain db (hd_actions h')"
      "closed_row request (applied_result request i r) h'" "history_ok h'"
proof -
  have refusal: ?thesis if "finish_restore x (Some i) (conflict_result request c m p) h = (out, h')" for c m p
  proof -
    let ?c = "conflict_result request c m p"
    have c: "rs_status ?c = RestoreConflicted" "rs_event ?c = None" "rs_target ?c = rr_target request"
      by (simp_all add: conflict_result_def)
    obtain h2 where fin: "finish_restore x (Some i) ?c h = (Inr (?c\<lparr>rs_request := Some i\<rparr>), h2)"
        "hd_actions h2 = hd_actions h" "closed_row request (?c\<lparr>rs_request := Some i\<rparr>) h2" "history_ok h2"
      using finish_open_row [OF ok op, of ?c x] c by auto
    then have "out = Inr (?c\<lparr>rs_request := Some i\<rparr>)" "h' = h2" using that by simp_all
    then show ?thesis using refused [of "?c\<lparr>rs_request := Some i\<rparr>"] fin c(1) by simp
  qed
  show ?thesis
  proof (cases "get_record_revisions (mv_id ev) None h")
    case (Inl e)
    then have "out = Inl (Raised e)" "h' = h"
      using run by (simp_all add: restore_event_def bind_op_def lift_op_def)
    then show ?thesis using failed ok by simp
  next
    case records: (Inr records)
    show ?thesis
    proof (cases "get_link_revisions (mv_id ev) None h")
      case (Inl e)
      then have "out = Inl (Raised e)" "h' = h"
        using run records by (simp_all add: restore_event_def bind_op_def lift_op_def)
      then show ?thesis using failed ok by simp
    next
      case links: (Inr links)
      note run1 = run [unfolded restore_event_def bind_op_def lift_op_def records links prod.case sum.case raising.simps]
      show ?thesis
      proof (cases "build_inverse ev records links")
        case (Inl c)
        then show ?thesis using run1 refusal by simp
      next
        case v: (Inr v)
        show ?thesis
        proof (cases "scope_conflict (rr_scope request) v")
          case (Some c)
          then show ?thesis using run1 v refusal by (cases c) simp
        next
          case scope: None
          show ?thesis
          proof (cases "\<exists>m \<in> set (record_target_ids v). m \<notin> fst ` set (expected_tokens request (inverse_target_ids v))")
            case True
            then show ?thesis using run1 v scope refusal by simp
          next
            case False
            define rid where "rid = (case run_id of Some r \<Rightarrow> r | None \<Rightarrow> (case mv_run ev of Some r \<Rightarrow> r | None \<Rightarrow> rx_run x))"
            define aid where "aid = (case action_id of Some a \<Rightarrow> a
                    | None \<Rightarrow> h_uuid5 (ax_hashing (rx_action x)) (mv_id ev) (''restore:'' @ rr_key request))"
            obtain h1 where en: "ensure_run x rid ev request h = (Inr (), h1)" "same_domain (hd_actions h) (hd_actions h1)"
                "hd_restores h1 = hd_restores h" "history_ok h1"
              using ensure_run_works [OF ok] by metis
            have op1: "open_row request i h1" using op en(3) by (simp add: open_row_def)
            have "run_restore x request (Some i) rid aid ev v h1 = (out, h')"
              using run1 v scope False en(1) unfolding Let_def by (simp add: rid_def [symmetric] aid_def [symmetric])
            then show ?thesis using en(4) op1
            proof (cases rule: run_restore_cases)
              case (failed e)
              then show ?thesis using that(1) same_domain_trans [OF en(2)] by blast
            next
              case (refused result)
              then show ?thesis using that(2) same_domain_trans [OF en(2)] by blast
            next
              case (applied r db)
              then show ?thesis using that(3) [OF records links v en(2,4)] by blast
            qed
          qed
        qed
      qed
    qed
  qed
qed

lemma execute_restore_cases:
  assumes run: "execute_restore x request run_id action_id h = (out, h')" and ok: "history_ok h"
  obtains (failed) e where "out = Inl e" "same_domain (hd_actions h) (hd_actions h')" "history_ok h'"
  | (answered) w where "out = Inr (restore_result_from_row True w)" "h' = h" "w \<in> set (hd_restores h)"
      "rr_key (rw_request w) = rr_key request" "rw_terminal w \<noteq> None" "restore_request_identity_matches request (rw_request w)"
  | (refused) result where "out = Inr result" "rs_status result = RestoreConflicted" "same_domain (hd_actions h) (hd_actions h')"
      "closed_row request result h'" "history_ok h'"
  | (applied) ev records links v i rid aid h1 r db where
      "get_event (rr_target request) h = Inr (Some ev)"
      "get_record_revisions (mv_id ev) None h = Inr records" "get_link_revisions (mv_id ev) None h = Inr links"
      "build_inverse ev records links = Inr v" "same_domain (hd_actions h) (hd_actions h1)" "history_ok h1"
      "execute_action (rx_action x) (restore_action rid aid ev request v) (hd_actions h1) = (Inr r, db)"
      "out = Inr (applied_result request i r)" "same_domain db (hd_actions h')"
      "closed_row request (applied_result request i r) h'" "history_ok h'"
proof -
  obtain res h0 where rq: "request_restore (rx_request x) (ax_now (rx_action x)) request h = (res, h0)" by fastforce
  show ?thesis
  proof (cases res)
    case (Inl e)
    have "h0 = h" using rq ok by (cases rule: request_restore_cases) (use Inl in simp_all)
    then have "out = Inl (Raised e)" "h' = h"
      using run rq Inl by (simp_all add: execute_restore_def bind_op_def lift_op_def)
    then show ?thesis using failed ok by simp
  next
    case (Inr reg)
    note run1 = run [unfolded execute_restore_def bind_op_def lift_op_def rq Inr prod.case sum.case raising.simps]
    show ?thesis
    proof (cases "goes_on reg")
      case False
      then have done': "out = Inr reg" "h' = h0" using run1 by (auto simp: goes_on_def split: if_splits)
      from rq ok show ?thesis
      proof (cases rule: request_restore_cases)
        case (known w)
        have reg: "reg = restore_result_from_row True w" using known(4) Inr by simp
        have "rw_terminal w \<noteq> None"
          using history_okD(5,6,7) [OF ok known(1)] False
          unfolding reg by (auto simp: goes_on_def restore_result_from_row_def split: if_splits)
        then show ?thesis using answered [of w] done' known reg by simp
      next
        case (fresh w)
        then show ?thesis using False Inr by (simp add: goes_on_def restore_result_from_row_def)
      qed (use Inr in simp)
    next
      case True
      obtain i where reg: "rs_request reg = Some i" "open_row request i h0" "history_ok h0" "hd_actions h0 = hd_actions h"
        using registered_row [OF rq [unfolded Inr] ok True] .
      have same: "same_domain (hd_actions h) (hd_actions h0)" using reg(4) by simp
      note reads = events_of_same_domain [OF same]
      have "\<not> (rs_status reg \<noteq> RestoreApplied \<and> (rs_status reg \<noteq> RestoreAlready \<or> rs_event reg \<noteq> None))"
        using True by (auto simp: goes_on_def)
      note run2 = run1 [unfolded if_not_P [OF this] reg(1) reads]
      show ?thesis
      proof (cases "get_event (rr_target request) h")
        case (Inl e)
        then have "out = Inl (Raised e)" "h' = h0" using run2 by (simp_all add: bind_op_def lift_op_def reads)
        then show ?thesis using failed same reg(3) by blast
      next
        case (Inr found)
        show ?thesis
        proof (cases found)
          case None
          let ?c = "conflict_result request MalformedHistory ''target mutation event was not found'' None"
          have c: "rs_status ?c = RestoreConflicted" "rs_event ?c = None" "rs_target ?c = rr_target request"
            by (simp_all add: conflict_result_def)
          obtain h2 where fin: "finish_restore x (Some i) ?c h0 = (Inr (?c\<lparr>rs_request := Some i\<rparr>), h2)"
              "hd_actions h2 = hd_actions h0" "closed_row request (?c\<lparr>rs_request := Some i\<rparr>) h2" "history_ok h2"
            using finish_open_row [OF reg(3,2), of ?c x] c by auto
          then have "out = Inr (?c\<lparr>rs_request := Some i\<rparr>)" "h' = h2"
            using run2 Inr None by (simp_all add: bind_op_def lift_op_def reads)
          then show ?thesis using refused [of "?c\<lparr>rs_request := Some i\<rparr>"] fin c(1) same by simp
        next
          case (Some ev)
          have "restore_event x request (Some i) run_id action_id ev h0 = (out, h')"
            using run2 Inr Some by (simp add: bind_op_def lift_op_def reads)
          then show ?thesis using reg(3,2)
          proof (cases rule: restore_event_cases)
            case (failed e)
            then show ?thesis using that(1) same_domain_trans [OF same] by blast
          next
            case (refused result)
            then show ?thesis using that(3) same_domain_trans [OF same] by blast
          next
            case (applied records links v rid aid h1 r db)
            show ?thesis
              using that(4) [OF Inr [unfolded Some] applied(1,2) [unfolded reads] applied(3) same_domain_trans [OF same applied(4)]
                applied(5-10)] .
          qed
        qed
      qed
    qed
  qed
qed

end
