(* ===== verification/CanonicalForms.thy ===== *)
theory CanonicalForms
  imports CanonicalIdentity CurationVerifier
begin

text \<open>
  Canonical forms are stable: normalizing a normalized text, value or link type changes nothing, so a
  snapshot that was stored and read back has the token it had.
\<close>

section \<open>Texts\<close>

lemma no_return_normalize [simp]: "CHR 0x0D \<notin> set (normalize_newlines s)"
  by (auto simp: normalize_newlines_def)

lemma replace_cr_lf_id: "CHR 0x0D \<notin> set s \<Longrightarrow> replace_cr_lf s = s"
  by (induction s rule: replace_cr_lf.induct) auto

lemma normalize_newlines_id: "CHR 0x0D \<notin> set s \<Longrightarrow> normalize_newlines s = s"
  unfolding normalize_newlines_def by (auto simp: replace_cr_lf_id intro: map_idI)

lemma normalize_newlines_idem [simp]: "normalize_newlines (normalize_newlines s) = normalize_newlines s"
  by (rule normalize_newlines_id) simp

lemma normalize_text_idem [simp]: "normalize_text False (normalize_text False s) = normalize_text False s"
  by (simp add: normalize_text_def)

section \<open>Values\<close>

text \<open>A value in canonical form.\<close>

fun normal :: "json \<Rightarrow> bool"
  and normal_list :: "json list \<Rightarrow> bool"
  and normal_items :: "(string \<times> json) list \<Rightarrow> bool" where
  "normal (JStr s) = (CHR 0x0D \<notin> set s)"
| "normal (JList vs) = normal_list vs"
| "normal (JObj kvs) = (normal_items kvs \<and> distinct (map fst kvs))"
| "normal v = True"
| "normal_list [] = True"
| "normal_list (v # vs) = (normal v \<and> normal_list vs)"
| "normal_items [] = True"
| "normal_items ((k, v) # kvs) = (CHR 0x0D \<notin> set k \<and> normal v \<and> normal_items kvs)"

lemma bind_res_Inr: "bind_res m f = Inr y \<longleftrightarrow> (\<exists>x. m = Inr x \<and> f x = Inr y)"
  by (cases m) simp_all

lemma normalize_normal:
  "normalize v = Inr w \<Longrightarrow> normal w"
  "normalize_list vs = Inr ws \<Longrightarrow> normal_list ws"
  "normalize_items seen kvs = Inr kws \<Longrightarrow> normal_items kws \<and> distinct (map fst kws) \<and> set seen \<inter> fst ` set kws = {}"
proof (induction v and vs and seen kvs arbitrary: w and ws and kws rule: normalize_normalize_list_normalize_items.induct)
  case (8 seen k v kvs)
  have new: "normalize_text False k \<notin> set seen" using "8.prems" by (auto simp: Let_def split: if_splits)
  then obtain w kws' where s: "normalize v = Inr w" "normalize_items (normalize_text False k # seen) kvs = Inr kws'"
      "kws = (normalize_text False k, w) # kws'"
    using "8.prems" by (auto simp: Let_def bind_res_Inr)
  then show ?case using "8.IH"(1) [OF refl new s(1)] "8.IH"(2) [OF refl new s(2)] new by (auto simp: normalize_text_def)
qed (auto simp: bind_res_Inr normalize_text_def)

lemma normal_normalize:
  "normal v \<Longrightarrow> normalize v = Inr v"
  "normal_list vs \<Longrightarrow> normalize_list vs = Inr vs"
  "normal_items kvs \<Longrightarrow> distinct (map fst kvs) \<Longrightarrow> set seen \<inter> fst ` set kvs = {} \<Longrightarrow> normalize_items seen kvs = Inr kvs"
proof (induction v and vs and seen kvs rule: normalize_normalize_list_normalize_items.induct)
  case (8 seen k v kvs)
  have k: "normalize_text False k = k" using "8.prems"(1) by (simp add: normalize_text_def normalize_newlines_id)
  have new: "normalize_text False k \<notin> set seen" using "8.prems"(3) k by auto
  have "normalize v = Inr v" using "8.IH"(1) [OF refl new] "8.prems"(1) by simp
  moreover have "normalize_items (k # seen) kvs = Inr kvs"
    using "8.IH"(2) [OF refl new] "8.prems" k by auto
  ultimately show ?case using new by (simp add: k Let_def)
qed (auto simp: normalize_text_def normalize_newlines_id)

lemma normal_items_iff: "normal_items kvs \<longleftrightarrow> (\<forall>(k, v) \<in> set kvs. CHR 0x0D \<notin> set k \<and> normal v)"
  by (induction kvs) auto

lemma distinct_sorted_keys [simp]: "distinct (map f (sort_key f xs)) = distinct (map f xs)"
  by (simp add: distinct_map)

lemma normal_json_sort:
  "normal v \<Longrightarrow> normal (json_sort v)"
  "normal_list vs \<Longrightarrow> normal_list (json_sort_list vs)"
  "normal_items kvs \<Longrightarrow> normal_items (json_sort_items kvs)"
proof (induction v and vs and kvs rule: json_sort_json_sort_list_json_sort_items.induct)
  case (2 kvs)
  have "distinct (map fst (sort_key fst (json_sort_items kvs)))"
    using 2 unfolding distinct_sorted_keys by simp
  then show ?case using 2 by (simp add: normal_items_iff)
qed auto

lemma json_sort_items_map: "json_sort_items kvs = map (apsnd json_sort) kvs"
  by (induction kvs) auto

text \<open>The round trip through the canonical text.\<close>

lemma canonical_again:
  assumes "normalize v = Inr w"
  shows "normalize (json_sort w) = Inr (json_sort w)" "json_sort (json_sort w) = json_sort w"
  using normal_normalize(1) [OF normal_json_sort(1) [OF normalize_normal(1) [OF assms]]] by simp_all

section \<open>Link types\<close>

lemma no_separators: "c \<in> set (join_separated inside s) \<Longrightarrow> \<not> link_separator c"
proof (induction inside s rule: join_separated.induct)
  case (2 inside c' cs)
  have under: "\<not> link_separator (CHR ''_'')" by (simp add: link_separator_def py_isspace_def)
  show ?case
  proof (cases "link_separator c'")
    case True
    then show ?thesis using 2 under by (cases inside) auto
  next
    case False
    then show ?thesis using 2 by auto
  qed
qed simp

lemma upper_char_stable:
  assumes "d \<in> set (upper_char c)" and "\<not> link_separator c"
  shows "\<not> link_separator d \<and> upper_char d = [d]"
proof -
  define n where "n = (of_char c :: nat)"
  define low where "low = ((97 \<le> n \<and> n \<le> 122) \<or> (224 \<le> n \<and> n \<le> 254 \<and> n \<noteq> 247))"
  have up: "upper_char c = (if low then [char_of (n - 32)] else if n = 223 then ''SS'' else [c])"
    unfolding upper_char_def Let_def n_def low_def by (rule refl)
  consider (lower) low | (sharp) "\<not> low" "n = 223" | (other) "\<not> low" "n \<noteq> 223" by blast
  then show ?thesis
  proof cases
    case lower
    then have d: "d = char_of (n - 32)" using assms(1) up by simp
    have bounds: "(97 \<le> n \<and> n \<le> 122) \<or> (224 \<le> n \<and> n \<le> 254 \<and> n \<noteq> 247)" using lower by (simp add: low_def)
    then have n: "(of_char d :: nat) = n - 32" unfolding d by auto
    have "d \<noteq> CHR ''-''"
    proof
      assume "d = CHR ''-''"
      then have "(of_char d :: nat) = 45" by simp
      then show False using n bounds by linarith
    qed
    moreover have "\<not> py_isspace d" unfolding py_isspace_def n using bounds by auto
    moreover have "upper_char d = [d]" unfolding upper_char_def Let_def n using bounds by auto
    ultimately show ?thesis by (simp add: link_separator_def)
  next
    case sharp
    then have "d = CHR ''S''" using assms(1) up by simp
    then show ?thesis by (simp add: link_separator_def py_isspace_def upper_char_def Let_def)
  next
    case other
    then have "upper_char c = [c]" using up by simp
    then show ?thesis using assms by simp
  qed
qed

lemma plain_link_type:
  assumes "\<forall>c \<in> set t. \<not> link_separator c \<and> upper_char c = [c]"
  shows "py_strip t = t" "join_separated False t = t" "concat (map upper_char t) = t"
proof -
  have ends: "dropWhile py_isspace u = u" if "\<forall>c \<in> set u. \<not> py_isspace c" for u
    using that by (cases u) auto
  have "\<forall>c \<in> set t. \<not> py_isspace c" using assms by (auto simp: link_separator_def)
  then show "py_strip t = t" using ends [of t] ends [of "rev t"] by (simp add: py_strip_def)
  show "join_separated False t = t" "concat (map upper_char t) = t" using assms by (induction t) auto
qed

lemma normalize_link_type_idem: "normalize_link_type s = Inr t \<Longrightarrow> normalize_link_type t = Inr t"
proof -
  assume "normalize_link_type s = Inr t"
  then have t: "t = concat (map upper_char (join_separated False (py_strip s)))" "t \<noteq> []"
    by (auto simp: normalize_link_type_def Let_def split: if_splits)
  have "\<not> link_separator d \<and> upper_char d = [d]" if "d \<in> set t" for d
  proof -
    obtain c where "c \<in> set (join_separated False (py_strip s))" "d \<in> set (upper_char c)" using \<open>d \<in> set t\<close> t(1) by auto
    then show ?thesis using no_separators upper_char_stable by blast
  qed
  then have "\<forall>c \<in> set t. \<not> link_separator c \<and> upper_char c = [c]" by blast
  from plain_link_type [OF this] t(2) show ?thesis by (simp add: normalize_link_type_def Let_def)
qed

end
