(* ===== verification/RestoreProps.thy ===== *)
theory RestoreProps
  imports RestoreLaws CanonicalForms
begin

text \<open>
  The properties of restoration: a request has one answer and at most one effect, and a restored link or
  edit is the state before the mutation again.
\<close>

section \<open>One answer\<close>

lemma replayed_result_idem [simp]: "replayed_result (replayed_result r) = replayed_result r"
  by (simp add: replayed_result_def)

lemma replayed_row: "restore_result_from_row True w = replayed_result (restore_result_from_row False w)"
  by (simp add: restore_result_from_row_def replayed_result_def)

lemma get_event_id: "get_event i h = Inr (Some ev) \<Longrightarrow> mv_id ev = i"
  by (auto simp: get_event_def optional_row_def event_from_row_def bind_res_Inr dest: find_SomeD split: option.splits if_splits)

lemma restored_by_action:
  assumes ex: "execute_action (rx_action x) (restore_action rid aid ev request v) (hd_actions h) = (Inr r, db)" and ok: "history_ok h"
  shows "db = hd_actions h \<or> (\<exists>new. ad_events db = history_events h @ [new] \<and> mv_restores new = Some (mv_id ev)
    \<and> rc_event r = Some (mv_id new))"
  using ex
proof (cases rule: execute_action_cases)
  case (fresh nq r')
  then have ap: "apply_action (rx_action x) (restore_action rid aid ev request v) nq (hd_actions h) = (Inr (r, db))" by simp
  obtain run where "ad_events db = history_events h @ [action_event (rx_action x) (restore_action rid aid ev request v) run (nq_operation nq)]"
      "rc_event r = Some (ax_event (rx_action x))"
    using apply_action_history [OF ap history_okD(1) [OF ok]] by metis
  then show ?thesis by (simp add: restore_action_def)
qed simp_all

lemma execute_restore_outcome:
  assumes "execute_restore x request run_id action_id h = (out, h')" and ok: "history_ok h"
  shows "history_ok h' \<and> (case out of
      Inl e \<Rightarrow> same_domain (hd_actions h) (hd_actions h')
    | Inr res \<Rightarrow>
        (same_domain (hd_actions h) (hd_actions h')
         \<or> rs_status res = RestoreApplied \<and> (\<exists>new. history_events h' = history_events h @ [new]
             \<and> mv_restores new = Some (rr_target request) \<and> rs_event res = Some (mv_id new)))
        \<and> (\<forall>x rid aid. execute_restore x request rid aid h' = (Inr (replayed_result res), h')))"
  using assms
proof (cases rule: execute_restore_cases)
  case (answered w)
  have "closed_row request (restore_result_from_row False w) h" using answered unfolding closed_row_def by blast
  from closed_row_replays [OF ok this] show ?thesis using answered(1,2) ok by (simp add: replayed_row)
next
  case (refused result)
  then show ?thesis using closed_row_replays [OF refused(5,4)] by simp
next
  case (applied ev records links v i rid aid h1 r db)
  have "mv_id ev = rr_target request" by (rule get_event_id [OF applied(1)])
  with restored_by_action [OF applied(7,6)] have eff: "db = hd_actions h1 \<or> (\<exists>new. ad_events db = history_events h1 @ [new]
      \<and> mv_restores new = Some (rr_target request) \<and> rc_event r = Some (mv_id new))" by simp
  have "same_domain (hd_actions h) (hd_actions h')" if "db = hd_actions h1"
    using same_domain_trans [OF applied(5)] applied(9) that by simp
  moreover have "history_events h' = ad_events db" "history_events h1 = history_events h"
    using same_domainD(6) [OF applied(9)] same_domainD(6) [OF applied(5)] .
  ultimately show ?thesis using eff applied(11) closed_row_replays [OF applied(11,10)] unfolding applied(8)
    by (auto simp: applied_result_def)
qed auto


end
