(* ===== verification/RestoreLinks.thy ===== *)
theory RestoreLinks
  imports RestoreProps
begin

text \<open>
  Restoring the creation of a link: what the action left in the history describes exactly that link, and
  its inverse removes exactly that link.
\<close>

section \<open>Callbacks that make one link\<close>

definition makes_link :: "string \<times> string \<times> string \<Rightarrow> tx_call \<Rightarrow> bool" where
  "makes_link k c = (case c of
       AddLink a b ty ctx \<Rightarrow> (case k of (s, t, nty) \<Rightarrow> canonical_id a = s \<and> canonical_id b = t \<and> normalize_link_type ty = Inr nty)
     | GetMemory m \<Rightarrow> True | GetLinks m d ty \<Rightarrow> True | GetProtections m \<Rightarrow> True
     | _ \<Rightarrow> False)"

primrec makes_only :: "string \<times> string \<times> string \<Rightarrow> callback \<Rightarrow> bool" where
  "makes_only k (Finish r) = True"
| "makes_only k (Fail e) = True"
| "makes_only k (Call c f) = (makes_link k c \<and> (\<forall>a. makes_only k (f a)))"

definition one_link :: "action_db \<Rightarrow> string \<times> string \<times> string \<Rightarrow> tx \<Rightarrow> bool" where
  "one_link db k s = (ad_memories (tx_db s) = ad_memories db \<and> set (tx_touched s) \<subseteq> {fst k, fst (snd k)}
     \<and> (ad_links (tx_db s) = ad_links db \<or> (\<exists>l. link_key l = k \<and> ad_links (tx_db s) = ad_links db @ [l])))"

lemma one_link_ask: "triple (one_link db k) (one_link db k) (ask_tx f) (\<lambda>_. one_link db k)"
  by (rule triple_ask)

lemma one_link_get: "triple (one_link db k) (one_link db k) (get_memory_tx m) (\<lambda>_. one_link db k)"
  unfolding get_memory_tx_def require_access_def read_memory_def by (intro seq_triple one_link_ask)

lemma one_link_reads:
  "triple (one_link db k) (one_link db k) (get_links_tx m d t) (\<lambda>_. one_link db k)"
  "triple (one_link db k) (one_link db k) (get_protections_tx m) (\<lambda>_. one_link db k)"
  unfolding get_links_tx_def get_protections_tx_def require_access_def by (intro seq_triple one_link_ask)+

lemma upsert_fresh:
  assumes "k \<notin> link_key ` set ls" and "link_key l = k" and "ad_links db' = ls \<or> (\<exists>l. link_key l = k \<and> ad_links db' = ls @ [l])"
  shows "ad_links (upsert_link l db') = ls @ [l]"
  using assms(3)
proof
  assume "ad_links db' = ls"
  then show ?thesis using assms(1,2) by (simp add: upsert_link_def)
next
  assume "\<exists>l. link_key l = k \<and> ad_links db' = ls @ [l]"
  then obtain l0 where l0: "link_key l0 = k" "ad_links db' = ls @ [l0]" by blast
  have "update_where (\<lambda>j. link_key j = k) (\<lambda>_. l) ls = ls"
    using assms(1) by (induction ls) (auto simp: update_where_def)
  then show ?thesis using assms(2) l0 by (simp add: upsert_link_def update_where_def)
qed

lemma one_link_upsert:
  assumes "k \<notin> link_key ` set (ad_links db)" and "link_key l = k"
  shows "triple (one_link db k) (one_link db k) (put_tx (on_db (upsert_link l))) (\<lambda>_. one_link db k)"
proof (rule triple_put)
  fix s assume s: "one_link db k s"
  have "ad_links (upsert_link l (tx_db s)) = ad_links db @ [l]"
    using s by (intro upsert_fresh [OF assms]) (simp add: one_link_def)
  then show "one_link db k (on_db (upsert_link l) s)"
    using s assms(2) by (simp add: one_link_def on_db_def upsert_link_def)
qed

lemma one_link_touch:
  "set is \<subseteq> {fst k, fst (snd k)} \<Longrightarrow> triple (one_link db k) (one_link db k) (touch_tx is) (\<lambda>_. one_link db k)"
  unfolding touch_tx_def by (rule triple_put) (auto simp: one_link_def)

lemma one_link_stage: "triple (one_link db k) (one_link db k) (stage_tx env st) (\<lambda>_. one_link db k)"
  by (rule triple_stage)

lemma one_link_add:
  assumes "k \<notin> link_key ` set (ad_links db)" and k: "k = (canonical_id a, canonical_id b, nty)" and "normalize_link_type ty = Inr nty"
  shows "triple (one_link db k) (one_link db k) (add_link_tx env a b ty ctx) (\<lambda>_. one_link db k)"
  unfolding add_link_tx_def
proof (rule triple_bind [where R = "\<lambda>i s. i = canonical_id a \<and> one_link db k s"])
  show "triple (one_link db k) (one_link db k) (require_access a) (\<lambda>i s. i = canonical_id a \<and> one_link db k s)"
    unfolding require_access_def by (rule triple_ask) (auto simp: Let_def split: if_splits)
next
  fix i
  let ?rest = "\<lambda>i. bind_tx (require_endpoint b) (\<lambda>t.
     bind_tx (ask_tx (\<lambda>_. raising (uow_link_type ty))) (\<lambda>ty.
     let l = \<lparr>ml_source = i, ml_target = t, ml_type = ty, ml_context = py_strip ctx\<rparr> in
     bind_tx (ask_tx (\<lambda>st. if exists_memory i st then Inr () else Inl (Raised IntegrityError))) (\<lambda>_.
     bind_tx (put_tx (on_db (upsert_link l))) (\<lambda>_.
     bind_tx (touch_tx [i, t]) (\<lambda>_.
     bind_tx (stage_tx env ''domain_mutation'') (\<lambda>_. ret_tx l))))))"
  have "triple (one_link db k) (one_link db k) (?rest (canonical_id a)) (\<lambda>_. one_link db k)"
  proof (rule triple_bind [where R = "\<lambda>t s. t = canonical_id b \<and> one_link db k s"])
    show "triple (one_link db k) (one_link db k) (require_endpoint b) (\<lambda>t s. t = canonical_id b \<and> one_link db k s)"
      unfolding require_endpoint_def by (rule triple_ask) (auto simp: Let_def split: if_splits)
  next
    fix t
    show "triple (one_link db k) (\<lambda>s. t = canonical_id b \<and> one_link db k s)
     (bind_tx (ask_tx (\<lambda>_. raising (uow_link_type ty))) (\<lambda>ty.
     let l = \<lparr>ml_source = canonical_id a, ml_target = t, ml_type = ty, ml_context = py_strip ctx\<rparr> in
     bind_tx (ask_tx (\<lambda>st. if exists_memory (canonical_id a) st then Inr () else Inl (Raised IntegrityError))) (\<lambda>_.
     bind_tx (put_tx (on_db (upsert_link l))) (\<lambda>_.
     bind_tx (touch_tx [canonical_id a, t]) (\<lambda>_.
     bind_tx (stage_tx env ''domain_mutation'') (\<lambda>_. ret_tx l)))))) (\<lambda>_. one_link db k)"
    proof (rule triple_bind [where R = "\<lambda>y s. y = nty \<and> t = canonical_id b \<and> one_link db k s"])
      show "triple (one_link db k) (\<lambda>s. t = canonical_id b \<and> one_link db k s) (ask_tx (\<lambda>_. raising (uow_link_type ty)))
        (\<lambda>y s. y = nty \<and> t = canonical_id b \<and> one_link db k s)"
        using assms(3) by (intro triple_ask) (auto simp: uow_link_type_def)
    next
      fix y
      show "triple (one_link db k) (\<lambda>s. y = nty \<and> t = canonical_id b \<and> one_link db k s)
       (let l = \<lparr>ml_source = canonical_id a, ml_target = t, ml_type = y, ml_context = py_strip ctx\<rparr> in
       bind_tx (ask_tx (\<lambda>st. if exists_memory (canonical_id a) st then Inr () else Inl (Raised IntegrityError))) (\<lambda>_.
       bind_tx (put_tx (on_db (upsert_link l))) (\<lambda>_.
       bind_tx (touch_tx [canonical_id a, t]) (\<lambda>_.
       bind_tx (stage_tx env ''domain_mutation'') (\<lambda>_. ret_tx l))))) (\<lambda>_. one_link db k)"
      proof (cases "y = nty \<and> t = canonical_id b")
        case True
        show ?thesis unfolding Let_def
          by (rule triple_conseq [where P = "one_link db k" and Q = "\<lambda>_. one_link db k"])
            (use True k in \<open>auto intro!: seq_triple one_link_ask one_link_upsert [OF assms(1) [unfolded k]] one_link_touch one_link_stage triple_ret
               simp: link_key_def\<close>)
      next
        case False
        then show ?thesis unfolding triple_def by blast
      qed
    qed
  qed
  then show "triple (one_link db k) (\<lambda>s. i = canonical_id a \<and> one_link db k s) (?rest i) (\<lambda>_. one_link db k)"
    unfolding triple_def by blast
qed

lemma one_link_call:
  assumes "k \<notin> link_key ` set (ad_links db)" and "makes_link k c"
  shows "triple (one_link db k) (one_link db k) (call_tx env c) (\<lambda>_. one_link db k)"
proof (cases c)
  case (AddLink a b ty ctx)
  have "k = (canonical_id a, canonical_id b, snd (snd k))" "normalize_link_type ty = Inr (snd (snd k))"
    using assms(2) by (auto simp: AddLink makes_link_def)
  from one_link_add [OF assms(1) this] show ?thesis
    by (auto simp: AddLink answering_def intro!: seq_triple triple_ret)
qed (use assms(2) in \<open>auto simp: makes_link_def answering_def intro!: seq_triple triple_ret one_link_get one_link_reads\<close>)

lemma one_link_callback:
  assumes "k \<notin> link_key ` set (ad_links db)"
  shows "makes_only k f \<Longrightarrow> one_link db k s \<Longrightarrow> one_link db k (snd (run_callback env f s))"
proof (induction f arbitrary: s)
  case (Call c f)
  obtain a s' where run: "call_tx env c s = (a, s')" by fastforce
  have c: "makes_link k c" using Call.prems(1) by simp
  have "one_link db k s'"
    using tripleE [OF one_link_call [OF assms c] Call.prems(2)] tripleD [OF one_link_call [OF assms c] Call.prems(2)] run
    by (cases a) blast+
  then show ?case using Call.IH [of "f a" s'] Call.prems(1) by (simp add: run)
qed (simp_all add: ret_tx_def ask_tx_def)

section \<open>What the action left\<close>

lemma map_filter_one:
  assumes "distinct ks" and "k \<in> set ks" and "f k = Some v" and "\<And>j. j \<in> set ks \<Longrightarrow> j \<noteq> k \<Longrightarrow> f j = None"
  shows "List.map_filter f ks = [v]"
proof -
  obtain as bs where ks: "ks = as @ k # bs" using split_list [OF assms(2)] by blast
  have "List.map_filter f as = []" "List.map_filter f bs = []"
    using assms(1,4) unfolding ks by (auto simp: List.map_filter_def filter_empty_conv)
  then show ?thesis using assms(3) by (simp add: ks List.map_filter_def)
qed

lemma map_filter_none: "(\<And>j. j \<in> set ks \<Longrightarrow> f j = None) \<Longrightarrow> List.map_filter f ks = []"
  by (auto simp: List.map_filter_def filter_empty_conv)

lemma link_revisions_of_one:
  assumes "k \<notin> fst ` set before"
  shows "link_revisions event before (before @ [(k, l)])
    = [\<lparr>lv_event = event, lv_source = fst k, lv_target = fst (snd k), lv_type = snd (snd k), lv_context = Some (ml_context l),
        lv_before = False, lv_after = True\<rparr>]"
proof -
  have new: "map_of before k = None" using assms by (simp add: map_of_eq_None_iff)
  have old: "map_of before j \<noteq> None" if "j \<in> fst ` set before" for j using that unfolding map_of_eq_None_iff by simp
  show ?thesis
    unfolding link_revisions_def
    by (rule map_filter_one [where k = k]) (use new old in \<open>auto simp: Let_def map_add_def split: option.split\<close>)
qed

lemma link_revisions_same: "link_revisions event before before = []"
  unfolding link_revisions_def
  by (rule map_filter_none) (auto simp: Let_def map_of_eq_None_iff)

lemma record_revisions_same:
  assumes "record_revisions env event b b ids = Inr revs" and "set ids \<subseteq> fst ` set b"
  shows "revs = []"
  using assms
proof (induction ids arbitrary: revs)
  case (Cons i ids)
  then obtain m where m: "map_of b i = Some m" by (metis insert_subset list.set(2) map_of_eq_None_iff not_None_eq)
  obtain same rest where s: "same_record env (Some m) m = Inr same" "record_revisions env event b b ids = Inr rest"
      "revs = (if same then [] else
        [\<lparr>rv_event = event, rv_memory = i, rv_role = ''target'', rv_before_exists = True,
          rv_before = rv_before (hd revs), rv_after_exists = True, rv_after = rv_after (hd revs),
          rv_before_token = rv_before_token (hd revs), rv_after_token = rv_after_token (hd revs)\<rparr>]) @ rest"
    using Cons.prems(1) by (auto simp: m bind_act_Inr split: if_splits)
  have same by (use s(1) in \<open>auto simp: same_record_def bind_act_Inr\<close>)
  with s(3) Cons.IH [OF s(2)] Cons.prems(2) show ?case by simp
qed simp

lemma read_records_keys: "fst ` set (read_records db ids) \<subseteq> set ids"
  by (auto simp: read_records_def List.map_filter_def)

lemma sorted_ids_set [simp]: "set (sorted_ids xs) = set xs"
  by (simp add: sorted_ids_def)

lemma sorted_ids_cong: "set xs = set ys \<Longrightarrow> sorted_ids xs = sorted_ids ys"
  unfolding sorted_ids_def by (rule sorted_distinct_set_unique) simp_all

text \<open>The identifiers after a callback that touched only targets are the targets.\<close>

lemma targets_again:
  assumes "canonical_target_ids vs = Inr targets" and "canonical_target_ids (targets @ touched) = Inr after"
    and "set touched \<subseteq> set targets" and "\<forall>i \<in> set targets. canonical_id i = i"
  shows "after = targets"
proof -
  have t: "targets = sorted_ids (map canonical_id vs)" and a: "after = sorted_ids (map canonical_id (targets @ touched))"
    using assms(1,2) by (auto simp: canonical_target_ids_def Let_def split: if_splits)
  have "canonical_id ` (set targets \<union> set touched) = set targets" using assms(3,4) by force
  then have "set (map canonical_id (targets @ touched)) = set (map canonical_id vs)"
    unfolding set_map set_append using arg_cong [OF t, of set] by simp
  from sorted_ids_cong [OF this] show ?thesis using t a by simp
qed

lemma related_links_append:
  assumes "ad_links db' = ad_links db @ [l]" and "ml_source l \<in> set ids"
  shows "related_links db' ids = related_links db ids @ [(link_key l, l)]"
  using assms by (simp add: related_links_def)

lemma related_keys: "k \<notin> link_key ` set (ad_links db) \<Longrightarrow> k \<notin> fst ` set (related_links db ids)"
  by (auto simp: related_links_def)

text \<open>The action that made a link, in the history.\<close>

lemma linking_history:
  assumes ap: "apply_action env q nq (hd_actions h) = (Inr (r, db))" and ok: "history_ok h" and "normalize_request q = Inr nq"
    and k: "k = (s, t, nty)" "canonical_id s = s" "canonical_id t = t" "canonical_id ` set (rq_targets q) = {s, t}"
    and fresh: "k \<notin> link_key ` set (ad_links (hd_actions h))" and f: "makes_only k (rq_apply q)"
  obtains (none) run where "ad_links db = ad_links (hd_actions h)" "ad_memories db = ad_memories (hd_actions h)"
      "history_events (h\<lparr>hd_actions := db\<rparr>) = history_events h @ [action_event env q run (nq_operation nq)]"
      "ax_event env \<notin> mv_id ` set (history_events h)"
      "ad_record_revisions db = ad_record_revisions (hd_actions h)" "ad_link_revisions db = ad_link_revisions (hd_actions h)"
  | (made) run l where "link_key l = k" "ad_links db = ad_links (hd_actions h) @ [l]" "ad_memories db = ad_memories (hd_actions h)"
      "history_events (h\<lparr>hd_actions := db\<rparr>) = history_events h @ [action_event env q run (nq_operation nq)]"
      "ax_event env \<notin> mv_id ` set (history_events h)"
      "ad_record_revisions db = ad_record_revisions (hd_actions h)"
      "ad_link_revisions db = ad_link_revisions (hd_actions h) @
         [\<lparr>lv_event = ax_event env, lv_source = s, lv_target = t, lv_type = nty, lv_context = Some (ml_context l),
           lv_before = False, lv_after = True\<rparr>]"
proof -
  let ?db0 = "hd_actions h"
  obtain run db1 result s1 after_ids revs where H:
    "run_callback env (rq_apply q) (start_tx nq db1) = (Inr result, s1)" "ad_memories db1 = ad_memories ?db0" "ad_links db1 = ad_links ?db0"
    "ad_memories db = ad_memories (tx_db s1)" "ad_links db = ad_links (tx_db s1)"
    "canonical_target_ids (nq_targets nq @ tx_touched s1) = Inr after_ids"
    "record_revisions env (ax_event env) (read_records ?db0 (nq_targets nq)) (read_records db after_ids)
       (sorted_ids (map fst (read_records ?db0 (nq_targets nq)) @ map fst (read_records db after_ids))) = Inr revs"
    "ad_events db = ad_events ?db0 @ [action_event env q run (nq_operation nq)]"
    "\<not> event_insert_fails (action_event env q run (nq_operation nq)) (ad_events ?db0)"
    "ad_record_revisions db = ad_record_revisions ?db0 @ revs"
    "ad_link_revisions db = ad_link_revisions ?db0
       @ link_revisions (ax_event env) (related_links ?db0 (nq_targets nq)) (related_links db after_ids)"
    using apply_action_history [OF ap history_okD(1) [OF ok]] by metis
  have can: "canonical_target_ids (rq_targets q) = Inr (nq_targets nq)" by (rule normalize_targets [OF assms(3)])
  have T: "set (nq_targets nq) = {s, t}" using canonical_targets_set [OF can] k(4) by simp
  have "one_link db1 k (start_tx nq db1)" by (simp add: one_link_def start_tx_def)
  moreover have "k \<notin> link_key ` set (ad_links db1)" using fresh by (simp add: H(3))
  ultimately have "one_link db1 k s1" using one_link_callback [OF _ f, of db1 "start_tx nq db1" env] H(1) by simp
  then have one: "ad_memories (tx_db s1) = ad_memories ?db0" "set (tx_touched s1) \<subseteq> set (nq_targets nq)"
      "ad_links (tx_db s1) = ad_links ?db0 \<or> (\<exists>l. link_key l = k \<and> ad_links (tx_db s1) = ad_links ?db0 @ [l])"
    by (simp_all add: one_link_def H(2,3) T k(1))
  have after: "after_ids = nq_targets nq"
    by (rule targets_again [OF can H(6) one(2)]) (use T k in auto)
  have mem: "ad_memories db = ad_memories ?db0" using H(4) one(1) by simp
  have "read_records db (nq_targets nq) = read_records ?db0 (nq_targets nq)" using read_records_cong [OF mem] by simp
  from record_revisions_same [OF H(7) [unfolded after this]] have revs: "revs = []" by auto
  have new: "ax_event env \<notin> mv_id ` set (history_events h)" using H(9) by (simp add: event_insert_fails_def)
  from one(3) show ?thesis
  proof
    assume "ad_links (tx_db s1) = ad_links ?db0"
    then have l: "ad_links db = ad_links ?db0" using H(5) by simp
    then show ?thesis using none [OF l mem] H(8,10,11) new revs related_links_cong [OF l] link_revisions_same after by simp
  next
    assume "\<exists>l. link_key l = k \<and> ad_links (tx_db s1) = ad_links ?db0 @ [l]"
    then obtain l where l: "link_key l = k" "ad_links db = ad_links ?db0 @ [l]" using H(5) by auto
    have "ml_source l \<in> set (nq_targets nq)" using l(1) k(1) T by (auto simp: link_key_def)
    from related_links_append [OF l(2) this] have rel: "related_links db after_ids = related_links ?db0 (nq_targets nq) @ [(k, l)]"
      by (simp add: after l(1))
    show ?thesis
      using made [OF l mem] H(8,10,11) new revs link_revisions_of_one [OF related_keys [OF fresh]] k(1) unfolding rel by simp
  qed
qed

section \<open>The inverse\<close>

lemma inverse_of_made:
  assumes "build_inverse ev [] [l] = Inr v"
  shows "iv_records v = []" "iv_links v = [\<lparr>il_source = lv_source l, il_target = lv_target l, il_type = lv_type l,
    il_context = lv_context l, il_exists = lv_before l\<rparr>]"
  using assms by (auto simp: build_inverse_def invert_link_def Let_def split: if_splits)

lemma inverse_of_nothing: "build_inverse ev [] [] \<noteq> Inr v"
  by (auto simp: build_inverse_def Let_def)

lemma remove_link_effect:
  assumes "remove_link_tx env a b ty s = (Inr x, s')" and "normalize_link_type ty = Inr nty"
  shows "ad_links (tx_db s') = filter (\<lambda>l. link_key l \<noteq> (canonical_id a, canonical_id b, nty)) (ad_links (tx_db s))"
    "ad_memories (tx_db s') = ad_memories (tx_db s)"
  using assms
  by (auto simp: remove_link_tx_def bind_tx_def require_access_def require_endpoint_def ask_tx_def put_tx_def touch_tx_def
      stage_tx_def ret_tx_def on_db_def uow_link_type_def Let_def split: if_splits option.splits)

lemma removing_callback:
  assumes "run_callback env (restore_callback v) s = (Inr result, s')" and "normalize_link_type ty = Inr nty"
    and "iv_records v = []" and "iv_links v = [\<lparr>il_source = a, il_target = b, il_type = ty, il_context = ctx, il_exists = False\<rparr>]"
  shows "ad_links (tx_db s') = filter (\<lambda>l. link_key l \<noteq> (canonical_id a, canonical_id b, nty)) (ad_links (tx_db s))"
    "ad_memories (tx_db s') = ad_memories (tx_db s)"
proof -
  obtain y s1 where m: "remove_link_tx env a b ty s = (y, s1)" by fastforce
  have "\<exists>x. y = Inr x \<and> s' = s1"
    using assms(1) m by (cases y) (auto simp: restore_callback_def assms(3,4) answering_def bind_tx_def ret_tx_def ask_tx_def)
  then obtain x where "remove_link_tx env a b ty s = (Inr x, s')" using m by blast
  from remove_link_effect [OF this assms(2)]
  show "ad_links (tx_db s') = filter (\<lambda>l. link_key l \<noteq> (canonical_id a, canonical_id b, nty)) (ad_links (tx_db s))"
    "ad_memories (tx_db s') = ad_memories (tx_db s)" .
qed

text \<open>An applied restoration with an event of its own ran its callback.\<close>

lemma fresh_restore:
  assumes ex: "execute_action env q (hd_actions h) = (Inr r, db)" and ok: "history_ok h"
    and new: "rc_event r = Some e" "e \<notin> mv_id ` set (history_events h)"
  obtains nq result s db1 where "run_callback env (rq_apply q) (start_tx nq db1) = (Inr result, s)"
    "ad_memories db1 = ad_memories (hd_actions h)" "ad_links db1 = ad_links (hd_actions h)"
    "ad_memories db = ad_memories (tx_db s)" "ad_links db = ad_links (tx_db s)" "apply_action env q nq (hd_actions h) = (Inr (r, db))"
  using ex
proof (cases rule: execute_action_cases)
  case (replay nq r')
  then have "r \<in> set (cd_receipts (ad_ledger (hd_actions h)))" using get_receipt_SomeD [OF replayed_SomeD(1) [OF replay(2)]] by simp
  from history_okD(10) [OF ok this] new show ?thesis by auto
next
  case (fresh nq r')
  then have ap: "apply_action env q nq (hd_actions h) = (Inr (r, db))" by simp
  show ?thesis using apply_action_history [OF ap history_okD(1) [OF ok]] that ap by metis
qed simp

text \<open>The revisions of the event of an action that made a link.\<close>

lemma revisions_of_new_event:
  assumes "history_ok h" and "e \<notin> mv_id ` set (history_events h)"
  shows "filter (\<lambda>r. rv_event r = e) (ad_record_revisions (hd_actions h)) = []"
    "filter (\<lambda>l. lv_event l = e) (ad_link_revisions (hd_actions h)) = []"
  using history_okD(8,9) [OF assms(1)] assms(2) by (auto simp: filter_empty_conv)

lemma restore_action_apply: "rq_apply (restore_action rid aid ev request v) = restore_callback v"
  by (simp add: restore_action_def)

text \<open>C16. Restoring the creation of a link, if it is applied at all, takes exactly that link away: the links and the
  memories are those from before the action. The action may read as it likes; of the calls that write it makes
  only those that add the link.\<close>

theorem restore_undoes_link:
  assumes "execute_action env q (hd_actions h0) = (Inr r, db)" and "r \<notin> set (cd_receipts (ad_ledger (hd_actions h0)))"
    and "history_ok h0" and "canonical_id ` set (rq_targets q) = {s, t}" and "makes_only (s, t, nty) (rq_apply q)"
    and "(s, t, nty) \<notin> link_key ` set (ad_links (hd_actions h0))" and "normalize_link_type ty = Inr nty"
    and "canonical_id s = s" and "canonical_id t = t" and "parse_uuid s = Some (UUID s)" and "parse_uuid t = Some (UUID t)"
    and "execute_restore x request run_id action_id (h0\<lparr>hd_actions := db\<rparr>) = (Inr res, h')"
    and "rr_target request = ax_event env" and "rs_status res = RestoreApplied"
    and "rs_event res \<notin> Some ` mv_id ` set (ad_events db)"
  shows "ad_links (hd_actions h') = ad_links (hd_actions h0) \<and> ad_memories (hd_actions h') = ad_memories (hd_actions h0)"
  using assms(1)
proof (cases rule: execute_action_cases)
  case (replay nq r')
  then show ?thesis using assms(2) get_receipt_SomeD [OF replayed_SomeD(1) [OF replay(2)]] by simp
next
  case (fresh nq r')
  then have ap: "apply_action env q nq (hd_actions h0) = (Inr (r, db))" by simp
  let ?h = "h0\<lparr>hd_actions := db\<rparr>"
  have ok: "history_ok ?h" by (rule execute_action_ok [OF assms(1,3)])
  from assms(12) ok show ?thesis
  proof (cases rule: execute_restore_cases)
    case (answered w)
    then have "rs_status res \<noteq> RestoreApplied" using history_okD(6) [OF ok]
      by (auto simp: restore_result_from_row_def)
    then show ?thesis using assms(14) by simp
  next
    case (applied ev records links v i rid aid h1 r1 db1)
    have ev: "mv_id ev = ax_event env" using get_event_id [OF applied(1)] assms(13) by simp
    have new: "rc_event r1 = Some e \<Longrightarrow> e \<notin> mv_id ` set (history_events h1)" for e
      using assms(15) applied(8) same_domainD(6) [OF applied(5)] by (auto simp: applied_result_def)
    obtain e where e: "rc_event r1 = Some e" using executed_receipt(2) [OF applied(7,6)] by blast
    obtain nq1 result s1 db2 where R: "run_callback (rx_action x) (restore_callback v) (start_tx nq1 db2) = (Inr result, s1)"
        "ad_memories db2 = ad_memories (hd_actions h1)" "ad_links db2 = ad_links (hd_actions h1)"
        "ad_memories db1 = ad_memories (tx_db s1)" "ad_links db1 = ad_links (tx_db s1)"
      using fresh_restore [OF applied(7,6) e new [OF e]] unfolding restore_action_apply by metis
    have pre: "ad_links (hd_actions h1) = ad_links db" "ad_memories (hd_actions h1) = ad_memories db"
      using same_domainD [OF applied(5)] by simp_all
    have post: "ad_links (hd_actions h') = ad_links db1" "ad_memories (hd_actions h') = ad_memories db1"
      using same_domainD [OF applied(9)] by simp_all
    from ap assms(3) fresh(1) refl assms(8,9,4,6,5) show ?thesis
    proof (cases rule: linking_history)
      case (none run)
      have "records = []" "links = []"
        using applied(2,3) none revisions_of_new_event [OF assms(3) none(4)]
        by (auto simp: ev get_record_revisions_def get_link_revisions_def optional_limit_def)
      then show ?thesis using applied(4) inverse_of_nothing by simp
    next
      case (made run l)
      have "records = []" and links: "links = [\<lparr>lv_event = ax_event env, lv_source = s, lv_target = t, lv_type = nty,
           lv_context = Some (ml_context l), lv_before = False, lv_after = True\<rparr>]"
        using applied(2,3) made revisions_of_new_event [OF assms(3) made(5)] assms(10,11)
        by (auto simp: ev get_record_revisions_def get_link_revisions_def optional_limit_def
            link_revision_from_row_def parsed_uuid_def)
      note inv = inverse_of_made [OF applied(4) [unfolded this]]
      have "normalize_link_type nty = Inr nty" by (rule normalize_link_type_idem [OF assms(7)])
      from removing_callback [OF R(1) this inv(1) inv(2) [unfolded link_revision.simps]]
      have "ad_links db1 = filter (\<lambda>l. link_key l \<noteq> (s, t, nty)) (ad_links db)" "ad_memories db1 = ad_memories db"
        using R(2-5) pre assms(8,9) by (simp_all add: start_tx_def)
      moreover have "filter (\<lambda>l. link_key l \<noteq> (s, t, nty)) (ad_links (hd_actions h0)) = ad_links (hd_actions h0)"
        using assms(6) by (intro filter_True) (metis imageI)
      ultimately show ?thesis using made(1-3) post by simp
    qed
  qed (use assms(14) in auto)
qed simp

section \<open>Links to untargeted and external endpoints\<close>

text \<open>The links before are those of the targets, the links after those of the targets and of all that was touched: a link
  that was there all the time is recorded as created when only an untargeted endpoint of it was touched.\<close>

lemma untargeted_endpoint_revised:
  assumes "l \<in> set (ad_links db)" and "ml_source l \<notin> set ids" and "ml_target l \<notin> set ids" and "ml_target l \<in> set touched"
  shows "\<exists>v \<in> set (link_revisions event (related_links db ids) (related_links db (ids @ touched))).
    (lv_source v, lv_target v, lv_type v) = link_key l \<and> \<not> lv_before v \<and> lv_after v"
proof -
  let ?b = "related_links db ids" and ?a = "related_links db (ids @ touched)"
  have none: "map_of ?b (link_key l) = None"
    using assms(2,3) unfolding map_of_eq_None_iff by (auto simp: related_links_def link_key_def)
  have key: "link_key l \<in> fst ` set ?a" using assms(1,4) by (force simp: related_links_def)
  then obtain k where some: "map_of ?a (link_key l) = Some k" by (metis map_of_eq_None_iff not_None_eq)
  have member: "link_key l \<in> set (sort (remdups (map fst ?b @ map fst ?a)))" using key by simp
  have in_filter: "v \<in> set (List.map_filter f ks)" if "j \<in> set ks" "f j = Some v" for f v ks and j :: "string \<times> string \<times> string"
    using that by (force simp: List.map_filter_def)
  let ?v = "\<lparr>lv_event = event, lv_source = ml_source l, lv_target = ml_target l, lv_type = ml_type l,
     lv_context = Some (ml_context k), lv_before = False, lv_after = True\<rparr>"
  have "?v \<in> set (link_revisions event ?b ?a)"
    unfolding link_revisions_def
    by (rule in_filter [OF member]) (simp add: Let_def none some, simp add: link_key_def)
  then show ?thesis by (rule rev_bexI) (simp add: link_key_def)
qed

text \<open>The revision of a link to an external target does not read back: its target is not a \<open>UUID\<close>.\<close>

lemma external_link_unreadable:
  "link_revision_from_row \<lparr>lv_event = e, lv_source = s, lv_target = ''ext:doc'', lv_type = ty, lv_context = c, lv_before = False,
     lv_after = True\<rparr> = Inl (ValueError ''badly formed hexadecimal UUID string'')"
proof -
  have "parse_uuid ''ext:doc'' = None" by code_simp
  then show ?thesis by (cases "parse_uuid s") (simp_all add: link_revision_from_row_def parsed_uuid_def)
qed

section \<open>A link and its restoration\<close>

text \<open>A link between two memories, and the request to restore it.\<close>

definition other_id :: string where
  "other_id = ''22222222-2222-2222-2222-222222222222''"

definition two_memories :: history_db where
  "two_memories = \<lparr>hd_actions = sample_db\<lparr>ad_memories := [sample_memory, sample_memory\<lparr>mr_id := other_id\<rparr>]\<rparr>, hd_restores = []\<rparr>"

definition link_request :: action_request where
  "link_request = sample_request\<lparr>rq_targets := [sample_id, other_id], rq_tokens := [], rq_operation := Some ''create_link'',
     rq_actor := ''maintenance'', rq_apply := Call (AddLink sample_id other_id ''supports'' ''c'') (\<lambda>a. case a of Inl e \<Rightarrow> Fail e
       | Inr _ \<Rightarrow> Finish \<lparr>mu_operation = ''create_link'', mu_affected = [], mu_descriptor = None\<rparr>)\<rparr>"

definition link_receipt :: receipt where
  "link_receipt = sample_receipt\<lparr>rc_operation := ''create_link'', rc_affected := [UUID sample_id, UUID other_id]\<rparr>"

definition undo_request :: restore_request where
  "undo_request = \<lparr>rr_target = UUID ''e1'', rr_scope = ScopeAll, rr_record_tokens = [], rr_link_tokens = [], rr_actor = None,
     rr_reason = ''r'', rr_key = ''k1'', rr_confirmation = True\<rparr>"

definition undo_env :: restore_env where
  "undo_env = \<lparr>rx_action = sample_env\<lparr>ax_event := UUID ''e2''\<rparr>, rx_request = UUID ''q1'', rx_run = UUID ''r2'', rx_ledger = True\<rparr>"

definition linked_db :: action_db where
  "linked_db = (hd_actions two_memories)
     \<lparr>ad_ledger := (ad_ledger sample_db)\<lparr>cd_receipts := [link_receipt], cd_events := {UUID ''e1''}\<rparr>,
      ad_links := [\<lparr>ml_source = sample_id, ml_target = other_id, ml_type = ''SUPPORTS'', ml_context = ''c''\<rparr>],
      ad_events := [\<lparr>mv_id = UUID ''e1'', mv_operation = ''create_link'', mv_actor_kind = ''maintenance'', mv_actor = None,
        mv_family = Some ''curation'', mv_task = None, mv_run = Some (UUID ''r1''), mv_plan = None, mv_action = Some (UUID ''a1''),
        mv_provider = None, mv_reason = None, mv_rationale = None, mv_policy = Some ''v1'', mv_schema = 1,
        mv_status = EventApplied, mv_restores = None, mv_key = Some ''r1:a1'', mv_created = ''now'', mv_terminal = None\<rparr>],
      ad_link_revisions := [\<lparr>lv_event = UUID ''e1'', lv_source = sample_id, lv_target = other_id, lv_type = ''SUPPORTS'',
        lv_context = Some ''c'', lv_before = False, lv_after = True\<rparr>]\<rparr>"

abbreviation "linked \<equiv> two_memories\<lparr>hd_actions := linked_db\<rparr>"

definition undo_result :: restore_result where
  "undo_result = \<lparr>rs_status = RestoreApplied, rs_request = Some (UUID ''q1''), rs_event = Some (UUID ''e2''), rs_target = UUID ''e1'',
     rs_reason = None, rs_details = []\<rparr>"

lemma link_applied: "execute_action sample_env link_request (hd_actions two_memories) = (Inr link_receipt, linked_db)"
  by code_simp

lemma undo_applied: "fst (execute_restore undo_env undo_request None None linked) = Inr undo_result"
  by code_simp

lemma two_memories_ok: "history_ok two_memories"
  by (simp add: history_ok_def two_memories_def action_db_ok_def ledger_ok_def links_anchored_def sample_db_def sample_run_def)

lemma linked_ok: "history_ok linked"
  by (rule execute_action_ok [OF link_applied two_memories_ok])

lemma undone: "execute_restore undo_env undo_request None None linked = (Inr undo_result, snd (execute_restore undo_env undo_request None None linked))"
  using undo_applied by (metis prod.collapse)

lemma restore_undoes_link_witness:
  "ad_links (hd_actions (snd (execute_restore undo_env undo_request None None linked))) = []"
proof -
  have new: "link_receipt \<notin> set (cd_receipts (ad_ledger (hd_actions two_memories)))" by (simp add: two_memories_def sample_fresh)
  have targets: "canonical_id ` set (rq_targets link_request) = {sample_id, other_id}" by code_simp
  have ty: "normalize_link_type ''supports'' = Inr ''SUPPORTS''" by code_simp
  have ids: "canonical_id sample_id = sample_id" "canonical_id other_id = other_id" "parse_uuid sample_id = Some (UUID sample_id)"
      "parse_uuid other_id = Some (UUID other_id)" by code_simp+
  have only: "makes_only (sample_id, other_id, ''SUPPORTS'') (rq_apply link_request)"
    using ids ty by (simp add: link_request_def makes_link_def split: sum.split)
  have absent: "(sample_id, other_id, ''SUPPORTS'') \<notin> link_key ` set (ad_links (hd_actions two_memories))"
    by (simp add: two_memories_def sample_db_def)
  have event: "rr_target undo_request = ax_event sample_env" "rs_status undo_result = RestoreApplied"
    by (simp_all add: undo_request_def sample_env_def undo_result_def)
  have own: "rs_event undo_result \<notin> Some ` mv_id ` set (ad_events linked_db)"
    by (simp add: linked_db_def undo_result_def)
  show ?thesis
    using restore_undoes_link [OF link_applied new two_memories_ok targets only absent ty ids undone event own]
    by (simp add: two_memories_def sample_db_def)
qed


end
