(* ===== verification/RestoreEdits.thy ===== *)
theory RestoreEdits
  imports RestoreLinks
begin

text \<open>
  Restoring an edit: the snapshot of the memory before the edit, stored in the history and read back, gives
  the memory its revision token again.
\<close>

section \<open>Stored snapshots\<close>

lemma map_of_stable: "map_of (sort_key fst xs) k = map_of (xs :: ('b::linorder \<times> 'a) list) k"
proof -
  have only: "map_of ys k = map_of (filter (\<lambda>y. fst y = k) ys) k" for ys :: "('b \<times> 'a) list"
    by (induction ys) auto
  show ?thesis by (subst (1 2) only) (simp only: sort_key_stable)
qed

lemma dict_get_json_sort: "dict_get (sort_key fst (json_sort_items kvs)) k = map_option json_sort (dict_get kvs k)"
proof -
  have "map_of (map (apsnd json_sort) kvs) k = map_option json_sort (map_of kvs k)"
    by (induction kvs) (auto simp: apsnd_def map_prod_def split: prod.split)
  then show ?thesis by (simp add: dict_get_def map_of_stable json_sort_items_map)
qed

lemma dict_get_map: "k \<in> set ks \<Longrightarrow> dict_get (map (\<lambda>k. (k, f k)) ks) k = Some (f k)"
  by (induction ks) (auto simp: dict_get_def)

text \<open>The fields of a snapshot.\<close>

definition snapshot_fields :: "memory_record \<Rightarrow> json \<Rightarrow> json \<Rightarrow> dict" where
  "snapshot_fields r lineage mutation =
     [(''id'', JStr (identifier_text (mr_id r))), (''title'', JStr (normalize_text False (mr_title r))),
      (''content'', JStr (normalize_text False (mr_content r))), (''summary'', opt_string (map_option (normalize_text False) (mr_summary r))),
      (''type'', JStr (identifier_text (mr_type r))), (''status'', JStr (identifier_text (mr_status r))),
      (''tags'', strings (set_values (mr_tags r))), (''workspace_ids'', strings (set_values (mr_workspaces r))),
      (''lineage'', lineage), (''mutation_metadata'', mutation)]"

definition snapshot_of :: "dict \<Rightarrow> json" where
  "snapshot_of fs = JObj [(''schema_version'', JInt 1), (''record'', JObj fs)]"

lemma record_snapshot_fields:
  "record_snapshot r = Inr S \<longleftrightarrow> (\<exists>l m. normalize (durable_metadata_value r ''lineage'') = Inr l
     \<and> normalize (durable_metadata_value r ''mutation_metadata'') = Inr m \<and> S = snapshot_of (snapshot_fields r l m))"
  by (auto simp: record_snapshot_def bind_res_Inr snapshot_of_def snapshot_fields_def)

lemma no_return_identifier: "CHR 0x0D \<notin> set (identifier_text s)"
  using set_dropWhileD no_return_normalize unfolding identifier_text_def normalize_text_def py_strip_def by (auto dest!: set_dropWhileD)

lemma normal_strings: "normal (strings (set_values xs))"
proof -
  have list: "normal_list (map JStr ys) \<longleftrightarrow> (\<forall>y \<in> set ys. CHR 0x0D \<notin> set y)" for ys by (induction ys) auto
  have "\<forall>y \<in> set (set_values xs). CHR 0x0D \<notin> set y" using no_return_identifier by (auto simp: set_values_def)
  then show ?thesis unfolding strings_def normal.simps list .
qed

lemma normal_fields:
  assumes "normal l" and "normal m"
  shows "normal (snapshot_of (snapshot_fields r l m))"
  using assms normal_strings no_return_identifier
  by (auto simp: snapshot_of_def snapshot_fields_def opt_string_def normalize_text_def split: option.split)

lemma json_sort_strings [simp]: "json_sort (strings xs) = strings xs"
proof -
  have "json_sort_list (map JStr xs) = map JStr xs" by (induction xs) auto
  then show ?thesis by (simp add: strings_def)
qed

lemma json_sort_opt_string [simp]: "json_sort (opt_string s) = opt_string s"
  by (simp add: opt_string_def split: option.split)

lemma keys_of_fields: "map fst (snapshot_fields r l m) = SNAPSHOT_FIELDS"
  by (simp add: snapshot_fields_def SNAPSHOT_FIELDS_def)

text \<open>A stored snapshot reads back as it was, up to the order of keys.\<close>

lemma stored_snapshot:
  assumes "semantic_snapshot (json_sort (snapshot_of fs)) = Inr snap" and "normal (JObj fs)"
    and k: "k \<in> set SNAPSHOT_FIELDS" "dict_get fs k = Some v"
  shows "snapshot_field snap k = json_sort v"
proof -
  define ss where "ss = sort_key fst (json_sort_items fs)"
  let ?kvs = "[(''record'', JObj ss), (''schema_version'', JInt 1)]"
  have sorted: "json_sort (snapshot_of fs) = JObj ?kvs" by (simp add: snapshot_of_def ss_def)
  define us where "us = map (\<lambda>k. (k, the (dict_get ss k))) SNAPSHOT_FIELDS"
  have gets: "dict_get ?kvs ''record'' = Some (JObj ss)" "dict_get ?kvs ''schema_version'' = Some (JInt 1)"
    by (simp_all add: dict_get_def)
  obtain w where w: "normalize (JObj [(''schema_version'', JInt 1), (''record'', JObj us)]) = Inr w" "snap = json_sort w"
    using assms(1) unfolding semantic_snapshot_def sorted json.case gets option.case us_def
    by (auto simp: bind_res_Inr split: if_splits)
  have nss: "normal (JObj ss)" using normal_json_sort(1) [OF assms(2)] by (simp add: ss_def)
  have inc: "set SNAPSHOT_FIELDS \<subseteq> fst ` set ss"
    using assms(1) unfolding semantic_snapshot_def sorted json.case gets option.case by (auto split: if_splits)
  have in_ss: "(k, the (dict_get ss k)) \<in> set ss" if "k \<in> set SNAPSHOT_FIELDS" for k
  proof -
    have "k \<in> fst ` set ss" using inc that by blast
    then obtain v where "map_of ss k = Some v" by (metis map_of_eq_None_iff not_None_eq)
    then show ?thesis by (simp add: dict_get_def map_of_SomeD)
  qed
  have "distinct SNAPSHOT_FIELDS" by (simp add: SNAPSHOT_FIELDS_def)
  moreover have "normal_items us"
    using in_ss nss unfolding normal.simps normal_items_iff us_def by auto
  ultimately have "normal (JObj [(''schema_version'', JInt 1), (''record'', JObj us)])"
    by (simp add: us_def comp_def)
  from normal_normalize(1) [OF this] w(1) have "w = JObj [(''schema_version'', JInt 1), (''record'', JObj us)]"
    by (simp del: normalize.simps)
  then have snap: "snap = JObj [(''record'', JObj (sort_key fst (json_sort_items us))), (''schema_version'', JInt 1)]"
    using w(2) by simp
  have "dict_get ss k = Some (json_sort v)" using k(2) by (simp add: ss_def dict_get_json_sort)
  then have "dict_get us k = Some (json_sort v)" unfolding us_def using dict_get_map [OF k(1)] by simp
  then have "dict_get (sort_key fst (json_sort_items us)) k = Some (json_sort v)"
    by (simp add: dict_get_json_sort json_sort_idem)
  then show ?thesis by (simp add: snap snapshot_field_def) (simp add: dict_get_def)
qed

section \<open>Snapshots and tokens\<close>

lemma token_of_snapshot:
  assumes "record_snapshot r = Inr S"
  shows "record_token h r = Inr (''v1:'' @ h_sha256 h (json_text (h_float h) (json_sort S)))"
proof -
  obtain l m where f: "normalize (durable_metadata_value r ''lineage'') = Inr l"
      "normalize (durable_metadata_value r ''mutation_metadata'') = Inr m" "S = snapshot_of (snapshot_fields r l m)"
    using assms unfolding record_snapshot_fields by blast
  have "normalize S = Inr S" unfolding f(3) by (intro normal_normalize normal_fields normalize_normal(1) [OF f(1)] normalize_normal(1) [OF f(2)])
  then show ?thesis using assms by (simp add: record_token_def canonical_token_def stable_hash_def canonicalize_def)
qed

text \<open>A memory in the form in which the store writes it: the texts are stripped, no tag and no workspace is
  blank, and the durable metadata are objects.\<close>

definition well_stored :: "memory_record \<Rightarrow> bool" where
  "well_stored m = (py_strip (normalize_text False (mr_title m)) = normalize_text False (mr_title m)
     \<and> py_strip (normalize_text False (mr_content m)) = normalize_text False (mr_content m)
     \<and> (\<forall>x \<in> set (mr_tags m) \<union> set (mr_workspaces m). identifier_text x \<noteq> [])
     \<and> (\<exists>d. durable_metadata_value m ''lineage'' = JObj d) \<and> (\<exists>d. durable_metadata_value m ''mutation_metadata'' = JObj d))"

lemma identifier_text_stable [simp]: "identifier_text (identifier_text s) = identifier_text s" "py_strip (identifier_text s) = identifier_text s"
proof -
  have "normalize_newlines (identifier_text s) = identifier_text s" by (rule normalize_newlines_id [OF no_return_identifier])
  moreover show "py_strip (identifier_text s) = identifier_text s" by (simp add: identifier_text_def normalize_text_def)
  ultimately show "identifier_text (identifier_text s) = identifier_text s"
    by (simp add: identifier_text_def [of "identifier_text s"] normalize_text_def)
qed

lemma set_values_again:
  assumes "set ys = set (set_values xs)"
  shows "set_values ys = set_values xs"
proof -
  have "identifier_text ` set ys = identifier_text ` set xs"
    using assms by (simp add: set_values_def image_image)
  then have "set (map identifier_text ys) = set (map identifier_text xs)" by simp
  from sorted_ids_cong [OF this] show ?thesis by (simp add: set_values_def sorted_ids_def)
qed

lemma restored_values:
  assumes "\<forall>x \<in> set xs. identifier_text x \<noteq> []" and "normalized_values repr (Some (strings (set_values xs))) old = Inr ys"
  shows "set ys = set (set_values xs)"
  using assms by (auto simp: normalized_values_def strings_def Let_def set_values_def image_image)

lemma object_sorted: "normalize (JObj d) = Inr l \<Longrightarrow> \<exists>e. json_sort l = JObj e"
  by (auto simp: bind_res_Inr)

lemma restored_object:
  assumes "dict_get (mr_metadata m) k = Some (JObj e)"
  shows "durable_metadata_value m k = JObj e"
  using assms by (simp add: durable_metadata_value_def)

lemma dict_get_stable_sort: "dict_get (dict_sort d) k = map_option json_sort (dict_get d k)"
  unfolding dict_sort_def by (rule dict_get_json_sort)

text \<open>Writing the columns of a snapshot gives the snapshot again.\<close>

lemma rewritten_snapshot:
  assumes S: "record_snapshot m = Inr S" and ws: "well_stored m" and snap: "semantic_snapshot (json_sort S) = Inr snap"
    and p: "prepare_memory_update env existing (restored_columns snap current) = Inr p" and i: "mr_id r = mr_id m"
  shows "\<exists>S'. record_snapshot (hydrate_record (write_prepared env p (restored_columns snap current) r)) = Inr S'
    \<and> json_sort S' = json_sort S"
proof -
  obtain l u where f: "normalize (durable_metadata_value m ''lineage'') = Inr l"
      "normalize (durable_metadata_value m ''mutation_metadata'') = Inr u" "S = snapshot_of (snapshot_fields m l u)"
    using S unfolding record_snapshot_fields by blast
  obtain dl du where obj: "durable_metadata_value m ''lineage'' = JObj dl" "durable_metadata_value m ''mutation_metadata'' = JObj du"
    using ws unfolding well_stored_def by blast
  obtain el eu where sorted: "json_sort l = JObj el" "json_sort u = JObj eu"
    using object_sorted f(1,2) unfolding obj by blast
  have nrm: "normal (JObj (snapshot_fields m l u))"
    using normal_fields [OF normalize_normal(1) [OF f(1)] normalize_normal(1) [OF f(2)], of m] by (simp add: snapshot_of_def)
  note field = stored_snapshot [OF snap [unfolded f(3)] nrm]
  have in_fields: "k \<in> set SNAPSHOT_FIELDS" if "dict_get (snapshot_fields m l u) k = Some v" for k v
  proof -
    have "k \<in> set (map fst (snapshot_fields m l u))" using that by (force simp: dict_get_def dest: map_of_SomeD)
    then show ?thesis unfolding keys_of_fields .
  qed
  have get: "snapshot_field snap k = json_sort v" if "dict_get (snapshot_fields m l u) k = Some v" for k v
    using field [OF in_fields [OF that] that] .
  have cols: "snapshot_field snap ''title'' = JStr (normalize_text False (mr_title m))"
      "snapshot_field snap ''content'' = JStr (normalize_text False (mr_content m))"
      "snapshot_field snap ''summary'' = opt_string (map_option (normalize_text False) (mr_summary m))"
      "snapshot_field snap ''type'' = JStr (identifier_text (mr_type m))"
      "snapshot_field snap ''status'' = JStr (identifier_text (mr_status m))"
      "snapshot_field snap ''tags'' = strings (set_values (mr_tags m))"
      "snapshot_field snap ''workspace_ids'' = strings (set_values (mr_workspaces m))"
      "snapshot_field snap ''lineage'' = JObj el" "snapshot_field snap ''mutation_metadata'' = JObj eu"
    using sorted by (subst get, simp add: snapshot_fields_def dict_get_def, simp)+
  let ?cs = "restored_columns snap current"
  have keys: "dict_get ?cs ''title'' = Some (JStr (normalize_text False (mr_title m)))"
      "dict_get ?cs ''content'' = Some (JStr (normalize_text False (mr_content m)))"
      "dict_get ?cs ''summary'' = Some (opt_string (map_option (normalize_text False) (mr_summary m)))"
      "dict_get ?cs ''memory_type'' = Some (JStr (identifier_text (mr_type m)))"
      "dict_get ?cs ''status'' = Some (JStr (identifier_text (mr_status m)))"
      "dict_get ?cs ''tags'' = Some (strings (set_values (mr_tags m)))"
      "dict_get ?cs ''workspace_ids'' = Some (strings (set_values (mr_workspaces m)))"
      "dict_get ?cs ''metadata'' = Some (JObj (restored_metadata snap (mr_metadata current)))"
    by (simp_all add: restored_columns_def cols dict_get_def)
  have md: "dict_get (restored_metadata snap d) ''lineage'' = Some (JObj el)"
      "dict_get (restored_metadata snap d) ''mutation_metadata'' = Some (JObj eu)" for d
    by (simp_all add: restored_metadata_def cols)
  have strip: "py_strip (normalize_text False (mr_title m)) = normalize_text False (mr_title m)"
      "py_strip (normalize_text False (mr_content m)) = normalize_text False (mr_content m)"
      "\<forall>x \<in> set (mr_tags m). identifier_text x \<noteq> []" "\<forall>x \<in> set (mr_workspaces m). identifier_text x \<noteq> []"
    using ws by (auto simp: well_stored_def)
  have fields: "pm_title p = normalize_text False (mr_title m)" "pm_content p = normalize_text False (mr_content m)"
      "pm_type p = identifier_text (mr_type m)" "pm_status p = identifier_text (mr_status m)"
      "pm_summary p = map_option (normalize_text False) (mr_summary m)"
      "pm_metadata p = restored_metadata snap (mr_metadata current)"
      "normalized_values (ax_repr env) (Some (strings (set_values (mr_workspaces m)))) (mr_workspaces existing) = Inr (pm_workspaces p)"
      "normalized_values (ax_repr env) (Some (strings (set_values (mr_tags m)))) (mr_tags existing) = Inr (pm_tags p)"
    using p unfolding prepare_memory_update_def Let_def keys
    by (auto simp: text_or_def str_key_def keys strip map_filter_simps metadata_value_def updated_summary_def bind_res_Inr
        opt_string_def split: if_splits option.split)
  let ?m = "hydrate_record (write_prepared env p ?cs r)"
  have new: "mr_id ?m = mr_id m" "mr_title ?m = pm_title p" "mr_content ?m = pm_content p" "mr_summary ?m = pm_summary p"
      "mr_type ?m = pm_type p" "mr_status ?m = pm_status p" "mr_metadata ?m = dict_sort (pm_metadata p)"
      "set (mr_tags ?m) = set (pm_tags p)" "set (mr_workspaces ?m) = set (pm_workspaces p)"
    by (simp_all add: hydrate_record_def write_prepared_def optional_columns_def Let_def i)
  have sets: "set_values (mr_tags ?m) = set_values (mr_tags m)" "set_values (mr_workspaces ?m) = set_values (mr_workspaces m)"
    by (rule set_values_again, simp only: new restored_values [OF strip(3) fields(8)] restored_values [OF strip(4) fields(7)])+
  have durable: "durable_metadata_value ?m ''lineage'' = json_sort l" "durable_metadata_value ?m ''mutation_metadata'' = json_sort u"
    unfolding sorted using json_sort_idem(1) [of l] json_sort_idem(1) [of u] sorted
    by (intro restored_object, simp add: new fields md dict_get_stable_sort)+
  have "record_snapshot ?m = Inr (snapshot_of (snapshot_fields ?m (json_sort l) (json_sort u)))"
    unfolding record_snapshot_fields durable using canonical_again(1) [OF f(1)] canonical_again(1) [OF f(2)] by blast
  moreover have "json_sort_items (snapshot_fields ?m (json_sort l) (json_sort u)) = json_sort_items (snapshot_fields m l u)"
    by (simp add: snapshot_fields_def sets new(1-6) fields option.map_comp comp_def)
  ultimately show ?thesis by (simp add: f(3) snapshot_of_def)
qed

section \<open>An edit in the history\<close>

lemma revision_of_one:
  assumes "record_revisions env event [(i, b)] [(i, a)] [i] = Inr revs"
  obtains (unchanged) "revs = []"
  | (changed) B A tb ta where "record_snapshot b = Inr B" "record_snapshot a = Inr A"
      "revs = [\<lparr>rv_event = event, rv_memory = i, rv_role = ''target'', rv_before_exists = True, rv_before = Some (json_sort B),
         rv_after_exists = True, rv_after = Some (json_sort A), rv_before_token = Some tb, rv_after_token = Some ta\<rparr>]"
  using assms by (auto simp: bind_act_Inr optional_snapshot_def optional_token_def split: if_splits)

lemma sorted_pair: "sorted_ids [i, i] = [i]"
  by (simp add: sorted_ids_def)

lemma read_one: "find_memory i db = Some m \<Longrightarrow> read_records db [i] = [(i, hydrate_record m)]"
  by (simp add: read_records_def map_filter_simps)

text \<open>The action that edited one memory, in the history.\<close>

lemma editing_history:
  assumes ap: "apply_action env q nq (hd_actions h) = (Inr (r, db))" and ok: "history_ok h" and nq: "nq_targets nq = [i]"
    and i: "canonical_id i = i" "i \<noteq> []" "\<not> external_id i" and k: "edits_only i (rq_apply q)"
  obtains m0 m1 run revs ls where "find_memory i (hd_actions h) = Some m0" "find_memory i db = Some m1"
    "ad_events db = history_events h @ [action_event env q run (nq_operation nq)]" "ax_event env \<notin> mv_id ` set (history_events h)"
    "record_revisions env (ax_event env) [(i, hydrate_record m0)] [(i, hydrate_record m1)] [i] = Inr revs"
    "ad_record_revisions db = ad_record_revisions (hd_actions h) @ revs"
proof -
  let ?db0 = "hd_actions h"
  obtain run db1 result s after_ids revs where H:
    "run_callback env (rq_apply q) (start_tx nq db1) = (Inr result, s)" "ad_memories db1 = ad_memories ?db0"
    "ad_memories db = ad_memories (tx_db s)" "canonical_target_ids (nq_targets nq @ tx_touched s) = Inr after_ids"
    "record_revisions env (ax_event env) (read_records ?db0 (nq_targets nq)) (read_records db after_ids)
       (sorted_ids (map fst (read_records ?db0 (nq_targets nq)) @ map fst (read_records db after_ids))) = Inr revs"
    "ad_events db = ad_events ?db0 @ [action_event env q run (nq_operation nq)]"
    "\<not> event_insert_fails (action_event env q run (nq_operation nq)) (ad_events ?db0)"
    "ad_record_revisions db = ad_record_revisions ?db0 @ revs"
    using apply_action_history [OF ap history_okD(1) [OF ok]] by metis
  obtain run' db1' where "guarded_action env q nq ?db0 = Inr (run', db1')" using apply_action_steps [OF ap] by metis
  from guarded_actionD(1) [OF this, of i] obtain m0 where m0: "find_memory i ?db0 = Some m0" using nq i(3) by auto
  then have "edited i (start_tx nq db1)" by (simp add: edited_def exists_memory_def start_tx_def find_memory_def H(2))
  from edited_callback [OF k this, of env] have ed: "edited i s" using H(1) by simp
  then obtain m1 where m1: "find_memory i db = Some m1" by (auto simp: edited_def exists_memory_def find_memory_def H(3))
  have "canonical_target_ids (nq_targets nq @ tx_touched s) = Inr [i]"
    using ed i nq by (intro canonical_single) (auto simp: edited_def)
  then have after: "after_ids = [i]" using H(4) by simp
  have new: "ax_event env \<notin> mv_id ` set (history_events h)" using H(7) by (simp add: event_insert_fails_def)
  have "record_revisions env (ax_event env) [(i, hydrate_record m0)] [(i, hydrate_record m1)] [i] = Inr revs"
    using H(5) by (simp add: nq after read_one [OF m0] read_one [OF m1] sorted_pair del: record_revisions.simps)
  then show ?thesis using that [OF m0 m1 H(6) new _ H(8)] by blast
qed

section \<open>The inverse\<close>

lemma inverse_of_edit:
  assumes "build_inverse ev records links = Inr v" and "mv_operation ev = ''normalize_memory''"
  obtains r b snap where "records = [r]" "rv_before r = Some b" "rv_before_exists r" "semantic_snapshot b = Inr snap" "iv_links v = []"
    "iv_records v = [\<lparr>ic_memory = rv_memory r, ic_exists = True, ic_snapshot = Some snap, ic_expected = rv_after_token r,
       ic_resulting = rv_before_token r\<rparr>]"
proof -
  have "mv_operation ev \<notin> set UNSUPPORTED" "mv_operation ev \<in> set RECORD_OPERATIONS"
    using assms(2) by (simp_all add: UNSUPPORTED_def RECORD_OPERATIONS_def)
  then obtain r where r: "records = [r]" "invert_record ev r = Inr v"
    using assms(1) by (auto simp: build_inverse_def Let_def split: if_splits list.splits)
  obtain b a where ba: "rv_before r = Some b" "rv_after r = Some a" "record_conflict ev r = None"
    using r(2) by (auto simp: invert_record_def split: option.splits)
  have "rv_before_exists r" using ba by (auto simp: record_conflict_def split: if_splits)
  then show ?thesis using that [OF r(1) ba(1)] r(2) ba by (auto simp: invert_record_def split: sum.splits)
qed

lemma find_update_where:
  assumes "find_memory i db = Some r" and "\<And>x. mr_id (f x) = mr_id x"
  shows "find_memory i (db\<lparr>ad_memories := update_where (\<lambda>x. mr_id x = i) f (ad_memories db)\<rparr>) = Some (f r)"
proof -
  have "List.find (\<lambda>x. mr_id x = i) xs = Some r \<Longrightarrow> List.find (\<lambda>x. mr_id x = i) (update_where (\<lambda>x. mr_id x = i) f xs) = Some (f r)" for xs
    by (induction xs) (auto simp: update_where_def assms(2) split: if_splits)
  then show ?thesis using assms(1) by (simp add: find_memory_def)
qed

lemma update_memory_effect:
  assumes "update_memory_tx env m c s = (Inr x, s')" and "canonical_id m = i"
  obtains r p where "find_memory i (tx_db s) = Some r" "prepare_memory_update env (hydrate_record r) c = Inr p"
    "find_memory i (tx_db s') = Some (write_prepared env p c r)"
proof -
  have idem: "canonical_id i = i" using assms(2) by (auto simp: canonical_id_def)
  obtain r p where rp: "find_memory i (tx_db s) = Some r" "prepare_memory_update env (hydrate_record r) c = Inr p"
      "tx_db s' = replace_fts i p ((tx_db s)\<lparr>ad_memories := update_where (\<lambda>r. mr_id r = i) (write_prepared env p c) (ad_memories (tx_db s))\<rparr>)"
    using assms idem
    by (auto simp: update_memory_tx_def get_memory_tx_def read_memory_def bind_tx_def require_access_def ask_tx_def put_tx_def
        touch_tx_def stage_tx_def on_db_def Let_def split: if_splits option.splits sum.splits)
  have "mr_id (write_prepared env p c x) = mr_id x" for x by (simp add: write_prepared_def optional_columns_def Let_def)
  from find_update_where [OF rp(1) this] show ?thesis using that [OF rp(1,2)] by (simp add: rp(3) replace_fts_def find_memory_def)
qed

lemma restoring_callback:
  assumes "run_callback env (restore_callback v) s = (Inr result, s')" and "canonical_id i = i" and "iv_links v = []"
    and "iv_records v = [\<lparr>ic_memory = i, ic_exists = True, ic_snapshot = Some snap, ic_expected = x, ic_resulting = y\<rparr>]"
  obtains current r p where "find_memory i (tx_db s) = Some r"
    "prepare_memory_update env (hydrate_record r) (restored_columns snap current) = Inr p"
    "find_memory i (tx_db s') = Some (write_prepared env p (restored_columns snap current) r)"
proof -
  obtain g s1 where get: "get_memory_tx i s = (g, s1)" by fastforce
  have s1: "s1 = s" using get by (auto simp: get_memory_tx_def read_memory_def bind_tx_def require_access_def ask_tx_def Let_def split: if_splits)
  obtain current where g: "g = Inr (Some current)"
    using assms(1) get by (cases g) (auto simp: restore_callback_def assms(3,4) answering_def bind_tx_def ret_tx_def ask_tx_def split: option.splits)
  obtain w s2 where up: "update_memory_tx env i (restored_columns snap current) s = (w, s2)" by fastforce
  have "\<exists>z. w = Inr z \<and> s' = s2"
    using assms(1) get up g s1
    by (cases w) (auto simp: restore_callback_def assms(3,4) answering_def bind_tx_def ret_tx_def ask_tx_def)
  then obtain z where "update_memory_tx env i (restored_columns snap current) s = (Inr z, s')" using up by blast
  from update_memory_effect [OF this assms(2)] show ?thesis using that by metis
qed

text \<open>C17. Restoring an edit of one memory, if it is applied at all, gives the memory the revision token that it had
  before the edit, whatever the edit wrote. The action may read as it likes and edit its one target; the memory
  was in the form in which the store writes it.\<close>

theorem restore_undoes_edit:
  assumes "execute_action env q (hd_actions h0) = (Inr r, db)" and "r \<notin> set (cd_receipts (ad_ledger (hd_actions h0)))"
    and "history_ok h0" and "rq_targets q = [i]" and "rq_operation q = Some ''normalize_memory''" and "edits_only i (rq_apply q)"
    and "canonical_id i = i" and "\<not> external_id i" and "parse_uuid i = Some (UUID i)"
    and "find_memory i (hd_actions h0) = Some m" and "well_stored (hydrate_record m)"
    and "execute_restore x request run_id action_id (h0\<lparr>hd_actions := db\<rparr>) = (Inr res, h')"
    and "rr_target request = ax_event env" and "rs_status res = RestoreApplied"
    and "rs_event res \<notin> Some ` mv_id ` set (ad_events db)"
  shows "\<exists>m'. find_memory i (hd_actions h') = Some m'
    \<and> (\<forall>hashing. record_token hashing (hydrate_record m') = record_token hashing (hydrate_record m))"
  using assms(1)
proof (cases rule: execute_action_cases)
  case (replay nq r')
  then show ?thesis using assms(2) get_receipt_SomeD [OF replayed_SomeD(1) [OF replay(2)]] by simp
next
  case (fresh nq r')
  then have ap: "apply_action env q nq (hd_actions h0) = (Inr (r, db))" by simp
  let ?h = "h0\<lparr>hd_actions := db\<rparr>"
  have ok: "history_ok ?h" by (rule execute_action_ok [OF assms(1,3)])
  have can: "canonical_target_ids [i] = Inr (nq_targets nq)" using normalize_targets [OF fresh(1)] assms(4) by simp
  have ne: "i \<noteq> []" using can assms(7) by (auto simp: canonical_target_ids_def Let_def split: if_splits)
  have nq: "nq_targets nq = [i]" using can canonical_single [of "[i]" i] assms(7) ne by simp
  have oper: "nq_operation nq = ''normalize_memory''"
    using fresh(1) assms(5) by (auto simp: normalize_request_def bind_act_Inr Let_def py_strip_def py_isspace_def split: if_splits)
  from ap assms(3) nq assms(7) ne assms(8,6) obtain m0 m1 run revs where E:
    "find_memory i (hd_actions h0) = Some m0" "find_memory i db = Some m1"
    "ad_events db = history_events h0 @ [action_event env q run (nq_operation nq)]" "ax_event env \<notin> mv_id ` set (history_events h0)"
    "record_revisions env (ax_event env) [(i, hydrate_record m0)] [(i, hydrate_record m1)] [i] = Inr revs"
    "ad_record_revisions db = ad_record_revisions (hd_actions h0) @ revs"
    by (rule editing_history)
  have m0: "m0 = m" using E(1) assms(10) by simp
  from assms(12) ok show ?thesis
  proof (cases rule: execute_restore_cases)
    case (answered w)
    then have "rs_status res \<noteq> RestoreApplied" using history_okD(6) [OF ok] by (auto simp: restore_result_from_row_def)
    then show ?thesis using assms(14) by simp
  next
    case (applied ev records links v j rid aid h1 r1 db1)
    have ev: "mv_id ev = ax_event env" using get_event_id [OF applied(1)] assms(13) by simp
    have "ev \<in> set (ad_events db)"
      using applied(1) by (auto simp: get_event_def optional_row_def event_from_row_def bind_res_Inr dest: find_SomeD split: option.splits if_splits)
    then have normalized: "mv_operation ev = ''normalize_memory''" using E(3,4) ev oper by (auto simp: image_iff)
    have new: "rc_event r1 = Some e \<Longrightarrow> e \<notin> mv_id ` set (history_events h1)" for e
      using assms(15) applied(8) same_domainD(6) [OF applied(5)] by (auto simp: applied_result_def)
    obtain e where e: "rc_event r1 = Some e" using executed_receipt(2) [OF applied(7,6)] by blast
    obtain nq1 result s1 db2 where R: "run_callback (rx_action x) (restore_callback v) (start_tx nq1 db2) = (Inr result, s1)"
        "ad_memories db1 = ad_memories (tx_db s1)"
      using fresh_restore [OF applied(7,6) e new [OF e]] unfolding restore_action_apply by metis
    have post: "ad_memories (hd_actions h') = ad_memories (tx_db s1)" using same_domainD(1) [OF applied(9)] R(2) by simp
    obtain rv b snap where I: "records = [rv]" "rv_before rv = Some b" "rv_before_exists rv" "semantic_snapshot b = Inr snap"
        "iv_links v = []" "iv_records v = [\<lparr>ic_memory = rv_memory rv, ic_exists = True, ic_snapshot = Some snap,
          ic_expected = rv_after_token rv, ic_resulting = rv_before_token rv\<rparr>]"
      by (rule inverse_of_edit [OF applied(4) normalized])
    have only: "all_rows record_revision_from_row revs = Inr [rv]"
      using applied(2) revisions_of_new_event(1) [OF assms(3) E(4)] all_revisions_of [OF E(5)]
      by (simp add: ev get_record_revisions_def optional_limit_def E(6) I(1))
    obtain B where B: "record_snapshot (hydrate_record m0) = Inr B" "rv_memory rv = i" "b = json_sort B"
      using E(5)
    proof (cases rule: revision_of_one)
      case unchanged
      then show ?thesis using only by simp
    next
      case (changed B A tb ta)
      have "record_revision_from_row (hd revs) = Inr rv" using only unfolding changed(3) by (simp add: bind_res_Inr)
      then have "rv_memory rv = i \<and> rv_before rv = Some (json_sort B)"
        unfolding changed(3) by (simp add: record_revision_from_row_def parsed_uuid_def assms(9) split: if_splits) auto
      then show ?thesis using that [OF changed(1)] I(2) by simp
    qed
    obtain current r0 p where C: "find_memory i (tx_db (start_tx nq1 db2)) = Some r0"
        "prepare_memory_update (rx_action x) (hydrate_record r0) (restored_columns snap current) = Inr p"
        "find_memory i (tx_db s1) = Some (write_prepared (rx_action x) p (restored_columns snap current) r0)"
      by (rule restoring_callback [OF R(1) assms(7) I(5) I(6) [unfolded B(2)]])
    have "mr_id r0 = i" using C(1) by (auto simp: find_memory_def dest: find_SomeD)
    moreover have "mr_id (hydrate_record m0) = i" using E(1) by (auto simp: find_memory_def hydrate_record_def dest: find_SomeD)
    ultimately obtain B' where
      "record_snapshot (hydrate_record (write_prepared (rx_action x) p (restored_columns snap current) r0)) = Inr B'"
      "json_sort B' = json_sort B"
      using rewritten_snapshot [OF B(1) _ I(4) [unfolded B(3)] C(2)] assms(11) m0 by auto
    then have "record_token hashing (hydrate_record (write_prepared (rx_action x) p (restored_columns snap current) r0))
        = record_token hashing (hydrate_record m)" for hashing
      using token_of_snapshot B(1) m0 by simp
    then show ?thesis using C(3) post by (simp add: find_memory_def)
  qed (use assms(14) in auto)
qed simp

section \<open>An edit and its restoration\<close>

text \<open>The hash of the sample keeps the letters that tell the two revisions of its memory apart.\<close>

definition edit_env :: action_env where
  "edit_env = sample_env\<lparr>ax_hashing := (ax_hashing sample_env)\<lparr>h_sha256 := filter (\<lambda>c. c = CHR ''w'')\<rparr>\<rparr>"

definition edit_request :: action_request where
  "edit_request = sample_request\<lparr>rq_tokens := [], rq_actor := ''maintenance''\<rparr>"

definition edit_receipt :: receipt where
  "edit_receipt = sample_receipt\<lparr>rc_before := Some ''v1:ww'', rc_after := Some ''v1:www'', rc_intent := Some ''v1:''\<rparr>"

definition sample_snapshot :: "string \<Rightarrow> json \<Rightarrow> json" where
  "sample_snapshot title summary = JObj [(''record'', JObj [(''content'', JStr ''c''), (''id'', JStr sample_id),
     (''lineage'', JObj []), (''mutation_metadata'', JObj []), (''status'', JStr ''active''), (''summary'', summary),
     (''tags'', JList []), (''title'', JStr title), (''type'', JStr ''fact''), (''workspace_ids'', JList [JStr ''w''])]),
     (''schema_version'', JInt 1)]"

definition edited_db :: action_db where
  "edited_db = sample_db
     \<lparr>ad_ledger := (ad_ledger sample_db)\<lparr>cd_receipts := [edit_receipt], cd_events := {UUID ''e1''}\<rparr>,
      ad_memories := [sample_memory\<lparr>mr_title := ''new'', mr_summary := Some ''c'', mr_updated_at := ''now''\<rparr>,
        sample_memory\<lparr>mr_id := ''other''\<rparr>],
      ad_fts := [\<lparr>fr_id = sample_id, fr_title = ''new'', fr_summary = ''c'', fr_content = ''c'', fr_tags = []\<rparr>],
      ad_repairs := [\<lparr>e_id = ''p'', e_memory_id = sample_id, e_workspace = Some ''w'', e_model_name = ''m'',
        e_memory_updated_at = ''now'', e_status = RepairPending, e_attempts = 0, e_available_at = 5, e_created_at = 5,
        e_updated_at = 5, e_claimed_at = None, e_completed_at = None, e_lease_owner = None, e_lease_expires_at = None,
        e_last_error = None\<rparr>],
      ad_events := [\<lparr>mv_id = UUID ''e1'', mv_operation = ''normalize_memory'', mv_actor_kind = ''maintenance'', mv_actor = None,
        mv_family = Some ''curation'', mv_task = None, mv_run = Some (UUID ''r1''), mv_plan = None, mv_action = Some (UUID ''a1''),
        mv_provider = None, mv_reason = None, mv_rationale = None, mv_policy = Some ''v1'', mv_schema = 1,
        mv_status = EventApplied, mv_restores = None, mv_key = Some ''r1:a1'', mv_created = ''now'', mv_terminal = None\<rparr>],
      ad_record_revisions := [\<lparr>rv_event = UUID ''e1'', rv_memory = sample_id, rv_role = ''target'', rv_before_exists = True,
        rv_before = Some (sample_snapshot ''t'' JNull), rv_after_exists = True,
        rv_after = Some (sample_snapshot ''new'' (JStr ''c'')), rv_before_token = Some ''v1:ww'', rv_after_token = Some ''v1:www''\<rparr>]\<rparr>"

definition one_edit :: history_db where
  "one_edit = \<lparr>hd_actions = sample_db, hd_restores = []\<rparr>"

definition undo_edit :: restore_request where
  "undo_edit = undo_request\<lparr>rr_record_tokens := [(UUID sample_id, ''v1:www'')]\<rparr>"

definition undo_edit_env :: restore_env where
  "undo_edit_env = undo_env\<lparr>rx_action := edit_env\<lparr>ax_event := UUID ''e2''\<rparr>\<rparr>"

lemma edit_applied: "execute_action edit_env edit_request (hd_actions one_edit) = (Inr edit_receipt, edited_db)"
  by code_simp

lemma edit_undone: "fst (execute_restore undo_edit_env undo_edit None None (one_edit\<lparr>hd_actions := edited_db\<rparr>)) = Inr undo_result"
  by code_simp

lemma restore_undoes_edit_witness:
  "\<exists>m'. find_memory sample_id (hd_actions (snd (execute_restore undo_edit_env undo_edit None None (one_edit\<lparr>hd_actions := edited_db\<rparr>)))) = Some m'
    \<and> record_token (ax_hashing edit_env) (hydrate_record m') = record_token (ax_hashing edit_env) (hydrate_record sample_memory)"
proof -
  let ?h = "one_edit\<lparr>hd_actions := edited_db\<rparr>"
  have ok: "history_ok one_edit"
    by (simp add: history_ok_def one_edit_def action_db_ok_def ledger_ok_def links_anchored_def sample_db_def sample_run_def)
  have new: "edit_receipt \<notin> set (cd_receipts (ad_ledger (hd_actions one_edit)))" by (simp add: one_edit_def sample_fresh)
  have fixed: "canonical_id sample_id = sample_id" "\<not> external_id sample_id" "parse_uuid sample_id = Some (UUID sample_id)"
    by code_simp+
  have request: "rq_targets edit_request = [sample_id]" "rq_operation edit_request = Some ''normalize_memory''"
      "edits_only sample_id (rq_apply edit_request)"
    using sample_edit by (simp_all add: edit_request_def sample_request_def)
  have found: "find_memory sample_id (hd_actions one_edit) = Some sample_memory" by (simp add: one_edit_def sample_found)
  have stored: "well_stored (hydrate_record sample_memory)"
    by (simp add: well_stored_def hydrate_record_def sample_memory_def durable_metadata_value_def dict_get_def normalize_text_def
        normalize_newlines_def py_strip_def py_isspace_def identifier_text_def)
  have run: "execute_restore undo_edit_env undo_edit None None ?h = (Inr undo_result, snd (execute_restore undo_edit_env undo_edit None None ?h))"
    using edit_undone by (metis prod.collapse)
  have event: "rr_target undo_edit = ax_event edit_env" "rs_status undo_result = RestoreApplied"
      "rs_event undo_result \<notin> Some ` mv_id ` set (ad_events edited_db)"
    by (simp_all add: undo_edit_def undo_request_def edit_env_def sample_env_def undo_result_def edited_db_def)
  show ?thesis
    using restore_undoes_edit [OF edit_applied new ok request fixed found stored run event] by blast
qed

end
