(* ===== verification/Repository.thy ===== *)
theory Repository
  imports ActionTransaction "HOL-Library.Option_ord"
begin

text \<open>
  The relational repository of memories, \<open>relational/repository.py\<close> with \<open>relational/record_helpers.py\<close>:
  its reads and its writes over the tables that the curation actions change too, and the search epochs that
  the triggers of \<open>utils/db_schema.py\<close> count. Fresh identifiers and the readings of the clock are parameters.
\<close>

section \<open>Values\<close>

definition normalize_values :: "string list \<Rightarrow> string list" where
  "normalize_values vs = ordered_unique (filter (\<lambda>v. v \<noteq> []) (map py_strip vs))"

text \<open>The text of a sorted list of strings in a message.\<close>

definition choices_text :: "string list \<Rightarrow> string" where
  "choices_text vs = ''['' @ py_join '', '' (map quoted (sort vs)) @ '']''"

definition validate_memory_type :: "string \<Rightarrow> string res" where
  "validate_memory_type s =
     (if py_strip s \<in> set VALID_MEMORY_TYPES then Inr (py_strip s)
      else Inl (ValueError (''invalid memory_type: '' @ quoted s @ ''. Expected one of '' @ choices_text VALID_MEMORY_TYPES)))"

definition validate_memory_status :: "string \<Rightarrow> string res" where
  "validate_memory_status s =
     (if py_strip s \<in> set VALID_MEMORY_STATUSES then Inr (py_strip s)
      else Inl (ValueError (''invalid status: '' @ quoted s @ ''. Expected one of '' @ choices_text VALID_MEMORY_STATUSES)))"

definition validate_required_text :: "string \<Rightarrow> string \<Rightarrow> unit res" where
  "validate_required_text name v = (if v = [] then Inl (ValueError (name @ '' must be non-empty'')) else Inr ())"

text \<open>Metadata are stored as the JSON text with sorted keys; the model keeps the sorted dictionary.\<close>

definition serialize_metadata :: "dict option \<Rightarrow> dict" where
  "serialize_metadata md = dict_sort (case md of None \<Rightarrow> [] | Some d \<Rightarrow> d)"

section \<open>The database\<close>

text \<open>The tables, and the three rows \<open>search_epoch_...\<close> of \<open>schema_metadata\<close>.\<close>

record repo =
  rp_db :: action_db
  rp_keyword :: int
  rp_vector :: int
  rp_graph :: int

text \<open>The readings of the clock, \<open>re_now k\<close>, and the fresh identifiers, \<open>re_new_id k\<close>, that an operation may take.\<close>

record repo_env =
  re_now :: "nat \<Rightarrow> string"
  re_new_id :: "nat \<Rightarrow> string"
  re_dots :: char

type_synonym 'a repo_op = "repo \<Rightarrow> 'a res \<times> repo"

definition on_tables :: "(action_db \<Rightarrow> action_db) \<Rightarrow> repo \<Rightarrow> repo" where
  "on_tables f st = st\<lparr>rp_db := f (rp_db st)\<rparr>"

text \<open>The triggers: one more for each row of \<open>memories\<close> or \<open>memory_workspaces\<close> written, and of \<open>links\<close>. The
  rows that \<open>INSERT OR REPLACE\<close> replaces do not count.\<close>

definition count_keyword :: "nat \<Rightarrow> repo \<Rightarrow> repo" where
  "count_keyword n st = st\<lparr>rp_keyword := rp_keyword st + int n\<rparr>"

definition count_graph :: "nat \<Rightarrow> repo \<Rightarrow> repo" where
  "count_graph n st = st\<lparr>rp_graph := rp_graph st + int n\<rparr>"

definition get_search_epochs :: "repo \<Rightarrow> int \<times> int \<times> int" where
  "get_search_epochs st = (rp_keyword st, rp_vector st, rp_graph st)"

section \<open>Reading records\<close>

definition resolve_memory_id :: "string \<Rightarrow> action_db \<Rightarrow> string option" where
  "resolve_memory_id s db =
     (if find_memory s db \<noteq> None then Some s
      else case parse_memory_ref s of
          None \<Rightarrow> None
        | Some n \<Rightarrow> map_option mr_id (List.find (\<lambda>r. mr_ref r = Some n) (ad_memories db)))"

definition get_memory :: "string \<Rightarrow> action_db \<Rightarrow> memory_record option" where
  "get_memory s db = (case resolve_memory_id s db of
       None \<Rightarrow> None
     | Some i \<Rightarrow> map_option hydrate_record (find_memory i db))"

definition resolved_ids :: "string list \<Rightarrow> action_db \<Rightarrow> string list" where
  "resolved_ids ids db = List.map_filter (\<lambda>s. resolve_memory_id s db) (normalize_values ids)"

text \<open>A column with an equality in a query, when it was asked for.\<close>

definition asked :: "'a option \<Rightarrow> 'a \<Rightarrow> bool" where
  "asked x v = (case x of None \<Rightarrow> True | Some w \<Rightarrow> v = w)"

definition in_workspace :: "string option \<Rightarrow> memory_record \<Rightarrow> bool" where
  "in_workspace ws r = (case ws of None \<Rightarrow> True | Some w \<Rightarrow> w \<in> set (mr_workspaces r))"

definition is_superseded :: "action_db \<Rightarrow> string \<Rightarrow> bool" where
  "is_superseded db i = (\<exists>l \<in> set (ad_links db). ml_target l = i \<and> ml_type l = ''SUPERSEDES'')"

text \<open>Descending order that keeps the order of ties.\<close>

definition order_desc :: "('r \<Rightarrow> 'k::linorder) \<Rightarrow> 'r list \<Rightarrow> 'r list" where
  "order_desc k rows = rev (order_by k (rev rows))"

definition latest_first :: "memory_record list \<Rightarrow> memory_record list" where
  "latest_first rows = order_desc (\<lambda>r. (mr_updated_at r, mr_created_at r)) rows"

definition listed_rows :: "string option \<Rightarrow> string option \<Rightarrow> string option \<Rightarrow> int \<Rightarrow> action_db \<Rightarrow> memory_record list" where
  "listed_rows ws ty status limit db = limit_rows limit (latest_first
     (filter (\<lambda>r. in_workspace ws r \<and> asked ty (mr_type r) \<and> asked status (mr_status r)) (ad_memories db)))"

definition list_memories :: "string option \<Rightarrow> string option \<Rightarrow> string option \<Rightarrow> int \<Rightarrow> action_db \<Rightarrow> memory_record list" where
  "list_memories ws ty status limit db = map hydrate_record (listed_rows ws ty status limit db)"

definition list_memory_ids :: "string option \<Rightarrow> string option \<Rightarrow> string option \<Rightarrow> int \<Rightarrow> action_db \<Rightarrow> string list" where
  "list_memory_ids ws ty status limit db = map mr_id (listed_rows ws ty status limit db)"

definition list_most_read_memories :: "string option \<Rightarrow> int \<Rightarrow> string option \<Rightarrow> action_db \<Rightarrow> memory_record list" where
  "list_most_read_memories ws limit status db = map hydrate_record (limit_rows limit
     (order_desc (\<lambda>r. (mr_read_count r, mr_last_accessed r, mr_updated_at r))
       (filter (\<lambda>r. in_workspace ws r \<and> 0 < mr_read_count r \<and> asked status (mr_status r)) (ad_memories db))))"

definition list_skill_review_observations :: "int \<Rightarrow> int \<Rightarrow> action_db \<Rightarrow> memory_record list res" where
  "list_skill_review_observations limit offset db =
     (if limit \<le> 0 \<or> offset < 0 then Inl (ValueError ''ledger limit and offset are invalid'')
      else Inr (map hydrate_record (limit_rows limit (drop (nat offset)
        (order_by (\<lambda>r. (mr_updated_at r, mr_created_at r, mr_id r))
          (filter (\<lambda>r. mr_status r = ''active'' \<and> mr_type r = ''observation'' \<and> ''skill-observation'' \<in> set (mr_tags r))
            (ad_memories db)))))))"

definition count_memories_updated_since :: "string \<Rightarrow> string option \<Rightarrow> action_db \<Rightarrow> nat" where
  "count_memories_updated_since cutoff ws db = rowcount (\<lambda>r. cutoff \<le> mr_updated_at r \<and> in_workspace ws r) (ad_memories db)"

section \<open>Reading links\<close>

definition get_links :: "string \<Rightarrow> string \<Rightarrow> string option \<Rightarrow> action_db \<Rightarrow> memory_link list res" where
  "get_links s direction link_type db = (case resolve_memory_id s db of
       None \<Rightarrow> Inr []
     | Some i \<Rightarrow>
         bind_res (case link_type of None \<Rightarrow> Inr None | Some t \<Rightarrow> bind_res (normalize_link_type t) (\<lambda>ty. Inr (Some ty))) (\<lambda>ty.
           Inr (order_by (\<lambda>l. (ml_source l, ml_target l))
             (filter (\<lambda>l. (if direction = ''incoming'' then ml_target l else ml_source l) = i \<and> asked ty (ml_type l)) (ad_links db)))))"

definition has_incoming_link :: "string \<Rightarrow> string \<Rightarrow> action_db \<Rightarrow> bool res" where
  "has_incoming_link s link_type db = bind_res (normalize_link_type link_type) (\<lambda>ty.
     case resolve_memory_id s db of
       None \<Rightarrow> Inr False
     | Some i \<Rightarrow> Inr (\<exists>l \<in> set (ad_links db). ml_target l = i \<and> ml_type l = ty))"

definition count_incoming_links :: "string \<Rightarrow> action_db \<Rightarrow> nat" where
  "count_incoming_links s db = (case resolve_memory_id s db of
       None \<Rightarrow> 0 | Some i \<Rightarrow> rowcount (\<lambda>l. ml_target l = i) (ad_links db))"

text \<open>The links without a filter on their type, which cannot raise.\<close>

definition links_of :: "string \<Rightarrow> string \<Rightarrow> action_db \<Rightarrow> memory_link list" where
  "links_of s direction db = (case get_links s direction None db of Inl e \<Rightarrow> [] | Inr ls \<Rightarrow> ls)"

definition superseded_records :: "memory_link list \<Rightarrow> action_db \<Rightarrow> memory_record list" where
  "superseded_records outgoing db =
     List.map_filter (\<lambda>l. if ml_type l = ''SUPERSEDES'' then get_memory (ml_target l) db else None) outgoing"

definition peek_memory :: "string \<Rightarrow> action_db \<Rightarrow> read_context option" where
  "peek_memory s db = (case get_memory s db of
       None \<Rightarrow> None
     | Some r \<Rightarrow>
         let outgoing = links_of s ''outgoing'' db in
         Some \<lparr>mx_record = r,
           mx_relationships = [(''outgoing'', outgoing), (''incoming'', links_of s ''incoming'' db)],
           mx_superseded = superseded_records outgoing db\<rparr>)"

section \<open>Reading many records\<close>

text \<open>The aggregates of the queries join the values with commas, in the order of their rows, and reading splits at commas.\<close>

definition split_csv_values :: "string \<Rightarrow> string list" where
  "split_csv_values s = (if s = [] then [] else filter (\<lambda>v. v \<noteq> []) (split_on (CHR '','') s))"

definition aggregated :: "memory_record \<Rightarrow> memory_record" where
  "aggregated r = r\<lparr>mr_workspaces := split_csv_values (py_join '','' (mr_workspaces r)),
     mr_tags := split_csv_values (py_join '','' (mr_tags r))\<rparr>"

definition selected_row :: "string option \<Rightarrow> bool \<Rightarrow> action_db \<Rightarrow> string \<Rightarrow> memory_record option" where
  "selected_row status include_superseded db i = (case find_memory i db of
       None \<Rightarrow> None
     | Some r \<Rightarrow> if asked status (mr_status r) \<and> (include_superseded \<or> \<not> is_superseded db i) then Some r else None)"

definition get_searchable_memories :: "string list \<Rightarrow> string option \<Rightarrow> bool \<Rightarrow> action_db \<Rightarrow> memory_record list" where
  "get_searchable_memories ids status include_superseded db =
     List.map_filter (\<lambda>i. map_option aggregated (selected_row status include_superseded db i)) (resolved_ids ids db)"

record ranked_candidate =
  rk_record :: memory_record
  rk_incoming :: nat
  rk_superseded :: bool
  rk_counts :: "(string \<times> nat) list"

definition COUNTED_TYPES :: "string list" where
  "COUNTED_TYPES = [''DEPENDS_ON'', ''AMENDS'', ''CONTRADICTS'', ''SUPERSEDES'']"

definition ranked_row :: "action_db \<Rightarrow> memory_record \<Rightarrow> ranked_candidate" where
  "ranked_row db r = \<lparr>rk_record = (aggregated r)\<lparr>mr_archived_at := None\<rparr>,
     rk_incoming = rowcount (\<lambda>l. ml_target l = mr_id r) (ad_links db), rk_superseded = is_superseded db (mr_id r),
     rk_counts = map (\<lambda>ty. (ty, rowcount (\<lambda>l. ml_target l = mr_id r \<and> ml_type l = ty) (ad_links db))) COUNTED_TYPES\<rparr>"

definition get_ranking_candidates :: "string list \<Rightarrow> string option \<Rightarrow> bool \<Rightarrow> action_db \<Rightarrow> ranked_candidate list" where
  "get_ranking_candidates ids status include_superseded db =
     List.map_filter (\<lambda>i. map_option (ranked_row db) (selected_row status include_superseded db i)) (resolved_ids ids db)"

text \<open>The contexts of many memories in a fixed number of queries.\<close>

definition rows_by_ids :: "string list \<Rightarrow> action_db \<Rightarrow> string \<Rightarrow> memory_record option" where
  "rows_by_ids ids db i = (if i \<in> set ids then find_memory i db else None)"

definition links_by_ids :: "(memory_link \<Rightarrow> string) \<Rightarrow> string list \<Rightarrow> action_db \<Rightarrow> string \<Rightarrow> memory_link list" where
  "links_by_ids end_of ids db i = (if i \<in> set ids
     then filter (\<lambda>l. end_of l = i) (order_by (\<lambda>l. (ml_source l, ml_target l))
       (filter (\<lambda>l. ml_source l \<in> set ids \<or> ml_target l \<in> set ids) (ad_links db)))
     else [])"

definition hydrate_maintenance_contexts :: "string list \<Rightarrow> action_db \<Rightarrow> read_context list" where
  "hydrate_maintenance_contexts ids db =
     (let existing = filter (\<lambda>i. rows_by_ids ids db i \<noteq> None) ids;
          outgoing = links_by_ids ml_source existing db;
          incoming = links_by_ids ml_target existing db;
          superseded_ids = normalize_values (map ml_target
            (filter (\<lambda>l. ml_type l = ''SUPERSEDES'') (concat (map outgoing existing))));
          superseded = rows_by_ids superseded_ids db
      in List.map_filter (\<lambda>i. map_option (\<lambda>r. \<lparr>mx_record = hydrate_record r,
             mx_relationships = [(''outgoing'', outgoing i), (''incoming'', incoming i)],
             mx_superseded = List.map_filter (\<lambda>l. if ml_type l = ''SUPERSEDES''
               then map_option hydrate_record (superseded (ml_target l)) else None) (outgoing i)\<rparr>)
           (rows_by_ids ids db i)) existing)"

section \<open>Creation\<close>

record create_request =
  cq_title :: string
  cq_content :: string
  cq_workspaces :: "string list"
  cq_tags :: "string list"
  cq_summary :: "string option"
  cq_type :: string
  cq_status :: string
  cq_metadata :: "dict option"
  cq_id :: "string option"
  cq_created :: "string option"
  cq_updated :: "string option"

text \<open>The row of a request, still without its reference; \<open>k\<close> is its place in the batch.\<close>

definition prepare_create :: "repo_env \<Rightarrow> nat \<Rightarrow> create_request \<Rightarrow> memory_record res" where
  "prepare_create env k q =
     (let created = str_or (cq_created q) (re_now env (2 * k));
          title = py_strip (cq_title q); content = py_strip (cq_content q);
          ws = normalize_values (cq_workspaces q); tags = normalize_values (cq_tags q)
      in bind_res (validate_memory_type (cq_type q)) (\<lambda>ty.
         bind_res (validate_memory_status (cq_status q)) (\<lambda>status.
         bind_res (validate_required_text ''title'' title) (\<lambda>_.
         bind_res (validate_required_text ''content'' content) (\<lambda>_.
           if ws = [] then Inl (ValueError ''workspace_ids must contain at least one non-empty value'')
           else Inr \<lparr>mr_id = str_or (cq_id q) (re_new_id env k), mr_title = title, mr_content = content,
             mr_summary = Some (str_or (cq_summary q)
               (build_deterministic_summary (re_dots env) title content (Some ty) MAX_SUMMARY_CHARS)),
             mr_type = ty, mr_status = status, mr_created_at = created, mr_updated_at = str_or (cq_updated q) created,
             mr_read_count = 0, mr_access_score = 0, mr_last_accessed = None, mr_last_surfaced = None,
             mr_metadata = serialize_metadata (cq_metadata q), mr_workspaces = ws, mr_tags = tags, mr_ref = None,
             mr_archived_at = (if status = ''archived'' then Some (re_now env (2 * k + 1)) else None)\<rparr>)))))"

fun prepare_all :: "repo_env \<Rightarrow> nat \<Rightarrow> create_request list \<Rightarrow> memory_record list res" where
  "prepare_all env k [] = Inr []"
| "prepare_all env k (q # qs) = bind_res (prepare_create env k q) (\<lambda>r. bind_res (prepare_all env (Suc k) qs) (\<lambda>rs. Inr (r # rs)))"

definition insert_fts_row :: "memory_record \<Rightarrow> string list \<Rightarrow> action_db \<Rightarrow> action_db" where
  "insert_fts_row r tags db = db\<lparr>ad_fts := ad_fts db @ [\<lparr>fr_id = mr_id r, fr_title = mr_title r,
     fr_summary = str_or (mr_summary r) [], fr_content = mr_content r, fr_tags = tags\<rparr>]\<rparr>"

text \<open>The rows of a batch, in one transaction: an identifier that is taken rolls all of it back.\<close>

fun insert_memories :: "int \<Rightarrow> memory_record list \<Rightarrow> repo \<Rightarrow> repo option" where
  "insert_memories n [] st = Some st"
| "insert_memories n (r # rs) st =
     (if find_memory (mr_id r) (rp_db st) \<noteq> None then None
      else insert_memories (n + 1) rs (count_keyword (1 + length (mr_workspaces r)) (on_tables (\<lambda>db.
        insert_fts_row r (mr_tags r) (db\<lparr>ad_memories := ad_memories db @ [r\<lparr>mr_ref := Some n\<rparr>]\<rparr>)) st)))"

fun created_records :: "int \<Rightarrow> memory_record list \<Rightarrow> memory_record list" where
  "created_records n [] = []"
| "created_records n (r # rs) =
     r\<lparr>mr_ref := Some n, mr_workspaces := sort (mr_workspaces r), mr_tags := sort (mr_tags r)\<rparr> # created_records (n + 1) rs"

definition create_memories :: "repo_env \<Rightarrow> create_request list \<Rightarrow> memory_record list repo_op" where
  "create_memories env qs st = (case prepare_all env 0 qs of
       Inl e \<Rightarrow> (Inl e, st)
     | Inr rs \<Rightarrow> (case insert_memories (next_ref (rp_db st)) rs st of
           None \<Rightarrow> (Inl IntegrityError, st)
         | Some st' \<Rightarrow> (Inr (created_records (next_ref (rp_db st)) rs), st')))"

definition create_memory :: "repo_env \<Rightarrow> create_request \<Rightarrow> memory_record option repo_op" where
  "create_memory env q st = (case create_memories env [q] st of
       (Inl e, st') \<Rightarrow> (Inl e, st')
     | (Inr [], st') \<Rightarrow> (Inr None, st')
     | (Inr (r # rs), st') \<Rightarrow> (Inr (get_memory (mr_id r) (rp_db st')), st'))"

section \<open>Links\<close>

text \<open>\<open>INSERT OR REPLACE\<close>: a row with the key goes, the new one comes last. A source that is not there breaks the foreign key.\<close>

definition add_link :: "string \<Rightarrow> string \<Rightarrow> string \<Rightarrow> string \<Rightarrow> memory_link repo_op" where
  "add_link src tgt link_type ctx st = (case normalize_link_type link_type of
       Inl e \<Rightarrow> (Inl e, st)
     | Inr ty \<Rightarrow>
         let l = \<lparr>ml_source = src, ml_target = tgt, ml_type = ty, ml_context = py_strip ctx\<rparr> in
         if find_memory src (rp_db st) = None then (Inl IntegrityError, st)
         else (Inr l, count_graph 1 (on_tables (\<lambda>db. db\<lparr>ad_links := filter (\<lambda>k. link_key k \<noteq> link_key l) (ad_links db) @ [l]\<rparr>) st)))"

definition remove_link :: "string \<Rightarrow> string \<Rightarrow> string \<Rightarrow> bool repo_op" where
  "remove_link src tgt link_type st = (case normalize_link_type link_type of
       Inl e \<Rightarrow> (Inl e, st)
     | Inr ty \<Rightarrow>
         let n = rowcount (\<lambda>l. link_key l = (src, tgt, ty)) (ad_links (rp_db st)) in
         (Inr (n > 0), count_graph n (on_tables (\<lambda>db. db\<lparr>ad_links := filter (\<lambda>l. link_key l \<noteq> (src, tgt, ty)) (ad_links db)\<rparr>) st)))"

section \<open>Deletion and telemetry\<close>

definition delete_memory :: "string \<Rightarrow> memory_record option repo_op" where
  "delete_memory s st = (case resolve_memory_id s (rp_db st) of
       None \<Rightarrow> (Inr None, st)
     | Some i \<Rightarrow>
         (case find_memory i (rp_db st) of
            None \<Rightarrow> (Inr None, st)
          | Some r \<Rightarrow>
              let n = rowcount (\<lambda>l. ml_source l = i \<or> ml_target l = i) (ad_links (rp_db st)) in
              (Inr (Some (hydrate_record r)), count_keyword (1 + length (mr_workspaces r)) (count_graph n (on_tables (\<lambda>db.
                db\<lparr>ad_links := filter (\<lambda>l. \<not> (ml_source l = i \<or> ml_target l = i)) (ad_links db),
                   ad_fts := filter (\<lambda>f. fr_id f \<noteq> i) (ad_fts db),
                   ad_memories := filter (\<lambda>r. mr_id r \<noteq> i) (ad_memories db)\<rparr>) st)))))"

text \<open>\<open>locked\<close> is the message of the \<open>OperationalError\<close> that the update may raise.\<close>

definition touch_last_surfaced :: "string option \<Rightarrow> string list \<Rightarrow> string \<Rightarrow> bool \<Rightarrow> nat repo_op" where
  "touch_last_surfaced locked ids surfaced_at best_effort st =
     (let resolved = resolved_ids ids (rp_db st) in
      if resolved = [] then (Inr 0, st)
      else case locked of
          Some m \<Rightarrow> (if \<not> best_effort \<or> \<not> str_contains ''locked'' (py_lower m) then Inl (OperationalError m) else Inr 0, st)
        | None \<Rightarrow>
            let n = rowcount (\<lambda>r. mr_id r \<in> set resolved) (ad_memories (rp_db st)) in
            (Inr n, count_keyword n (on_tables (\<lambda>db. db\<lparr>ad_memories := update_where (\<lambda>r. mr_id r \<in> set resolved)
              (\<lambda>r. r\<lparr>mr_last_surfaced := Some surfaced_at\<rparr>) (ad_memories db)\<rparr>) st)))"

definition record_access :: "string \<Rightarrow> real \<Rightarrow> string \<Rightarrow> bool \<Rightarrow> memory_record option repo_op" where
  "record_access s score accessed_at increment st = (case resolve_memory_id s (rp_db st) of
       None \<Rightarrow> (Inr None, st)
     | Some i \<Rightarrow>
         let st' = count_keyword 1 (on_tables (\<lambda>db. db\<lparr>ad_memories := update_where (\<lambda>r. mr_id r = i)
               (\<lambda>r. r\<lparr>mr_read_count := (if increment then mr_read_count r + 1 else mr_read_count r), mr_access_score := score,
                 mr_last_accessed := Some accessed_at\<rparr>) (ad_memories db)\<rparr>) st)
         in (Inr (get_memory i (rp_db st')), st'))"

section \<open>Updates\<close>

definition append_workspace_ids :: "repo_env \<Rightarrow> string \<Rightarrow> string list \<Rightarrow> memory_record option repo_op" where
  "append_workspace_ids env s ws st = (case resolve_memory_id s (rp_db st) of
       None \<Rightarrow> (Inr None, st)
     | Some i \<Rightarrow>
         if normalize_values ws = [] then (Inr (get_memory i (rp_db st)), st)
         else (case get_memory i (rp_db st) of
             None \<Rightarrow> (Inr None, st)
           | Some current \<Rightarrow>
               let merged = normalize_values (mr_workspaces current @ normalize_values ws);
                   st' = count_keyword (length (mr_workspaces current) + length merged + 1) (on_tables (\<lambda>db.
                     db\<lparr>ad_memories := update_where (\<lambda>r. mr_id r = i)
                       (\<lambda>r. r\<lparr>mr_workspaces := merged, mr_updated_at := re_now env 0\<rparr>) (ad_memories db)\<rparr>) st)
               in (Inr (get_memory i (rp_db st')), st')))"

text \<open>\<open>uq_summary\<close> is \<open>None\<close> when the argument is not given.\<close>

record update_request =
  uq_title :: "string option"
  uq_content :: "string option"
  uq_summary :: "string option option"
  uq_type :: "string option"
  uq_status :: "string option"
  uq_metadata :: "dict option"
  uq_workspaces :: "string list option"
  uq_tags :: "string list option"
  uq_access_score :: "real option"
  uq_last_accessed :: "string option"
  uq_last_surfaced :: "string option"

definition optional_check :: "('a \<Rightarrow> 'b res) \<Rightarrow> 'a option \<Rightarrow> 'b option res" where
  "optional_check f x = (case x of None \<Rightarrow> Inr None | Some v \<Rightarrow> bind_res (f v) (\<lambda>w. Inr (Some w)))"

text \<open>The checked arguments: type, status, title and content.\<close>

definition check_update :: "update_request \<Rightarrow> (string option \<times> string option \<times> string option \<times> string option) res" where
  "check_update u =
     bind_res (optional_check validate_memory_type (uq_type u)) (\<lambda>ty.
     bind_res (optional_check validate_memory_status (uq_status u)) (\<lambda>status.
     bind_res (optional_check (\<lambda>t. bind_res (validate_required_text ''title'' (py_strip t)) (\<lambda>_. Inr (py_strip t))) (uq_title u)) (\<lambda>title.
     bind_res (optional_check (\<lambda>t. bind_res (validate_required_text ''content'' (py_strip t)) (\<lambda>_. Inr (py_strip t))) (uq_content u)) (\<lambda>content.
       if (case uq_workspaces u of None \<Rightarrow> False | Some ws \<Rightarrow> normalize_values ws = [])
       then Inl (ValueError ''workspace_ids must contain at least one non-empty value'')
       else Inr (ty, status, title, content)))))"

definition column :: "'a option \<Rightarrow> 'a \<Rightarrow> 'a" where
  "column new old = (case new of None \<Rightarrow> old | Some v \<Rightarrow> v)"

definition resolved_summary ::
  "repo_env \<Rightarrow> memory_record \<Rightarrow> update_request \<Rightarrow> string option \<Rightarrow> string option \<Rightarrow> string option \<Rightarrow> string option" where
  "resolved_summary env r u ty title content = (case uq_summary u of
       Some explicit \<Rightarrow> explicit
     | None \<Rightarrow>
         if title = None \<and> content = None \<and> ty = None then None
         else Some (build_deterministic_summary (re_dots env) (str_or title (mr_title r)) (str_or content (mr_content r))
           (Some (str_or ty (mr_type r))) MAX_SUMMARY_CHARS))"

text \<open>The row after the update. A summary of \<open>None\<close> leaves the column as it is.\<close>

definition updated_row ::
  "repo_env \<Rightarrow> update_request \<Rightarrow> string option \<times> string option \<times> string option \<times> string option \<Rightarrow> memory_record \<Rightarrow> memory_record" where
  "updated_row env u checked r = (case checked of (ty, status, title, content) \<Rightarrow>
     r\<lparr>mr_title := column title (mr_title r), mr_content := column content (mr_content r),
       mr_summary := (case resolved_summary env r u ty title content of None \<Rightarrow> mr_summary r | Some v \<Rightarrow> Some v),
       mr_type := column ty (mr_type r), mr_status := column status (mr_status r),
       mr_access_score := column (uq_access_score u) (mr_access_score r),
       mr_last_accessed := (case uq_last_accessed u of None \<Rightarrow> mr_last_accessed r | Some v \<Rightarrow> Some v),
       mr_last_surfaced := (case uq_last_surfaced u of None \<Rightarrow> mr_last_surfaced r | Some v \<Rightarrow> Some v),
       mr_metadata := (case uq_metadata u of None \<Rightarrow> mr_metadata r | Some d \<Rightarrow> serialize_metadata (Some d)),
       mr_archived_at := (if status = None \<or> status = Some (mr_status r) then mr_archived_at r
         else if status = Some ''archived'' then Some (re_now env 0) else None),
       mr_updated_at := re_now env 1,
       mr_workspaces := (case uq_workspaces u of None \<Rightarrow> mr_workspaces r | Some ws \<Rightarrow> normalize_values ws),
       mr_tags := (case uq_tags u of None \<Rightarrow> mr_tags r | Some ts \<Rightarrow> normalize_values ts)\<rparr>)"

definition fts_tags :: "update_request \<Rightarrow> memory_record \<Rightarrow> string list" where
  "fts_tags u r = (case uq_tags u of Some ts \<Rightarrow> normalize_values ts | None \<Rightarrow> sort (mr_tags r))"

text \<open>The rows of \<open>memory_workspaces\<close> that an update writes.\<close>

definition workspace_writes :: "update_request \<Rightarrow> memory_record \<Rightarrow> nat" where
  "workspace_writes u r = (case uq_workspaces u of None \<Rightarrow> 0 | Some ws \<Rightarrow> length (mr_workspaces r) + length (normalize_values ws))"

definition update_memory :: "repo_env \<Rightarrow> string \<Rightarrow> update_request \<Rightarrow> memory_record option repo_op" where
  "update_memory env s u st = (case resolve_memory_id s (rp_db st) of
       None \<Rightarrow> (Inr None, st)
     | Some i \<Rightarrow>
         (case check_update u of
            Inl e \<Rightarrow> (Inl e, st)
          | Inr checked \<Rightarrow>
              (case find_memory i (rp_db st) of
                 None \<Rightarrow> (Inr None, st)
               | Some r \<Rightarrow>
                   let new = updated_row env u checked r;
                       st' = count_keyword (1 + workspace_writes u r) (on_tables (\<lambda>db. insert_fts_row new (fts_tags u new)
                         (db\<lparr>ad_memories := update_where (\<lambda>r. mr_id r = i) (updated_row env u checked) (ad_memories db),
                             ad_fts := filter (\<lambda>f. fr_id f \<noteq> i) (ad_fts db)\<rparr>)) st)
                   in (Inr (get_memory i (rp_db st')), st'))))"

end
