(* ===== verification/RepositoryLaws.thy ===== *)
theory RepositoryLaws
  imports Repository ActionLaws
begin

text \<open>
  The invariant of the memory tables, that every write of the repository keeps it, and the search
  epochs: a write that changes a table changes an epoch.
\<close>

section \<open>The invariant\<close>

text \<open>A row of the search index shows its memory.\<close>

definition fts_shows :: "memory_record \<Rightarrow> fts_row \<Rightarrow> bool" where
  "fts_shows r f = (fr_id f = mr_id r \<and> fr_title f = mr_title r \<and> fr_summary f = str_or (mr_summary r) []
     \<and> fr_content f = mr_content r \<and> set (fr_tags f) = set (mr_tags r))"

definition row_ok :: "memory_record \<Rightarrow> bool" where
  "row_ok r = (mr_title r \<noteq> [] \<and> mr_content r \<noteq> [] \<and> mr_type r \<in> set VALID_MEMORY_TYPES
     \<and> mr_status r \<in> set VALID_MEMORY_STATUSES \<and> mr_workspaces r \<noteq> [] \<and> distinct (mr_workspaces r)
     \<and> distinct (mr_tags r) \<and> (case mr_ref r of None \<Rightarrow> False | Some n \<Rightarrow> 1 \<le> n))"

definition indexed :: "memory_record list \<Rightarrow> fts_row list \<Rightarrow> bool" where
  "indexed rs fs = (distinct (map fr_id fs) \<and> fr_id ` set fs = mr_id ` set rs
     \<and> (\<forall>r \<in> set rs. \<exists>f \<in> set fs. fts_shows r f))"

definition repository_ok :: "action_db \<Rightarrow> bool" where
  "repository_ok db =
     (distinct (map mr_id (ad_memories db)) \<and> distinct (map mr_ref (ad_memories db))
      \<and> (\<forall>r \<in> set (ad_memories db). row_ok r)
      \<and> links_anchored db \<and> distinct (map link_key (ad_links db))
      \<and> indexed (ad_memories db) (ad_fts db))"

lemma repository_okD:
  assumes "repository_ok db"
  shows "distinct (map mr_id (ad_memories db))" "distinct (map mr_ref (ad_memories db))"
    "r \<in> set (ad_memories db) \<Longrightarrow> row_ok r" "links_anchored db" "distinct (map link_key (ad_links db))"
    "indexed (ad_memories db) (ad_fts db)"
  using assms by (simp_all add: repository_ok_def)

lemma links_anchored_ids:
  "links_anchored db = (ml_source ` set (ad_links db) \<subseteq> mr_id ` set (ad_memories db))"
  by (auto simp: links_anchored_def find_memory_None_iff)

section \<open>References\<close>

lemma fold_max_ge: "(m :: int) \<le> fold max ns m" "n \<in> set ns \<Longrightarrow> n \<le> fold max ns m"
  by (induction ns arbitrary: m) (auto, (metis max.cobounded1 max.cobounded2 order_trans)+)

lemma next_ref_above:
  assumes "r \<in> set (ad_memories db)" and "mr_ref r = Some n"
  shows "n < next_ref db"
proof -
  have "n \<in> set (List.map_filter mr_ref (ad_memories db))" using assms by (force simp: List.map_filter_def)
  then show ?thesis
    by (auto simp: next_ref_def split: list.splits intro: le_imp_less_Suc dest: fold_max_ge(2))
      (metis fold_max_ge zle_add1_eq_le)+
qed

lemma next_ref_positive:
  assumes "\<forall>r \<in> set (ad_memories db). row_ok r"
  shows "1 \<le> next_ref db"
proof (cases "List.map_filter mr_ref (ad_memories db)")
  case (Cons n ns)
  then have "n \<in> set (List.map_filter mr_ref (ad_memories db))" by simp
  then have "1 \<le> n" using assms by (auto simp: List.map_filter_def row_ok_def split: option.splits)
  then show ?thesis using Cons fold_max_ge(1) [of n ns] by (simp add: next_ref_def)
qed (simp add: next_ref_def)

section \<open>Values\<close>

lemma normalize_values_props [simp]:
  "distinct (normalize_values vs)" "v \<in> set (normalize_values vs) \<Longrightarrow> v \<noteq> []"
  by (auto simp: normalize_values_def)

lemma set_normalize_values: "set (normalize_values vs) = py_strip ` set vs - {[]}"
  unfolding normalize_values_def set_ordered_unique set_filter set_map by blast

lemma validate_memory_type_ok: "validate_memory_type s = Inr t \<Longrightarrow> t \<in> set VALID_MEMORY_TYPES"
  by (auto simp: validate_memory_type_def split: if_splits)

lemma validate_memory_status_ok: "validate_memory_status s = Inr t \<Longrightarrow> t \<in> set VALID_MEMORY_STATUSES"
  by (auto simp: validate_memory_status_def split: if_splits)

lemma bind_res_InrD: "bind_res m f = Inr y \<longleftrightarrow> (\<exists>x. m = Inr x \<and> f x = Inr y)"
  by (cases m) auto

section \<open>Changes of rows in place\<close>

text \<open>An update of columns that the index does not show.\<close>

lemma repository_ok_columns:
  assumes ok: "repository_ok db"
    and keep: "\<And>r. mr_id (f r) = mr_id r" "\<And>r. mr_ref (f r) = mr_ref r" "\<And>r. mr_title (f r) = mr_title r"
      "\<And>r. mr_summary (f r) = mr_summary r" "\<And>r. mr_content (f r) = mr_content r" "\<And>r. mr_tags (f r) = mr_tags r"
    and row: "\<And>r. row_ok r \<Longrightarrow> row_ok (f r)"
  shows "repository_ok (db\<lparr>ad_memories := update_where p f (ad_memories db)\<rparr>)"
proof -
  have ids: "map mr_id (update_where p f (ad_memories db)) = map mr_id (ad_memories db)"
    by (rule map_update_where) (rule keep)
  have refs: "map mr_ref (update_where p f (ad_memories db)) = map mr_ref (ad_memories db)"
    by (rule map_update_where) (rule keep)
  have idset: "mr_id ` set (update_where p f (ad_memories db)) = mr_id ` set (ad_memories db)"
    using arg_cong [OF ids, where f = set] by simp
  have shows': "fts_shows (if p r then f r else r) g = fts_shows r g" for r g
    by (simp add: fts_shows_def keep)
  have "indexed (update_where p f (ad_memories db)) (ad_fts db)"
    unfolding indexed_def idset
  proof (intro conjI ballI)
    fix q assume "q \<in> set (update_where p f (ad_memories db))"
    then obtain r where r: "r \<in> set (ad_memories db)" "q = (if p r then f r else r)" unfolding in_update_where by blast
    obtain g where "g \<in> set (ad_fts db)" "fts_shows r g" using repository_okD(6) [OF ok] r(1) unfolding indexed_def by blast
    then show "\<exists>g \<in> set (ad_fts db). fts_shows q g" unfolding r(2) shows' by blast
  qed (use repository_okD(6) [OF ok] in \<open>simp_all add: indexed_def\<close>)
  moreover have "\<forall>r \<in> set (update_where p f (ad_memories db)). row_ok r"
    using repository_okD(3) [OF ok] row by (auto simp: in_update_where)
  ultimately show ?thesis
    using repository_okD [OF ok] by (simp add: repository_ok_def ids refs links_anchored_ids idset)
qed

text \<open>A row and its row of the index, written anew.\<close>

lemma repository_ok_rewrite:
  assumes ok: "repository_ok db" and row: "r0 \<in> set (ad_memories db)" and id: "mr_id r0 = i"
    and keep: "\<And>r. mr_id (f r) = mr_id r" "\<And>r. mr_ref (f r) = mr_ref r"
    and okf: "row_ok (f r0)" and tags: "set ts = set (mr_tags (f r0))"
  shows "repository_ok (insert_fts_row (f r0) ts (db\<lparr>ad_memories := update_where (\<lambda>r. mr_id r = i) f (ad_memories db),
    ad_fts := filter (\<lambda>g. fr_id g \<noteq> i) (ad_fts db)\<rparr>))"
proof -
  let ?ms = "update_where (\<lambda>r. mr_id r = i) f (ad_memories db)"
  let ?new = "\<lparr>fr_id = mr_id (f r0), fr_title = mr_title (f r0), fr_summary = str_or (mr_summary (f r0)) [],
    fr_content = mr_content (f r0), fr_tags = ts\<rparr>"
  let ?fs = "filter (\<lambda>g. fr_id g \<noteq> i) (ad_fts db) @ [?new]"
  have ids: "map mr_id ?ms = map mr_id (ad_memories db)" by (rule map_update_where) (rule keep)
  have refs: "map mr_ref ?ms = map mr_ref (ad_memories db)" by (rule map_update_where) (rule keep)
  have idset: "mr_id ` set ?ms = mr_id ` set (ad_memories db)"
    using arg_cong [OF ids, where f = set] by simp
  have "set ?ms = insert (f r0) (set (ad_memories db) - {r0})"
    by (rule set_update_where_key [OF repository_okD(1) [OF ok] row]) (simp_all add: id)
  note rows = this
  have others: "mr_id r \<noteq> i" if "r \<in> set (ad_memories db) - {r0}" for r
    using that row id repository_okD(1) [OF ok] by (auto simp: distinct_map dest: inj_onD)
  note ix = repository_okD(6) [OF ok, unfolded indexed_def]
  have "\<exists>g \<in> set ?fs. fts_shows r g" if "r \<in> set ?ms" for r
  proof (cases "r = f r0")
    case True
    then have "fts_shows r ?new" by (simp add: fts_shows_def tags)
    then show ?thesis by (intro bexI [where x = ?new]) simp_all
  next
    case False
    then have old: "r \<in> set (ad_memories db) - {r0}" using that unfolding rows by blast
    then obtain g where g: "g \<in> set (ad_fts db)" "fts_shows r g" using ix by blast
    then have "fr_id g \<noteq> i" using others [OF old] by (simp add: fts_shows_def)
    with g show ?thesis by (intro bexI [where x = g]) simp_all
  qed
  moreover have "distinct (map fr_id ?fs)" using ix by (auto simp: keep id distinct_map_filter)
  moreover have "fr_id ` set ?fs = mr_id ` set ?ms"
  proof -
    have "fr_id ` set ?fs = insert i (fr_id ` set (ad_fts db) - {i})" by (auto simp: keep id)
    also have "\<dots> = mr_id ` set (ad_memories db)" using ix row id by auto
    finally show ?thesis by (simp add: idset)
  qed
  ultimately have "indexed ?ms ?fs" by (simp add: indexed_def)
  moreover have "\<forall>r \<in> set ?ms. row_ok r" using repository_okD(3) [OF ok] okf unfolding rows by auto
  ultimately show ?thesis
    using repository_okD [OF ok] by (simp add: repository_ok_def insert_fts_row_def ids refs links_anchored_ids idset)
qed

section \<open>Insertion\<close>

lemma repository_ok_insert:
  assumes ok: "repository_ok db" and new: "find_memory (mr_id r) db = None"
    and row: "row_ok (r\<lparr>mr_ref := Some n\<rparr>)" and fresh: "\<forall>q \<in> set (ad_memories db). mr_ref q \<noteq> Some n"
  shows "repository_ok (insert_fts_row r (mr_tags r) (db\<lparr>ad_memories := ad_memories db @ [r\<lparr>mr_ref := Some n\<rparr>]\<rparr>))"
proof -
  have id: "mr_id r \<notin> mr_id ` set (ad_memories db)" using new by (simp add: find_memory_None_iff)
  note ix = repository_okD(6) [OF ok, unfolded indexed_def]
  have "indexed (ad_memories db @ [r\<lparr>mr_ref := Some n\<rparr>]) (ad_fts db @ [\<lparr>fr_id = mr_id r, fr_title = mr_title r,
     fr_summary = str_or (mr_summary r) [], fr_content = mr_content r, fr_tags = mr_tags r\<rparr>])"
    using ix id by (auto simp: indexed_def fts_shows_def)
  moreover have "Some n \<notin> mr_ref ` set (ad_memories db)" using fresh by auto
  ultimately show ?thesis
    using repository_okD [OF ok] id row
    by (auto simp: repository_ok_def insert_fts_row_def links_anchored_ids)
qed

lemma prepare_create_ok:
  assumes "prepare_create env k q = Inr r" and "1 \<le> n"
  shows "row_ok (r\<lparr>mr_ref := Some n\<rparr>)"
  using assms validate_memory_type_ok validate_memory_status_ok
  by (auto simp: prepare_create_def Let_def bind_res_InrD validate_required_text_def row_ok_def split: if_splits)

lemma prepare_all_ok:
  "prepare_all env k qs = Inr rs \<Longrightarrow> r \<in> set rs \<Longrightarrow> 1 \<le> n \<Longrightarrow> row_ok (r\<lparr>mr_ref := Some n\<rparr>)"
proof (induction qs arbitrary: k rs)
  case (Cons q qs)
  then show ?case by (auto simp: bind_res_InrD intro: prepare_create_ok)
qed simp

lemma insert_memories_ok:
  assumes "insert_memories n rs st = Some st'" and "repository_ok (rp_db st)" and "1 \<le> n"
    and "\<forall>q \<in> set (ad_memories (rp_db st)). \<forall>m. mr_ref q = Some m \<longrightarrow> m < n"
    and "\<forall>r \<in> set rs. \<forall>m \<ge> 1. row_ok (r\<lparr>mr_ref := Some m\<rparr>)"
  shows "repository_ok (rp_db st')"
  using assms
proof (induction n rs st rule: insert_memories.induct)
  case (2 n r rs st)
  let ?db = "insert_fts_row r (mr_tags r) ((rp_db st)\<lparr>ad_memories := ad_memories (rp_db st) @ [r\<lparr>mr_ref := Some n\<rparr>]\<rparr>)"
  let ?st = "count_keyword (1 + length (mr_workspaces r)) (on_tables (\<lambda>db.
        insert_fts_row r (mr_tags r) (db\<lparr>ad_memories := ad_memories db @ [r\<lparr>mr_ref := Some n\<rparr>]\<rparr>)) st)"
  have none: "find_memory (mr_id r) (rp_db st) = None" using "2.prems"(1) by (simp split: if_splits)
  then have rest: "insert_memories (n + 1) rs ?st = Some st'" using "2.prems"(1) by simp
  have db: "rp_db ?st = ?db" by (simp add: count_keyword_def on_tables_def)
  have "repository_ok ?db"
    using "2.prems"(2-5) none by (intro repository_ok_insert) fastforce+
  moreover have "\<forall>q \<in> set (ad_memories ?db). \<forall>m. mr_ref q = Some m \<longrightarrow> m < n + 1"
    using "2.prems"(4) by (fastforce simp: insert_fts_row_def)
  ultimately show ?case
    using "2.IH" [OF _ rest] none "2.prems"(3,5) unfolding db by simp
qed simp

lemma create_memories_ok:
  assumes "repository_ok (rp_db st)"
  shows "repository_ok (rp_db (snd (create_memories env qs st)))"
proof (cases "prepare_all env 0 qs")
  case (Inr rs)
  have pos: "1 \<le> next_ref (rp_db st)" using assms by (intro next_ref_positive) (simp add: repository_ok_def)
  show ?thesis
  proof (cases "insert_memories (next_ref (rp_db st)) rs st")
    case (Some st')
    have "repository_ok (rp_db st')"
    proof (rule insert_memories_ok [OF Some assms pos])
      show "\<forall>q \<in> set (ad_memories (rp_db st)). \<forall>m. mr_ref q = Some m \<longrightarrow> m < next_ref (rp_db st)"
        by (simp add: next_ref_above)
      show "\<forall>r \<in> set rs. \<forall>m \<ge> 1. row_ok (r\<lparr>mr_ref := Some m\<rparr>)"
        using prepare_all_ok [OF Inr] by simp
    qed
    then show ?thesis using Inr Some by (simp add: create_memories_def)
  qed (use assms Inr in \<open>simp add: create_memories_def\<close>)
qed (use assms in \<open>simp add: create_memories_def\<close>)

section \<open>The other writes\<close>

lemma on_tables_db [simp]:
  "rp_db (count_keyword n st) = rp_db st" "rp_db (count_graph n st) = rp_db st"
  "rp_db (on_tables f st) = f (rp_db st)"
  by (simp_all add: count_keyword_def count_graph_def on_tables_def)

lemma add_link_ok: "repository_ok (rp_db st) \<Longrightarrow> repository_ok (rp_db (snd (add_link src tgt ty ctx st)))"
  by (auto simp: add_link_def Let_def repository_ok_def links_anchored_ids find_memory_None_iff distinct_map_filter
      link_key_def split: sum.split)

lemma remove_link_ok: "repository_ok (rp_db st) \<Longrightarrow> repository_ok (rp_db (snd (remove_link src tgt ty st)))"
  by (auto simp: remove_link_def Let_def repository_ok_def links_anchored_ids distinct_map_filter split: sum.split)

lemma find_memory_mem: "find_memory i db = Some r \<Longrightarrow> r \<in> set (ad_memories db) \<and> mr_id r = i"
  unfolding find_memory_def by (rule find_SomeD)

lemma delete_memory_ok:
  assumes ok: "repository_ok (rp_db st)"
  shows "repository_ok (rp_db (snd (delete_memory s st)))"
proof (cases "resolve_memory_id s (rp_db st)")
  case (Some i)
  show ?thesis
  proof (cases "find_memory i (rp_db st)")
    case found: (Some r)
    let ?ms = "filter (\<lambda>r. mr_id r \<noteq> i) (ad_memories (rp_db st))"
    let ?fs = "filter (\<lambda>f. fr_id f \<noteq> i) (ad_fts (rp_db st))"
    note ix = repository_okD(6) [OF ok, unfolded indexed_def]
    have "\<exists>f \<in> set ?fs. fts_shows q f" if q: "q \<in> set ?ms" for q
    proof -
      obtain f where f: "f \<in> set (ad_fts (rp_db st))" "fts_shows q f" using q ix by auto
      with q have "fr_id f \<noteq> i" by (simp add: fts_shows_def)
      with f show ?thesis by auto
    qed
    moreover have "fr_id ` set ?fs = mr_id ` set ?ms"
    proof -
      have "fr_id ` set ?fs = fr_id ` set (ad_fts (rp_db st)) - {i}" by auto
      also have "\<dots> = mr_id ` set (ad_memories (rp_db st)) - {i}" using ix by simp
      also have "\<dots> = mr_id ` set ?ms" by auto
      finally show ?thesis .
    qed
    ultimately have "indexed ?ms ?fs" using ix by (simp add: indexed_def distinct_map_filter)
    moreover have "ml_source ` set (filter (\<lambda>l. \<not> (ml_source l = i \<or> ml_target l = i)) (ad_links (rp_db st)))
        \<subseteq> mr_id ` set ?ms"
      using repository_okD(4) [OF ok, unfolded links_anchored_ids] by auto
    ultimately show ?thesis
      using Some found repository_okD [OF ok]
      by (simp add: delete_memory_def Let_def repository_ok_def links_anchored_ids distinct_map_filter)
  qed (use assms Some in \<open>simp add: delete_memory_def\<close>)
qed (use assms in \<open>simp add: delete_memory_def\<close>)

lemma touch_last_surfaced_ok:
  assumes "repository_ok (rp_db st)"
  shows "repository_ok (rp_db (snd (touch_last_surfaced locked ids t b st)))"
  using assms repository_ok_columns [OF assms, where f = "\<lambda>r. r\<lparr>mr_last_surfaced := Some t\<rparr>"]
  by (simp add: touch_last_surfaced_def Let_def row_ok_def split: option.split)

lemma record_access_ok:
  assumes "repository_ok (rp_db st)"
  shows "repository_ok (rp_db (snd (record_access s score t b st)))"
  using assms repository_ok_columns [OF assms, where f = "\<lambda>r. r\<lparr>mr_read_count := (if b then mr_read_count r + 1 else mr_read_count r),
      mr_access_score := score, mr_last_accessed := Some t\<rparr>"]
  by (simp add: record_access_def Let_def row_ok_def split: option.split)

lemma append_workspace_ids_ok:
  assumes ok: "repository_ok (rp_db st)"
  shows "repository_ok (rp_db (snd (append_workspace_ids env s ws st)))"
proof -
  have "repository_ok ((rp_db st)\<lparr>ad_memories := update_where (\<lambda>r. mr_id r = i)
      (\<lambda>r. r\<lparr>mr_workspaces := normalize_values (xs @ normalize_values ws), mr_updated_at := re_now env 0\<rparr>)
      (ad_memories (rp_db st))\<rparr>)" if "normalize_values ws \<noteq> []" for i xs
  proof (rule repository_ok_columns [OF ok])
    obtain v where "v \<in> set (normalize_values ws)" using \<open>normalize_values ws \<noteq> []\<close> by (cases "normalize_values ws") auto
    then have "v \<in> set (normalize_values (xs @ normalize_values ws))"
      unfolding set_normalize_values set_append by (metis (no_types, lifting) DiffD1 DiffD2 DiffI UnI2 imageE imageI py_strip_idem)
    then have "normalize_values (xs @ normalize_values ws) \<noteq> []" by auto
    then show "row_ok r \<Longrightarrow> row_ok (r\<lparr>mr_workspaces := normalize_values (xs @ normalize_values ws), mr_updated_at := re_now env 0\<rparr>)" for r
      by (simp add: row_ok_def)
  qed simp_all
  then show ?thesis using ok by (simp add: append_workspace_ids_def Let_def split: option.split)
qed

lemma bind_resE: "bind_res m f = Inr y \<Longrightarrow> (\<And>x. m = Inr x \<Longrightarrow> f x = Inr y \<Longrightarrow> P) \<Longrightarrow> P"
  by (cases m) auto

lemma optional_check_Inr: "optional_check f x = Inr (Some w) \<Longrightarrow> \<exists>v. x = Some v \<and> f v = Inr w"
  by (auto simp: optional_check_def bind_res_InrD split: option.splits)

lemma required_text_Inr:
  "bind_res (validate_required_text name t) (\<lambda>_. Inr t) = Inr w \<Longrightarrow> w \<noteq> []"
  by (auto simp: validate_required_text_def split: if_splits)

lemma check_update_ok:
  assumes "check_update u = Inr (ty, status, title, content)"
  shows "ty = Some v \<Longrightarrow> v \<in> set VALID_MEMORY_TYPES" "status = Some v \<Longrightarrow> v \<in> set VALID_MEMORY_STATUSES"
    "title = Some v \<Longrightarrow> v \<noteq> []" "content = Some v \<Longrightarrow> v \<noteq> []"
    "uq_workspaces u = Some ws \<Longrightarrow> normalize_values ws \<noteq> []"
proof -
  have parts: "optional_check validate_memory_type (uq_type u) = Inr ty"
    "optional_check validate_memory_status (uq_status u) = Inr status"
    "optional_check (\<lambda>t. bind_res (validate_required_text ''title'' (py_strip t)) (\<lambda>_. Inr (py_strip t))) (uq_title u) = Inr title"
    "optional_check (\<lambda>t. bind_res (validate_required_text ''content'' (py_strip t)) (\<lambda>_. Inr (py_strip t))) (uq_content u) = Inr content"
    "\<not> (case uq_workspaces u of None \<Rightarrow> False | Some ws \<Rightarrow> normalize_values ws = [])"
    using assms unfolding check_update_def by (elim bind_resE, simp split: if_splits)+
  show "v \<in> set VALID_MEMORY_TYPES" if "ty = Some v"
    using optional_check_Inr [OF parts(1) [unfolded that]] validate_memory_type_ok by metis
  show "v \<in> set VALID_MEMORY_STATUSES" if "status = Some v"
    using optional_check_Inr [OF parts(2) [unfolded that]] validate_memory_status_ok by metis
  show "v \<noteq> []" if "title = Some v"
    using optional_check_Inr [OF parts(3) [unfolded that]] required_text_Inr by metis
  show "v \<noteq> []" if "content = Some v"
    using optional_check_Inr [OF parts(4) [unfolded that]] required_text_Inr by metis
  show "uq_workspaces u = Some ws \<Longrightarrow> normalize_values ws \<noteq> []" using parts(5) by (auto split: option.splits)
qed

lemma updated_row_ok:
  assumes "check_update u = Inr c" and "row_ok r"
  shows "row_ok (updated_row env u c r)"
proof -
  obtain ty status title content where c: "c = (ty, status, title, content)" by (metis prod_cases4)
  note checked = check_update_ok [OF assms(1) [unfolded c]] and old = assms(2) [unfolded row_ok_def]
  let ?r = "updated_row env u (ty, status, title, content) r"
  have "mr_title ?r \<noteq> []" using checked(3) old by (cases title) (simp_all add: updated_row_def column_def)
  moreover have "mr_content ?r \<noteq> []" using checked(4) old by (cases content) (simp_all add: updated_row_def column_def)
  moreover have "mr_type ?r \<in> set VALID_MEMORY_TYPES" using checked(1) old by (cases ty) (simp_all add: updated_row_def column_def)
  moreover have "mr_status ?r \<in> set VALID_MEMORY_STATUSES"
    using checked(2) old by (cases status) (simp_all add: updated_row_def column_def)
  moreover have "mr_workspaces ?r \<noteq> [] \<and> distinct (mr_workspaces ?r)"
    using checked(5) old by (cases "uq_workspaces u") (simp_all add: updated_row_def)
  moreover have "distinct (mr_tags ?r)" using old by (cases "uq_tags u") (simp_all add: updated_row_def)
  moreover have "mr_ref ?r = mr_ref r" by (simp add: updated_row_def)
  ultimately show ?thesis using old unfolding c row_ok_def by simp
qed

lemma updated_row_keeps: "mr_id (updated_row env u c r) = mr_id r" "mr_ref (updated_row env u c r) = mr_ref r"
  by (cases c, simp add: updated_row_def)+

lemma update_memory_ok:
  assumes ok: "repository_ok (rp_db st)"
  shows "repository_ok (rp_db (snd (update_memory env s u st)))"
proof -
  have "repository_ok (insert_fts_row (updated_row env u c r) (fts_tags u (updated_row env u c r))
      ((rp_db st)\<lparr>ad_memories := update_where (\<lambda>r. mr_id r = i) (updated_row env u c) (ad_memories (rp_db st)),
        ad_fts := filter (\<lambda>f. fr_id f \<noteq> i) (ad_fts (rp_db st))\<rparr>))"
    if "find_memory i (rp_db st) = Some r" and "check_update u = Inr c" for i r c
  proof (rule repository_ok_rewrite [OF ok])
    show "r \<in> set (ad_memories (rp_db st))" "mr_id r = i" using find_memory_mem [OF that(1)] by simp_all
    then show "row_ok (updated_row env u c r)" by (intro updated_row_ok [OF that(2)] repository_okD(3) [OF ok])
    show "set (fts_tags u (updated_row env u c r)) = set (mr_tags (updated_row env u c r))"
      by (cases c) (auto simp: fts_tags_def updated_row_def split: option.split)
  qed (rule updated_row_keeps)+
  then show ?thesis using ok by (simp add: update_memory_def Let_def split: option.split sum.split)
qed

end
