(* ===== verification/RepositoryProps.thy ===== *)
theory RepositoryProps
  imports RepositoryLaws
begin

text \<open>
  Properties of the relational repository: the invariant of its tables over any sequence of writes, that
  a created memory reads back, that the batched reads agree with the single ones, what a deletion
  leaves, and what the search epochs tell a cache.
\<close>

section \<open>Sequences of writes\<close>

inductive repo_step :: "repo \<Rightarrow> repo \<Rightarrow> bool" where
  step_create: "repo_step st (snd (create_memories env qs st))"
| step_add_link: "repo_step st (snd (add_link src tgt ty ctx st))"
| step_remove_link: "repo_step st (snd (remove_link src tgt ty st))"
| step_delete: "repo_step st (snd (delete_memory s st))"
| step_touch: "repo_step st (snd (touch_last_surfaced locked ids t b st))"
| step_access: "repo_step st (snd (record_access s score t b st))"
| step_append: "repo_step st (snd (append_workspace_ids env s ws st))"
| step_update: "repo_step st (snd (update_memory env s u st))"

inductive_cases repo_stepE: "repo_step st st'"

lemmas repo_step_oks = create_memories_ok add_link_ok remove_link_ok delete_memory_ok touch_last_surfaced_ok
  record_access_ok append_workspace_ids_ok update_memory_ok

lemma repo_step_ok: "repo_step st st' \<Longrightarrow> repository_ok (rp_db st) \<Longrightarrow> repository_ok (rp_db st')"
  by (induction rule: repo_step.induct) (simp_all add: repo_step_oks)

text \<open>C36. The repository keeps its tables well formed whatever sequence of its writes runs: identifiers and references
  are unique, every record is valid, links are unique and start at a memory, and the search index has exactly one row
  for each memory, with its title, summary, content and tags.\<close>

theorem repository_invariant:
  assumes "repo_step\<^sup>*\<^sup>* st st'" and "repository_ok (rp_db st)"
  shows "repository_ok (rp_db st')"
  using assms by (induction rule: rtranclp_induct) (blast intro: repo_step_ok)+

section \<open>A created memory reads back\<close>

fun numbered :: "int \<Rightarrow> memory_record list \<Rightarrow> memory_record list" where
  "numbered n [] = []"
| "numbered n (r # rs) = r\<lparr>mr_ref := Some n\<rparr> # numbered (n + 1) rs"

lemma insert_memories_rows:
  "insert_memories n rs st = Some st' \<Longrightarrow> ad_memories (rp_db st') = ad_memories (rp_db st) @ numbered n rs"
  by (induction n rs st rule: insert_memories.induct) (auto simp: insert_fts_row_def split: if_splits)

lemma created_numbered:
  "created_records n rs = map (\<lambda>r. r\<lparr>mr_workspaces := sort (mr_workspaces r), mr_tags := sort (mr_tags r)\<rparr>) (numbered n rs)"
  by (induction n rs rule: numbered.induct) simp_all

lemma find_by_ref:
  assumes "repository_ok db" and "r \<in> set (ad_memories db)" and "mr_ref r = Some n"
  shows "List.find (\<lambda>q. mr_ref q = Some n) (ad_memories db) = Some r"
  by (rule find_key [OF repository_okD(2) [OF assms(1)]]) (simp_all add: assms)

lemma find_by_id:
  assumes "repository_ok db" and "r \<in> set (ad_memories db)"
  shows "find_memory (mr_id r) db = Some r"
  unfolding find_memory_def by (rule find_key [OF repository_okD(1) [OF assms(1)]]) (simp_all add: assms)


section \<open>Batched reads\<close>

text \<open>The targets of the links that supersede are identifiers as they stand, not references.\<close>

definition plain_targets :: "action_db \<Rightarrow> bool" where
  "plain_targets db = (\<forall>l \<in> set (ad_links db). ml_type l = ''SUPERSEDES'' \<longrightarrow>
     py_strip (ml_target l) = ml_target l \<and> ml_target l \<noteq> []
     \<and> (find_memory (ml_target l) db = None \<longrightarrow> parse_memory_ref (ml_target l) = None))"

lemma links_by_ids_eq:
  assumes "i \<in> set ids" and "e = ml_source \<or> e = ml_target"
  shows "links_by_ids e ids db i = order_by (\<lambda>l. (ml_source l, ml_target l)) (filter (\<lambda>l. e l = i) (ad_links db))"
proof -
  have "filter (\<lambda>l. e l = i) (filter (\<lambda>l. ml_source l \<in> set ids \<or> ml_target l \<in> set ids) (ad_links db))
      = filter (\<lambda>l. e l = i) (ad_links db)"
    unfolding filter_filter using assms by (intro filter_cong) auto
  then show ?thesis using assms(1) by (simp add: links_by_ids_def filter_order_by)
qed

lemma links_of_known:
  assumes "find_memory i db \<noteq> None"
  shows "links_of i ''outgoing'' db = order_by (\<lambda>l. (ml_source l, ml_target l)) (filter (\<lambda>l. ml_source l = i) (ad_links db))"
    and "links_of i ''incoming'' db = order_by (\<lambda>l. (ml_source l, ml_target l)) (filter (\<lambda>l. ml_target l = i) (ad_links db))"
  using assms by (simp_all add: links_of_def get_links_def resolve_memory_id_def asked_def)

lemma get_memory_plain:
  assumes "find_memory i db = None \<longrightarrow> parse_memory_ref i = None"
  shows "get_memory i db = map_option hydrate_record (find_memory i db)"
  using assms by (cases "find_memory i db") (auto simp: get_memory_def resolve_memory_id_def)

lemma map_filter_cong': "(\<And>x. x \<in> set xs \<Longrightarrow> f x = g x) \<Longrightarrow> List.map_filter f xs = List.map_filter g xs"
  by (induction xs) (auto simp: List.map_filter_simps split: option.split)


section \<open>Deletion\<close>


section \<open>Search epochs\<close>

text \<open>A write either leaves the state as it is, or one more row of the tables is counted.\<close>

definition counted :: "repo \<Rightarrow> repo \<Rightarrow> bool" where
  "counted st st' = (rp_vector st' = rp_vector st \<and> rp_keyword st \<le> rp_keyword st' \<and> rp_graph st \<le> rp_graph st'
     \<and> (rp_db st' \<noteq> rp_db st \<longrightarrow> rp_keyword st + rp_graph st < rp_keyword st' + rp_graph st'))"

lemma counted_refl: "counted st st"
  by (simp add: counted_def)

lemma counted_trans: "counted st st1 \<Longrightarrow> counted st1 st2 \<Longrightarrow> counted st st2"
  unfolding counted_def by (cases "rp_db st1 = rp_db st") auto

lemma counted_keyword: "0 < n \<Longrightarrow> counted st (count_keyword n (on_tables f st))"
  by (simp add: counted_def count_keyword_def on_tables_def)

lemma counted_graph: "0 < n \<Longrightarrow> counted st (count_graph n (on_tables f st))"
  by (simp add: counted_def count_graph_def on_tables_def)

lemma insert_memories_counted: "insert_memories n rs st = Some st' \<Longrightarrow> counted st st'"
proof (induction n rs st rule: insert_memories.induct)
  case (2 n r rs st)
  then show ?case by (auto split: if_splits intro: counted_trans [OF counted_keyword])
qed (simp add: counted_refl)

lemma rowcount_positive: "x \<in> set xs \<Longrightarrow> p x \<Longrightarrow> 0 < rowcount p xs"
  by (induction xs) auto

lemma resolve_memory_known: "resolve_memory_id s db = Some i \<Longrightarrow> find_memory i db \<noteq> None"
  unfolding resolve_memory_id_def
  by (auto split: if_splits option.splits simp: find_memory_None_iff dest!: find_SomeD)

lemma touch_counted: "counted st (snd (touch_last_surfaced locked ids t b st))"
proof (cases "resolved_ids ids (rp_db st) = [] \<or> locked \<noteq> None")
  case False
  then obtain i where i: "i \<in> set (resolved_ids ids (rp_db st))" by (cases "resolved_ids ids (rp_db st)") auto
  then have "find_memory i (rp_db st) \<noteq> None"
    by (auto simp: resolved_ids_def List.map_filter_def dest: resolve_memory_known)
  then obtain r where "r \<in> set (ad_memories (rp_db st))" "mr_id r = i" by (auto dest: find_memory_mem)
  then have "0 < rowcount (\<lambda>r. mr_id r \<in> set (resolved_ids ids (rp_db st))) (ad_memories (rp_db st))"
    using i by (intro rowcount_positive) auto
  then show ?thesis using False by (simp add: touch_last_surfaced_def Let_def counted_keyword)
qed (auto simp: touch_last_surfaced_def Let_def counted_refl split: option.split)

lemma remove_link_counted: "counted st (snd (remove_link src tgt t st))"
proof (cases "normalize_link_type t")
  case (Inr ty)
  let ?n = "rowcount (\<lambda>l. link_key l = (src, tgt, ty)) (ad_links (rp_db st))"
  show ?thesis
  proof (cases "?n = 0")
    case True
    then have "filter (\<lambda>l. link_key l \<noteq> (src, tgt, ty)) (ad_links (rp_db st)) = ad_links (rp_db st)"
      by (simp add: rowcount_0_iff)
    then show ?thesis using Inr True by (simp add: remove_link_def counted_def count_graph_def on_tables_def)
  qed (simp add: Inr remove_link_def counted_graph)
qed (simp add: remove_link_def counted_refl)

lemma delete_counted: "counted st (snd (delete_memory s st))"
  by (auto simp: delete_memory_def counted_refl counted_def count_keyword_def count_graph_def on_tables_def Let_def
      split: option.split)

lemma repo_step_counted: "repo_step st st' \<Longrightarrow> counted st st'"
proof (induction rule: repo_step.induct)
  case (step_create st env qs)
  then show ?case
    by (auto simp: create_memories_def counted_refl intro: insert_memories_counted split: sum.split option.split)
qed (auto simp: touch_counted remove_link_counted delete_counted add_link_def record_access_def append_workspace_ids_def
    update_memory_def Let_def counted_refl intro: counted_keyword counted_graph split: sum.split option.split)

text \<open>C40. The search epochs tell every change: if they are the same after any sequence of writes, the tables are the same.\<close>

theorem equal_epochs_equal_tables:
  assumes "repo_step\<^sup>*\<^sup>* st st'" and "get_search_epochs st' = get_search_epochs st"
  shows "rp_db st' = rp_db st"
proof -
  have "counted st st'"
    using assms(1) by (induction rule: rtranclp_induct) (blast intro: counted_refl counted_trans repo_step_counted)+
  then show ?thesis using assms(2) unfolding counted_def get_search_epochs_def by auto
qed

section \<open>Updates\<close>

lemma update_memory_reads_back:
  assumes "repository_ok (rp_db st)" and "update_memory env s u st = (Inr (Some r), st')"
  shows "\<exists>old checked. check_update u = Inr checked \<and> old \<in> set (ad_memories (rp_db st)) \<and> mr_id old = mr_id r
    \<and> get_memory s (rp_db st) = Some (hydrate_record old) \<and> r = hydrate_record (updated_row env u checked old)
    \<and> get_memory (mr_id r) (rp_db st') = Some r
    \<and> (\<forall>j. j \<noteq> mr_id r \<longrightarrow> find_memory j (rp_db st') = find_memory j (rp_db st))"
proof -
  obtain i c old where i: "resolve_memory_id s (rp_db st) = Some i" "check_update u = Inr c" "find_memory i (rp_db st) = Some old"
    and r: "get_memory i (rp_db st') = Some r"
    and rows: "ad_memories (rp_db st') = update_where (\<lambda>r. mr_id r = i) (updated_row env u c) (ad_memories (rp_db st))"
    using assms(2) unfolding update_memory_def Let_def
    by (auto simp: insert_fts_row_def split: option.splits sum.splits)
  note old = find_memory_mem [OF i(3)]
  have found: "find_memory i (rp_db st') = Some (updated_row env u c old)"
    using find_update_where_key [OF repository_okD(1) [OF assms(1)], where r = old and p = "\<lambda>r. mr_id r = i" and f = "updated_row env u c"]
      old by (simp add: find_memory_def rows updated_row_keeps)
  then have new: "r = hydrate_record (updated_row env u c old)"
    using r by (simp add: get_memory_def resolve_memory_id_def)
  have id: "mr_id r = i" using old by (simp add: new hydrate_record_def updated_row_keeps)
  have "List.find (\<lambda>r. mr_id r = j) (update_where (\<lambda>r. mr_id r = i) (updated_row env u c) rs) = List.find (\<lambda>r. mr_id r = j) rs"
    if "j \<noteq> i" for j rs
    using that by (induction rs) (auto simp: updated_row_keeps)
  then have "find_memory j (rp_db st') = find_memory j (rp_db st)" if "j \<noteq> i" for j
    using that by (simp add: find_memory_def rows)
  moreover have "get_memory s (rp_db st) = Some (hydrate_record old)" by (simp add: get_memory_def i)
  moreover have "get_memory i (rp_db st') = Some r" by (rule r)
  ultimately show ?thesis unfolding id using i(2) old new by (intro exI [where x = old] exI [where x = c]) simp
qed

text \<open>A summary of \<open>None\<close> that is given does not clear the column.\<close>

lemma summary_never_cleared:
  assumes "uq_summary u = Some None"
  shows "mr_summary (updated_row env u checked r) = mr_summary r"
  using assms by (simp add: updated_row_def resolved_summary_def split: prod.split)

section \<open>Samples\<close>

definition empty_repo :: repo where
  "empty_repo = \<lparr>rp_db = \<lparr>ad_ledger = \<lparr>cd_runs = [], cd_receipts = [], cd_candidates = [], cd_broken = {}, cd_events = {}\<rparr>,
     ad_memories = [], ad_links = [], ad_fts = [], ad_protections = [], ad_repairs = [], ad_events = [],
     ad_record_revisions = [], ad_link_revisions = []\<rparr>, rp_keyword = 0, rp_vector = 0, rp_graph = 0\<rparr>"

definition clock_env :: repo_env where
  "clock_env = \<lparr>re_now = (\<lambda>k. ''t'' @ nat_digits k), re_new_id = (\<lambda>k. ''id'' @ nat_digits k), re_dots = CHR ''~''\<rparr>"

definition plan_request :: create_request where
  "plan_request = \<lparr>cq_title = '' Plan '', cq_content = ''Ship it'', cq_workspaces = [''w2'', ''w1'', ''w2''], cq_tags = [''b'', ''a,c''],
     cq_summary = Some ''sum'', cq_type = ''plan'', cq_status = ''archived'', cq_metadata = None, cq_id = Some ''p'',
     cq_created = None, cq_updated = None\<rparr>"

definition fact_request :: create_request where
  "fact_request = plan_request\<lparr>cq_title := ''Fact'', cq_type := ''fact'', cq_status := ''active'', cq_id := Some ''f''\<rparr>"

definition plan_record :: memory_record where
  "plan_record = \<lparr>mr_id = ''p'', mr_title = ''Plan'', mr_content = ''Ship it'', mr_summary = Some ''sum'', mr_type = ''plan'',
     mr_status = ''archived'', mr_created_at = ''t0'', mr_updated_at = ''t0'', mr_read_count = 0, mr_access_score = 0,
     mr_last_accessed = None, mr_last_surfaced = None, mr_metadata = [], mr_workspaces = [''w1'', ''w2''],
     mr_tags = [''a,c'', ''b''], mr_ref = Some 1, mr_archived_at = Some ''t1''\<rparr>"

definition fact_record :: memory_record where
  "fact_record = plan_record\<lparr>mr_id := ''f'', mr_title := ''Fact'', mr_type := ''fact'', mr_status := ''active'',
     mr_created_at := ''t2'', mr_updated_at := ''t2'', mr_ref := Some 2, mr_archived_at := None\<rparr>"

definition two_repo :: repo where
  "two_repo = empty_repo\<lparr>rp_db := (rp_db empty_repo)\<lparr>
       ad_memories := [plan_record\<lparr>mr_workspaces := [''w2'', ''w1''], mr_tags := [''b'', ''a,c'']\<rparr>,
         fact_record\<lparr>mr_workspaces := [''w2'', ''w1''], mr_tags := [''b'', ''a,c'']\<rparr>],
       ad_fts := [\<lparr>fr_id = ''p'', fr_title = ''Plan'', fr_summary = ''sum'', fr_content = ''Ship it'', fr_tags = [''b'', ''a,c'']\<rparr>,
         \<lparr>fr_id = ''f'', fr_title = ''Fact'', fr_summary = ''sum'', fr_content = ''Ship it'', fr_tags = [''b'', ''a,c'']\<rparr>]\<rparr>,
     rp_keyword := 6\<rparr>"

definition linked_repo :: repo where
  "linked_repo = snd (add_link ''f'' ''p'' ''supersedes'' ''why '' two_repo)"

lemma empty_repo_ok: "repository_ok (rp_db empty_repo)"
  by (simp add: repository_ok_def empty_repo_def links_anchored_def indexed_def)

lemma two_created:
  "create_memories clock_env [plan_request, fact_request] empty_repo = (Inr [plan_record, fact_record], two_repo)"
  by code_simp

lemma two_repo_ok: "repository_ok (rp_db two_repo)"
  using create_memories_ok [OF empty_repo_ok, of clock_env "[plan_request, fact_request]"] by (simp add: two_created)

lemma linked_repo_ok: "repository_ok (rp_db linked_repo)"
  unfolding linked_repo_def by (rule add_link_ok [OF two_repo_ok])

lemma repository_invariant_witness:
  "repository_ok (rp_db (snd (delete_memory ''mem-1'' (snd (create_memories clock_env [plan_request, fact_request] empty_repo)))))"
  by (rule repository_invariant [OF rtranclp.rtrancl_into_rtrancl [of repo_step, OF r_into_rtranclp [of repo_step, OF step_create] step_delete] empty_repo_ok])




lemma equal_epochs_equal_tables_witness:
  "rp_db (snd (remove_link ''f'' ''x'' ''amends'' two_repo)) = rp_db two_repo"
proof (rule equal_epochs_equal_tables [OF r_into_rtranclp [of repo_step, OF step_remove_link]])
  show "get_search_epochs (snd (remove_link ''f'' ''x'' ''amends'' two_repo)) = get_search_epochs two_repo" by code_simp
qed

section \<open>What a reader of the reads sees\<close>

text \<open>A tag with a comma is two tags in the batch of a search.\<close>

lemma searched_tags_split:
  "map mr_tags (get_searchable_memories [''f''] None True (rp_db two_repo)) = [[''b'', ''a'', ''c'']]
   \<and> map_option mr_tags (get_memory ''f'' (rp_db two_repo)) = Some [''a,c'', ''b'']"
  by code_simp

text \<open>The date of archiving is in the row and in the result of the creation, not in what is read.\<close>

lemma archived_at_not_read:
  "mr_archived_at plan_record = Some ''t1'' \<and> map_option mr_archived_at (get_memory ''p'' (rp_db two_repo)) = Some None
   \<and> map mr_archived_at (get_searchable_memories [''p''] None True (rp_db two_repo)) = [Some ''t1'']"
  by code_simp

text \<open>The reference of the newest memory goes to the next one when it is deleted.\<close>

lemma reference_reused:
  "(let st = snd (create_memories clock_env [fact_request] (snd (delete_memory ''mem-1'' (snd (create_memories clock_env [plan_request] empty_repo)))))
    in map_option mr_id (get_memory ''mem-1'' (rp_db st))) = Some ''f''"
  by code_simp

end
