(* ===== verification/Spec2Isabelle.thy ===== *)
theory Spec2Isabelle
  imports
    TaskQueueProps
    TaskQueueRecovery
    WorkItemProps
    JournalProps
    IngestProps
    SchedulingProps
    MaintenanceIdleProps
    LegacyDrain
    TaskAttempts
    ProviderAdmissionProps
    BufferedWriterProps
    WorkerChain
    CurationPolicyProps
    CurationProps
    RestoreEdits
    RepositoryProps
begin

text \<open>
  A verification development for mcp-memory, a memory server for AI agents (Python, under
  \<open>src/mcp_memory\<close>). Agents record thoughts in a journal; background tasks, claimed from a
  persistent queue by worker threads, consolidate them into memories with the help of language
  model providers, and keep the memories in shape. What can go wrong is concurrency and
  bookkeeping: two workers on one item, a lost thought, a task that is never retried or retried
  for ever, a budget that is overrun. The development models these parts statement by statement
  and proves that they do not.

  \<^bold>\<open>Parts and theories.\<close>

  \<^item> \<open>Prelude\<close>: Python values (JSON, dictionaries, strings, exceptions) and the SQL statements the
    stores are written with, with the lemmas and the collections (\<open>table_simps\<close>, \<open>op_defs\<close>) that
    carry the component proofs.
  \<^item> \<open>MaintenanceSchedule\<close>, \<open>TaskResults\<close>: the tables of task names, intervals, priorities and
    classes (\<open>core/maintenance_schedule.py\<close>, \<open>core/task_policy.py\<close>, \<open>core/task_handlers/constants.py\<close>)
    and the decoding of run results (\<open>core/task_results.py\<close>).
  \<^item> \<open>TaskQueue\<close>: the queue, \<open>storage/sqlite_task_queue.py\<close>. A \<open>taskdb\<close> is the two tables
    \<open>tasks\<close> and \<open>task_runs\<close>; there is one definition per method, under the method's name, which takes
    the clock and the fresh identifiers as arguments and returns the result or the exception and the
    new database. \<open>complete\<close> and \<open>fail\<close> are split into the read and the guarded write, since other
    processes may run in between. \<open>TaskQueueLaws\<close> has the step relation \<open>queue_step\<close>, one step per
    operation, and the move that each makes on the rows; \<open>TaskQueueProps\<close> and \<open>TaskQueueRecovery\<close>
    have the properties: well-formedness, the one cleanup lane, the order of claims, fencing by the
    execution epoch, the outcome of a failure, recovery, data mutation and summaries.
  \<^item> \<open>WorkItems\<close>, \<open>WorkItemLaws\<close>, \<open>WorkItemProps\<close>: leased work items,
    \<open>storage/sqlite_work_item_store.py\<close>. The locale \<open>lease_store\<close> states what a lease needs of a
    claim, and is interpreted on the store.
  \<^item> \<open>Journal\<close>, \<open>JournalLaws\<close>, \<open>JournalProps\<close>: the journal of thoughts, \<open>core/journal.py\<close>, and the
    graph of the states of an entry (\<open>entry_edge\<close>).
  \<^item> \<open>IngestClaims\<close>, \<open>IngestProps\<close>: what an ingest task records and how its claims are finalized,
    \<open>core/ingest_claim_lifecycle.py\<close>; the locale \<open>claim_journal\<close> is the contract of the journal it
    calls, interpreted on \<open>Journal\<close>.
  \<^item> \<open>Scheduling\<close>, \<open>SchedulingProps\<close>: when an ingest is scheduled, \<open>core/system1_scheduling.py\<close>, and
    summary refreshes, \<open>core/task_submission.py\<close>; the locale \<open>open_queue\<close> is the contract of the task
    queue they call through \<open>core/ports/tasks.py\<close>, interpreted on \<open>TaskQueue\<close>.
  \<^item> \<open>MaintenanceIdle\<close>, \<open>MaintenanceIdleProps\<close>: idle pauses, jitter, resumption and the draining of
    retired task families, \<open>core/maintenance_idle.py\<close> and \<open>core/recurring_jitter.py\<close>;
    \<open>LegacyDrain\<close> has the draining.
  \<^item> \<open>TaskAttempts\<close>: the log of execution attempts, \<open>task_execution_store.py\<close>, and its laws.
  \<^item> \<open>ProviderUsage\<close>, \<open>ProviderAdmission\<close>, \<open>ProviderAdmissionProps\<close>: calls of providers, their limits and
    back-offs, \<open>provider_usage_store.py\<close> and \<open>core/provider_admission.py\<close>; the locale \<open>usage_store\<close> is
    the contract of the usage port, interpreted on the store.
  \<^item> \<open>Conversations\<close>: the log of conversations with providers, in the same file.
  \<^item> \<open>EmbeddingRepairs\<close>: the queue of embedding repairs, \<open>embedding_repair_store.py\<close>, a second
    interpretation of \<open>lease_store\<close>.
  \<^item> The task worker, \<open>core/task_worker.py\<close>, over all of these stores, which make up its \<open>world\<close>:
    \<open>CuratorStartup\<close> has the marker of a starting provider and its parsing; \<open>TaskWorker\<close> the
    reconciliation pass; \<open>TaskProcess\<close> a task from its handler to its follow-up, the loop and the
    shutdown. \<open>TaskWorkerLaws\<close>, \<open>WorkerLeases\<close> (the locale \<open>running_leases\<close>, interpreted on work
    items and on repairs) and \<open>WorkerReconcile\<close> have the laws of each part, \<open>WorkerProps\<close> and
    \<open>WorkerChain\<close> the properties: recovery decides each row on its own; after a pass everything
    held is held by a running task; a recurring chain goes on; the shutdown.
  \<^item> \<open>BufferedWriter\<close>, \<open>BufferedWriterProps\<close>: \<open>storage/buffered_writer.py\<close>, its clients and its worker
    thread as interleaved steps under the lock.
  \<^item> Curation, the changes that agents make to memories through the server: \<open>CurationModels\<close> has the
    actions and the verification descriptors with their validators (\<open>core/curation_models.py\<close>),
    \<open>CurationPolicy\<close> the decision on an action (\<open>core/curation_policy.py\<close>), \<open>CurationStore\<close> the ledger
    of runs, receipts and candidates (\<open>curation_store.py\<close>), \<open>Memories\<close> the records
    (\<open>core/ports/memory.py\<close>), \<open>CanonicalIdentity\<close> the tokens of their states
    (\<open>utils/canonical_identity.py\<close>, \<open>core/curation_identity.py\<close>), \<open>CurationVerifier\<close> the verification of
    an applied action (\<open>core/curation_verifier.py\<close>) and \<open>CurationReconciler\<close> the recovery of runs after
    a crash (\<open>core/curation_reconciliation.py\<close>), in which every access to a database may fail before or
    after its effect. \<open>CurationLaws\<close> has the moves on the ledger, \<open>ReconcilerMoves\<close> the step relation
    \<open>recon_move\<close> that every recovery follows, \<open>ReconcilerProgress\<close> what recovery achieves when the faults
    pass, \<open>CurationLedger\<close> the ledger over time; \<open>CurationPolicyProps\<close> and \<open>CurationProps\<close> have the
    properties.
  \<^item> The application of a curation action: \<open>ActionTransaction\<close> has the transaction, with the calls
    that a callback may make on it (\<open>curation_action_uow.py\<close>, \<open>_SQLiteCurationTransaction\<close> of
    \<open>curation_action_store.py\<close>); a callback is any tree of calls that branches on their answers.
    \<open>ActionStore\<close> has \<open>execute_action\<close> from the guards to the receipt, and the batch of
    \<open>curation_batch_executor.py\<close>; \<open>ActionLaws\<close> the rules for partial correctness of a transaction and the
    invariant \<open>confined\<close> of every callback; \<open>ActionProps\<close> and \<open>ActionVerified\<close> the properties, the
    latter together with the verifier.
  \<^item> The history of the actions and their restoration: \<open>MutationHistory\<close> has the store of events, revisions,
    protections and restore requests (\<open>mutation_history_store.py\<close>, \<open>mutation_history.py\<close>), over the tables
    that the action store writes; \<open>MutationRestore\<close> the inverse of an event and its execution as an action
    of its own (\<open>core/mutation_restore.py\<close>). \<open>RestoreLaws\<close> has the invariant \<open>history_ok\<close>, the life of a
    request and the four ways an execution ends; \<open>CanonicalForms\<close> the stability of canonical values, texts
    and link types; \<open>RestoreProps\<close>, \<open>RestoreLinks\<close> and \<open>RestoreEdits\<close> the properties: one answer and at most
    one effect, and a restored link or edit is the state before it again.
  \<^item> \<open>Repository\<close>: the relational repository of memories, \<open>relational/repository.py\<close> and
    \<open>relational/record_helpers.py\<close>, over the same tables; its state \<open>repo\<close> adds the search epochs that the
    triggers of \<open>utils/db_schema.py\<close> count. \<open>RepositoryLaws\<close> has the invariant \<open>repository_ok\<close> (distinct
    identifiers and references, anchored links, one true row of the search index for each memory) and that every
    write keeps it; \<open>RepositoryProps\<close> the properties over any sequence of writes.
  \<^item> \<open>Texts\<close>, \<open>Summaries\<close>: words, lines and sentences, and the summaries made without a model,
    \<open>core/summaries.py\<close>.

  \<^bold>\<open>Conventions.\<close> A table is the list of its rows in insertion order, which is the order in which
  SQLite returns rows that tie; an operation is a function from the table to its result and the new
  table; \<open>Inl e\<close> is a raised exception. A statement, or a transaction, is atomic; where the code has
  two statements outside a transaction the model has two steps and the properties say what holds in
  between. Reachability is the closure of the step relations from the empty database, with every
  argument free, so an invariant holds whatever the callers do.

  \<^bold>\<open>Bounds.\<close> The definitions are total and without fuel, but for \<open>cancel_running\<close>, the loop of the
  shutdown, which is a partial function: \<open>None\<close> is a loop that does not end. \<open>retry_from\<close> counts to the three
  attempts of the code. \<open>worker_run\<close> runs the worker for a given number of steps, and
  \<open>close_drains\<close> shows how many are enough.

  \<^bold>\<open>Simplifications.\<close> Time stamps are real numbers, so floating-point rounding is not modelled, except
  where the code rounds to microseconds itself; characters are those below code point 256; JSON
  numbers are integers or reals. The local time zone has one offset. The order of execution of
  threads is free, but memory is shared only under the lock. The texts that \<open>float\<close> parses are decimal
  ones. A step of the worker runs without others in between; a handler is any function on the
  stores, and the curation reconciler, the texts of exceptions and the clock are parameters. Hashes,
  name-based UUIDs and the texts of floats are parameters of the canonical identity; \<open>json.dumps\<close> of the
  preconditions of an action, fresh identifiers and injected faults are parameters of its execution.

  \<^bold>\<open>Not modelled.\<close> The Postgres back end, which implements the same ports; the search
  service and its ranking; the quality scores and the evaluation of curation; the task handlers; the providers themselves; the MCP server, the
  daemon and the command line; management reports. The functions for resuming paused maintenance in
  \<open>MaintenanceIdle\<close> are translated, their properties are still to be proved.
\<close>

end
